(* ===== verification/Prelude.thy ===== *)
theory Prelude
  imports Complex_Main "HOL-Library.Sublist" "HOL-Library.Char_ord"
    "HOL-Library.List_Lexorder" "HOL-Library.Product_Lexorder" "HOL-Library.Multiset"
begin

text \<open>
  Shared vocabulary of the development: the error values of the modelled Python, the type
  synonyms, the list idioms the sources use (\<open>next(... reversed ...)\<close>, \<open>range(len - 1, -1, -1)\<close>
  scans, \<open>str.join\<close>), and the generic lemmas the component theories rest on.

  Modelling conventions used throughout:
  \<^item> Python \<open>int\<close> is \<open>int\<close>, sizes and counters that start at 0 and only grow are \<open>nat\<close>;
  \<^item> Python \<open>float\<close> money amounts are exact rationals (\<open>rat\<close>);
  \<^item> \<open>None\<close>-able values are \<open>option\<close>; a raised exception is \<open>Inl\<close> of an error value;
  \<^item> text is \<open>string\<close>; each character is a Windows-1252 character (theory \<open>Py_Text\<close>).
\<close>

section \<open>Collections of facts\<close>

named_theorems py_simps \<open>equations that unfold the modelled Python idioms\<close>
named_theorems guard_simps \<open>equations of the routing guards\<close>
named_theorems node_defs \<open>definitions of the graph nodes\<close>

section \<open>Errors and synonyms\<close>

type_synonym str = string
type_synonym usd = rat

datatype py_error =
    ValueError string
  | KeyError string
  | IndexError
  | TypeError
  | ProviderError string
  | TimeoutError
  | StoreError string
  | MutatingToolTimedOut string

type_synonym 'a result = "py_error + 'a"

section \<open>Scans from the end of a list\<close>

text \<open>\<open>next((i for i in range(len(xs) - 1, -1, -1) if p(xs[i])), None)\<close>.\<close>

fun last_index :: "('a \<Rightarrow> bool) \<Rightarrow> 'a list \<Rightarrow> nat option" where
  "last_index p [] = None"
| "last_index p (x # xs) =
     (case last_index p xs of
        Some i \<Rightarrow> Some (Suc i)
      | None \<Rightarrow> if p x then Some 0 else None)"

text \<open>\<open>next((x for x in reversed(xs) if p(x)), None)\<close>.\<close>

definition last_such :: "('a \<Rightarrow> bool) \<Rightarrow> 'a list \<Rightarrow> 'a option" where
  "last_such p xs = List.find p (rev xs)"

text \<open>\<open>next((i for i, x in enumerate(xs) if p(x)), None)\<close>.\<close>

fun first_index :: "('a \<Rightarrow> bool) \<Rightarrow> 'a list \<Rightarrow> nat option" where
  "first_index p [] = None"
| "first_index p (x # xs) = (if p x then Some 0 else map_option Suc (first_index p xs))"

text \<open>\<open>sep.join(parts)\<close>.\<close>

fun join :: "string \<Rightarrow> string list \<Rightarrow> string" where
  "join sep [] = []"
| "join sep [x] = x"
| "join sep (x # y # zs) = x @ sep @ join sep (y # zs)"

lemma last_index_None_iff: "last_index p xs = None \<longleftrightarrow> (\<forall>x\<in>set xs. \<not> p x)"
  by (induction xs) (auto split: option.splits)

lemma last_index_SomeD:
  "last_index p xs = Some i \<Longrightarrow> i < length xs \<and> p (xs ! i) \<and> (\<forall>j. i < j \<and> j < length xs \<longrightarrow> \<not> p (xs ! j))"
proof (induction xs arbitrary: i)
  case Nil
  then show ?case by simp
next
  case (Cons x xs)
  show ?case
  proof (cases "last_index p xs")
    case None
    with Cons.prems have "i = 0" "p x" by (auto split: if_splits)
    moreover from None have "\<forall>y\<in>set xs. \<not> p y" by (simp add: last_index_None_iff)
    ultimately show ?thesis by (auto simp: nth_Cons split: nat.splits)
  next
    case (Some k)
    with Cons.prems have i: "i = Suc k" by simp
    from Cons.IH [OF Some] i show ?thesis
      by (auto simp: nth_Cons split: nat.splits)
  qed
qed

lemma last_index_append_not:
  "\<forall>y\<in>set ys. \<not> p y \<Longrightarrow> last_index p (xs @ ys) = last_index p xs"
proof (induction xs)
  case Nil
  then have "last_index p ys = None" by (simp add: last_index_None_iff)
  then show ?case by simp
next
  case (Cons x xs)
  then show ?case by simp
qed

lemma last_index_snoc [simp]:
  "last_index p (xs @ [x]) = (if p x then Some (length xs) else last_index p xs)"
  by (induction xs) (auto split: option.splits)

lemma first_index_append:
  "\<forall>x\<in>set xs. \<not> p x \<Longrightarrow> p y \<Longrightarrow> first_index p (xs @ y # ys) = Some (length xs)"
  by (induction xs) auto

lemma last_such_None_iff: "last_such p xs = None \<longleftrightarrow> (\<forall>x\<in>set xs. \<not> p x)"
  by (auto simp: last_such_def find_None_iff)

lemma last_such_SomeD: "last_such p xs = Some x \<Longrightarrow> x \<in> set xs \<and> p x"
  by (auto simp: last_such_def find_Some_iff in_set_conv_nth rev_nth)
    (metis diff_less_Suc length_greater_0_conv less_Suc_eq_0_disj list.size(3) nth_mem set_rev rev_nth
      in_set_conv_nth length_rev)

lemma last_such_append_not:
  "\<forall>y\<in>set ys. \<not> p y \<Longrightarrow> last_such p (xs @ ys) = last_such p xs"
proof -
  assume a: "\<forall>y\<in>set ys. \<not> p y"
  have "List.find p (zs @ rev xs) = List.find p (rev xs)" if "\<forall>y\<in>set zs. \<not> p y" for zs
    using that by (induction zs) auto
  from this [of "rev ys"] a show ?thesis by (simp add: last_such_def)
qed

lemma last_such_snoc [simp]:
  "last_such p (xs @ [x]) = (if p x then Some x else last_such p xs)"
  by (simp add: last_such_def)

lemma length_concat_map_le:
  "(\<And>x. x \<in> set xs \<Longrightarrow> length (f x) \<le> k) \<Longrightarrow> length (concat (map f xs)) \<le> k * length xs"
  by (induction xs) (auto simp: add_mono)

lemma subseq_insert_middle: "subseq (xs @ ys) (xs @ zs @ ys)"
  by (simp add: subseq_append' list_emb_append2)

lemma nth_last: "xs \<noteq> [] \<Longrightarrow> xs ! (length xs - 1) = last xs"
  by (simp add: last_conv_nth)

end
