(* ===== verification/Py_Text.thy ===== *)
theory Py_Text
  imports Prelude
begin

text \<open>
  The parts of Python's \<open>str\<close> the modelled sources use. A character is a Windows-1252
  character: the repertoire holds every character the sources mention (the em dash is
  code 0x97, the typographic apostrophe 0x92, the bullet 0x95), so one \<open>char\<close> is one
  Python character and \<open>length\<close> is \<open>len\<close>. Characters outside it are not represented.
\<close>

section \<open>Character classes\<close>

definition ccode :: "char \<Rightarrow> nat" where
  "ccode c = of_char c"

definition is_space :: "char \<Rightarrow> bool" where
  "is_space c = (let n = ccode c in (9 \<le> n \<and> n \<le> 13) \<or> (28 \<le> n \<and> n \<le> 32) \<or> n = 160)"

definition is_digit :: "char \<Rightarrow> bool" where
  "is_digit c = (let n = ccode c in 48 \<le> n \<and> n \<le> 57)"

text \<open>\<open>str.isdigit\<close> also accepts the three superscript digits of the repertoire.\<close>

definition is_digit_method :: "char \<Rightarrow> bool" where
  "is_digit_method c = (is_digit c \<or> ccode c = 178 \<or> ccode c = 179 \<or> ccode c = 185)"

definition is_word :: "char \<Rightarrow> bool" where
  "is_word c = (let n = ccode c in
     (48 \<le> n \<and> n \<le> 57) \<or> (65 \<le> n \<and> n \<le> 90) \<or> (97 \<le> n \<and> n \<le> 122) \<or> n = 95 \<or>
     n \<in> set [131, 136, 138, 140, 142, 154, 156, 158, 159, 170, 178, 179, 181, 185, 186, 188, 189, 190] \<or>
     (192 \<le> n \<and> n \<le> 255 \<and> n \<noteq> 215 \<and> n \<noteq> 247))"

definition lower_char :: "char \<Rightarrow> char" where
  "lower_char c = (let n = ccode c in
     if (65 \<le> n \<and> n \<le> 90) \<or> (192 \<le> n \<and> n \<le> 222 \<and> n \<noteq> 215) then char_of (n + 32)
     else if n = 138 \<or> n = 140 \<or> n = 142 then char_of (n + 16)
     else if n = 159 then char_of (255::nat)
     else c)"

definition em_dash :: string where
  "em_dash = [CHR 0x97]"

definition newline :: string where
  "newline = [CHR 0x0A]"

section \<open>Methods of \<open>str\<close>\<close>

definition lower_text :: "string \<Rightarrow> string" where
  "lower_text s = map lower_char s"

definition lstrip :: "string \<Rightarrow> string" where
  "lstrip s = dropWhile is_space s"

definition rstrip :: "string \<Rightarrow> string" where
  "rstrip s = rev (dropWhile is_space (rev s))"

definition strip :: "string \<Rightarrow> string" where
  "strip s = rstrip (lstrip s)"

text \<open>\<open>s.strip(chars)\<close>.\<close>

definition strip_chars :: "string \<Rightarrow> string \<Rightarrow> string" where
  "strip_chars cs s =
     rev (dropWhile (\<lambda>c. c \<in> set cs) (rev (dropWhile (\<lambda>c. c \<in> set cs) s)))"

definition isdigit :: "string \<Rightarrow> bool" where
  "isdigit s = (s \<noteq> [] \<and> list_all is_digit_method s)"

text \<open>\<open>int(s)\<close> on a run of ASCII digits.\<close>

definition digits_value :: "string \<Rightarrow> nat" where
  "digits_value s = foldl (\<lambda>a c. 10 * a + (ccode c - 48)) 0 s"

text \<open>\<open>s.find(sub)\<close> and \<open>s.find(sub, i)\<close>, with \<open>None\<close> for -1.\<close>

fun find_sub :: "string \<Rightarrow> string \<Rightarrow> nat option" where
  "find_sub p [] = (if p = [] then Some 0 else None)"
| "find_sub p (c # s) = (if prefix p (c # s) then Some 0 else map_option Suc (find_sub p s))"

definition find_from :: "string \<Rightarrow> string \<Rightarrow> nat \<Rightarrow> nat option" where
  "find_from p s i = map_option (\<lambda>k. k + i) (find_sub p (drop i s))"

text \<open>\<open>s.split()\<close>.\<close>

fun split_ws :: "string \<Rightarrow> string \<Rightarrow> string list" where
  "split_ws acc [] = (if acc = [] then [] else [rev acc])"
| "split_ws acc (c # s) =
     (if is_space c then (if acc = [] then split_ws [] s else rev acc # split_ws [] s)
      else split_ws (c # acc) s)"

definition split_words :: "string \<Rightarrow> string list" where
  "split_words s = split_ws [] s"

text \<open>\<open>s.splitlines()\<close>: a carriage return followed by a line feed is one boundary.\<close>

definition is_line_break :: "char \<Rightarrow> bool" where
  "is_line_break c = (let n = ccode c in (10 \<le> n \<and> n \<le> 13) \<or> (28 \<le> n \<and> n \<le> 30))"

fun split_lines_acc :: "string \<Rightarrow> string \<Rightarrow> string list" where
  "split_lines_acc acc [] = (if acc = [] then [] else [rev acc])"
| "split_lines_acc acc [c] = (if is_line_break c then [rev acc] else [rev (c # acc)])"
| "split_lines_acc acc (c # d # s) =
     (if ccode c = 13 \<and> ccode d = 10 then rev acc # split_lines_acc [] s
      else if is_line_break c then rev acc # split_lines_acc [] (d # s)
      else split_lines_acc (c # acc) (d # s))"

definition splitlines :: "string \<Rightarrow> string list" where
  "splitlines s = split_lines_acc [] s"

text \<open>\<open>s.split(c)\<close> for a one-character separator.\<close>

fun split_on :: "char \<Rightarrow> string \<Rightarrow> string list" where
  "split_on sep [] = [[]]"
| "split_on sep (c # s) =
     (if c = sep then [] # split_on sep s
      else (case split_on sep s of [] \<Rightarrow> [[c]] | w # ws \<Rightarrow> (c # w) # ws))"

text \<open>\<open>s.count("```")\<close>: occurrences of the code fence, not overlapping.\<close>

fun count_fences :: "string \<Rightarrow> nat" where
  "count_fences (a # b # c # s) =
     (if a = CHR ''`'' \<and> b = CHR ''`'' \<and> c = CHR ''`'' then Suc (count_fences s)
      else count_fences (b # c # s))"
| "count_fences _ = 0"

section \<open>Facts\<close>

lemma rstrip_prefix: "prefix (rstrip s) s"
proof -
  have "rev s = takeWhile is_space (rev s) @ dropWhile is_space (rev s)" by simp
  then have "s = rstrip s @ rev (takeWhile is_space (rev s))"
    unfolding rstrip_def by (metis rev_append rev_rev_ident)
  then show ?thesis by (metis prefixI)
qed

lemma rstrip_last: "rstrip s \<noteq> [] \<Longrightarrow> \<not> is_space (last (rstrip s))"
  unfolding rstrip_def by (metis hd_dropWhile last_rev rev.simps(1) rev_is_Nil_conv)

lemma rstrip_idem [simp]: "rstrip (rstrip s) = rstrip s"
  by (simp add: rstrip_def)

lemma strip_Nil_iff: "strip s = [] \<longleftrightarrow> list_all is_space s"
  by (auto simp: strip_def rstrip_def lstrip_def list_all_iff dest: set_dropWhileD)
    (metis dropWhile_eq_Nil_conv hd_dropWhile set_dropWhileD list.set_sel(1))

lemma strip_sublist: "sublist (strip s) s"
proof -
  have "sublist (rstrip (lstrip s)) (lstrip s)" by (simp add: prefix_imp_sublist rstrip_prefix)
  moreover have "sublist (lstrip s) s"
    by (simp add: lstrip_def suffix_dropWhile suffix_imp_sublist)
  ultimately show ?thesis unfolding strip_def by (rule sublist_order.order_trans)
qed

lemma find_sub_SomeD: "find_sub p s = Some k \<Longrightarrow> k + length p \<le> length s \<and> prefix p (drop k s)"
proof (induction s arbitrary: k)
  case Nil
  then show ?case by (auto split: if_splits)
next
  case (Cons c s)
  then show ?case by (auto split: if_splits dest: prefix_length_le)
qed

lemma find_sub_None_iff: "find_sub p s = None \<longleftrightarrow> \<not> sublist p s"
  by (induction s) (auto simp: sublist_Cons_right)

lemma find_from_SomeD:
  "find_from p s i = Some k \<Longrightarrow> i \<le> k \<and> k + length p \<le> max i (length s) \<and> prefix p (drop k s)"
  by (auto simp: find_from_def dest!: find_sub_SomeD simp: add.commute)

lemma lower_text_length [simp]: "length (lower_text s) = length s"
  by (simp add: lower_text_def)

lemma split_ws_nonempty: "w \<in> set (split_ws acc s) \<Longrightarrow> w \<noteq> []"
  by (induction acc s rule: split_ws.induct) (auto split: if_splits)

lemma split_ws_no_space:
  "list_all (\<lambda>c. \<not> is_space c) acc \<Longrightarrow> w \<in> set (split_ws acc s) \<Longrightarrow>
   list_all (\<lambda>c. \<not> is_space c) w"
proof (induction s arbitrary: acc)
  case Nil
  then show ?case by (cases "acc = []") simp_all
next
  case (Cons c s)
  show ?case
  proof (cases "is_space c")
    case True
    then show ?thesis using Cons.prems Cons.IH [of "[]"] by (cases "acc = []") auto
  next
    case False
    then show ?thesis using Cons.prems Cons.IH [of "c # acc"] by simp
  qed
qed

end
