(* ===== verification/Wallet.thy ===== *)
theory Wallet
  imports Py_Text
begin

text \<open>
  The credit wallet of the billing package (\<open>packages/billing/src/credit_billing/credits.py\<close>): four
  Postgres tables (accounts, lots, transactions, entries) and the operations that grant, debit,
  claw back, adjust and expire credits on them.

  The tables are lists of rows in insertion order. A statement of the source is one function on the
  tables; the constraints its table declares (\<open>sql/20-credit-wallet.sql\<close>, \<open>sql/22-billing.sql\<close>) are
  the branches in which the statement raises. A function of the source that raises returns the
  tables as they are at that point; \<open>in_transaction\<close> is the connection block that commits or rolls
  back. A per-tenant advisory lock serialises the writes of one tenant, so an operation is one
  atomic function of the tables. What Postgres and the clock choose (the new row ids, \<open>now()\<close>, the
  application's own clock) is an argument of each operation.

  Amounts are \<open>Decimal\<close> values, kept as exact rationals; a product of decimals is taken exact (the
  default context rounds at 28 digits).
\<close>

section \<open>Rows and tables\<close>

datatype req_val = RNull | RStr str | RNum rat | RTime int

text \<open>A stored request is a JSON object. The source writes numbers and instants into it as canonical
  text, one text per value; the model keeps the value (\<open>RNum\<close>, \<open>RTime\<close>).\<close>

type_synonym request = "(str \<times> req_val) list"

record pricing =
  cost_usd :: rat
  credits_per_usd :: rat
  markup :: rat

record account =
  acc_tenant :: str
  acc_created_at :: int
  acc_created_by :: str

record lot =
  lot_id :: str
  lot_tenant :: str
  lot_source :: str
  lot_provider :: "str option"
  lot_external_ref :: "str option"
  lot_granted :: rat
  lot_remaining :: rat
  lot_expires_at :: "int option"
  lot_created_at :: int
  lot_created_by :: str

record txn =
  txn_id :: str
  txn_tenant :: str
  txn_kind :: str
  txn_key :: str
  txn_usage_event_id :: "str option"
  txn_pricing :: "pricing option"
  txn_reason :: "str option"
  txn_actor :: str
  txn_created_at :: int
  txn_request :: "request option"

record ledger_entry =
  entry_transaction :: str
  entry_tenant :: str
  entry_lot :: str
  entry_amount :: rat

record wallet =
  accounts :: "account list"
  lots :: "lot list"
  transactions :: "txn list"
  entries :: "ledger_entry list"

text \<open>What the database and the clocks supply to one operation.\<close>

record wallet_env =
  app_now :: int
  db_now :: int
  new_txn_id :: str
  new_lot_id :: str
  new_debt_id :: str

datatype wallet_error =
    BadArgument string
  | InvalidOperation
  | IdempotencyConflict "(str \<times> req_val \<times> req_val) list"
  | NumericOutOfRange
  | CheckViolation string
  | UniqueViolation string
  | ForeignKeyViolation string
  | RuntimeFault string

type_synonym 'a wres = "(wallet_error + 'a) \<times> wallet"

section \<open>Amounts\<close>

text \<open>A number as a caller passes it: finite, or a NaN or infinity.\<close>

datatype number_in = Finite rat | NotFinite

text \<open>\<open>quantize\<close> to \<open>n\<close> places with \<open>ROUND_HALF_UP\<close> (half away from zero). A result of more than 28
  digits is an \<open>InvalidOperation\<close>.\<close>

definition half_up_units :: "nat \<Rightarrow> rat \<Rightarrow> int" where
  "half_up_units n x = (let m = \<lfloor>\<bar>x\<bar> * 10 ^ n + 1 / 2\<rfloor> in if x < 0 then - m else m)"

definition half_up :: "nat \<Rightarrow> rat \<Rightarrow> rat" where
  "half_up n x = of_int (half_up_units n x) / 10 ^ n"

definition quantize :: "nat \<Rightarrow> rat \<Rightarrow> wallet_error + rat" where
  "quantize n x = (if \<bar>half_up_units n x\<bar> \<ge> 10 ^ 28 then Inl InvalidOperation else Inr (half_up n x))"

definition credits_amount :: "number_in \<Rightarrow> wallet_error + rat" where
  "credits_amount value = (case value of
       NotFinite \<Rightarrow> Inl (BadArgument ''credits must be a finite number'')
     | Finite x \<Rightarrow> quantize 6 x)"

definition credits_for_cost :: "number_in \<Rightarrow> rat \<Rightarrow> rat \<Rightarrow> wallet_error + rat" where
  "credits_for_cost cost per_usd mark = (case cost of
       NotFinite \<Rightarrow> Inl (BadArgument ''a cost must be a finite, non-negative number'')
     | Finite c \<Rightarrow>
         if c < 0 then Inl (BadArgument ''a cost must be a finite, non-negative number'')
         else credits_amount (Finite (c * per_usd * mark)))"

text \<open>A \<open>NUMERIC(18, s)\<close> column stores at most 18 digits, \<open>s\<close> of them after the point.\<close>

definition fits_numeric :: "nat \<Rightarrow> rat \<Rightarrow> bool" where
  "fits_numeric s x \<longleftrightarrow> \<bar>half_up s x\<bar> < 10 ^ (18 - s)"

section \<open>Allocation over lots\<close>

fun plan_loop :: "(str \<times> rat) list \<Rightarrow> rat \<Rightarrow> (str \<times> rat) list \<times> rat" where
  "plan_loop [] left = ([], left)"
| "plan_loop ((i, r) # ls) left =
     (if left \<le> 0 then ([], left)
      else if r \<le> 0 then plan_loop ls left
      else (let t = min r left; (takes, rest) = plan_loop ls (left - t) in ((i, t) # takes, rest)))"

definition plan_allocation :: "(str \<times> rat) list \<Rightarrow> rat \<Rightarrow> (str \<times> rat) list \<times> rat" where
  "plan_allocation ls need = (let (takes, left) = plan_loop ls need in (takes, max left 0))"

section \<open>What a key stands for\<close>

definition GRANT_FIELDS :: "str list" where
  "GRANT_FIELDS = [''amount'', ''source'', ''provider'', ''external_ref'', ''expires_at'', ''reason'', ''actor'']"

definition DEBIT_FIELDS :: "str list" where
  "DEBIT_FIELDS = [''amount'', ''usage_event_id'', ''cost_usd'', ''credits_per_usd'', ''markup'', ''reason'', ''actor'']"

definition EXPIRE_FIELDS :: "str list" where
  "EXPIRE_FIELDS = [''lot_id'']"

definition GRANT_SOURCES :: "str list" where
  "GRANT_SOURCES = [''purchase'', ''subscription'', ''promo'', ''manual'', ''adjustment'']"

definition EXPIRY_REQUIRED :: "str list" where
  "EXPIRY_REQUIRED = [''promo'', ''subscription'']"

definition opt_str :: "str option \<Rightarrow> req_val" where
  "opt_str v = (case v of None \<Rightarrow> RNull | Some s \<Rightarrow> RStr s)"

definition opt_num :: "rat option \<Rightarrow> req_val" where
  "opt_num v = (case v of None \<Rightarrow> RNull | Some x \<Rightarrow> RNum x)"

definition opt_instant :: "int option \<Rightarrow> req_val" where
  "opt_instant v = (case v of None \<Rightarrow> RNull | Some t \<Rightarrow> RTime t)"

definition grant_request ::
  "rat \<Rightarrow> str \<Rightarrow> str option \<Rightarrow> str option \<Rightarrow> int option \<Rightarrow> str option \<Rightarrow> str \<Rightarrow> request" where
  "grant_request credits source provider external_ref expires_at reason actor =
     [(''kind'', RStr ''grant''), (''amount'', RNum credits), (''source'', RStr source),
      (''provider'', opt_str provider), (''external_ref'', opt_str external_ref),
      (''expires_at'', opt_instant expires_at), (''reason'', opt_str reason), (''actor'', RStr actor)]"

definition debit_request ::
  "str \<Rightarrow> rat \<Rightarrow> str option \<Rightarrow> pricing option \<Rightarrow> str option \<Rightarrow> str \<Rightarrow> request" where
  "debit_request kind credits usage_event_id pr reason actor =
     [(''kind'', RStr kind), (''amount'', RNum credits), (''usage_event_id'', opt_str usage_event_id),
      (''cost_usd'', opt_num (map_option cost_usd pr)),
      (''credits_per_usd'', opt_num (map_option credits_per_usd pr)),
      (''markup'', opt_num (map_option markup pr)),
      (''reason'', opt_str reason), (''actor'', RStr actor)]"

text \<open>\<open>compare=None\<close> is every field; any name outside the vocabulary (and \<open>kind\<close>) is refused.\<close>

definition compared :: "str list option \<Rightarrow> str list \<Rightarrow> wallet_error + str list" where
  "compared cmp vocabulary = (case cmp of
       None \<Rightarrow> Inr (''kind'' # vocabulary)
     | Some names \<Rightarrow>
         if filter (\<lambda>f. f \<notin> set vocabulary \<and> f \<noteq> ''kind'') names \<noteq> []
         then Inl (BadArgument ''cannot compare'')
         else Inr (''kind'' # filter (\<lambda>f. f \<in> set names) vocabulary))"

text \<open>\<open>new.get(field)\<close>: an absent field reads as null.\<close>

definition req_get :: "request \<Rightarrow> str \<Rightarrow> req_val" where
  "req_get r f = (case map_of r f of None \<Rightarrow> RNull | Some v \<Rightarrow> v)"

definition differences :: "request \<Rightarrow> request \<Rightarrow> str list \<Rightarrow> (str \<times> req_val \<times> req_val) list" where
  "differences stored new flds =
     [(f, req_get stored f, req_get new f).
        f \<leftarrow> flds, map_of stored f \<noteq> None \<and> req_get stored f \<noteq> req_get new f]"

section \<open>Statements\<close>

definition has_account :: "str \<Rightarrow> wallet \<Rightarrow> bool" where
  "has_account tenant db \<longleftrightarrow> tenant \<in> set (map acc_tenant (accounts db))"

definition has_txn :: "str \<Rightarrow> str \<Rightarrow> wallet \<Rightarrow> bool" where
  "has_txn tenant i db \<longleftrightarrow> (i, tenant) \<in> set (map (\<lambda>t. (txn_id t, txn_tenant t)) (transactions db))"

definition find_txn :: "str \<Rightarrow> str \<Rightarrow> wallet \<Rightarrow> txn option" where
  "find_txn tenant key db = List.find (\<lambda>t. txn_tenant t = tenant \<and> txn_key t = key) (transactions db)"

definition find_lot :: "str \<Rightarrow> str \<Rightarrow> wallet \<Rightarrow> lot option" where
  "find_lot tenant i db = List.find (\<lambda>l. lot_id l = i \<and> lot_tenant l = tenant) (lots db)"

definition find_overdraft :: "str \<Rightarrow> wallet \<Rightarrow> lot option" where
  "find_overdraft tenant db = List.find (\<lambda>l. lot_tenant l = tenant \<and> lot_source l = ''overdraft'') (lots db)"

definition KINDS :: "str list" where
  "KINDS = [''grant'', ''debit'', ''expire'', ''adjust'', ''clawback'']"

definition LOT_SOURCES :: "str list" where
  "LOT_SOURCES = [''purchase'', ''subscription'', ''promo'', ''manual'', ''adjustment'', ''overdraft'']"

text \<open>The row checks of \<open>credit_lots\<close>.\<close>

definition lot_checks :: "lot \<Rightarrow> bool" where
  "lot_checks l \<longleftrightarrow> lot_source l \<in> set LOT_SOURCES \<and> 0 \<le> lot_granted l
     \<and> (lot_source l = ''overdraft'' \<or> 0 \<le> lot_remaining l)
     \<and> lot_remaining l \<le> lot_granted l
     \<and> (lot_source l \<noteq> ''overdraft'' \<or> lot_granted l = 0 \<and> lot_expires_at l = None)"

text \<open>\<open>INSERT INTO credit_accounts ... ON CONFLICT (tenant) DO NOTHING\<close>.\<close>

definition insert_account :: "wallet_env \<Rightarrow> str \<Rightarrow> str \<Rightarrow> wallet \<Rightarrow> wallet" where
  "insert_account env tenant actor db =
     (if has_account tenant db then db
      else db\<lparr>accounts := accounts db @
        [\<lparr>acc_tenant = tenant, acc_created_at = db_now env, acc_created_by = actor\<rparr>]\<rparr>)"

definition pricing_fits :: "pricing option \<Rightarrow> bool" where
  "pricing_fits pr = (case pr of
       None \<Rightarrow> True
     | Some p \<Rightarrow> fits_numeric 12 (cost_usd p) \<and> fits_numeric 6 (credits_per_usd p) \<and> fits_numeric 6 (markup p))"

text \<open>\<open>INSERT INTO credit_transactions ... ON CONFLICT (tenant, idempotency_key) DO NOTHING RETURNING id\<close>:
  whether a row was inserted.\<close>

definition insert_txn :: "txn \<Rightarrow> wallet \<Rightarrow> bool wres" where
  "insert_txn t db =
     (if \<not> pricing_fits (txn_pricing t) then (Inl NumericOutOfRange, db)
      else if txn_kind t \<notin> set KINDS \<or> txn_key t = [] then (Inl (CheckViolation ''credit_transactions''), db)
      else if find_txn (txn_tenant t) (txn_key t) db \<noteq> None then (Inr False, db)
      else if txn_id t \<in> set (map txn_id (transactions db)) then (Inl (UniqueViolation ''credit_transactions''), db)
      else if \<not> has_account (txn_tenant t) db then (Inl (ForeignKeyViolation ''credit_transactions''), db)
      else (Inr True, db\<lparr>transactions := transactions db @ [t]\<rparr>))"

text \<open>The unique index of \<open>sql/22\<close>: one purchase or subscription lot per payment of a tenant.\<close>

definition same_payment :: "lot \<Rightarrow> lot \<Rightarrow> bool" where
  "same_payment l m \<longleftrightarrow>
     lot_source l \<in> {''purchase'', ''subscription''} \<and> lot_source m \<in> {''purchase'', ''subscription''}
     \<and> lot_tenant l = lot_tenant m
     \<and> lot_provider l \<noteq> None \<and> lot_provider l = lot_provider m
     \<and> lot_external_ref l \<noteq> None \<and> lot_external_ref l = lot_external_ref m"

definition insert_lot :: "lot \<Rightarrow> wallet \<Rightarrow> unit wres" where
  "insert_lot l db =
     (if \<not> fits_numeric 6 (lot_granted l) \<or> \<not> fits_numeric 6 (lot_remaining l) then (Inl NumericOutOfRange, db)
      else if \<not> lot_checks l then (Inl (CheckViolation ''credit_lots''), db)
      else if lot_id l \<in> set (map lot_id (lots db)) then (Inl (UniqueViolation ''credit_lots''), db)
      else if lot_source l = ''overdraft'' \<and> find_overdraft (lot_tenant l) db \<noteq> None
        then (Inl (UniqueViolation ''credit_lots_one_overdraft_idx''), db)
      else if list_ex (same_payment l) (lots db)
        then (Inl (UniqueViolation ''credit_lots_one_grant_per_payment_idx''), db)
      else if \<not> has_account (lot_tenant l) db then (Inl (ForeignKeyViolation ''credit_lots''), db)
      else (Inr (), db\<lparr>lots := lots db @ [l]\<rparr>))"

text \<open>\<open>_move\<close>: one signed entry and the matching change of the lot's \<open>remaining\<close>.\<close>

definition add_remaining :: "str \<Rightarrow> str \<Rightarrow> rat \<Rightarrow> lot \<Rightarrow> lot" where
  "add_remaining tenant i amount l =
     (if lot_id l = i \<and> lot_tenant l = tenant then l\<lparr>lot_remaining := lot_remaining l + amount\<rparr> else l)"

definition move :: "str \<Rightarrow> str \<Rightarrow> str \<Rightarrow> rat \<Rightarrow> wallet \<Rightarrow> unit wres" where
  "move tenant transaction_id i amount db =
     (if \<not> fits_numeric 6 amount then (Inl NumericOutOfRange, db)
      else if amount = 0 then (Inl (CheckViolation ''credit_entries''), db)
      else if \<not> has_txn tenant transaction_id db then (Inl (ForeignKeyViolation ''credit_entries''), db)
      else (case find_lot tenant i db of
          None \<Rightarrow> (Inl (ForeignKeyViolation ''credit_entries''), db)
        | Some l \<Rightarrow>
            let db' = db\<lparr>entries := entries db @
                  [\<lparr>entry_transaction = transaction_id, entry_tenant = tenant, entry_lot = i, entry_amount = amount\<rparr>]\<rparr>;
                l' = add_remaining tenant i amount l
            in if \<not> fits_numeric 6 (lot_remaining l') then (Inl NumericOutOfRange, db')
               else if \<not> lot_checks l' then (Inl (CheckViolation ''credit_lots''), db')
               else (Inr (), db'\<lparr>lots := map (add_remaining tenant i amount) (lots db)\<rparr>)))"

text \<open>The sequence of moves of a debit's plan.\<close>

fun take_all :: "str \<Rightarrow> str \<Rightarrow> (str \<times> rat) list \<Rightarrow> wallet \<Rightarrow> unit wres" where
  "take_all tenant transaction_id [] db = (Inr (), db)"
| "take_all tenant transaction_id ((i, t) # takes) db =
     (case move tenant transaction_id i (- t) db of
        (Inl e, db') \<Rightarrow> (Inl e, db')
      | (Inr _, db') \<Rightarrow> take_all tenant transaction_id takes db')"

definition begin_transaction :: "txn \<Rightarrow> request \<Rightarrow> str list \<Rightarrow> wallet \<Rightarrow> (str option \<times> str option) wres" where
  "begin_transaction t request flds db =
     (case insert_txn (t\<lparr>txn_request := Some request\<rparr>) db of
        (Inl e, db') \<Rightarrow> (Inl e, db')
      | (Inr True, db') \<Rightarrow> (Inr (Some (txn_id t), None), db')
      | (Inr False, db') \<Rightarrow>
          (case find_txn (txn_tenant t) (txn_key t) db' of
             None \<Rightarrow> (Inl (RuntimeFault ''expected a row''), db')
           | Some old \<Rightarrow>
               (case txn_request old of
                  None \<Rightarrow> (Inr (None, Some (txn_id old)), db')
                | Some stored \<Rightarrow>
                    let diffs = differences stored request flds
                    in if diffs \<noteq> [] then (Inl (IdempotencyConflict diffs), db')
                       else (Inr (None, Some (txn_id old)), db'))))"

definition debt_row :: "wallet_env \<Rightarrow> str \<Rightarrow> lot" where
  "debt_row env tenant = \<lparr>lot_id = new_debt_id env, lot_tenant = tenant, lot_source = ''overdraft'',
     lot_provider = None, lot_external_ref = None, lot_granted = 0, lot_remaining = 0,
     lot_expires_at = None, lot_created_at = db_now env, lot_created_by = ''system''\<rparr>"

definition overdraft_lot :: "wallet_env \<Rightarrow> str \<Rightarrow> bool \<Rightarrow> wallet \<Rightarrow> ((str \<times> rat) option) wres" where
  "overdraft_lot env tenant create db =
     (let (r, db') = (if create \<and> find_overdraft tenant db = None
                      then insert_lot (debt_row env tenant) db else (Inr (), db))
      in case r of
           Inl e \<Rightarrow> (Inl e, db')
         | Inr _ \<Rightarrow> (Inr (map_option (\<lambda>l. (lot_id l, lot_remaining l)) (find_overdraft tenant db')), db'))"

section \<open>Operations\<close>

datatype wstatus = WApplied | WDuplicate | WNoAccount | WNothing

record applied =
  ap_status :: wstatus
  ap_transaction :: "str option"
  ap_amount :: rat
  ap_shortfall :: rat

definition Applied :: "wstatus \<Rightarrow> str option \<Rightarrow> rat \<Rightarrow> rat \<Rightarrow> applied" where
  "Applied st i amount shortfall =
     \<lparr>ap_status = st, ap_transaction = i, ap_amount = amount, ap_shortfall = shortfall\<rparr>"

text \<open>\<open>async with get_connection()\<close>: commit on return, roll back on a raise.\<close>

definition in_transaction :: "(wallet \<Rightarrow> 'a wres) \<Rightarrow> wallet \<Rightarrow> 'a wres" where
  "in_transaction f db = (case f db of (Inl e, _) \<Rightarrow> (Inl e, db) | (Inr v, db') \<Rightarrow> (Inr v, db'))"

text \<open>A \<open>datetime\<close> argument: timezone-aware (an instant) or naive.\<close>

datatype py_datetime = Aware int | Naive int

record grant_args =
  g_amount :: number_in
  g_source :: str
  g_key :: str
  g_actor :: str
  g_reason :: "str option"
  g_expires_at :: "py_datetime option"
  g_provider :: "str option"
  g_external_ref :: "str option"
  g_compare :: "str list option"

definition expiry_instant :: "py_datetime option \<Rightarrow> int option" where
  "expiry_instant e = (case e of Some (Aware t) \<Rightarrow> Some t | _ \<Rightarrow> None)"

text \<open>The argument checks of \<open>grant_in\<close>, in their order.\<close>

definition grant_refused :: "wallet_env \<Rightarrow> str \<Rightarrow> rat \<Rightarrow> grant_args \<Rightarrow> string option" where
  "grant_refused env tenant credits a =
     (if tenant = [] then Some ''a grant needs a tenant''
      else if credits \<le> 0 then Some ''a grant must be above zero''
      else if g_source a \<notin> set GRANT_SOURCES then Some ''unknown grant source''
      else if g_key a = [] \<or> g_actor a = [] then Some ''a grant needs an idempotency key and an actor''
      else if g_expires_at a = None \<and> g_source a \<in> set EXPIRY_REQUIRED then Some ''credits must expire''
      else (case g_expires_at a of
          None \<Rightarrow> None
        | Some (Naive t) \<Rightarrow> Some ''expires_at must be a timezone-aware time in the future''
        | Some (Aware t) \<Rightarrow>
            if t \<le> app_now env then Some ''expires_at must be a timezone-aware time in the future'' else None))"

definition grant_txn :: "wallet_env \<Rightarrow> str \<Rightarrow> grant_args \<Rightarrow> txn" where
  "grant_txn env tenant a = \<lparr>txn_id = new_txn_id env, txn_tenant = tenant, txn_kind = ''grant'', txn_key = g_key a,
     txn_usage_event_id = None, txn_pricing = None, txn_reason = g_reason a, txn_actor = g_actor a,
     txn_created_at = db_now env, txn_request = None\<rparr>"

definition grant_lot :: "wallet_env \<Rightarrow> str \<Rightarrow> rat \<Rightarrow> grant_args \<Rightarrow> lot" where
  "grant_lot env tenant credits a = \<lparr>lot_id = new_lot_id env, lot_tenant = tenant, lot_source = g_source a,
     lot_provider = g_provider a, lot_external_ref = g_external_ref a, lot_granted = credits, lot_remaining = 0,
     lot_expires_at = expiry_instant (g_expires_at a), lot_created_at = db_now env, lot_created_by = g_actor a\<rparr>"

text \<open>The tail of \<open>grant_in\<close>: any debt is repaid from the new lot.\<close>

definition repay_debt :: "wallet_env \<Rightarrow> str \<Rightarrow> str \<Rightarrow> str \<Rightarrow> rat \<Rightarrow> wallet \<Rightarrow> unit wres" where
  "repay_debt env tenant transaction_id i credits db =
     (case overdraft_lot env tenant False db of
        (Inl e, db') \<Rightarrow> (Inl e, db')
      | (Inr None, db') \<Rightarrow> (Inr (), db')
      | (Inr (Some (debt_id, owed)), db') \<Rightarrow>
          if owed < 0 then
            let repay = min credits (- owed)
            in (case move tenant transaction_id debt_id repay db' of
                  (Inl e, db'') \<Rightarrow> (Inl e, db'')
                | (Inr _, db'') \<Rightarrow> move tenant transaction_id i (- repay) db'')
          else (Inr (), db'))"

definition grant_in :: "wallet_env \<Rightarrow> str \<Rightarrow> grant_args \<Rightarrow> wallet \<Rightarrow> applied wres" where
  "grant_in env tenant a db =
     (case compared (g_compare a) GRANT_FIELDS of Inl e \<Rightarrow> (Inl e, db) | Inr flds \<Rightarrow>
     (case credits_amount (g_amount a) of Inl e \<Rightarrow> (Inl e, db) | Inr credits \<Rightarrow>
     (case grant_refused env tenant credits a of Some why \<Rightarrow> (Inl (BadArgument why), db) | None \<Rightarrow>
     (case begin_transaction (grant_txn env tenant a)
             (grant_request credits (g_source a) (g_provider a) (g_external_ref a)
               (expiry_instant (g_expires_at a)) (g_reason a) (g_actor a))
             flds (insert_account env tenant (g_actor a) db) of
        (Inl e, db1) \<Rightarrow> (Inl e, db1)
      | (Inr (None, existing), db1) \<Rightarrow> (Inr (Applied WDuplicate existing 0 0), db1)
      | (Inr (Some tid, _), db1) \<Rightarrow>
     (case insert_lot (grant_lot env tenant credits a) db1 of (Inl e, db2) \<Rightarrow> (Inl e, db2) | (Inr _, db2) \<Rightarrow>
     (case move tenant tid (new_lot_id env) credits db2 of (Inl e, db3) \<Rightarrow> (Inl e, db3) | (Inr _, db3) \<Rightarrow>
     (case repay_debt env tenant tid (new_lot_id env) credits db3 of (Inl e, db4) \<Rightarrow> (Inl e, db4) | (Inr _, db4) \<Rightarrow>
        (Inr (Applied WApplied (Some tid) credits 0), db4))))))))"

record debit_args =
  d_amount :: number_in
  d_key :: str
  d_usage_event_id :: "str option"
  d_actor :: str
  d_reason :: "str option"
  d_kind :: str
  d_pricing :: "pricing option"
  d_compare :: "str list option"

definition debit_txn :: "wallet_env \<Rightarrow> str \<Rightarrow> debit_args \<Rightarrow> txn" where
  "debit_txn env tenant a = \<lparr>txn_id = new_txn_id env, txn_tenant = tenant, txn_kind = d_kind a, txn_key = d_key a,
     txn_usage_event_id = d_usage_event_id a, txn_pricing = d_pricing a, txn_reason = d_reason a, txn_actor = d_actor a,
     txn_created_at = db_now env, txn_request = None\<rparr>"

definition lot_live :: "int \<Rightarrow> lot \<Rightarrow> bool" where
  "lot_live now l \<longleftrightarrow> lot_source l \<noteq> ''overdraft'' \<and> (case lot_expires_at l of None \<Rightarrow> True | Some t \<Rightarrow> t > now)"

text \<open>\<open>ORDER BY expires_at NULLS LAST, created_at, id\<close>.\<close>

definition consumption_key :: "lot \<Rightarrow> bool \<times> int \<times> int \<times> str" where
  "consumption_key l = (lot_expires_at l = None, (case lot_expires_at l of None \<Rightarrow> 0 | Some t \<Rightarrow> t),
     lot_created_at l, lot_id l)"

definition live_lots :: "int \<Rightarrow> str \<Rightarrow> wallet \<Rightarrow> lot list" where
  "live_lots now tenant db = sort_key consumption_key
     (filter (\<lambda>l. lot_tenant l = tenant \<and> lot_live now l \<and> 0 < lot_remaining l) (lots db))"

text \<open>The tail of \<open>debit_in\<close>: what the lots do not cover becomes debt.\<close>

definition book_shortfall :: "wallet_env \<Rightarrow> str \<Rightarrow> str \<Rightarrow> rat \<Rightarrow> wallet \<Rightarrow> unit wres" where
  "book_shortfall env tenant transaction_id shortfall db =
     (if shortfall > 0 then
        (case overdraft_lot env tenant True db of
           (Inl e, db') \<Rightarrow> (Inl e, db')
         | (Inr None, db') \<Rightarrow> (Inl (RuntimeFault ''assert debt is not None''), db')
         | (Inr (Some (debt_id, _)), db') \<Rightarrow> move tenant transaction_id debt_id (- shortfall) db')
      else (Inr (), db))"

definition debit_in :: "wallet_env \<Rightarrow> str \<Rightarrow> debit_args \<Rightarrow> wallet \<Rightarrow> applied wres" where
  "debit_in env tenant a db =
     (case compared (d_compare a) DEBIT_FIELDS of Inl e \<Rightarrow> (Inl e, db) | Inr flds \<Rightarrow>
     (case credits_amount (d_amount a) of Inl e \<Rightarrow> (Inl e, db) | Inr credits \<Rightarrow>
      if credits < 0 then (Inl (BadArgument ''a debit cannot be negative''), db)
      else if tenant = [] \<or> d_key a = [] then (Inl (BadArgument ''a debit needs a tenant and an idempotency key''), db)
      else if credits = 0 then (Inr (Applied WNothing None 0 0), db)
      else if \<not> has_account tenant db then (Inr (Applied WNoAccount None 0 0), db)
      else
     (case begin_transaction (debit_txn env tenant a)
             (debit_request (d_kind a) credits (d_usage_event_id a) (d_pricing a) (d_reason a) (d_actor a))
             flds db of
        (Inl e, db1) \<Rightarrow> (Inl e, db1)
      | (Inr (None, existing), db1) \<Rightarrow> (Inr (Applied WDuplicate existing 0 0), db1)
      | (Inr (Some tid, _), db1) \<Rightarrow>
          let (takes, shortfall) = plan_allocation
                (map (\<lambda>l. (lot_id l, lot_remaining l)) (live_lots (db_now env) tenant db1)) credits
          in (case take_all tenant tid takes db1 of (Inl e, db2) \<Rightarrow> (Inl e, db2) | (Inr _, db2) \<Rightarrow>
             (case book_shortfall env tenant tid shortfall db2 of (Inl e, db3) \<Rightarrow> (Inl e, db3) | (Inr _, db3) \<Rightarrow>
                (Inr (Applied WApplied (Some tid) credits shortfall), db3))))))"

definition clawback_in :: "wallet_env \<Rightarrow> str \<Rightarrow> number_in \<Rightarrow> str \<Rightarrow> str \<Rightarrow> str option \<Rightarrow> str list option \<Rightarrow>
    wallet \<Rightarrow> applied wres" where
  "clawback_in env tenant amount key actor reason cmp db =
     debit_in env tenant \<lparr>d_amount = amount, d_key = key, d_usage_event_id = None, d_actor = actor, d_reason = reason,
       d_kind = ''clawback'', d_pricing = None, d_compare = cmp\<rparr> db"

definition adjust_in :: "wallet_env \<Rightarrow> str \<Rightarrow> number_in \<Rightarrow> str \<Rightarrow> str \<Rightarrow> str \<Rightarrow> py_datetime option \<Rightarrow> str list option \<Rightarrow>
    wallet \<Rightarrow> applied wres" where
  "adjust_in env tenant amount key actor reason expires_at cmp db =
     (case credits_amount amount of Inl e \<Rightarrow> (Inl e, db) | Inr credits \<Rightarrow>
      if credits = 0 then (Inl (BadArgument ''an adjustment of zero changes nothing''), db)
      else if strip reason = [] then (Inl (BadArgument ''an adjustment needs a reason''), db)
      else if credits > 0 then
        grant_in env tenant \<lparr>g_amount = Finite credits, g_source = ''adjustment'', g_key = key, g_actor = actor,
          g_reason = Some reason, g_expires_at = expires_at, g_provider = None, g_external_ref = None, g_compare = cmp\<rparr> db
      else if expires_at \<noteq> None then (Inl (BadArgument ''a negative adjustment takes credits back''), db)
      else debit_in env tenant \<lparr>d_amount = Finite (- credits), d_key = key, d_usage_event_id = None, d_actor = actor,
          d_reason = Some reason, d_kind = ''adjust'', d_pricing = None, d_compare = cmp\<rparr> db)"

definition lot_due :: "int \<Rightarrow> lot \<Rightarrow> bool" where
  "lot_due now l \<longleftrightarrow> lot_source l \<noteq> ''overdraft'' \<and> 0 < lot_remaining l
     \<and> (case lot_expires_at l of None \<Rightarrow> False | Some t \<Rightarrow> t \<le> now)"

definition expire_txn :: "wallet_env \<Rightarrow> str \<Rightarrow> str \<Rightarrow> txn" where
  "expire_txn env tenant i = \<lparr>txn_id = new_txn_id env, txn_tenant = tenant, txn_kind = ''expire'', txn_key = ''expire:'' @ i,
     txn_usage_event_id = None, txn_pricing = None, txn_reason = Some ''lot reached its expiry'', txn_actor = ''system'',
     txn_created_at = db_now env, txn_request = None\<rparr>"

definition expire_lot_in :: "wallet_env \<Rightarrow> str \<Rightarrow> str \<Rightarrow> wallet \<Rightarrow> bool wres" where
  "expire_lot_in env tenant i db =
     (case List.find (\<lambda>l. lot_id l = i \<and> lot_tenant l = tenant \<and> lot_due (db_now env) l) (lots db) of
        None \<Rightarrow> (Inr False, db)
      | Some l \<Rightarrow>
          (case begin_transaction (expire_txn env tenant i)
                  [(''kind'', RStr ''expire''), (''lot_id'', RStr i)] (''kind'' # EXPIRE_FIELDS) db of
             (Inl e, db1) \<Rightarrow> (Inl e, db1)
           | (Inr (None, _), db1) \<Rightarrow> (Inr False, db1)
           | (Inr (Some tid, _), db1) \<Rightarrow>
               (case move tenant tid i (- lot_remaining l) db1 of
                  (Inl e, db2) \<Rightarrow> (Inl e, db2)
                | (Inr _, db2) \<Rightarrow> (Inr True, db2))))"

text \<open>The batch of \<open>expire_due\<close>: the due lots by expiry, at most \<open>batch_limit\<close> of them, each in a
  transaction of its own (with its own clock and row id); a raise ends the loop.\<close>

fun expire_each :: "(nat \<Rightarrow> wallet_env) \<Rightarrow> (str \<times> str) list \<Rightarrow> nat \<Rightarrow> wallet \<Rightarrow> nat wres" where
  "expire_each envs [] expired db = (Inr expired, db)"
| "expire_each envs ((i, tenant) # due) expired db =
     (case in_transaction (expire_lot_in (envs 0) tenant i) db of
        (Inl e, db') \<Rightarrow> (Inl e, db')
      | (Inr b, db') \<Rightarrow> expire_each (\<lambda>n. envs (Suc n)) due (expired + (if b then 1 else 0)) db')"

definition due_lots :: "int \<Rightarrow> nat \<Rightarrow> str option \<Rightarrow> wallet \<Rightarrow> (str \<times> str) list" where
  "due_lots now batch_limit tenant db = map (\<lambda>l. (lot_id l, lot_tenant l))
     (take batch_limit (sort_key (\<lambda>l. case lot_expires_at l of None \<Rightarrow> 0 | Some t \<Rightarrow> t)
       (filter (\<lambda>l. lot_due now l \<and> (tenant = None \<or> tenant = Some (lot_tenant l))) (lots db))))"

definition expire_due :: "(nat \<Rightarrow> wallet_env) \<Rightarrow> nat \<Rightarrow> str option \<Rightarrow> wallet \<Rightarrow> nat wres" where
  "expire_due envs batch_limit tenant db =
     expire_each (\<lambda>n. envs (Suc n)) (due_lots (db_now (envs 0)) batch_limit tenant db) 0 db"

section \<open>Reads\<close>

record balance =
  available :: rat
  ledger :: rat
  debt :: rat

definition tenant_lots :: "str \<Rightarrow> wallet \<Rightarrow> lot list" where
  "tenant_lots tenant db = filter (\<lambda>l. lot_tenant l = tenant) (lots db)"

definition read_balance :: "int \<Rightarrow> str \<Rightarrow> wallet \<Rightarrow> bool \<times> balance" where
  "read_balance now tenant db =
     (if has_account tenant db then
        let rows = tenant_lots tenant db;
            live = sum_list (map lot_remaining (filter (lot_live now) rows));
            owed = - sum_list (map lot_remaining (filter (\<lambda>l. lot_source l = ''overdraft'') rows))
        in (True, \<lparr>available = live - owed, ledger = sum_list (map lot_remaining rows), debt = owed\<rparr>)
      else (False, \<lparr>available = 0, ledger = 0, debt = 0\<rparr>))"

definition balance_in :: "int \<Rightarrow> str \<Rightarrow> wallet \<Rightarrow> balance" where
  "balance_in now tenant db = snd (read_balance now tenant db)"

definition account_balance_in :: "int \<Rightarrow> str \<Rightarrow> wallet \<Rightarrow> balance option" where
  "account_balance_in now tenant db =
     (let (has, b) = read_balance now tenant db in if has then Some b else None)"

text \<open>The report of \<open>verify_in\<close>: each line is kept as its three figures.\<close>

definition entry_sum :: "str \<Rightarrow> ledger_entry list \<Rightarrow> rat" where
  "entry_sum i es = sum_list (map entry_amount (filter (\<lambda>e. entry_lot e = i) es))"

definition verify_in :: "str \<Rightarrow> wallet \<Rightarrow> (str \<times> rat \<times> rat) list" where
  "verify_in tenant db =
     map (\<lambda>l. (lot_id l, lot_remaining l, entry_sum (lot_id l) (entries db)))
       (filter (\<lambda>l. lot_remaining l \<noteq> entry_sum (lot_id l) (entries db)) (tenant_lots tenant db))"

end
