(* ===== verification/Billing_Store.thy ===== *)
theory Billing_Store
  imports Wallet
begin

text \<open>
  The tables money-in stands on (\<open>credit_billing/store.py\<close>, \<open>sql/22-billing.sql\<close>): which tenant a
  provider's customer is, what a product is worth, and the webhook inbox; with the event type of the
  provider port (\<open>credit_billing/providers/base.py\<close>).
\<close>

section \<open>Provider events\<close>

datatype event_kind =
    CREDITS_PURCHASED
  | SUBSCRIPTION_PERIOD_STARTED
  | PAYMENT_REFUNDED
  | PAYMENT_PARTIALLY_REFUNDED
  | DISPUTE_OPENED
  | DISPUTE_CLOSED
  | IGNORED

fun kind_value :: "event_kind \<Rightarrow> str" where
  "kind_value CREDITS_PURCHASED = ''credits_purchased''"
| "kind_value SUBSCRIPTION_PERIOD_STARTED = ''subscription_period_started''"
| "kind_value PAYMENT_REFUNDED = ''payment_refunded''"
| "kind_value PAYMENT_PARTIALLY_REFUNDED = ''payment_partially_refunded''"
| "kind_value DISPUTE_OPENED = ''dispute_opened''"
| "kind_value DISPUTE_CLOSED = ''dispute_closed''"
| "kind_value IGNORED = ''ignored''"

record billing_event =
  ev_provider :: str
  ev_event_id :: str
  ev_kind :: event_kind
  ev_customer_ref :: "str option"
  ev_product_ref :: "str option"
  ev_payment_ref :: "str option"
  ev_amount_minor :: "int option"
  ev_currency :: "str option"
  ev_occurred_at :: "int option"
  ev_raw_type :: str

text \<open>\<open>BillingEvent.stored\<close>: the whitelist the inbox keeps.\<close>

definition stored_fields :: "billing_event \<Rightarrow> request" where
  "stored_fields ev =
     [(''provider'', RStr (ev_provider ev)), (''event_id'', RStr (ev_event_id ev)), (''kind'', RStr (kind_value (ev_kind ev))),
      (''customer_ref'', opt_str (ev_customer_ref ev)), (''product_ref'', opt_str (ev_product_ref ev)),
      (''payment_ref'', opt_str (ev_payment_ref ev)),
      (''amount_minor'', opt_num (map_option of_int (ev_amount_minor ev))), (''currency'', opt_str (ev_currency ev)),
      (''occurred_at'', opt_instant (ev_occurred_at ev)), (''raw_type'', RStr (ev_raw_type ev))]"

section \<open>Tables\<close>

record customer =
  cu_tenant :: str
  cu_provider :: str
  cu_ref :: str

record credit_product =
  pr_provider :: str
  pr_ref :: str
  pr_credits :: rat
  pr_expires_after_days :: "int option"
  pr_active :: bool

datatype inbox_status = S_received | S_applied | S_ignored | S_quarantined | S_failed

record inbox_row =
  in_provider :: str
  in_event_id :: str
  in_event_type :: str
  in_received_at :: int
  in_updated_at :: int
  in_status :: inbox_status
  in_attempts :: int
  in_tenant :: "str option"
  in_payload :: request
  in_error_class :: "str option"

record billing =
  wal :: wallet
  customers :: "customer list"
  products :: "credit_product list"
  inbox :: "inbox_row list"

type_synonym 'a bres = "(wallet_error + 'a) \<times> billing"

section \<open>Customers and products\<close>

definition find_customer :: "str \<Rightarrow> str \<Rightarrow> billing \<Rightarrow> customer option" where
  "find_customer provider ref b = List.find (\<lambda>c. cu_provider c = provider \<and> cu_ref c = ref) (customers b)"

definition tenant_for_customer :: "str \<Rightarrow> str \<Rightarrow> billing \<Rightarrow> str option" where
  "tenant_for_customer provider ref b = map_option cu_tenant (find_customer provider ref b)"

text \<open>The upsert re-points nothing: on a conflict the row is only touched when it is the same tenant's.\<close>

definition link_customer :: "str \<Rightarrow> str \<Rightarrow> str \<Rightarrow> billing \<Rightarrow> unit bres" where
  "link_customer tenant provider ref b =
     (if tenant = [] \<or> provider = [] \<or> ref = [] then (Inl (CheckViolation ''billing_customers''), b)
      else (case find_customer provider ref b of
          None \<Rightarrow>
            if (tenant, provider) \<in> set (map (\<lambda>c. (cu_tenant c, cu_provider c)) (customers b))
            then (Inl (UniqueViolation ''billing_customers''), b)
            else (Inr (), b\<lparr>customers := customers b @ [\<lparr>cu_tenant = tenant, cu_provider = provider, cu_ref = ref\<rparr>]\<rparr>)
        | Some c \<Rightarrow>
            if cu_tenant c \<noteq> tenant then (Inl (BadArgument ''already linked to a different tenant''), b)
            else (Inr (), b)))"

text \<open>The column \<open>credits NUMERIC(18, 6)\<close> rounds what it stores.\<close>

definition put_product :: "credit_product \<Rightarrow> billing \<Rightarrow> unit bres" where
  "put_product p b =
     (let p' = p\<lparr>pr_credits := half_up 6 (pr_credits p)\<rparr>;
          same = (\<lambda>q. pr_provider q = pr_provider p \<and> pr_ref q = pr_ref p)
      in if \<not> fits_numeric 6 (pr_credits p) then (Inl NumericOutOfRange, b)
         else if pr_provider p = [] \<or> pr_ref p = [] \<or> pr_credits p' \<le> 0
             \<or> (case pr_expires_after_days p of None \<Rightarrow> False | Some d \<Rightarrow> d \<le> 0)
           then (Inl (CheckViolation ''credit_products''), b)
         else if list_ex same (products b)
           then (Inr (), b\<lparr>products := map (\<lambda>q. if same q then p' else q) (products b)\<rparr>)
         else (Inr (), b\<lparr>products := products b @ [p']\<rparr>))"

definition get_product :: "str \<Rightarrow> str \<Rightarrow> billing \<Rightarrow> credit_product option" where
  "get_product provider ref b = List.find (\<lambda>p. pr_provider p = provider \<and> pr_ref p = ref) (products b)"

section \<open>The grant a refund reverses\<close>

record granted_lot_rec =
  gl_lot_id :: str
  gl_granted :: rat
  gl_reclaimable :: rat

definition expired_from :: "lot \<Rightarrow> wallet \<Rightarrow> rat" where
  "expired_from l db = - sum_list (map entry_amount (filter (\<lambda>e. entry_lot e = lot_id l
     \<and> (\<exists>t\<in>set (transactions db). txn_id t = entry_transaction e \<and> txn_kind t = ''expire'')) (entries db)))"

definition granted_lot :: "int \<Rightarrow> str \<Rightarrow> str \<Rightarrow> str \<Rightarrow> wallet \<Rightarrow> granted_lot_rec option" where
  "granted_lot now tenant provider payment_ref db =
     (case sort_key lot_created_at (filter (\<lambda>l. lot_tenant l = tenant \<and> lot_provider l = Some provider
             \<and> lot_external_ref l = Some payment_ref \<and> lot_source l \<in> {''purchase'', ''subscription''}) (lots db)) of
        [] \<Rightarrow> None
      | l # _ \<Rightarrow>
          let lapsed = (case lot_expires_at l of None \<Rightarrow> 0 | Some t \<Rightarrow> if t \<le> now then lot_remaining l else 0)
          in Some \<lparr>gl_lot_id = lot_id l, gl_granted = lot_granted l,
               gl_reclaimable = max (lot_granted l - expired_from l db - lapsed) 0\<rparr>)"

end
