(* ===== verification/Transition_Systems.thy ===== *)
theory Transition_Systems
  imports Prelude
begin

text \<open>
  The two contracts the runs of the graph are reasoned with: a step relation that keeps an
  invariant, and one whose steps also lower a rank, so that its runs are bounded.
\<close>

locale invariant_system =
  fixes stp :: "'c \<Rightarrow> 'c \<Rightarrow> bool"
    and inv :: "'c \<Rightarrow> bool"
  assumes inv_step: "inv c \<Longrightarrow> stp c c' \<Longrightarrow> inv c'"
begin

lemma inv_reach: "stp\<^sup>*\<^sup>* c c' \<Longrightarrow> inv c \<Longrightarrow> inv c'"
  by (induction rule: rtranclp_induct) (auto intro: inv_step)

lemma inv_run: "(stp ^^ n) c c' \<Longrightarrow> inv c \<Longrightarrow> inv c'"
  using inv_reach by (blast dest: relpowp_imp_rtranclp)

text \<open>A property every step keeps on states with the invariant is kept along a run.\<close>

lemma kept_along:
  assumes "stp\<^sup>*\<^sup>* c c'" and "inv c" and "P c"
    and keep: "\<And>d d'. inv d \<Longrightarrow> P d \<Longrightarrow> stp d d' \<Longrightarrow> P d'"
  shows "P c'"
  using assms(1)
proof (induction rule: rtranclp_induct)
  case base
  then show ?case by (rule assms(3))
next
  case (step d d')
  then show ?case using keep inv_reach [OF step.hyps(1) assms(2)] by blast
qed

end

locale ranked_system = invariant_system stp inv
  for stp :: "'c \<Rightarrow> 'c \<Rightarrow> bool" and inv :: "'c \<Rightarrow> bool" +
  fixes rnk :: "'c \<Rightarrow> nat"
  assumes rank_step: "inv c \<Longrightarrow> stp c c' \<Longrightarrow> rnk c' < rnk c"
begin

lemma run_bounded: "(stp ^^ n) c c' \<Longrightarrow> inv c \<Longrightarrow> n + rnk c' \<le> rnk c"
proof (induction n arbitrary: c')
  case 0
  then show ?case by simp
next
  case (Suc n)
  then obtain d where d: "(stp ^^ n) c d" "stp d c'" by auto
  from rank_step [OF inv_run [OF d(1) Suc.prems(2)] d(2)] Suc.IH [OF d(1) Suc.prems(2)]
  show ?case by simp
qed

text \<open>From every state some run reaches a state without a successor, within the rank.\<close>

lemma reaches_end: "inv c \<Longrightarrow> \<exists>n c'. n \<le> rnk c \<and> (stp ^^ n) c c' \<and> (\<nexists>d. stp c' d)"
proof (induction "rnk c" arbitrary: c rule: less_induct)
  case less
  show ?case
  proof (cases "\<exists>d. stp c d")
    case True
    then obtain d where d: "stp c d" by blast
    from less.hyps [OF rank_step [OF less.prems d] inv_step [OF less.prems d]]
    obtain n c' where "n \<le> rnk d" "(stp ^^ n) d c'" "\<nexists>e. stp c' e" by blast
    moreover have "(stp ^^ Suc n) c c'" using d calculation(2) by (rule relpowp_Suc_I2)
    ultimately show ?thesis using rank_step [OF less.prems d] by (metis Suc_leI le_less_trans)
  next
    case False
    then show ?thesis by (intro exI [of _ 0] exI [of _ c]) simp
  qed
qed

end

end
