(* ===== verification/Wallet_Laws.thy ===== *)
theory Wallet_Laws
  imports Wallet Transition_Systems
begin

text \<open>
  The invariant of the wallet's tables (unique keys, every lot's remainder the sum of its entries,
  every row's account present, every amount within its column) and that each operation of \<open>Wallet\<close>
  keeps it; with the elimination rules that say what a successful operation did.
\<close>

section \<open>The tables' invariant\<close>

definition lot_ok :: "wallet \<Rightarrow> lot \<Rightarrow> bool" where
  "lot_ok db l \<longleftrightarrow> lot_checks l \<and> fits_numeric 6 (lot_remaining l) \<and> lot_remaining l = entry_sum (lot_id l) (entries db)
     \<and> has_account (lot_tenant l) db"

definition wallet_ok :: "wallet \<Rightarrow> bool" where
  "wallet_ok db \<longleftrightarrow>
     distinct (map acc_tenant (accounts db)) \<and> distinct (map lot_id (lots db)) \<and> distinct (map txn_id (transactions db))
     \<and> distinct (map (\<lambda>t. (txn_tenant t, txn_key t)) (transactions db))
     \<and> (\<forall>l\<in>set (lots db). lot_ok db l)
     \<and> (\<forall>t\<in>set (transactions db). has_account (txn_tenant t) db)
     \<and> (\<forall>e\<in>set (entries db). entry_lot e \<in> lot_id ` set (lots db) \<and> has_txn (entry_tenant e) (entry_transaction e) db)
     \<and> distinct (map lot_tenant (filter (\<lambda>l. lot_source l = ''overdraft'') (lots db)))"

definition empty_wallet :: wallet where
  "empty_wallet = \<lparr>accounts = [], lots = [], transactions = [], entries = []\<rparr>"

lemma wallet_ok_empty [simp]: "wallet_ok empty_wallet"
  by (simp add: wallet_ok_def empty_wallet_def)

lemma find_txn_None: "find_txn tenant key db = None \<longleftrightarrow> (tenant, key) \<notin> (\<lambda>t. (txn_tenant t, txn_key t)) ` set (transactions db)"
  by (auto simp: find_txn_def find_None_iff image_iff)

lemma find_txn_SomeD: "find_txn tenant key db = Some t \<Longrightarrow> t \<in> set (transactions db) \<and> txn_tenant t = tenant \<and> txn_key t = key"
  by (auto simp: find_txn_def find_Some_iff)

lemma find_lot_SomeD: "find_lot tenant i db = Some l \<Longrightarrow> l \<in> set (lots db) \<and> lot_id l = i \<and> lot_tenant l = tenant"
  by (auto simp: find_lot_def find_Some_iff)

lemma find_overdraft_None:
  "find_overdraft tenant db = None \<longleftrightarrow> tenant \<notin> set (map lot_tenant (filter (\<lambda>l. lot_source l = ''overdraft'') (lots db)))"
  by (auto simp: find_overdraft_def find_None_iff)

lemma find_overdraft_SomeD:
  "find_overdraft tenant db = Some l \<Longrightarrow> l \<in> set (lots db) \<and> lot_tenant l = tenant \<and> lot_source l = ''overdraft''"
  by (auto simp: find_overdraft_def find_Some_iff)

lemma entry_sum_append [simp]: "entry_sum i (es @ fs) = entry_sum i es + entry_sum i fs"
  by (simp add: entry_sum_def)

lemma entry_sum_single [simp]: "entry_sum i [e] = (if entry_lot e = i then entry_amount e else 0)"
  by (simp add: entry_sum_def)

lemma entry_sum_fresh: "i \<notin> entry_lot ` set es \<Longrightarrow> entry_sum i es = 0"
  by (induction es) (auto simp: entry_sum_def)

lemma add_remaining_simps [simp]:
  "lot_id (add_remaining tn i x l) = lot_id l"
  "lot_tenant (add_remaining tn i x l) = lot_tenant l"
  "lot_source (add_remaining tn i x l) = lot_source l"
  "lot_granted (add_remaining tn i x l) = lot_granted l"
  "lot_expires_at (add_remaining tn i x l) = lot_expires_at l"
  "lot_provider (add_remaining tn i x l) = lot_provider l"
  "lot_external_ref (add_remaining tn i x l) = lot_external_ref l"
  "lot_created_at (add_remaining tn i x l) = lot_created_at l"
  "lot_remaining (add_remaining tn i x l) = lot_remaining l + (if lot_id l = i \<and> lot_tenant l = tn then x else 0)"
  by (simp_all add: add_remaining_def)

lemma lots_eqI: "wallet_ok db \<Longrightarrow> l \<in> set (lots db) \<Longrightarrow> m \<in> set (lots db) \<Longrightarrow> lot_id l = lot_id m \<Longrightarrow> l = m"
  by (auto simp: wallet_ok_def distinct_map dest: inj_onD)

subsection \<open>Statements keep it\<close>

lemma insert_account_ok: "wallet_ok db \<Longrightarrow> wallet_ok (insert_account env tenant actor db)"
  by (auto simp: insert_account_def wallet_ok_def lot_ok_def has_account_def has_txn_def)

lemma insert_lot_ok:
  assumes "wallet_ok db" "insert_lot l db = (r, db')" "lot_remaining l = 0"
  shows "wallet_ok db'"
proof -
  have "entry_sum (lot_id l) (entries db) = 0" if "lot_id l \<notin> lot_id ` set (lots db)"
    using that assms(1) by (intro entry_sum_fresh) (auto simp: wallet_ok_def)
  then show ?thesis using assms
    by (auto simp: insert_lot_def wallet_ok_def lot_ok_def has_account_def has_txn_def find_overdraft_None split: if_splits)
qed

lemma move_InrE:
  assumes "move tenant tid i x db = (Inr u, db')"
  obtains l where "find_lot tenant i db = Some l" "x \<noteq> 0" "has_txn tenant tid db"
    "lot_checks (add_remaining tenant i x l)" "fits_numeric 6 (lot_remaining (add_remaining tenant i x l))"
    "db' = db\<lparr>entries := entries db @ [\<lparr>entry_transaction = tid, entry_tenant = tenant, entry_lot = i, entry_amount = x\<rparr>],
        lots := map (add_remaining tenant i x) (lots db)\<rparr>"
  using assms by (auto simp: move_def Let_def split: if_splits option.splits dest: find_lot_SomeD)

lemma move_ok:
  assumes ok: "wallet_ok db" and mv: "move tenant tid i x db = (Inr u, db')"
  shows "wallet_ok db'"
proof -
  from mv obtain l where l: "find_lot tenant i db = Some l" "has_txn tenant tid db" "lot_checks (add_remaining tenant i x l)"
      "fits_numeric 6 (lot_remaining (add_remaining tenant i x l))"
    and db': "db' = db\<lparr>entries := entries db @ [\<lparr>entry_transaction = tid, entry_tenant = tenant, entry_lot = i, entry_amount = x\<rparr>],
        lots := map (add_remaining tenant i x) (lots db)\<rparr>"
    by (rule move_InrE)
  from find_lot_SomeD [OF l(1)] have lin: "l \<in> set (lots db)" "lot_id l = i" "lot_tenant l = tenant" by auto
  have each: "lot_ok db' (add_remaining tenant i x m)" if m: "m \<in> set (lots db)" for m
  proof (cases "lot_id m = i")
    case True
    with lots_eqI [OF ok m lin(1)] lin have "m = l" by simp
    then show ?thesis using ok l(3,4) lin m db'
      by (auto simp: wallet_ok_def lot_ok_def has_account_def)
  next
    case False
    then have "add_remaining tenant i x m = m" by (simp add: add_remaining_def)
    then show ?thesis using ok m False db' by (auto simp: wallet_ok_def lot_ok_def has_account_def)
  qed
  have names: "map lot_id (lots db') = map lot_id (lots db)"
    "map lot_tenant (filter (\<lambda>l. lot_source l = ''overdraft'') (lots db')) =
     map lot_tenant (filter (\<lambda>l. lot_source l = ''overdraft'') (lots db))"
    by (auto simp: db' comp_def filter_map)
  from ok l(2) lin have "\<forall>e\<in>set (entries db'). entry_lot e \<in> lot_id ` set (lots db) \<and> has_txn (entry_tenant e) (entry_transaction e) db"
    by (auto simp: db' wallet_ok_def)
  moreover have "lot_id ` set (lots db') = lot_id ` set (lots db)" using names(1) by (metis set_map)
  moreover have "\<forall>l\<in>set (lots db'). lot_ok db' l" using each by (auto simp: db')
  ultimately show ?thesis using ok names
    unfolding wallet_ok_def by (simp add: has_account_def has_txn_def db' comp_def)
qed

lemma begin_transaction_cases:
  assumes "begin_transaction t rq flds db = (r, db')"
  shows "(\<exists>e. r = Inl e \<and> db' = db)
    \<or> (\<exists>old. r = Inr (None, Some (txn_id old)) \<and> db' = db \<and> find_txn (txn_tenant t) (txn_key t) db = Some old)
    \<or> (r = Inr (Some (txn_id t), None) \<and> find_txn (txn_tenant t) (txn_key t) db = None
        \<and> txn_id t \<notin> set (map txn_id (transactions db)) \<and> has_account (txn_tenant t) db
        \<and> db' = db\<lparr>transactions := transactions db @ [t\<lparr>txn_request := Some rq\<rparr>]\<rparr>)"
  using assms by (auto simp: begin_transaction_def insert_txn_def Let_def split: if_splits option.splits)

lemma begin_transaction_ok:
  assumes "wallet_ok db" "begin_transaction t rq flds db = (r, db')"
  shows "wallet_ok db'"
  using begin_transaction_cases [OF assms(2)] assms(1)
  by (auto simp: wallet_ok_def lot_ok_def has_account_def has_txn_def find_txn_None)

lemma overdraft_lot_ok:
  assumes "wallet_ok db" "overdraft_lot env tenant c db = (r, db')"
  shows "wallet_ok db'"
  using assms insert_lot_ok [OF assms(1), of "debt_row env tenant"]
  by (auto simp: overdraft_lot_def debt_row_def split: prod.splits sum.splits if_splits)

lemma take_all_ok: "wallet_ok db \<Longrightarrow> take_all tenant tid takes db = (Inr u, db') \<Longrightarrow> wallet_ok db'"
  by (induction tenant tid takes db rule: take_all.induct) (auto split: prod.splits sum.splits dest: move_ok)

lemma book_shortfall_InrE:
  assumes "book_shortfall env tenant tid x db = (Inr u, db')"
  obtains (covered) "\<not> x > 0" "db' = db"
    | (owed) i r db1 where "x > 0" "overdraft_lot env tenant True db = (Inr (Some (i, r)), db1)"
        "move tenant tid i (- x) db1 = (Inr (), db')"
  using assms by (auto simp: book_shortfall_def split: prod.splits sum.splits if_splits option.splits)

lemma repay_debt_InrE:
  assumes "repay_debt env tenant tid i c db = (Inr u, db')"
  obtains (no_debt) "overdraft_lot env tenant False db = (Inr None, db')"
    | (settled) j r where "overdraft_lot env tenant False db = (Inr (Some (j, r)), db')" "\<not> r < 0"
    | (repaid) j r db1 db2 where "overdraft_lot env tenant False db = (Inr (Some (j, r)), db1)" "r < 0"
        "move tenant tid j (min c (- r)) db1 = (Inr (), db2)" "move tenant tid i (- min c (- r)) db2 = (Inr (), db')"
  using assms by (auto simp: repay_debt_def Let_def split: prod.splits sum.splits if_splits option.splits)

lemma book_shortfall_ok:
  assumes "wallet_ok db" "book_shortfall env tenant tid x db = (Inr u, db')"
  shows "wallet_ok db'"
  using assms(2) by (cases rule: book_shortfall_InrE) (use assms(1) overdraft_lot_ok move_ok in blast)+

lemma repay_debt_ok:
  assumes "wallet_ok db" "repay_debt env tenant tid i c db = (Inr u, db')"
  shows "wallet_ok db'"
  using assms(2)
proof (cases rule: repay_debt_InrE)
  case (repaid j r db1 db2)
  then have "wallet_ok db2" using assms(1) overdraft_lot_ok move_ok by blast
  then show ?thesis using repaid(4) move_ok by blast
qed (use assms(1) overdraft_lot_ok in blast)+

abbreviation grant_rq :: "str \<Rightarrow> rat \<Rightarrow> grant_args \<Rightarrow> request" where
  "grant_rq tenant credits a \<equiv> grant_request credits (g_source a) (g_provider a) (g_external_ref a)
     (expiry_instant (g_expires_at a)) (g_reason a) (g_actor a)"

abbreviation debit_rq :: "rat \<Rightarrow> debit_args \<Rightarrow> request" where
  "debit_rq credits a \<equiv> debit_request (d_kind a) credits (d_usage_event_id a) (d_pricing a) (d_reason a) (d_actor a)"

lemma grant_in_InrE:
  assumes "grant_in env tenant a db = (Inr v, db')"
  obtains (dup) flds c old where "compared (g_compare a) GRANT_FIELDS = Inr flds" "credits_amount (g_amount a) = Inr c"
        "grant_refused env tenant c a = None"
        "begin_transaction (grant_txn env tenant a) (grant_rq tenant c a) flds (insert_account env tenant (g_actor a) db)
           = (Inr (None, old), db')"
        "v = Applied WDuplicate old 0 0"
    | (new) flds c tid u db1 db2 db3 where "compared (g_compare a) GRANT_FIELDS = Inr flds" "credits_amount (g_amount a) = Inr c"
        "grant_refused env tenant c a = None"
        "begin_transaction (grant_txn env tenant a) (grant_rq tenant c a) flds (insert_account env tenant (g_actor a) db)
           = (Inr (Some tid, u), db1)"
        "insert_lot (grant_lot env tenant c a) db1 = (Inr (), db2)"
        "move tenant tid (new_lot_id env) c db2 = (Inr (), db3)"
        "repay_debt env tenant tid (new_lot_id env) c db3 = (Inr (), db')"
        "v = Applied WApplied (Some tid) c 0"
  using assms unfolding grant_in_def by (fastforce split: prod.splits sum.splits option.splits)

lemma debit_in_InrE:
  assumes "debit_in env tenant a db = (Inr v, db')"
  obtains (nothing) "db' = db" "v = Applied WNothing None 0 0" "credits_amount (d_amount a) = Inr 0"
    | (no_account) c where "db' = db" "v = Applied WNoAccount None 0 0" "\<not> has_account tenant db"
        "credits_amount (d_amount a) = Inr c" "c > 0"
    | (dup) flds c old where "compared (d_compare a) DEBIT_FIELDS = Inr flds" "credits_amount (d_amount a) = Inr c" "c > 0"
        "tenant \<noteq> []" "d_key a \<noteq> []" "has_account tenant db"
        "begin_transaction (debit_txn env tenant a) (debit_rq c a) flds db = (Inr (None, old), db')"
        "v = Applied WDuplicate old 0 0"
    | (new) flds c tid u db1 db2 takes short where "compared (d_compare a) DEBIT_FIELDS = Inr flds"
        "credits_amount (d_amount a) = Inr c" "c > 0" "tenant \<noteq> []" "d_key a \<noteq> []" "has_account tenant db"
        "begin_transaction (debit_txn env tenant a) (debit_rq c a) flds db = (Inr (Some tid, u), db1)"
        "plan_allocation (map (\<lambda>l. (lot_id l, lot_remaining l)) (live_lots (db_now env) tenant db1)) c = (takes, short)"
        "take_all tenant tid takes db1 = (Inr (), db2)"
        "book_shortfall env tenant tid short db2 = (Inr (), db')"
        "v = Applied WApplied (Some tid) c short"
  using assms unfolding debit_in_def
  by (fastforce split: prod.splits sum.splits option.splits if_splits)

lemma grant_in_ok:
  assumes "wallet_ok db" "grant_in env tenant a db = (Inr v, db')"
  shows "wallet_ok db'"
  using assms(2)
proof (cases rule: grant_in_InrE)
  case (dup flds c old)
  then show ?thesis using insert_account_ok [OF assms(1)] begin_transaction_ok by blast
next
  case (new flds c tid u db1 db2 db3)
  have "wallet_ok db1" using insert_account_ok [OF assms(1)] begin_transaction_ok new(4) by blast
  then have "wallet_ok db2" using insert_lot_ok [OF _ new(5)] by (simp add: grant_lot_def)
  then have "wallet_ok db3" using move_ok new(6) by blast
  then show ?thesis using repay_debt_ok new(7) by blast
qed

lemma debit_in_ok:
  assumes "wallet_ok db" "debit_in env tenant a db = (Inr v, db')"
  shows "wallet_ok db'"
  using assms(2)
proof (cases rule: debit_in_InrE)
  case dup
  then show ?thesis using assms(1) begin_transaction_ok by blast
next
  case new
  then show ?thesis using assms(1) begin_transaction_ok take_all_ok book_shortfall_ok by blast
qed (use assms(1) in simp_all)

lemma clawback_in_ok: "wallet_ok db \<Longrightarrow> clawback_in env tenant x k ac rs cm db = (Inr v, db') \<Longrightarrow> wallet_ok db'"
  by (auto simp: clawback_in_def dest: debit_in_ok)

lemma adjust_in_ok: "wallet_ok db \<Longrightarrow> adjust_in env tenant x k ac rs ex cm db = (Inr v, db') \<Longrightarrow> wallet_ok db'"
  by (auto simp: adjust_in_def split: sum.splits if_splits dest: grant_in_ok debit_in_ok)

lemma expire_lot_in_InrE:
  assumes "expire_lot_in env tenant i db = (Inr v, db')"
  obtains (none) "\<not> v" "db' = db"
    | (booked) l tid u db1 where "v" "l \<in> set (lots db)" "lot_id l = i" "lot_tenant l = tenant" "lot_due (db_now env) l"
        "begin_transaction (expire_txn env tenant i) [(''kind'', RStr ''expire''), (''lot_id'', RStr i)]
           (''kind'' # EXPIRE_FIELDS) db = (Inr (Some tid, u), db1)"
        "move tenant tid i (- lot_remaining l) db1 = (Inr (), db')"
proof (cases "List.find (\<lambda>l. lot_id l = i \<and> lot_tenant l = tenant \<and> lot_due (db_now env) l) (lots db)")
  case None
  then show ?thesis using assms none by (simp add: expire_lot_in_def)
next
  case (Some l)
  then have l: "l \<in> set (lots db)" "lot_id l = i" "lot_tenant l = tenant" "lot_due (db_now env) l"
    by (auto simp: find_Some_iff)
  obtain r db1 where b: "begin_transaction (expire_txn env tenant i) [(''kind'', RStr ''expire''), (''lot_id'', RStr i)]
      (''kind'' # EXPIRE_FIELDS) db = (r, db1)" by fastforce
  from begin_transaction_cases [OF b] show ?thesis
  proof (elim disjE exE conjE)
    fix e assume "r = Inl e"
    then show ?thesis using assms Some b by (simp add: expire_lot_in_def)
  next
    fix old assume "r = Inr (None, Some (txn_id old))" "db1 = db"
    then show ?thesis using assms Some b none by (simp add: expire_lot_in_def)
  next
    assume "r = Inr (Some (txn_id (expire_txn env tenant i)), None)"
    then show ?thesis using assms Some b booked [OF _ l]
      by (auto simp: expire_lot_in_def split: prod.splits sum.splits)
  qed
qed

lemma expire_lot_in_ok:
  assumes "wallet_ok db" "expire_lot_in env tenant i db = (Inr v, db')"
  shows "wallet_ok db'"
  using assms(2) by (cases rule: expire_lot_in_InrE) (use assms(1) begin_transaction_ok move_ok in blast)+

end
