(* ===== verification/Wallet_Effects.thy ===== *)
theory Wallet_Effects
  imports Wallet_Laws
begin

text \<open>
  What the operations of the wallet do to it: the laws of rounding, of the allocation of a debit over
  the lots, and the effect of a grant and a debit as one posting in an abstract account book, which
  the tables refine.
\<close>

section \<open>Rounding\<close>

lemma half_up_units_minus: "half_up_units n (- x) = - half_up_units n x"
proof -
  have "\<lfloor>(1::rat) / 2\<rfloor> = 0" by (simp add: floor_eq_iff)
  then show ?thesis by (cases x "0::rat" rule: linorder_cases) (auto simp: half_up_units_def Let_def)
qed

lemma half_up_minus [simp]: "half_up n (- x) = - half_up n x"
  by (simp add: half_up_def half_up_units_minus)

lemma half_up_of_int [simp]: "half_up n (of_int k / 10 ^ n) = of_int k / 10 ^ n"
proof -
  have f: "\<lfloor>of_int m + (1::rat) / 2\<rfloor> = m" for m :: int by (simp add: floor_eq_iff)
  have *: "\<bar>(of_int k :: rat) / 10 ^ n\<bar> * 10 ^ n = of_int \<bar>k\<bar>" by (simp add: abs_divide)
  have "half_up_units n (of_int k / 10 ^ n) = k"
    unfolding half_up_units_def Let_def * f by (auto simp: divide_less_0_iff abs_if)
  then show ?thesis by (simp add: half_up_def)
qed

lemma half_up_idem [simp]: "half_up n (half_up n x) = half_up n x"
  by (subst (2 3) half_up_def) (rule half_up_of_int)

lemma half_up_nonneg: "0 \<le> x \<Longrightarrow> 0 \<le> half_up n x"
  by (simp add: half_up_def half_up_units_def Let_def)

lemma half_up_mono: "0 \<le> x \<Longrightarrow> x \<le> y \<Longrightarrow> half_up n x \<le> half_up n y"
  by (auto simp: half_up_def half_up_units_def Let_def intro!: divide_right_mono floor_mono mult_right_mono)

lemma half_up_error: "\<bar>half_up n x - x\<bar> \<le> 1 / (2 * 10 ^ n)"
proof -
  have p: "(0::rat) < 10 ^ n" by simp
  have k: "\<bar>of_int \<lfloor>y * 10 ^ n + 1 / 2\<rfloor> / 10 ^ n - y\<bar> \<le> 1 / (2 * 10 ^ n)" for y :: rat
  proof -
    have f: "of_int \<lfloor>y * 10 ^ n + 1 / 2\<rfloor> \<le> y * 10 ^ n + 1 / 2" "y * 10 ^ n - 1 / 2 < of_int \<lfloor>y * 10 ^ n + 1 / 2\<rfloor>"
      by linarith+
    have "\<bar>of_int \<lfloor>y * 10 ^ n + 1 / 2\<rfloor> - y * 10 ^ n\<bar> \<le> 1 / 2" using f by linarith
    then have "\<bar>(of_int \<lfloor>y * 10 ^ n + 1 / 2\<rfloor> - y * 10 ^ n) / 10 ^ n\<bar> \<le> (1 / 2) / 10 ^ n"
      using p by (simp add: abs_divide divide_right_mono del: divide_divide_eq_left)
    then show ?thesis using p by (simp add: diff_divide_distrib)
  qed
  show ?thesis
  proof (cases "x < 0")
    case True
    have "half_up n x - x = - (half_up n (- x) - (- x))" by simp
    moreover have "half_up n (- x) - (- x) = of_int \<lfloor>(- x) * 10 ^ n + 1 / 2\<rfloor> / 10 ^ n - (- x)"
      using True by (simp add: half_up_def half_up_units_def Let_def)
    ultimately show ?thesis using k [of "- x"] by simp
  next
    case False
    then show ?thesis using k [of x] by (simp add: half_up_def half_up_units_def Let_def)
  qed
qed

definition exact6 :: "rat \<Rightarrow> bool" where
  "exact6 x \<longleftrightarrow> half_up 6 x = x"

lemma exact6_iff: "exact6 x \<longleftrightarrow> (\<exists>k::int. x = of_int k / 10 ^ 6)"
  unfolding exact6_def by (metis half_up_def half_up_of_int)

lemma exact6_add [intro]: "exact6 x \<Longrightarrow> exact6 y \<Longrightarrow> exact6 (x + y)"
  unfolding exact6_iff by (metis add_divide_distrib of_int_add)

lemma exact6_minus [simp]: "exact6 (- x) \<longleftrightarrow> exact6 x"
  by (simp add: exact6_def)

lemma exact6_diff [intro]: "exact6 x \<Longrightarrow> exact6 y \<Longrightarrow> exact6 (x - y)"
  using exact6_add [of x "- y"] by simp

lemma exact6_zero [simp]: "exact6 0"
  by (auto simp: exact6_iff)

lemma exact6_min [intro]: "exact6 x \<Longrightarrow> exact6 y \<Longrightarrow> exact6 (min x y)"
  by (simp add: min_def)

lemma credits_amount_exact: "credits_amount v = Inr c \<Longrightarrow> exact6 c"
  by (auto simp: credits_amount_def quantize_def exact6_def split: number_in.splits if_splits)

lemma fits_numeric_minus [simp]: "fits_numeric n (- x) = fits_numeric n x"
  by (simp add: fits_numeric_def)

lemma fits_numeric_mono: "0 \<le> x \<Longrightarrow> x \<le> y \<Longrightarrow> fits_numeric n y \<Longrightarrow> fits_numeric n x"
  using half_up_mono [of x y n] half_up_nonneg [of x n] by (simp add: fits_numeric_def)

lemma fits_numeric_zero [simp]: "fits_numeric n 0"
  using half_up_of_int [of n 0] by (simp add: fits_numeric_def)

section \<open>Allocation\<close>

lemma subseq_setD: "subseq xs ys \<Longrightarrow> x \<in> set xs \<Longrightarrow> x \<in> set ys"
  by (induction rule: list_emb.induct) auto

lemma subseq_distinct: "subseq xs ys \<Longrightarrow> distinct ys \<Longrightarrow> distinct xs"
  by (induction rule: list_emb.induct) (auto dest: subseq_setD)

definition taken :: "(str \<times> rat) list \<Rightarrow> str \<Rightarrow> rat" where
  "taken takes i = (case map_of takes i of None \<Rightarrow> 0 | Some t \<Rightarrow> t)"

lemma taken_simps [simp]:
  "taken [] i = 0" "taken ((j, t) # takes) i = (if i = j then t else taken takes i)"
  by (simp_all add: taken_def)

lemma taken_notin: "i \<notin> fst ` set takes \<Longrightarrow> taken takes i = 0"
  by (simp add: taken_def map_of_eq_None_iff split: option.split) (metis map_of_eq_None_iff option.distinct(1))

lemma plan_loop_sum: "plan_loop ls left = (takes, rest) \<Longrightarrow> sum_list (map snd takes) + rest = left"
  by (induction ls left arbitrary: takes rest rule: plan_loop.induct)
    (fastforce simp: Let_def split: if_splits prod.splits)+

lemma plan_loop_rest: "plan_loop ls left = (takes, rest) \<Longrightarrow> 0 \<le> left \<Longrightarrow> 0 \<le> rest"
  by (induction ls left arbitrary: takes rest rule: plan_loop.induct)
    (auto simp: Let_def split: if_splits prod.splits)

lemma plan_loop_takes:
  "plan_loop ls left = (takes, rest) \<Longrightarrow> (i, t) \<in> set takes \<Longrightarrow> 0 < t \<and> t \<le> left \<and> (\<exists>r. (i, r) \<in> set ls \<and> t \<le> r)"
proof (induction ls left arbitrary: takes rest rule: plan_loop.induct)
  case (2 j r ls left)
  show ?case
  proof (cases "left \<le> 0 \<or> r \<le> 0")
    case True
    then show ?thesis using 2 by (fastforce split: if_splits)
  next
    case False
    obtain ts x where p: "plan_loop ls (left - min r left) = (ts, x)" by fastforce
    with False 2(3) have tk: "takes = (j, min r left) # ts" by (simp add: Let_def)
    show ?thesis
    proof (cases "(i, t) \<in> set ts")
      case True
      have "0 < t \<and> t \<le> left - min r left \<and> (\<exists>r. (i, r) \<in> set ls \<and> t \<le> r)"
        using 2(2) [OF _ _ refl p True] False by auto
      moreover have "left - min r left \<le> left" using False by auto
      ultimately show ?thesis by auto
    next
      case no: False
      then show ?thesis using 2(4) tk False by auto
    qed
  qed
qed simp

lemma plan_loop_subseq: "plan_loop ls left = (takes, rest) \<Longrightarrow> subseq (map fst takes) (map fst ls)"
  by (induction ls left arbitrary: takes rest rule: plan_loop.induct)
    (auto simp: Let_def split: if_splits prod.splits)

lemma plan_loop_drained: "plan_loop ls left = (takes, rest) \<Longrightarrow> 0 < rest \<Longrightarrow> takes = filter (\<lambda>(i, r). 0 < r) ls"
proof (induction ls left arbitrary: takes rest rule: plan_loop.induct)
  case (2 j r ls left)
  show ?case
  proof (cases "left \<le> 0 \<or> r \<le> 0")
    case True
    then show ?thesis using 2 by (auto split: if_splits)
  next
    case False
    obtain ts x where p: "plan_loop ls (left - min r left) = (ts, x)" by fastforce
    with False 2(3) have tk: "takes = (j, min r left) # ts" "rest = x" by (simp_all add: Let_def)
    have "min r left = r"
    proof (rule ccontr)
      assume "min r left \<noteq> r"
      then have "left - min r left = 0" by (auto simp: min_def)
      then have "x \<le> 0" using p by (cases ls) auto
      then show False using 2(4) tk by simp
    qed
    moreover have "ts = filter (\<lambda>(i, r). 0 < r) ls" using 2(2) [OF _ _ refl p] False 2(4) tk by auto
    ultimately show ?thesis using tk False by simp
  qed
qed simp

text \<open>The reference reading of the plan: lot \<open>k\<close> gives what is still needed after the lots before it,
  up to what it holds.\<close>

lemma plan_loop_exact:
  assumes "plan_loop ls left = (takes, rest)" "distinct (map fst ls)" "k < length ls" "0 \<le> left"
  shows "taken takes (fst (ls ! k)) =
     min (max 0 (snd (ls ! k))) (max 0 (left - sum_list (map (\<lambda>(i, r). max 0 r) (take k ls))))"
  using assms
proof (induction ls left arbitrary: takes rest k rule: plan_loop.induct)
  case (2 j r ls left)
  have nn: "0 \<le> sum_list (map (\<lambda>(i, r). max 0 r) zs)" for zs :: "(str \<times> rat) list"
    by (intro sum_list_nonneg) auto
  consider "left \<le> 0" | "left > 0" "r \<le> 0" | "left > 0" "r > 0" by linarith
  then show ?case
  proof cases
    case 1
    then show ?thesis using 2(3) 2(6) nn [of "take k ((j, r) # ls)"] by (auto simp: max_def min_def)
  next
    case b: 2
    then have p: "plan_loop ls left = (takes, rest)" using 2(3) by simp
    have "subseq (map fst takes) (map fst ls)" using plan_loop_subseq [OF p] .
    then have jn: "taken takes j = 0" using 2(4)
      by (intro taken_notin) (force dest: subseq_setD)
    show ?thesis
    proof (cases k)
      case 0
      then show ?thesis using jn b by simp
    next
      case (Suc m)
      then show ?thesis using 2(1) [OF _ _ p, of m] b 2(4,5) by auto
    qed
  next
    case c: 3
    obtain ts x where p: "plan_loop ls (left - min r left) = (ts, x)" by fastforce
    with c 2(3) have tk: "takes = (j, min r left) # ts" by (simp add: Let_def)
    show ?thesis
    proof (cases k)
      case 0
      then show ?thesis using tk c by simp
    next
      case (Suc m)
      have "fst (ls ! m) \<noteq> j" using 2(4,5) Suc by (metis Suc_less_eq distinct.simps(2) fst_conv length_Cons length_map list.simps(9) nth_map nth_mem)
      then have "taken takes (fst (((j, r) # ls) ! k)) = taken ts (fst (ls ! m))" using tk Suc by simp
      also have "\<dots> = min (max 0 (snd (ls ! m))) (max 0 (left - min r left - sum_list (map (\<lambda>(i, r). max 0 r) (take m ls))))"
        using 2(2) [OF _ _ refl p, of m] c 2(4,5) Suc by auto
      finally show ?thesis using Suc c nn [of "take m ls"] by (auto simp: min_def max_def)
    qed
  qed
qed simp

section \<open>Effects of the statements\<close>

definition ledger_of :: "str \<Rightarrow> wallet \<Rightarrow> rat" where
  "ledger_of tenant db = sum_list (map lot_remaining (tenant_lots tenant db))"

lemma sum_add_remaining:
  "distinct (map lot_id ls) \<Longrightarrow> l \<in> set ls \<Longrightarrow>
   sum_list (map lot_remaining (filter (\<lambda>m. lot_tenant m = tn) (map (add_remaining (lot_tenant l) (lot_id l) x) ls)))
   = sum_list (map lot_remaining (filter (\<lambda>m. lot_tenant m = tn) ls)) + (if tn = lot_tenant l then x else 0)"
proof (induction ls)
  case (Cons m ls)
  have others: "map (add_remaining (lot_tenant l) (lot_id l) x) ls = ls" if "lot_id l \<notin> lot_id ` set ls"
    using that by (intro map_idI) (metis add_remaining_def image_eqI)
  show ?case
  proof (cases "l = m")
    case True
    then show ?thesis using Cons.prems others by auto
  next
    case False
    then have "lot_id m \<noteq> lot_id l" "l \<in> set ls" using Cons.prems by auto
    then show ?thesis using Cons by auto
  qed
qed simp

lemma move_effect:
  assumes ok: "wallet_ok db" and mv: "move tenant tid i x db = (Inr u, db')"
  shows "ledger_of tn db' = ledger_of tn db + (if tn = tenant then x else 0)"
    and "lots db' = map (add_remaining tenant i x) (lots db)"
    and "transactions db' = transactions db" and "accounts db' = accounts db"
proof -
  from mv obtain l where l: "find_lot tenant i db = Some l"
    and db': "db' = db\<lparr>entries := entries db @ [\<lparr>entry_transaction = tid, entry_tenant = tenant, entry_lot = i, entry_amount = x\<rparr>],
        lots := map (add_remaining tenant i x) (lots db)\<rparr>"
    by (rule move_InrE)
  from find_lot_SomeD [OF l] ok show "ledger_of tn db' = ledger_of tn db + (if tn = tenant then x else 0)"
    using sum_add_remaining [of "lots db" l tn x] by (auto simp: ledger_of_def tenant_lots_def db' wallet_ok_def)
  show "lots db' = map (add_remaining tenant i x) (lots db)" "transactions db' = transactions db" "accounts db' = accounts db"
    by (simp_all add: db')
qed

lemma insert_lot_effect:
  assumes "insert_lot l db = (Inr u, db')"
  shows "lots db' = lots db @ [l]" "transactions db' = transactions db" "accounts db' = accounts db"
    "lot_remaining l = 0 \<Longrightarrow> ledger_of tn db' = ledger_of tn db"
  using assms by (auto simp: insert_lot_def ledger_of_def tenant_lots_def split: if_splits)

lemma begin_new_effect:
  assumes "begin_transaction t rq flds db = (Inr (Some tid, u), db')"
  shows "tid = txn_id t" "find_txn (txn_tenant t) (txn_key t) db = None" "lots db' = lots db" "accounts db' = accounts db"
    "transactions db' = transactions db @ [t\<lparr>txn_request := Some rq\<rparr>]" "entries db' = entries db"
    "ledger_of tn db' = ledger_of tn db" "has_txn (txn_tenant t) tid db'"
  using begin_transaction_cases [OF assms] by (auto simp: ledger_of_def tenant_lots_def has_txn_def)

lemma begin_old_effect:
  assumes "begin_transaction t rq flds db = (Inr (None, i), db')"
  shows "db' = db" "\<exists>old. i = Some (txn_id old) \<and> find_txn (txn_tenant t) (txn_key t) db = Some old"
  using begin_transaction_cases [OF assms] by auto

lemma overdraft_lot_effect:
  assumes "overdraft_lot env tenant c db = (Inr r, db')"
  shows "transactions db' = transactions db" "accounts db' = accounts db" "ledger_of tn db' = ledger_of tn db"
    "lots db' = lots db \<or> find_overdraft tenant db = None \<and> lots db' = lots db @ [debt_row env tenant]"
    "r = map_option (\<lambda>l. (lot_id l, lot_remaining l)) (find_overdraft tenant db')"
    "\<not> c \<Longrightarrow> db' = db"
  using assms insert_lot_effect(1-3) [of "debt_row env tenant" db "()" db'] insert_lot_effect(4) [of "debt_row env tenant" db "()" db' tn]
  by (auto simp: overdraft_lot_def debt_row_def split: prod.splits sum.splits if_splits)

definition draw :: "str \<Rightarrow> (str \<times> rat) list \<Rightarrow> lot \<Rightarrow> lot" where
  "draw tenant takes l =
     l\<lparr>lot_remaining := lot_remaining l - (if lot_tenant l = tenant then taken takes (lot_id l) else 0)\<rparr>"

lemma draw_simps [simp]:
  "lot_id (draw tn ts l) = lot_id l" "lot_tenant (draw tn ts l) = lot_tenant l" "lot_source (draw tn ts l) = lot_source l"
  "lot_expires_at (draw tn ts l) = lot_expires_at l"
  "lot_remaining (draw tn ts l) = lot_remaining l - (if lot_tenant l = tn then taken ts (lot_id l) else 0)"
  by (simp_all add: draw_def)

lemma draw_Nil [simp]: "draw tn [] = id"
proof
  show "draw tn [] l = id l" for l by (cases "lot_tenant l = tn") (simp_all add: draw_def)
qed

lemma draw_step: "i \<notin> fst ` set ts \<Longrightarrow> draw tn ts (add_remaining tn i (- t) l) = draw tn ((i, t) # ts) l"
  by (auto simp: draw_def add_remaining_def taken_notin)

lemma take_all_effect:
  assumes "wallet_ok db" "take_all tenant tid takes db = (Inr u, db')" "distinct (map fst takes)"
  shows "lots db' = map (draw tenant takes) (lots db) \<and> transactions db' = transactions db \<and> accounts db' = accounts db
    \<and> ledger_of tn db' = ledger_of tn db - (if tn = tenant then sum_list (map snd takes) else 0)"
  using assms
proof (induction tenant tid takes db rule: take_all.induct)
  case (1 tenant tid db)
  then show ?case by simp
next
  case (2 tenant tid i t takes db)
  then obtain db1 where m: "move tenant tid i (- t) db = (Inr (), db1)" "take_all tenant tid takes db1 = (Inr u, db')"
    by (auto split: prod.splits sum.splits)
  note e = move_effect [OF 2(2) m(1)]
  have IH: "lots db' = map (draw tenant takes) (lots db1) \<and> transactions db' = transactions db1 \<and> accounts db' = accounts db1
    \<and> ledger_of tn db' = ledger_of tn db1 - (if tn = tenant then sum_list (map snd takes) else 0)"
    using 2(1) [OF m(1) [symmetric] refl move_ok [OF 2(2) m(1)] m(2)] 2(4) by simp
  have "i \<notin> fst ` set takes" using 2(4) by simp
  then show ?case using IH e by (simp add: draw_step)
qed

section \<open>Refinement of an exactly-once account book\<close>

text \<open>What the wallet promises, without lots: a balance per tenant and the set of keys already used.
  A posting under a used key changes nothing; under a new key it adds its amount.\<close>

record account_book =
  book_balance :: "str \<Rightarrow> rat"
  book_keys :: "(str \<times> str) set"

definition book_post :: "str \<Rightarrow> str \<Rightarrow> rat \<Rightarrow> account_book \<Rightarrow> account_book" where
  "book_post tenant key x b =
     (if (tenant, key) \<in> book_keys b then b
      else \<lparr>book_balance = (book_balance b)(tenant := book_balance b tenant + x),
            book_keys = insert (tenant, key) (book_keys b)\<rparr>)"

definition abs_book :: "wallet \<Rightarrow> account_book" where
  "abs_book db = \<lparr>book_balance = (\<lambda>tn. ledger_of tn db),
     book_keys = set (map (\<lambda>t. (txn_tenant t, txn_key t)) (transactions db))\<rparr>"

lemma insert_account_effect [simp]:
  "lots (insert_account env tn ac db) = lots db" "transactions (insert_account env tn ac db) = transactions db"
  "entries (insert_account env tn ac db) = entries db"
  "ledger_of t (insert_account env tn ac db) = ledger_of t db"
  "find_txn t k (insert_account env tn ac db) = find_txn t k db"
  "find_overdraft t (insert_account env tn ac db) = find_overdraft t db"
  by (simp_all add: insert_account_def ledger_of_def tenant_lots_def find_txn_def find_overdraft_def)

lemma repay_debt_effect:
  assumes ok: "wallet_ok db" and r: "repay_debt env tenant tid i c db = (Inr u, db')"
  shows "ledger_of tn db' = ledger_of tn db \<and> transactions db' = transactions db"
  using r
proof (cases rule: repay_debt_InrE)
  case (repaid j r db1 db2)
  have 1: "db1 = db" using overdraft_lot_effect(6) [OF repaid(1)] by simp
  note ok2 = move_ok [OF ok repaid(3) [unfolded 1]]
  show ?thesis
    using move_effect [OF ok repaid(3) [unfolded 1]] move_effect [OF ok2 repaid(4)] by auto
qed (use overdraft_lot_effect in auto)

lemma book_shortfall_effect:
  assumes ok: "wallet_ok db" and r: "book_shortfall env tenant tid x db = (Inr u, db')" and "0 \<le> x"
  shows "ledger_of tn db' = ledger_of tn db - (if tn = tenant then x else 0) \<and> transactions db' = transactions db"
  using r
proof (cases rule: book_shortfall_InrE)
  case (owed i r db1)
  note ok1 = overdraft_lot_ok [OF ok owed(2)]
  show ?thesis
    using overdraft_lot_effect(1,3) [OF owed(2)] move_effect [OF ok1 owed(3)] by auto
qed (use assms(3) in auto)

lemma live_lots_ids:
  assumes "wallet_ok db"
  shows "distinct (map fst (map (\<lambda>l. (lot_id l, lot_remaining l)) (live_lots now tenant db)))"
proof -
  have "distinct (map lot_id (filter P (lots db)))" for P
    using assms by (auto simp: wallet_ok_def distinct_map_filter)
  then have "distinct (map lot_id (live_lots now tenant db))"
    unfolding live_lots_def distinct_map by (auto simp: distinct_map intro: inj_onI dest: inj_onD)
  then show ?thesis by (simp add: comp_def)
qed

lemma plan_allocationD:
  assumes "plan_allocation ls need = (takes, short)" "0 \<le> need"
  shows "plan_loop ls need = (takes, short)" "0 \<le> short" "sum_list (map snd takes) + short = need"
  using assms plan_loop_rest [of ls need] plan_loop_sum [of ls need]
  by (auto simp: plan_allocation_def split: prod.splits)

lemma debit_takes_distinct:
  assumes "wallet_ok db" "plan_allocation (map (\<lambda>l. (lot_id l, lot_remaining l)) (live_lots now tenant db)) c = (takes, short)"
    "0 \<le> c"
  shows "distinct (map fst takes)"
  using plan_loop_subseq [OF plan_allocationD(1) [OF assms(2,3)]] live_lots_ids [OF assms(1)] subseq_distinct by blast

theorem grant_refines:
  assumes ok: "wallet_ok db" and g: "grant_in env tenant a db = (Inr v, db')" and c: "credits_amount (g_amount a) = Inr c"
  shows "abs_book db' = book_post tenant (g_key a) c (abs_book db)"
  using g
proof (cases rule: grant_in_InrE)
  case (dup flds c' old)
  from begin_old_effect [OF dup(4)] obtain t where "find_txn tenant (g_key a) db = Some t"
    "db' = insert_account env tenant (g_actor a) db" by (auto simp: grant_txn_def)
  then show ?thesis using find_txn_SomeD by (fastforce simp: abs_book_def book_post_def)
next
  case (new flds c' tid u db1 db2 db3)
  have cc: "c' = c" using c new(2) by simp
  note b = begin_new_effect [OF new(4)]
  note ok1 = begin_transaction_ok [OF insert_account_ok [OF ok] new(4)]
  note i = insert_lot_effect [OF new(5)]
  have ok2: "wallet_ok db2" using insert_lot_ok [OF ok1 new(5)] by (simp add: grant_lot_def)
  note m = move_effect [OF ok2 new(6)]
  note r = repay_debt_effect [OF move_ok [OF ok2 new(6)] new(7)]
  have led: "ledger_of tn db' = ledger_of tn db + (if tn = tenant then c else 0)" for tn
    using b(7) i(4) m(1) r cc by (simp add: grant_lot_def)
  have tx: "transactions db' = transactions db @ [(grant_txn env tenant a)\<lparr>txn_request := Some (grant_rq tenant c' a)\<rparr>]"
    using b(5) i(2) m(3) r by simp
  show ?thesis using led b(2) unfolding abs_book_def book_post_def tx
    by (auto simp: find_txn_None grant_txn_def fun_eq_iff)
qed

theorem debit_refines:
  assumes ok: "wallet_ok db" and d: "debit_in env tenant a db = (Inr v, db')" and c: "credits_amount (d_amount a) = Inr c"
    and acct: "ap_status v \<noteq> WNoAccount" "ap_status v \<noteq> WNothing"
  shows "abs_book db' = book_post tenant (d_key a) (- c) (abs_book db)"
  using d
proof (cases rule: debit_in_InrE)
  case (dup flds c' old)
  from begin_old_effect [OF dup(7)] obtain t where "find_txn tenant (d_key a) db = Some t" "db' = db"
    by (auto simp: debit_txn_def)
  then show ?thesis using find_txn_SomeD by (fastforce simp: abs_book_def book_post_def)
next
  case (new flds c' tid u db1 db2 takes short)
  have cc: "c' = c" using c new(2) by simp
  note b = begin_new_effect [OF new(7)]
  note ok1 = begin_transaction_ok [OF ok new(7)]
  note p = plan_allocationD [OF new(8) less_imp_le [OF new(3)]]
  note t = take_all_effect [OF ok1 new(9) debit_takes_distinct [OF ok1 new(8) less_imp_le [OF new(3)]]]
  note s = book_shortfall_effect [OF take_all_ok [OF ok1 new(9)] new(10) p(2)]
  have led: "ledger_of tn db' = ledger_of tn db - (if tn = tenant then c else 0)" for tn
    using b(7) [of tn] t [of tn] s [of tn] p(3) cc by auto
  have tx: "transactions db' = transactions db @ [(debit_txn env tenant a)\<lparr>txn_request := Some (debit_rq c' a)\<rparr>]"
    using b(5) t s by simp
  show ?thesis using led b(2) unfolding abs_book_def book_post_def tx
    by (auto simp: find_txn_None debit_txn_def fun_eq_iff)
qed (use acct in \<open>simp_all add: Applied_def\<close>)

end
