(* ===== verification/Wallet_Runs.thy ===== *)
theory Wallet_Runs
  imports Wallet_Effects
begin

text \<open>
  Runs of the wallet: any sequence of its operations at increasing times, each committed or rolled
  back. The invariant of the tables and of the canonical state (a tenant never owes and holds at
  once) is an instance of \<open>invariant_system\<close>.
\<close>

section \<open>The canonical state: a tenant never owes and holds at once\<close>

definition canonical :: "int \<Rightarrow> wallet \<Rightarrow> bool" where
  "canonical now db \<longleftrightarrow> (\<forall>d\<in>set (lots db). \<forall>l\<in>set (lots db).
     lot_source d = ''overdraft'' \<and> lot_remaining d < 0 \<and> lot_tenant l = lot_tenant d \<and> lot_live now l
       \<longrightarrow> lot_remaining l \<le> 0)"

lemma canonicalI:
  "(\<And>d l. d \<in> set (lots db) \<Longrightarrow> l \<in> set (lots db) \<Longrightarrow> lot_source d = ''overdraft'' \<Longrightarrow> lot_remaining d < 0 \<Longrightarrow>
      lot_tenant l = lot_tenant d \<Longrightarrow> lot_live now l \<Longrightarrow> lot_remaining l \<le> 0) \<Longrightarrow> canonical now db"
  by (simp add: canonical_def)

lemma canonicalD:
  "canonical now db \<Longrightarrow> d \<in> set (lots db) \<Longrightarrow> l \<in> set (lots db) \<Longrightarrow> lot_source d = ''overdraft'' \<Longrightarrow>
   lot_remaining d < 0 \<Longrightarrow> lot_tenant l = lot_tenant d \<Longrightarrow> lot_live now l \<Longrightarrow> lot_remaining l \<le> 0"
  by (auto simp: canonical_def)

lemma lot_live_mono: "lot_live now' l \<Longrightarrow> now \<le> now' \<Longrightarrow> lot_live now l"
  by (auto simp: lot_live_def split: option.splits)

lemma canonical_mono: "canonical now db \<Longrightarrow> now \<le> now' \<Longrightarrow> canonical now' db"
  by (auto simp: canonical_def dest: lot_live_mono)

lemma canonical_lots_cong: "lots db' = lots db \<Longrightarrow> canonical now db' = canonical now db"
  by (simp add: canonical_def)

lemma overdraft_unique:
  assumes "wallet_ok db" "d \<in> set (lots db)" "e \<in> set (lots db)" "lot_source d = ''overdraft''" "lot_source e = ''overdraft''"
    "lot_tenant d = lot_tenant e"
  shows "d = e"
proof -
  have "distinct (map lot_tenant (filter (\<lambda>l. lot_source l = ''overdraft'') (lots db)))"
    using assms(1) by (simp add: wallet_ok_def)
  then have "inj_on lot_tenant (set (filter (\<lambda>l. lot_source l = ''overdraft'') (lots db)))"
    by (simp add: distinct_map)
  then show ?thesis by (rule inj_onD) (use assms in auto)
qed

lemma find_overdraft_eq:
  "wallet_ok db \<Longrightarrow> d \<in> set (lots db) \<Longrightarrow> lot_source d = ''overdraft'' \<Longrightarrow> find_overdraft (lot_tenant d) db = Some d"
proof -
  assume a: "wallet_ok db" "d \<in> set (lots db)" "lot_source d = ''overdraft''"
  then obtain e where e: "find_overdraft (lot_tenant d) db = Some e"
    by (cases "find_overdraft (lot_tenant d) db") (auto simp: find_overdraft_None)
  from overdraft_unique [OF a(1,2), of e] find_overdraft_SomeD [OF e] a(3) have "e = d" by auto
  with e show ?thesis by simp
qed

lemma lot_live_add_remaining [simp]: "lot_live now (add_remaining tn i x l) = lot_live now l"
  by (simp add: lot_live_def)

lemma lot_live_draw [simp]: "lot_live now (draw tn ts l) = lot_live now l"
  by (simp add: lot_live_def)

text \<open>Taking credits from a lot that is not the debt keeps the canonical state.\<close>

lemma canonical_move_down:
  assumes can: "canonical now db" and ok: "wallet_ok db" and mv: "move tenant tid i x db = (Inr u, db')" and x: "x \<le> 0"
    and src: "\<And>l. l \<in> set (lots db) \<Longrightarrow> lot_id l = i \<Longrightarrow> lot_source l \<noteq> ''overdraft''"
  shows "canonical now db'"
proof (rule canonicalI)
  fix d l assume a: "d \<in> set (lots db')" "l \<in> set (lots db')" "lot_source d = ''overdraft''" "lot_remaining d < 0"
    "lot_tenant l = lot_tenant d" "lot_live now l"
  from a(1,2) obtain d0 l0 where o: "d0 \<in> set (lots db)" "l0 \<in> set (lots db)" "d = add_remaining tenant i x d0"
    "l = add_remaining tenant i x l0" using move_effect(2) [OF ok mv] by auto
  have "lot_id d0 \<noteq> i" using src o(1,3) a(3) by auto
  then have "lot_remaining d0 < 0" using a(4) o(3) by simp
  then have "lot_remaining l0 \<le> 0" using canonicalD [OF can o(1,2)] a o by simp
  then show "lot_remaining l \<le> 0" using x o(4) by simp
qed

text \<open>The state inside a grant: the new lot may hold credit beside a debt until the debt is repaid.\<close>

definition canonical_but :: "str \<Rightarrow> str \<Rightarrow> int \<Rightarrow> wallet \<Rightarrow> bool" where
  "canonical_but tenant i now db \<longleftrightarrow> (\<forall>d\<in>set (lots db). \<forall>l\<in>set (lots db).
     lot_source d = ''overdraft'' \<and> lot_remaining d < 0 \<and> lot_tenant l = lot_tenant d \<and> lot_live now l
       \<longrightarrow> lot_remaining l \<le> 0 \<or> lot_id l = i \<and> lot_tenant l = tenant)"

lemma canonical_but_debtless:
  assumes "canonical_but tenant i now db" "wallet_ok db"
    and "\<And>d. find_overdraft tenant db = Some d \<Longrightarrow> \<not> lot_remaining d < 0"
  shows "canonical now db"
  using assms find_overdraft_eq [OF assms(2)] by (intro canonicalI) (fastforce simp: canonical_but_def)

lemma canonical_repaid:
  assumes ok: "wallet_ok db" and can: "canonical_but tenant i now db"
    and n: "n \<in> set (lots db)" "lot_id n = i" "lot_tenant n = tenant" "lot_remaining n = c"
    and d: "find_overdraft tenant db = Some d0" "lot_id d0 \<noteq> i" "lot_remaining d0 < 0"
    and l': "lots db' = map (add_remaining tenant i (- min c (- lot_remaining d0)))
                          (map (add_remaining tenant (lot_id d0) (min c (- lot_remaining d0))) (lots db))"
  shows "canonical now db'"
proof (rule canonicalI)
  let ?rep = "min c (- lot_remaining d0)"
  let ?f = "\<lambda>l. add_remaining tenant i (- ?rep) (add_remaining tenant (lot_id d0) ?rep l)"
  note d0 = find_overdraft_SomeD [OF d(1)]
  fix e l assume x: "e \<in> set (lots db')" "l \<in> set (lots db')" "lot_source e = ''overdraft''" "lot_remaining e < 0"
    "lot_tenant l = lot_tenant e" "lot_live now l"
  then obtain e0 m where m: "e0 \<in> set (lots db)" "m \<in> set (lots db)" "e = ?f e0" "l = ?f m" using l' by auto
  have live: "lot_live now m" "lot_source e0 = ''overdraft''" "lot_tenant m = lot_tenant e0" using x m by simp_all
  show "lot_remaining l \<le> 0"
  proof (cases "lot_tenant e0 = tenant")
    case True
    then have "e0 = d0" using overdraft_unique [OF ok m(1), of d0] d0 live by auto
    then have rep: "?rep = c" using x(4) m(3) d(2,3) True by (auto simp: min_def split: if_splits)
    have "m \<noteq> d0" using live d0 by (auto simp: lot_live_def)
    then have j: "lot_id m \<noteq> lot_id d0" using lots_eqI [OF ok m(2)] d0 by blast
    show ?thesis
    proof (cases "lot_id m = i")
      case True
      then have "m = n" using lots_eqI [OF ok m(2) n(1)] n(2) by simp
      then show ?thesis using m(4) rep n j by simp
    next
      case False
      then have "lot_remaining m \<le> 0"
        using can [unfolded canonical_but_def, rule_format, OF m(1,2)] live \<open>e0 = d0\<close> d(3) by blast
      then show ?thesis using m(4) False j by simp
    qed
  next
    case False
    then have "l = m" "e = e0" using m live by (auto simp: add_remaining_def)
    then show ?thesis using can [unfolded canonical_but_def, rule_format, OF m(1,2)] x live False by simp
  qed
qed

lemma canonical_repay_debt:
  assumes ok: "wallet_ok db" and can: "canonical_but tenant i now db"
    and n: "n \<in> set (lots db)" "lot_id n = i" "lot_tenant n = tenant" "lot_remaining n = c" "lot_source n \<noteq> ''overdraft''"
    and r: "repay_debt env tenant tid i c db = (Inr u, db')"
  shows "canonical now db'"
  using r
proof (cases rule: repay_debt_InrE)
  case no_debt
  then show ?thesis using overdraft_lot_effect(5,6) [OF no_debt] canonical_but_debtless [OF can ok] by auto
next
  case (settled j r)
  have "db' = db" "Some (j, r) = map_option (\<lambda>l. (lot_id l, lot_remaining l)) (find_overdraft tenant db)"
    using overdraft_lot_effect(5,6) [OF settled(1)] by auto
  then show ?thesis using canonical_but_debtless [OF can ok] settled(2) by fastforce
next
  case (repaid j r db1 db2)
  have 1: "db1 = db" using overdraft_lot_effect(6) [OF repaid(1)] by simp
  with overdraft_lot_effect(5) [OF repaid(1)] obtain d0
    where d0: "find_overdraft tenant db = Some d0" "lot_id d0 = j" "lot_remaining d0 = r"
    by (cases "find_overdraft tenant db") auto
  have "lot_id d0 \<noteq> i" using lots_eqI [OF ok _ n(1), of d0] find_overdraft_SomeD [OF d0(1)] n(2,5) by auto
  moreover note m1 = repaid(3) [unfolded 1]
  have "lots db' = map (add_remaining tenant i (- min c (- r))) (map (add_remaining tenant j (min c (- r))) (lots db))"
    using move_effect(2) [OF ok m1] move_effect(2) [OF move_ok [OF ok m1] repaid(4)] by simp
  ultimately show ?thesis using canonical_repaid [OF ok can n(1-4) d0(1)] d0 repaid(2) by simp
qed

lemma canonical_grant:
  assumes can: "canonical now db" and ok: "wallet_ok db" and g: "grant_in env tenant a db = (Inr v, db')"
  shows "canonical now db'"
  using g
proof (cases rule: grant_in_InrE)
  case (dup flds c' old)
  then show ?thesis
    using begin_old_effect(1) [OF dup(4)] can canonical_lots_cong [of "insert_account env tenant (g_actor a) db" db] by simp
next
  case (new flds c tid u db1 db2 db3)
  let ?i = "new_lot_id env" and ?l = "grant_lot env tenant c a"
  let ?new = "add_remaining tenant ?i c ?l"
  note ok1 = begin_transaction_ok [OF insert_account_ok [OF ok] new(4)]
  have ok2: "wallet_ok db2" using insert_lot_ok [OF ok1 new(5)] by (simp add: grant_lot_def)
  note ok3 = move_ok [OF ok2 new(6)]
  have l2: "lots db2 = lots db @ [?l]"
    using insert_lot_effect(1) [OF new(5)] begin_new_effect(3) [OF new(4)] by simp
  have "?i \<notin> lot_id ` set (lots db1)" using new(5) by (auto simp: insert_lot_def grant_lot_def split: if_splits)
  then have "\<forall>l\<in>set (lots db). lot_id l \<noteq> ?i" using begin_new_effect(3) [OF new(4)] by (metis image_eqI insert_account_effect(1))
  then have "map (add_remaining tenant ?i c) (lots db) = lots db"
    by (intro map_idI) (simp add: add_remaining_def)
  then have l3: "lots db3 = lots db @ [?new]" using move_effect(2) [OF ok2 new(6)] by (simp add: l2)
  have src: "lot_source ?new \<noteq> ''overdraft''" using new(3)
    by (auto simp: grant_lot_def grant_refused_def GRANT_SOURCES_def split: if_splits)
  have "canonical_but tenant ?i now db3"
    using canonicalD [OF can] src unfolding canonical_but_def l3 by (auto simp: grant_lot_def)
  then show ?thesis
    using canonical_repay_debt [OF ok3 _ _ _ _ _ src new(7)] l3 by (simp add: grant_lot_def)
qed

lemma plan_nonneg: "plan_loop ls left = (takes, rest) \<Longrightarrow> 0 \<le> taken takes i"
  using plan_loop_takes [of ls left takes rest i]
  by (auto simp: taken_def dest!: map_of_SomeD split: option.splits intro: less_imp_le)

lemma plan_only_live:
  assumes ok: "wallet_ok db" and l: "l \<in> set (lots db)" "\<not> (lot_tenant l = tenant \<and> lot_live now l)"
    and p: "plan_loop (map (\<lambda>l. (lot_id l, lot_remaining l)) (live_lots now tenant db)) c = (takes, short)"
  shows "taken takes (lot_id l) = 0"
proof (rule taken_notin, rule notI)
  assume "lot_id l \<in> fst ` set takes"
  then obtain m where m: "m \<in> set (live_lots now tenant db)" "lot_id m = lot_id l"
    using subseq_setD [OF plan_loop_subseq [OF p], of "lot_id l"] by force
  then have "m = l" using lots_eqI [OF ok, of m l] l(1) by (auto simp: live_lots_def)
  then show False using m(1) l(2) by (auto simp: live_lots_def)
qed

lemma plan_drains:
  assumes p: "plan_loop (map (\<lambda>l. (lot_id l, lot_remaining l)) (live_lots now tenant db)) c = (takes, short)"
    and "distinct (map fst takes)" "0 < short" and l: "l \<in> set (lots db)" "lot_tenant l = tenant" "lot_live now l"
  shows "lot_remaining (draw tenant takes l) \<le> 0"
proof (cases "0 < lot_remaining l")
  case True
  then have "(lot_id l, lot_remaining l) \<in> set takes"
    using l unfolding plan_loop_drained [OF p assms(3)] live_lots_def by force
  then have "taken takes (lot_id l) = lot_remaining l"
    using assms(2) by (simp add: taken_def map_of_is_SomeI split: option.splits)
  then show ?thesis using l by simp
qed (use plan_nonneg [OF p, of "lot_id l"] l in auto)

lemma canonical_draw:
  assumes ok: "wallet_ok db" and can: "canonical now db"
    and p: "plan_loop (map (\<lambda>l. (lot_id l, lot_remaining l)) (live_lots now tenant db)) c = (takes, short)"
    and l': "lots db' = map (draw tenant takes) (lots db)"
  shows "canonical now db'"
proof (rule canonicalI)
  fix d l assume x: "d \<in> set (lots db')" "l \<in> set (lots db')" "lot_source d = ''overdraft''" "lot_remaining d < 0"
    "lot_tenant l = lot_tenant d" "lot_live now l"
  then obtain e m where m: "e \<in> set (lots db)" "m \<in> set (lots db)" "d = draw tenant takes e" "l = draw tenant takes m"
    using l' by auto
  have "taken takes (lot_id e) = 0" using plan_only_live [OF ok m(1) _ p] x(3) m(3) by (auto simp: lot_live_def)
  then have "lot_remaining e < 0" using x(4) m(3) by (cases "lot_tenant e = tenant") simp_all
  then have "lot_remaining m \<le> 0" using canonicalD [OF can m(1,2)] x m by simp
  then show "lot_remaining l \<le> 0" using m(4) plan_nonneg [OF p, of "lot_id m"] by auto
qed

lemma canonical_shortfall:
  assumes ok: "wallet_ok db" and can: "canonical now db" and s: "book_shortfall env tenant tid x db = (Inr u, db')"
    and drained: "\<And>l. 0 < x \<Longrightarrow> l \<in> set (lots db) \<Longrightarrow> lot_tenant l = tenant \<Longrightarrow> lot_live now l \<Longrightarrow> lot_remaining l \<le> 0"
  shows "canonical now db'"
  using s
proof (cases rule: book_shortfall_InrE)
  case (owed i r db1)
  note ok1 = overdraft_lot_ok [OF ok owed(2)]
  have l1: "l \<in> set (lots db) \<or> l = debt_row env tenant" if "l \<in> set (lots db1)" for l
    using overdraft_lot_effect(4) [OF owed(2)] that by auto
  show ?thesis
  proof (rule canonicalI)
    fix d l assume y: "d \<in> set (lots db')" "l \<in> set (lots db')" "lot_source d = ''overdraft''" "lot_remaining d < 0"
      "lot_tenant l = lot_tenant d" "lot_live now l"
    then obtain e m where m: "e \<in> set (lots db1)" "m \<in> set (lots db1)" "d = add_remaining tenant i (- x) e"
      "l = add_remaining tenant i (- x) m" using move_effect(2) [OF ok1 owed(3)] by auto
    have m2: "m \<in> set (lots db)" using l1 [OF m(2)] y(6) m(4) by (auto simp: lot_live_def debt_row_def)
    have "lot_remaining m \<le> 0"
    proof (cases "lot_tenant m = tenant")
      case True
      then show ?thesis using drained [OF owed(1) m2] y(6) m(4) by simp
    next
      case False
      then have t: "lot_tenant e \<noteq> tenant" using y(5) m by simp
      then have "e \<noteq> debt_row env tenant" by (auto simp: debt_row_def)
      then have "e \<in> set (lots db)" "d = e" using l1 [OF m(1)] m(3) t by (auto simp: add_remaining_def)
      then show ?thesis using canonicalD [OF can _ m2] y m by simp
    qed
    then show "lot_remaining l \<le> 0" using m(4) owed(1) by simp
  qed
qed (use can in simp)

text \<open>A debit that is not covered has drained every live lot.\<close>

lemma canonical_debit:
  assumes can: "canonical (db_now env) db" and ok: "wallet_ok db" and g: "debit_in env tenant a db = (Inr v, db')"
  shows "canonical (db_now env) db'"
  using g
proof (cases rule: debit_in_InrE)
  case (dup flds c' old)
  then show ?thesis using begin_old_effect(1) [OF dup(7)] can by simp
next
  case (new flds c tid u db1 db2 takes short)
  note ok1 = begin_transaction_ok [OF ok new(7)]
  have can1: "canonical (db_now env) db1" using can canonical_lots_cong [OF begin_new_effect(3) [OF new(7)]] by simp
  note p = plan_allocationD(1) [OF new(8) less_imp_le [OF new(3)]]
  note dis = debit_takes_distinct [OF ok1 new(8) less_imp_le [OF new(3)]]
  have l2: "lots db2 = map (draw tenant takes) (lots db1)" using take_all_effect [OF ok1 new(9) dis] by simp
  show ?thesis
  proof (rule canonical_shortfall [OF take_all_ok [OF ok1 new(9)] canonical_draw [OF ok1 can1 p l2] new(10)])
    fix l assume x: "0 < short" "l \<in> set (lots db2)" "lot_tenant l = tenant" "lot_live (db_now env) l"
    then obtain m where m: "m \<in> set (lots db1)" "l = draw tenant takes m" using l2 by auto
    then show "lot_remaining l \<le> 0" using plan_drains [OF p dis x(1) m(1)] x by simp
  qed
qed (use can in simp_all)

lemma canonical_expire:
  assumes can: "canonical now db" and ok: "wallet_ok db" and g: "expire_lot_in env tenant i db = (Inr v, db')"
  shows "canonical now db'"
  using g
proof (cases rule: expire_lot_in_InrE)
  case (booked l tid u db1)
  note b = begin_new_effect(3) [OF booked(6)]
  have can1: "canonical now db1" using can canonical_lots_cong [OF b] by simp
  have "m = l" if "m \<in> set (lots db1)" "lot_id m = i" for m using that b booked(2,3) lots_eqI [OF ok] by simp
  then show ?thesis
    using canonical_move_down [OF can1 begin_transaction_ok [OF ok booked(6)] booked(7)] booked(5)
    by (auto simp: lot_due_def)
qed (use can in simp)

section \<open>Six places, exactly\<close>

text \<open>Every balance is a multiple of a millionth, so the \<open>NUMERIC(18, 6)\<close> columns never round.\<close>

definition wallet_exact :: "wallet \<Rightarrow> bool" where
  "wallet_exact db \<longleftrightarrow> (\<forall>l\<in>set (lots db). exact6 (lot_remaining l))"

lemma plan_loop_exact6:
  "plan_loop ls left = (takes, rest) \<Longrightarrow> \<forall>(i, r)\<in>set ls. exact6 r \<Longrightarrow> exact6 left \<Longrightarrow>
   (\<forall>(i, t)\<in>set takes. exact6 t) \<and> exact6 rest"
  by (induction ls left arbitrary: takes rest rule: plan_loop.induct)
    (fastforce simp: Let_def split: if_splits prod.splits)+

lemma wallet_exact_move:
  "wallet_exact db \<Longrightarrow> wallet_ok db \<Longrightarrow> move tenant tid i x db = (Inr u, db') \<Longrightarrow> exact6 x \<Longrightarrow> wallet_exact db'"
  using move_effect(2) by (fastforce simp: wallet_exact_def)

lemma wallet_exact_take_all:
  "wallet_exact db \<Longrightarrow> wallet_ok db \<Longrightarrow> take_all tenant tid takes db = (Inr u, db') \<Longrightarrow> \<forall>(i, t)\<in>set takes. exact6 t \<Longrightarrow>
   wallet_exact db'"
proof (induction tenant tid takes db rule: take_all.induct)
  case (2 tenant tid i t takes db)
  then obtain db1 where m: "move tenant tid i (- t) db = (Inr (), db1)" "take_all tenant tid takes db1 = (Inr u, db')"
    by (auto split: prod.splits sum.splits)
  then show ?case using 2(1) [OF m(1) [symmetric] refl] 2 wallet_exact_move [OF 2(2,3) m(1)] move_ok [OF 2(3) m(1)] by simp
qed simp

lemma wallet_exact_overdraft: "wallet_exact db \<Longrightarrow> overdraft_lot env tenant c db = (Inr r, db') \<Longrightarrow> wallet_exact db'"
  using overdraft_lot_effect(4) [of env tenant c db r db'] by (auto simp: wallet_exact_def debt_row_def)

lemma wallet_exact_grant:
  assumes ex: "wallet_exact db" and ok: "wallet_ok db" and g: "grant_in env tenant a db = (Inr v, db')"
  shows "wallet_exact db'"
  using g
proof (cases rule: grant_in_InrE)
  case (dup flds c' old)
  then show ?thesis using begin_old_effect(1) [OF dup(4)] ex by (simp add: wallet_exact_def)
next
  case (new flds c tid u db1 db2 db3)
  note ok1 = begin_transaction_ok [OF insert_account_ok [OF ok] new(4)]
  have ok2: "wallet_ok db2" using insert_lot_ok [OF ok1 new(5)] by (simp add: grant_lot_def)
  have c: "exact6 c" using credits_amount_exact [OF new(2)] .
  have "wallet_exact db2" using insert_lot_effect(1) [OF new(5)] begin_new_effect(3) [OF new(4)] ex
    by (auto simp: wallet_exact_def grant_lot_def)
  then have ex3: "wallet_exact db3" using wallet_exact_move [OF _ ok2 new(6)] c by blast
  note ok3 = move_ok [OF ok2 new(6)]
  from new(7) show ?thesis
  proof (cases rule: repay_debt_InrE)
    case (repaid j r db4 db5)
    have 4: "db4 = db3" using overdraft_lot_effect(6) [OF repaid(1)] by simp
    obtain d where d: "find_overdraft tenant db3 = Some d" "lot_remaining d = r"
      using overdraft_lot_effect(5) [OF repaid(1)] 4 by (cases "find_overdraft tenant db3") auto
    then have r: "exact6 (min c (- r))" using ex3 find_overdraft_SomeD [OF d(1)] c by (auto simp: wallet_exact_def)
    note m = repaid(3) [unfolded 4]
    show ?thesis using wallet_exact_move [OF wallet_exact_move [OF ex3 ok3 m r] move_ok [OF ok3 m] repaid(4)] r by simp
  qed (use ex3 overdraft_lot_effect(6) in blast)+
qed

lemma wallet_exact_debit:
  assumes ex: "wallet_exact db" and ok: "wallet_ok db" and g: "debit_in env tenant a db = (Inr v, db')"
  shows "wallet_exact db'"
  using g
proof (cases rule: debit_in_InrE)
  case (dup flds c' old)
  then show ?thesis using begin_old_effect(1) [OF dup(7)] ex by simp
next
  case (new flds c tid u db1 db2 takes short)
  note ok1 = begin_transaction_ok [OF ok new(7)]
  have ex1: "wallet_exact db1" using ex begin_new_effect(3) [OF new(7)] by (simp add: wallet_exact_def)
  note p = plan_allocationD(1) [OF new(8) less_imp_le [OF new(3)]]
  have e: "(\<forall>(i, t)\<in>set takes. exact6 t) \<and> exact6 short"
    using plan_loop_exact6 [OF p] ex1 credits_amount_exact [OF new(2)] by (auto simp: wallet_exact_def live_lots_def)
  have ex2: "wallet_exact db2" using wallet_exact_take_all [OF ex1 ok1 new(9)] e by simp
  from new(10) show ?thesis
  proof (cases rule: book_shortfall_InrE)
    case (owed i r db3)
    then show ?thesis
      using wallet_exact_move [OF wallet_exact_overdraft [OF ex2] overdraft_lot_ok [OF take_all_ok [OF ok1 new(9)]] owed(3)] e by auto
  qed (use ex2 in simp)
qed (use ex in simp_all)

lemma wallet_exact_expire:
  assumes ex: "wallet_exact db" and ok: "wallet_ok db" and g: "expire_lot_in env tenant i db = (Inr v, db')"
  shows "wallet_exact db'"
  using g
proof (cases rule: expire_lot_in_InrE)
  case (booked l tid u db1)
  have "wallet_exact db1" using ex begin_new_effect(3) [OF booked(6)] by (simp add: wallet_exact_def)
  then show ?thesis using wallet_exact_move [OF _ begin_transaction_ok [OF ok booked(6)] booked(7)] booked(2) ex
    by (simp add: wallet_exact_def)
qed (use ex in simp)

section \<open>Runs of the wallet\<close>

datatype wallet_op =
    Op_grant str grant_args
  | Op_debit str debit_args
  | Op_clawback str number_in str str "str option" "str list option"
  | Op_adjust str number_in str str str "py_datetime option" "str list option"
  | Op_expire str str

definition returned :: "'a wres \<Rightarrow> unit wres" where
  "returned r = (case r of (Inl e, db) \<Rightarrow> (Inl e, db) | (Inr _, db) \<Rightarrow> (Inr (), db))"

text \<open>One operation in a transaction of its own; a raise leaves the tables as they were.\<close>

fun run_op :: "wallet_env \<Rightarrow> wallet_op \<Rightarrow> wallet \<Rightarrow> unit wres" where
  "run_op env (Op_grant tenant a) db = returned (grant_in env tenant a db)"
| "run_op env (Op_debit tenant a) db = returned (debit_in env tenant a db)"
| "run_op env (Op_clawback tenant x k ac rs cm) db = returned (clawback_in env tenant x k ac rs cm db)"
| "run_op env (Op_adjust tenant x k ac rs ex cm) db = returned (adjust_in env tenant x k ac rs ex cm db)"
| "run_op env (Op_expire tenant i) db = returned (expire_lot_in env tenant i db)"

inductive wallet_step :: "wallet \<times> int \<Rightarrow> wallet \<times> int \<Rightarrow> bool" where
  "t \<le> db_now env \<Longrightarrow> in_transaction (run_op env p) db = (r, db') \<Longrightarrow> wallet_step (db, t) (db', db_now env)"

inductive_cases wallet_stepE: "wallet_step c c'"

definition wallet_inv :: "wallet \<times> int \<Rightarrow> bool" where
  "wallet_inv c = (wallet_ok (fst c) \<and> canonical (snd c) (fst c) \<and> wallet_exact (fst c))"

lemma returned_Inr: "returned r = (Inr u, db) \<longleftrightarrow> (\<exists>v. r = (Inr v, db))"
  by (cases r) (auto simp: returned_def split: sum.splits)

lemma wallet_inv_grant: "wallet_inv (db, now) \<Longrightarrow> grant_in env tn a db = (Inr v, db') \<Longrightarrow> wallet_inv (db', now)"
  by (auto simp: wallet_inv_def intro: grant_in_ok canonical_grant wallet_exact_grant)

lemma wallet_inv_debit:
  "wallet_inv (db, db_now env) \<Longrightarrow> debit_in env tn a db = (Inr v, db') \<Longrightarrow> wallet_inv (db', db_now env)"
  by (auto simp: wallet_inv_def intro: debit_in_ok canonical_debit wallet_exact_debit)

lemma wallet_inv_expire: "wallet_inv (db, now) \<Longrightarrow> expire_lot_in env tn i db = (Inr v, db') \<Longrightarrow> wallet_inv (db', now)"
  by (auto simp: wallet_inv_def intro: expire_lot_in_ok canonical_expire wallet_exact_expire)

lemma wallet_inv_op:
  assumes "wallet_inv (db, db_now env)" "run_op env p db = (Inr u, db')"
  shows "wallet_inv (db', db_now env)"
  using assms
proof (cases p)
  case (Op_adjust tenant x k ac rs ex cm)
  then show ?thesis using assms
    by (auto simp: returned_Inr adjust_in_def split: sum.splits if_splits intro: wallet_inv_grant wallet_inv_debit)
qed (auto simp: returned_Inr clawback_in_def intro: wallet_inv_grant wallet_inv_debit wallet_inv_expire)

interpretation wrun: invariant_system wallet_step wallet_inv
proof
  fix c c' assume inv: "wallet_inv c" and st: "wallet_step c c'"
  from st show "wallet_inv c'"
  proof (rule wallet_stepE)
    fix t env p db r db'
    assume a: "c = (db, t)" "c' = (db', db_now env)" "t \<le> db_now env" "in_transaction (run_op env p) db = (r, db')"
    then have now: "wallet_inv (db, db_now env)" using inv canonical_mono by (auto simp: wallet_inv_def)
    show "wallet_inv c'"
    proof (cases "run_op env p db")
      case (Pair q d)
      then show ?thesis using a now wallet_inv_op by (cases q) (auto simp: in_transaction_def)
    qed
  qed
qed

end
