(* ===== verification/Wallet_Claims.thy ===== *)
theory Wallet_Claims
  imports Wallet_Runs
begin

text \<open>
  The properties of the credit wallet, and the wallet on which their witnesses are evaluated.
\<close>

section \<open>A debit is never refused for a short balance\<close>

lemma find_snoc: "List.find P (xs @ [x]) = (case List.find P xs of None \<Rightarrow> if P x then Some x else None | Some y \<Rightarrow> Some y)"
  by (induction xs) auto

lemma find_lot_eq:
  assumes "wallet_ok db" "l \<in> set (lots db)"
  shows "find_lot (lot_tenant l) (lot_id l) db = Some l"
proof -
  obtain m where m: "find_lot (lot_tenant l) (lot_id l) db = Some m"
    using assms(2) by (cases "find_lot (lot_tenant l) (lot_id l) db") (auto simp: find_lot_def find_None_iff)
  then show ?thesis using lots_eqI [OF assms(1) _ assms(2), of m] find_lot_SomeD [OF m] by simp
qed

lemma wallet_okD:
  assumes "wallet_ok db" "l \<in> set (lots db)"
  shows "lot_checks l" "fits_numeric 6 (lot_remaining l)" "has_account (lot_tenant l) db"
  using assms by (auto simp: wallet_ok_def lot_ok_def)

lemma move_succeeds:
  assumes ok: "wallet_ok db" and tx: "has_txn tenant tid db" and l: "l \<in> set (lots db)" "lot_tenant l = tenant"
    and t: "0 < t" "fits_numeric 6 t" "fits_numeric 6 (lot_remaining l - t)" "lot_source l = ''overdraft'' \<or> t \<le> lot_remaining l"
  shows "\<exists>db'. move tenant tid (lot_id l) (- t) db = (Inr (), db')"
proof -
  have "lot_checks (add_remaining tenant (lot_id l) (- t) l)"
    using wallet_okD(1) [OF ok l(1)] t l by (auto simp: lot_checks_def)
  then show ?thesis using find_lot_eq [OF ok l(1)] tx t l by (simp add: move_def)
qed

lemma take_all_succeeds:
  assumes "wallet_ok db" "has_txn tenant tid db" "distinct (map fst takes)"
    and "\<forall>(i, t)\<in>set takes. 0 < t \<and> (\<exists>l\<in>set (lots db). lot_id l = i \<and> lot_tenant l = tenant \<and> t \<le> lot_remaining l)"
  shows "\<exists>db'. take_all tenant tid takes db = (Inr (), db')"
  using assms
proof (induction takes arbitrary: db)
  case (Cons p takes)
  obtain i t where p: "p = (i, t)" by fastforce
  from Cons.prems(4) p obtain l where l: "l \<in> set (lots db)" "lot_id l = i" "lot_tenant l = tenant" "0 < t" "t \<le> lot_remaining l"
    by auto
  have "fits_numeric 6 t" "fits_numeric 6 (lot_remaining l - t)"
    using fits_numeric_mono [OF _ _ wallet_okD(2) [OF Cons.prems(1) l(1)]] l by auto
  then obtain db1 where m: "move tenant tid i (- t) db = (Inr (), db1)"
    using move_succeeds [OF Cons.prems(1,2) l(1,3,4)] l by auto
  note e = move_effect(2-4) [OF Cons.prems(1) m]
  have "has_txn tenant tid db1" using Cons.prems(2) e by (simp add: has_txn_def)
  moreover have "\<forall>(j, s)\<in>set takes. 0 < s \<and> (\<exists>l\<in>set (lots db1). lot_id l = j \<and> lot_tenant l = tenant \<and> s \<le> lot_remaining l)"
  proof clarify
    fix j s assume s: "(j, s) \<in> set takes"
    from Cons.prems(4) s obtain m where m: "m \<in> set (lots db)" "lot_id m = j" "lot_tenant m = tenant" "s \<le> lot_remaining m"
      "0 < s" by auto
    have "j \<noteq> i" using Cons.prems(3) s p by force
    then have "add_remaining tenant i (- t) m = m" using m by (simp add: add_remaining_def)
    then have "m \<in> set (lots db1)" using m(1) e(1) by (metis image_eqI set_map)
    then show "0 < s \<and> (\<exists>l\<in>set (lots db1). lot_id l = j \<and> lot_tenant l = tenant \<and> s \<le> lot_remaining l)" using m by auto
  qed
  ultimately show ?case using Cons.IH [OF move_ok [OF Cons.prems(1) m]] Cons.prems(3) m p by simp
qed simp

text \<open>What the tenant owes, as the balance reports it.\<close>

lemma debt_eq:
  assumes "wallet_ok db" "has_account tenant db"
  shows "debt (balance_in now tenant db) = (case find_overdraft tenant db of None \<Rightarrow> 0 | Some d \<Rightarrow> - lot_remaining d)"
proof -
  let ?ds = "filter (\<lambda>l. lot_source l = ''overdraft'') (tenant_lots tenant db)"
  have eq: "e = d" if "d \<in> set ?ds" "e \<in> set ?ds" for d e
    using that overdraft_unique [OF assms(1), of e d] by (auto simp: tenant_lots_def)
  have dist: "distinct ?ds" using assms(1) by (auto simp: tenant_lots_def wallet_ok_def distinct_map)
  show ?thesis
  proof (cases "find_overdraft tenant db")
    case None
    then have "?ds = []" by (auto simp: find_overdraft_None tenant_lots_def filter_empty_conv)
    then show ?thesis using None assms(2) by (simp add: balance_in_def read_balance_def Let_def)
  next
    case (Some d)
    then have "d \<in> set ?ds" using find_overdraft_SomeD by (auto simp: tenant_lots_def)
    then have "set ?ds = {d}" using eq by auto
    then have "?ds = [d]" using dist by (cases ?ds rule: list.exhaust; cases "tl ?ds") auto
    then show ?thesis using Some assms(2) by (simp add: balance_in_def read_balance_def Let_def)
  qed
qed

lemma book_shortfall_succeeds:
  assumes ok: "wallet_ok db" and tx: "has_txn tenant tid db" and ac: "has_account tenant db" and x: "0 \<le> x"
    and fr: "new_debt_id env \<notin> set (map lot_id (lots db))"
    and fit: "fits_numeric 6 (debt (balance_in now tenant db) + x)"
  shows "\<exists>db'. book_shortfall env tenant tid x db = (Inr (), db')"
proof (cases "x > 0")
  case True
  obtain d db1 where d: "overdraft_lot env tenant True db = (Inr (Some (lot_id d, lot_remaining d)), db1)" "wallet_ok db1"
    "d \<in> set (lots db1)" "lot_tenant d = tenant" "lot_source d = ''overdraft''" "transactions db1 = transactions db"
    "debt (balance_in now tenant db) = - lot_remaining d"
  proof (cases "find_overdraft tenant db")
    case None
    have i: "insert_lot (debt_row env tenant) db = (Inr (), db\<lparr>lots := lots db @ [debt_row env tenant]\<rparr>)"
      using None fr ac by (simp add: insert_lot_def debt_row_def lot_checks_def LOT_SOURCES_def same_payment_def list_ex_iff)
    have f: "find_overdraft tenant (db\<lparr>lots := lots db @ [debt_row env tenant]\<rparr>) = Some (debt_row env tenant)"
      using None by (auto simp: find_overdraft_def find_snoc debt_row_def)
    show ?thesis
      using that [of "debt_row env tenant"] None i f insert_lot_ok [OF ok i] debt_eq [OF ok ac, of now]
      by (simp add: overdraft_lot_def debt_row_def)
  next
    case (Some d)
    then show ?thesis using that [of d db] ok debt_eq [OF ok ac, of now] find_overdraft_SomeD [OF Some]
      by (simp add: overdraft_lot_def)
  qed
  have neg: "lot_remaining d \<le> 0" using wallet_okD(1) [OF d(2,3)] d(5) by (simp add: lot_checks_def)
  have "fits_numeric 6 (- lot_remaining d + x)" using fit d(7) by simp
  then have "fits_numeric 6 x" "fits_numeric 6 (lot_remaining d - x)"
    using fits_numeric_mono [of x "- lot_remaining d + x" 6] x neg fits_numeric_minus [of 6 "- lot_remaining d + x"] by auto
  then obtain db2 where "move tenant tid (lot_id d) (- x) db1 = (Inr (), db2)"
    using move_succeeds [OF d(2) _ d(3,4) True] tx d(5,6) by (auto simp: has_txn_def)
  then show ?thesis using d(1) True by (simp add: book_shortfall_def)
qed (simp add: book_shortfall_def)

lemma debt_draw:
  assumes ok: "wallet_ok db" and l': "lots db' = map (draw tenant takes) (lots db)" and ac: "accounts db' = accounts db"
    and p: "plan_loop (map (\<lambda>l. (lot_id l, lot_remaining l)) (live_lots now tenant db)) c = (takes, short)"
  shows "debt (balance_in now tenant db') = debt (balance_in now tenant db)"
proof -
  have "taken takes (lot_id l) = 0" if "l \<in> set (lots db)" "lot_source l = ''overdraft''" for l
    using plan_only_live [OF ok that(1) _ p] that(2) by (simp add: lot_live_def)
  then have "map lot_remaining (filter (\<lambda>l. lot_source l = ''overdraft'') (tenant_lots tenant db')) =
      map lot_remaining (filter (\<lambda>l. lot_source l = ''overdraft'') (tenant_lots tenant db))"
    by (simp add: tenant_lots_def l' filter_map comp_def)
  then show ?thesis using ac by (simp add: balance_in_def read_balance_def has_account_def Let_def)
qed

lemma debit_in_succeeds:
  assumes ok: "wallet_ok db" and ac: "has_account tenant db" and c: "credits_amount (d_amount a) = Inr c" "0 < c"
    and args: "compared (d_compare a) DEBIT_FIELDS = Inr flds" "tenant \<noteq> []" "d_key a \<noteq> []" "d_kind a \<in> set KINDS"
      "pricing_fits (d_pricing a)"
    and fresh: "find_txn tenant (d_key a) db = None" "new_txn_id env \<notin> set (map txn_id (transactions db))"
      "new_debt_id env \<notin> set (map lot_id (lots db))"
    and fit: "fits_numeric 6 (debt (balance_in (db_now env) tenant db) + c)"
  obtains takes short db' where
    "plan_loop (map (\<lambda>l. (lot_id l, lot_remaining l)) (live_lots (db_now env) tenant db)) c = (takes, short)"
    "debit_in env tenant a db = (Inr (Applied WApplied (Some (new_txn_id env)) c short), db')"
proof -
  let ?db1 = "db\<lparr>transactions := transactions db @ [(debit_txn env tenant a)\<lparr>txn_request := Some (debit_rq c a)\<rparr>]\<rparr>"
  have b: "begin_transaction (debit_txn env tenant a) (debit_rq c a) flds db = (Inr (Some (new_txn_id env), None), ?db1)"
    using args fresh ac by (simp add: begin_transaction_def insert_txn_def debit_txn_def)
  note ok1 = begin_transaction_ok [OF ok b]
  have live: "live_lots now tenant ?db1 = live_lots now tenant db" for now by (simp add: live_lots_def)
  obtain takes short where p: "plan_allocation (map (\<lambda>l. (lot_id l, lot_remaining l)) (live_lots (db_now env) tenant ?db1)) c
    = (takes, short)" by fastforce
  note pl = plan_allocationD [OF p less_imp_le [OF c(2)]]
  have dis: "distinct (map fst takes)" using debit_takes_distinct [OF ok1 p less_imp_le [OF c(2)]] .
  have tx: "has_txn tenant (new_txn_id env) ?db1" by (simp add: has_txn_def debit_txn_def)
  have "\<forall>(i, t)\<in>set takes. 0 < t \<and> (\<exists>l\<in>set (lots ?db1). lot_id l = i \<and> lot_tenant l = tenant \<and> t \<le> lot_remaining l)"
  proof clarify
    fix i t assume "(i, t) \<in> set takes"
    from plan_loop_takes [OF pl(1) this]
    show "0 < t \<and> (\<exists>l\<in>set (lots ?db1). lot_id l = i \<and> lot_tenant l = tenant \<and> t \<le> lot_remaining l)"
      by (auto simp: live_lots_def)
  qed
  from take_all_succeeds [OF ok1 tx dis this] obtain db2 where t: "take_all tenant (new_txn_id env) takes ?db1 = (Inr (), db2)"
    by blast
  note e = take_all_effect [OF ok1 t dis, of tenant]
  have "0 \<le> sum_list (map snd takes)"
    using plan_loop_takes [OF pl(1)] by (intro sum_list_nonneg) (auto intro: less_imp_le)
  then have sc: "short \<le> c" using pl(3) by simp
  have "debt (balance_in (db_now env) tenant db2) = debt (balance_in (db_now env) tenant db)"
    using debt_draw [OF ok _ _ pl(1) [unfolded live], of db2] e by simp
  moreover have "0 \<le> debt (balance_in (db_now env) tenant db)"
    using debt_eq [OF ok ac] wallet_okD(1) [OF ok] find_overdraft_SomeD
    by (fastforce simp: lot_checks_def split: option.splits)
  ultimately have fit2: "fits_numeric 6 (debt (balance_in (db_now env) tenant db2) + short)"
    using fits_numeric_mono [OF _ _ fit] sc pl(2) by simp
  have "new_debt_id env \<notin> set (map lot_id (lots db2))" "has_txn tenant (new_txn_id env) db2" "has_account tenant db2"
    using e fresh(3) tx ac by (auto simp: has_txn_def has_account_def)
  then obtain db3 where "book_shortfall env tenant (new_txn_id env) short db2 = (Inr (), db3)"
    using book_shortfall_succeeds [OF take_all_ok [OF ok1 t] _ _ pl(2) _ fit2] by blast
  then show thesis using that pl(1) b p t args ac c live by (simp add: debit_in_def)
qed

lemma plan_shortfall:
  "plan_loop ls left = (takes, rest) \<Longrightarrow> 0 \<le> left \<Longrightarrow> rest = max 0 (left - sum_list (map (\<lambda>(i, r). max 0 r) ls))"
proof (induction ls left arbitrary: takes rest rule: plan_loop.induct)
  case (2 j r ls left)
  have nn: "0 \<le> sum_list (map (\<lambda>(i, r). max 0 r) ls)" by (intro sum_list_nonneg) auto
  consider "left \<le> 0" | "left > 0" "r \<le> 0" | "left > 0" "r > 0" by linarith
  then show ?case
  proof cases
    case 3
    obtain ts x where p: "plan_loop ls (left - min r left) = (ts, x)" by fastforce
    with 3 2(3) have "rest = x" by (simp add: Let_def)
    moreover have "x = max 0 (left - min r left - sum_list (map (\<lambda>(i, r). max 0 r) ls))"
      using 2(2) [OF _ _ refl p] 3 by simp
    ultimately show ?thesis using 3 nn by (auto simp: min_def max_def)
  qed (use 2 nn in auto)
qed simp

lemma live_total:
  "sum_list (map (\<lambda>(i, r). max 0 r) (map (\<lambda>l. (lot_id l, lot_remaining l)) (live_lots now tenant db)))
   = sum_list (map lot_remaining (live_lots now tenant db))"
  by (rule arg_cong [of _ _ sum_list]) (auto simp: live_lots_def)

section \<open>Exactly once over a run of deliveries\<close>

datatype delivery = D_grant wallet_env str grant_args | D_debit wallet_env str debit_args

text \<open>A delivery the wallet accepted: it returned, and it was not a call the wallet ignores.\<close>

inductive posted :: "delivery \<Rightarrow> wallet \<Rightarrow> wallet \<Rightarrow> bool" where
  posted_grant: "grant_in env tenant a db = (Inr v, db') \<Longrightarrow> posted (D_grant env tenant a) db db'"
| posted_debit: "debit_in env tenant a db = (Inr v, db') \<Longrightarrow> ap_status v \<noteq> WNoAccount \<Longrightarrow> ap_status v \<noteq> WNothing \<Longrightarrow>
    posted (D_debit env tenant a) db db'"

inductive_cases posted_grantE: "posted (D_grant env tenant a) db db'"
inductive_cases posted_debitE: "posted (D_debit env tenant a) db db'"

fun posted_all :: "delivery list \<Rightarrow> wallet \<Rightarrow> wallet \<Rightarrow> bool" where
  "posted_all [] db db' \<longleftrightarrow> db' = db"
| "posted_all (d # ds) db db' \<longleftrightarrow> (\<exists>db1. posted d db db1 \<and> posted_all ds db1 db')"

fun delivery_key :: "delivery \<Rightarrow> str \<times> str" where
  "delivery_key (D_grant env tenant a) = (tenant, g_key a)"
| "delivery_key (D_debit env tenant a) = (tenant, d_key a)"

fun signed_credits :: "delivery \<Rightarrow> rat" where
  "signed_credits (D_grant env tenant a) = (case credits_amount (g_amount a) of Inl _ \<Rightarrow> 0 | Inr c \<Rightarrow> c)"
| "signed_credits (D_debit env tenant a) = (case credits_amount (d_amount a) of Inl _ \<Rightarrow> 0 | Inr c \<Rightarrow> - c)"

text \<open>The first delivery under each key that is not used yet.\<close>

fun first_deliveries :: "(str \<times> str) set \<Rightarrow> delivery list \<Rightarrow> delivery list" where
  "first_deliveries used [] = []"
| "first_deliveries used (d # ds) =
     (if delivery_key d \<in> used then first_deliveries used ds
      else d # first_deliveries (insert (delivery_key d) used) ds)"

lemma posted_ok: "posted d db db' \<Longrightarrow> wallet_ok db \<Longrightarrow> wallet_ok db'"
  by (auto elim!: posted.cases dest: grant_in_ok debit_in_ok)

lemma posted_refines:
  assumes "posted d db db'" "wallet_ok db"
  shows "abs_book db' = book_post (fst (delivery_key d)) (snd (delivery_key d)) (signed_credits d) (abs_book db)"
  using assms(1)
proof (cases rule: posted.cases)
  case (posted_grant env tenant a v)
  obtain c where "credits_amount (g_amount a) = Inr c" using posted_grant(2) by (cases rule: grant_in_InrE) auto
  then show ?thesis using grant_refines [OF assms(2) posted_grant(2)] posted_grant(1) by simp
next
  case (posted_debit env tenant a v)
  obtain c where "credits_amount (d_amount a) = Inr c" using posted_debit(2) by (cases rule: debit_in_InrE) auto
  then show ?thesis using debit_refines [OF assms(2) posted_debit(2) _ posted_debit(3,4)] posted_debit(1) by simp
qed

lemma book_post_balance:
  "book_balance (book_post tn k x b) t = book_balance b t + (if t = tn \<and> (tn, k) \<notin> book_keys b then x else 0)"
  "book_keys (book_post tn k x b) = insert (tn, k) (book_keys b)"
  by (auto simp: book_post_def)

lemma posted_all_balance:
  "posted_all ds db db' \<Longrightarrow> wallet_ok db \<Longrightarrow>
   book_balance (abs_book db') tn = book_balance (abs_book db) tn
     + sum_list (map signed_credits (filter (\<lambda>d. fst (delivery_key d) = tn) (first_deliveries (book_keys (abs_book db)) ds)))"
proof (induction ds arbitrary: db)
  case (Cons d ds)
  then obtain db1 where d: "posted d db db1" "posted_all ds db1 db'" by auto
  note r = posted_refines [OF d(1) Cons.prems(2)]
  show ?case using Cons.IH [OF d(2) posted_ok [OF d(1) Cons.prems(2)]] book_post_balance [of "fst (delivery_key d)" "snd (delivery_key d)" "signed_credits d" "abs_book db"]
    unfolding r [symmetric] by (auto simp: insert_absorb)
qed simp

section \<open>Reused keys\<close>

lemma grant_reused_key:
  assumes ok: "wallet_ok db" and old: "find_txn tenant (g_key a) db = Some old"
    and args: "compared (g_compare a) GRANT_FIELDS = Inr flds" "credits_amount (g_amount a) = Inr c" "grant_refused env tenant c a = None"
    and st: "txn_request old = Some stored"
  shows "grant_in env tenant a db =
    (let diffs = differences stored (grant_rq tenant c a) flds
     in if diffs = [] then (Inr (Applied WDuplicate (Some (txn_id old)) 0 0), db) else (Inl (IdempotencyConflict diffs), db))"
proof -
  have "has_account tenant db" using find_txn_SomeD [OF old] ok by (auto simp: wallet_ok_def)
  then have "insert_account env tenant (g_actor a) db = db" by (simp add: insert_account_def)
  moreover have "g_key a \<noteq> []" using args(3) by (auto simp: grant_refused_def split: if_splits)
  ultimately show ?thesis using old args st
    by (simp add: grant_in_def begin_transaction_def insert_txn_def grant_txn_def pricing_fits_def KINDS_def Let_def)
qed

section \<open>Consumption order\<close>

lemma sorted_live_lots: "sorted (map consumption_key (live_lots now tenant db))"
  by (simp add: live_lots_def)

lemma debit_lot_after:
  assumes ok: "wallet_ok db" and g: "debit_in env tenant a db = (Inr v, db')" and ap: "ap_status v = WApplied"
    and l: "l \<in> set (live_lots (db_now env) tenant db)"
  obtains takes short where
    "plan_loop (map (\<lambda>l. (lot_id l, lot_remaining l)) (live_lots (db_now env) tenant db)) (ap_amount v) = (takes, short)"
    "draw tenant takes l \<in> set (lots db')" "0 < ap_amount v"
  using g
proof (cases rule: debit_in_InrE)
  case (new flds c tid u db1 db2 takes short)
  note ok1 = begin_transaction_ok [OF ok new(7)]
  have live: "live_lots (db_now env) tenant db1 = live_lots (db_now env) tenant db"
    using begin_new_effect(3) [OF new(7)] by (simp add: live_lots_def)
  note p = plan_allocationD(1) [OF new(8) [unfolded live] less_imp_le [OF new(3)]]
  have "lots db2 = map (draw tenant takes) (lots db)"
    using take_all_effect [OF ok1 new(9) debit_takes_distinct [OF ok1 new(8) less_imp_le [OF new(3)]]] begin_new_effect(3) [OF new(7)]
    by simp
  then have d2: "draw tenant takes l \<in> set (lots db2)" using l by (auto simp: live_lots_def)
  from new(10) have "draw tenant takes l \<in> set (lots db')"
  proof (cases rule: book_shortfall_InrE)
    case (owed i r db3)
    note ok3 = overdraft_lot_ok [OF take_all_ok [OF ok1 new(9)] owed(2)]
    have d3: "draw tenant takes l \<in> set (lots db3)" using d2 overdraft_lot_effect(4) [OF owed(2)] by auto
    obtain d where d: "find_overdraft tenant db3 = Some d" "lot_id d = i"
      using overdraft_lot_effect(5) [OF owed(2)] by (cases "find_overdraft tenant db3") auto
    have "lot_source l \<noteq> ''overdraft''" using l by (simp add: live_lots_def lot_live_def)
    then have "lot_id l \<noteq> i" using lots_eqI [OF ok3 d3, of d] find_overdraft_SomeD [OF d(1)] d(2)
      by (metis draw_simps(1,3))
    then have "add_remaining tenant i (- short) (draw tenant takes l) = draw tenant takes l" by (simp add: add_remaining_def)
    then show ?thesis using move_effect(2) [OF ok3 owed(3)] d3 by (metis image_eqI set_map)
  qed (use d2 in simp)
  then show thesis using that p new(3,11) by (simp add: Applied_def)
qed (use ap in \<open>simp_all add: Applied_def\<close>)

lemma wallet_inv_empty: "wallet_inv (empty_wallet, t)"
  by (simp add: wallet_inv_def canonical_def wallet_exact_def) (simp add: empty_wallet_def)

section \<open>A small wallet\<close>

text \<open>A tenant is granted ten credits, the grant is delivered twice, and a call worth 12.5 credits is
  debited: 2.5 credits become debt.\<close>

definition sample_env :: "int \<Rightarrow> str \<Rightarrow> wallet_env" where
  "sample_env now i = \<lparr>app_now = now, db_now = now, new_txn_id = ''t'' @ i, new_lot_id = ''l'' @ i, new_debt_id = ''d'' @ i\<rparr>"

definition sample_grant :: grant_args where
  "sample_grant = \<lparr>g_amount = Finite 10, g_source = ''manual'', g_key = ''k1'', g_actor = ''ops'', g_reason = None,
     g_expires_at = None, g_provider = None, g_external_ref = None, g_compare = None\<rparr>"

definition sample_debit :: debit_args where
  "sample_debit = \<lparr>d_amount = Finite (25 / 2), d_key = ''u1'', d_usage_event_id = Some ''u1'', d_actor = ''system'',
     d_reason = None, d_kind = ''debit'', d_pricing = None, d_compare = None\<rparr>"

definition sample_op :: "nat \<Rightarrow> wallet_env \<times> wallet_op" where
  "sample_op n = [(sample_env 100 ''1'', Op_grant ''acme'' sample_grant), (sample_env 200 ''2'', Op_grant ''acme'' sample_grant),
     (sample_env 300 ''3'', Op_debit ''acme'' sample_debit)] ! n"

primrec sample_wallet :: "nat \<Rightarrow> wallet" where
  "sample_wallet 0 = empty_wallet"
| "sample_wallet (Suc n) = snd (in_transaction (run_op (fst (sample_op n)) (snd (sample_op n))) (sample_wallet n))"

lemma sample_wallet_step:
  "n < 3 \<Longrightarrow> wallet_step (sample_wallet n, int n * 100) (sample_wallet (Suc n), int (Suc n) * 100)"
proof -
  assume n: "n < 3"
  have now: "db_now (fst (sample_op n)) = int (Suc n) * 100"
    using n by (auto simp: sample_op_def sample_env_def numeral_eq_Suc less_Suc_eq)
  show ?thesis using wallet_step.intros [of "int n * 100" "fst (sample_op n)" "snd (sample_op n)" "sample_wallet n"] now
    by simp (metis prod.collapse)
qed

lemma sample_wallet_reach: "n \<le> 3 \<Longrightarrow> wallet_step\<^sup>*\<^sup>* (empty_wallet, 0) (sample_wallet n, int n * 100)"
proof (induction n)
  case (Suc n)
  then show ?case using sample_wallet_step [of n] by (auto intro: rtranclp.rtrancl_into_rtrancl)
qed simp

lemma sample_wallet_run: "wallet_step\<^sup>*\<^sup>* (empty_wallet, 0) (sample_wallet 3, 300)"
  using sample_wallet_reach [of 3] by simp

lemma sample_wallet_ok: "n \<le> 3 \<Longrightarrow> wallet_ok (sample_wallet n)"
  using wrun.inv_reach [OF sample_wallet_reach wallet_inv_empty] by (simp add: wallet_inv_def)

section \<open>Properties\<close>

lemma live_sum_canonical:
  assumes "wallet_ok db" "canonical now db" "has_account tenant db" "0 < debt (balance_in now tenant db)"
  shows "available (balance_in now tenant db) = - debt (balance_in now tenant db)"
proof -
  obtain d where d: "find_overdraft tenant db = Some d" "lot_remaining d < 0"
    using assms(4) debt_eq [OF assms(1,3)] by (auto split: option.splits)
  have "lot_remaining l = 0" if "l \<in> set (filter (lot_live now) (tenant_lots tenant db))" for l
    using that canonicalD [OF assms(2) _ _ _ d(2), of l] find_overdraft_SomeD [OF d(1)] wallet_okD(1) [OF assms(1), of l]
    by (auto simp: tenant_lots_def lot_checks_def lot_live_def intro: order_antisym)
  then have "sum_list (map lot_remaining (filter (lot_live now) (tenant_lots tenant db))) = 0"
    by (metis (no_types, lifting) sum_list_0 map_cong)
  then show ?thesis using assms(3) by (simp add: balance_in_def read_balance_def Let_def)
qed

lemma debt_nonneg: "wallet_ok db \<Longrightarrow> 0 \<le> debt (balance_in now tenant db)"
proof (cases "has_account tenant db")
  case True
  assume ok: "wallet_ok db"
  show ?thesis using debt_eq [OF ok True] wallet_okD(1) [OF ok] find_overdraft_SomeD
    by (fastforce simp: lot_checks_def split: option.splits)
qed (simp add: balance_in_def read_balance_def)

lemma verify_in_ok: "wallet_ok db \<Longrightarrow> verify_in tenant db = []"
  by (auto simp: verify_in_def tenant_lots_def wallet_ok_def lot_ok_def filter_empty_conv)



text \<open>C5. The wallet refines an exactly-once account book. Whatever deliveries of grants and debits
  it accepts, in any order and with any repetition of keys, a tenant's ledger balance is its balance
  before plus the signed credits of the first delivery under each key that was not used yet: a
  redelivered grant adds nothing, a redelivered debit takes nothing, and no tenant's delivery moves
  another tenant's balance.\<close>

theorem wallet_refines_account_book:
  assumes "wallet_ok db" and "posted_all ds db db'"
  shows "ledger_of tenant db' = ledger_of tenant db
    + sum_list (map signed_credits (filter (\<lambda>d. fst (delivery_key d) = tenant)
        (first_deliveries (set (map (\<lambda>t. (txn_tenant t, txn_key t)) (transactions db))) ds)))"
  using posted_all_balance [OF assms(2,1)] by (simp add: abs_book_def)

theorem wallet_refines_account_book_witness:
  "posted_all [D_grant (sample_env 100 ''1'') ''acme'' sample_grant, D_grant (sample_env 200 ''2'') ''acme'' sample_grant,
     D_debit (sample_env 300 ''3'') ''acme'' sample_debit] empty_wallet (sample_wallet 3)
   \<and> ledger_of ''acme'' (sample_wallet 3) = - (5 / 2)"
proof -
  let ?ds = "[D_grant (sample_env 100 ''1'') ''acme'' sample_grant, D_grant (sample_env 200 ''2'') ''acme'' sample_grant,
     D_debit (sample_env 300 ''3'') ''acme'' sample_debit]"
  have g1: "grant_in (sample_env 100 ''1'') ''acme'' sample_grant empty_wallet
      = (Inr (Applied WApplied (Some ''t1'') 10 0), sample_wallet 1)"
    and g2: "grant_in (sample_env 200 ''2'') ''acme'' sample_grant (sample_wallet 1)
      = (Inr (Applied WDuplicate (Some ''t1'') 0 0), sample_wallet 2)"
    and d1: "debit_in (sample_env 300 ''3'') ''acme'' sample_debit (sample_wallet 2)
      = (Inr (Applied WApplied (Some ''t3'') (25 / 2) (5 / 2)), sample_wallet 3)"
    by code_simp+
  have p: "posted_all ?ds empty_wallet (sample_wallet 3)"
    using posted_grant [OF g1] posted_grant [OF g2] posted_debit [OF d1] by (auto simp: Applied_def)
  have "credits_amount (Finite 10) = Inr 10" "credits_amount (Finite (25 / 2)) = Inr (25 / 2)" by code_simp+
  then show ?thesis using p wallet_refines_account_book [OF wallet_ok_empty p, of "''acme''"]
    by (simp add: empty_wallet_def ledger_of_def tenant_lots_def sample_grant_def sample_debit_def)
qed

text \<open>A debit never fails because the balance is short. For a tenant with a wallet, a new key, new
  row ids and a debt that still fits its column, a debit of a positive amount is applied whatever the
  balance: the reported shortfall is what the usable lots do not cover, and the tenant's ledger balance
  falls by exactly the amount.\<close>

theorem debit_never_refused:
  assumes "wallet_ok db" and "has_account tenant db" and "credits_amount (d_amount a) = Inr c" and "0 < c"
    and "compared (d_compare a) DEBIT_FIELDS = Inr flds" and "tenant \<noteq> []" and "d_key a \<noteq> []" and "d_kind a \<in> set KINDS"
    and "pricing_fits (d_pricing a)" and "find_txn tenant (d_key a) db = None"
    and "new_txn_id env \<notin> set (map txn_id (transactions db))" and "new_debt_id env \<notin> set (map lot_id (lots db))"
    and "fits_numeric 6 (debt (balance_in (db_now env) tenant db) + c)"
  shows "\<exists>db' short. debit_in env tenant a db = (Inr (Applied WApplied (Some (new_txn_id env)) c short), db')
    \<and> short = max 0 (c - sum_list (map lot_remaining (live_lots (db_now env) tenant db)))
    \<and> ledger_of tenant db' = ledger_of tenant db - c"
proof -
  from debit_in_succeeds [OF assms] obtain takes short db'
    where p: "plan_loop (map (\<lambda>l. (lot_id l, lot_remaining l)) (live_lots (db_now env) tenant db)) c = (takes, short)"
      and d: "debit_in env tenant a db = (Inr (Applied WApplied (Some (new_txn_id env)) c short), db')" by blast
  have "short = max 0 (c - sum_list (map lot_remaining (live_lots (db_now env) tenant db)))"
    using plan_shortfall [OF p] assms(4) unfolding live_total by simp
  moreover have "abs_book db' = book_post tenant (d_key a) (- c) (abs_book db)"
    using debit_refines [OF assms(1) d assms(3)] by (simp add: Applied_def)
  then have "book_balance (abs_book db') tenant = book_balance (book_post tenant (d_key a) (- c) (abs_book db)) tenant" by simp
  then have "ledger_of tenant db' = ledger_of tenant db - c"
    using assms(10) by (auto simp: book_post_balance abs_book_def find_txn_None)
  ultimately show ?thesis using d by blast
qed

theorem debit_never_refused_witness:
  "\<exists>db' short. debit_in (sample_env 300 ''3'') ''acme'' sample_debit (sample_wallet 2)
      = (Inr (Applied WApplied (Some ''t3'') (25 / 2) short), db')
    \<and> short = max 0 (25 / 2 - sum_list (map lot_remaining (live_lots 300 ''acme'' (sample_wallet 2))))
    \<and> ledger_of ''acme'' db' = ledger_of ''acme'' (sample_wallet 2) - 25 / 2"
proof -
  have h: "has_account ''acme'' (sample_wallet 2)" "credits_amount (d_amount sample_debit) = Inr (25 / 2)" "0 < (25 / 2 :: rat)"
    "compared (d_compare sample_debit) DEBIT_FIELDS = Inr (''kind'' # DEBIT_FIELDS)" "''acme'' \<noteq> []" "d_key sample_debit \<noteq> []"
    "d_kind sample_debit \<in> set KINDS" "pricing_fits (d_pricing sample_debit)"
    "find_txn ''acme'' (d_key sample_debit) (sample_wallet 2) = None"
    "new_txn_id (sample_env 300 ''3'') \<notin> set (map txn_id (transactions (sample_wallet 2)))"
    "new_debt_id (sample_env 300 ''3'') \<notin> set (map lot_id (lots (sample_wallet 2)))"
    "fits_numeric 6 (debt (balance_in (db_now (sample_env 300 ''3'')) ''acme'' (sample_wallet 2)) + 25 / 2)"
    by code_simp+
  have "db_now (sample_env 300 ''3'') = 300" "new_txn_id (sample_env 300 ''3'') = ''t3''" by (simp_all add: sample_env_def)
  then show ?thesis using debit_never_refused [OF sample_wallet_ok h] by simp
qed

text \<open>Consumption order. An applied debit takes from the tenant's usable lots in order of expiry
  (no expiry last), then age: the lot at position \<open>k\<close> is left with what it held less what the lots before
  it did not cover, so no lot is touched while an earlier one still holds credit.\<close>

theorem debit_consumption_order:
  assumes "wallet_ok db" and "debit_in env tenant a db = (Inr v, db')" and "ap_status v = WApplied"
    and "k < length (live_lots (db_now env) tenant db)"
  shows "sorted (map consumption_key (live_lots (db_now env) tenant db))
    \<and> (let l = live_lots (db_now env) tenant db ! k;
           before = sum_list (map lot_remaining (take k (live_lots (db_now env) tenant db)))
       in l\<lparr>lot_remaining := lot_remaining l - min (lot_remaining l) (max 0 (ap_amount v - before))\<rparr> \<in> set (lots db'))"
proof -
  let ?L = "live_lots (db_now env) tenant db"
  let ?ls = "map (\<lambda>l. (lot_id l, lot_remaining l)) ?L"
  have l: "?L ! k \<in> set ?L" using assms(4) by simp
  from debit_lot_after [OF assms(1-3) l] obtain takes short where p: "plan_loop ?ls (ap_amount v) = (takes, short)"
    and d: "draw tenant takes (?L ! k) \<in> set (lots db')" and c: "0 < ap_amount v" by blast
  have tk: "map (\<lambda>(i, r). max 0 r) (take k ?ls) = map lot_remaining (take k ?L)"
    using set_take_subset [of k ?L] by (auto simp: take_map live_lots_def)
  have pos: "0 < lot_remaining (?L ! k)" "lot_tenant (?L ! k) = tenant" using l by (auto simp: live_lots_def)
  have "taken takes (lot_id (?L ! k)) =
      min (lot_remaining (?L ! k)) (max 0 (ap_amount v - sum_list (map lot_remaining (take k ?L))))"
    using plan_loop_exact [OF p live_lots_ids [OF assms(1)], of k] assms(4) c pos unfolding tk by simp
  then show ?thesis using d pos sorted_live_lots by (simp add: draw_def Let_def)
qed

theorem debit_consumption_order_witness:
  "\<exists>l'. l' \<in> set (lots (sample_wallet 3)) \<and> lot_id l' = ''l1'' \<and> lot_remaining l' = 0"
proof -
  have d1: "debit_in (sample_env 300 ''3'') ''acme'' sample_debit (sample_wallet 2)
      = (Inr (Applied WApplied (Some ''t3'') (25 / 2) (5 / 2)), sample_wallet 3)" by code_simp
  have len: "0 < length (live_lots (db_now (sample_env 300 ''3'')) ''acme'' (sample_wallet 2))"
    and l: "lot_id (live_lots (db_now (sample_env 300 ''3'')) ''acme'' (sample_wallet 2) ! 0) = ''l1''"
      "lot_remaining (live_lots (db_now (sample_env 300 ''3'')) ''acme'' (sample_wallet 2) ! 0) = 10" by code_simp+
  show ?thesis using debit_consumption_order [OF sample_wallet_ok d1 _ len] l by (auto simp: Applied_def Let_def)
qed

text \<open>A key stands for one request. A grant under a key that already stands for a recorded request
  changes nothing: it is answered \<open>duplicate\<close> with the original transaction when it agrees on every
  compared field, and raises an \<open>IdempotencyConflict\<close> that names exactly the differing fields otherwise.\<close>

theorem grant_key_stands_for_one_request:
  assumes "wallet_ok db" and "find_txn tenant (g_key a) db = Some old" and "txn_request old = Some stored"
    and "compared (g_compare a) GRANT_FIELDS = Inr flds" and "credits_amount (g_amount a) = Inr c"
    and "grant_refused env tenant c a = None"
  shows "grant_in env tenant a db =
    (let diffs = differences stored (grant_request c (g_source a) (g_provider a) (g_external_ref a)
           (expiry_instant (g_expires_at a)) (g_reason a) (g_actor a)) flds
     in if diffs = [] then (Inr (Applied WDuplicate (Some (txn_id old)) 0 0), db) else (Inl (IdempotencyConflict diffs), db))"
  using grant_reused_key [OF assms(1,2,4,5,6,3)] .

theorem grant_key_stands_for_one_request_witness:
  "grant_in (sample_env 400 ''4'') ''acme'' (sample_grant\<lparr>g_amount := Finite 600\<rparr>) (sample_wallet 1)
     = (Inl (IdempotencyConflict [(''amount'', RNum 10, RNum 600)]), sample_wallet 1)"
proof -
  let ?a = "sample_grant\<lparr>g_amount := Finite 600\<rparr>"
  let ?stored = "grant_request 10 ''manual'' None None None None ''ops''"
  obtain old where old: "find_txn ''acme'' (g_key ?a) (sample_wallet 1) = Some old" "txn_request old = Some ?stored"
  proof -
    have "map_option txn_request (find_txn ''acme'' (g_key ?a) (sample_wallet 1)) = Some (Some ?stored)" by code_simp
    then show ?thesis using that by (cases "find_txn ''acme'' (g_key ?a) (sample_wallet 1)") auto
  qed
  have h: "compared (g_compare ?a) GRANT_FIELDS = Inr (''kind'' # GRANT_FIELDS)" "credits_amount (g_amount ?a) = Inr 600"
    "grant_refused (sample_env 400 ''4'') ''acme'' 600 ?a = None" by code_simp+
  have "differences ?stored (grant_request 600 (g_source ?a) (g_provider ?a) (g_external_ref ?a)
      (expiry_instant (g_expires_at ?a)) (g_reason ?a) (g_actor ?a)) (''kind'' # GRANT_FIELDS) = [(''amount'', RNum 10, RNum 600)]"
    by code_simp
  then show ?thesis using grant_key_stands_for_one_request [OF sample_wallet_ok old h] by simp
qed

text \<open>Rating. A cost is turned into credits by one rounding: the result has at most six decimal
  places, is within half a millionth of the exact product of cost, rate and markup, and is never negative
  for a positive rate and markup.\<close>

theorem credits_for_cost_rounds_once:
  assumes "credits_for_cost (Finite cost) per_usd mark = Inr c" and "0 \<le> per_usd" and "0 \<le> mark"
  shows "half_up 6 c = c \<and> \<bar>c - cost * per_usd * mark\<bar> \<le> 1 / 2000000 \<and> 0 \<le> c"
proof -
  from assms(1) have c: "c = half_up 6 (cost * per_usd * mark)" "0 \<le> cost"
    by (auto simp: credits_for_cost_def credits_amount_def quantize_def split: if_splits)
  then show ?thesis using half_up_error [of 6 "cost * per_usd * mark"] half_up_nonneg [of "cost * per_usd * mark" 6] assms(2,3) by simp
qed

theorem credits_for_cost_rounds_once_witness:
  "credits_for_cost (Finite (4 / 10000000)) 100 (3 / 2) = Inr (6 / 100000) \<and> (0::rat) \<le> 6 / 100000"
proof -
  have c: "credits_for_cost (Finite (4 / 10000000)) 100 (3 / 2) = Inr (6 / 100000)" by code_simp
  show ?thesis using credits_for_cost_rounds_once [OF c] c by simp
qed

end
