(* ===== verification/Webhooks.thy ===== *)
theory Webhooks
  imports Billing_Store Wallet_Claims
begin

text \<open>
  Money in (\<open>credit_billing/webhooks.py\<close>): one verified provider event becomes a grant, a clawback or
  a visible refusal. Every function of the module is here; an operational fault of the database (a
  lost connection, a driver error) is the argument \<open>fault\<close>, the class name of the exception the
  attempt dies of.
\<close>

section \<open>The policy\<close>

datatype outcome = O_applied | O_duplicate | O_ignored | O_quarantined | O_retry | O_failed
datatype action = A_grant | A_clawback | A_ignore | A_quarantine | A_hold

record plan =
  pl_action :: action
  pl_reason :: "str option"

definition Plan :: "action \<Rightarrow> str option \<Rightarrow> plan" where
  "Plan act reason = \<lparr>pl_action = act, pl_reason = reason\<rparr>"

definition paid :: "event_kind \<Rightarrow> bool" where
  "paid k \<longleftrightarrow> k = CREDITS_PURCHASED \<or> k = SUBSCRIPTION_PERIOD_STARTED"

definition empty_text :: "str option \<Rightarrow> bool" where
  "empty_text v \<longleftrightarrow> v = None \<or> v = Some []"

definition decide_event :: "billing_event \<Rightarrow> str option \<Rightarrow> credit_product option \<Rightarrow> granted_lot_rec option \<Rightarrow> int \<Rightarrow> int \<Rightarrow> int \<Rightarrow> plan" where
  "decide_event ev tenant product lot received_at now hold =
     (if ev_kind ev = IGNORED then Plan A_ignore (Some ''unhandled_type'')
      else if ev_kind ev = DISPUTE_OPENED \<or> ev_kind ev = DISPUTE_CLOSED then Plan A_quarantine (Some ''dispute_needs_a_decision'')
      else if ev_kind ev = PAYMENT_PARTIALLY_REFUNDED then Plan A_quarantine (Some ''partial_refund_needs_a_decision'')
      else if empty_text (ev_customer_ref ev) then Plan A_quarantine (Some ''no_customer'')
      else if tenant = None then Plan A_quarantine (Some ''unlinked_customer'')
      else if empty_text (ev_payment_ref ev) then Plan A_quarantine (Some ''no_payment_ref'')
      else if paid (ev_kind ev) then
        (if lot \<noteq> None then Plan A_ignore (Some ''payment_already_granted'')
         else (case product of
             None \<Rightarrow> Plan A_quarantine (Some ''unknown_product'')
           | Some p \<Rightarrow>
               if \<not> pr_active p then Plan A_quarantine (Some ''unknown_product'')
               else if ev_kind ev = SUBSCRIPTION_PERIOD_STARTED \<and> pr_expires_after_days p = None
                 then Plan A_quarantine (Some ''subscription_without_expiry'')
               else Plan A_grant None))
      else (case lot of
          None \<Rightarrow>
            if now - received_at > hold then Plan A_quarantine (Some ''purchase_never_applied'')
            else Plan A_hold (Some ''purchase_not_applied_yet'')
        | Some l \<Rightarrow>
            if gl_reclaimable l \<le> 0 then Plan A_ignore (Some ''nothing_to_reclaim'') else Plan A_clawback None))"

section \<open>The inbox\<close>

definition find_row :: "billing_event \<Rightarrow> billing \<Rightarrow> inbox_row option" where
  "find_row ev b = List.find (\<lambda>r. in_provider r = ev_provider ev \<and> in_event_id r = ev_event_id ev) (inbox b)"

definition terminal_status :: "inbox_status \<Rightarrow> bool" where
  "terminal_status s \<longleftrightarrow> s = S_applied \<or> s = S_ignored \<or> s = S_quarantined"

definition update_row :: "billing_event \<Rightarrow> (inbox_row \<Rightarrow> inbox_row) \<Rightarrow> billing \<Rightarrow> billing" where
  "update_row ev f b = b\<lparr>inbox := map (\<lambda>r. if in_provider r = ev_provider ev \<and> in_event_id r = ev_event_id ev then f r else r) (inbox b)\<rparr>"

definition new_row :: "billing_event \<Rightarrow> int \<Rightarrow> inbox_status \<Rightarrow> str option \<Rightarrow> inbox_row" where
  "new_row ev now status err = \<lparr>in_provider = ev_provider ev, in_event_id = ev_event_id ev, in_event_type = ev_raw_type ev,
     in_received_at = now, in_updated_at = now, in_status = status, in_attempts = 1, in_tenant = None,
     in_payload = stored_fields ev, in_error_class = err\<rparr>"

text \<open>\<open>_claim\<close>: the event's row, or \<open>None\<close> when it is already finished.\<close>

definition claim :: "wallet_env \<Rightarrow> billing_event \<Rightarrow> billing \<Rightarrow> ((int \<times> int) option) bres" where
  "claim env ev b =
     (if ev_provider ev = [] \<or> ev_event_id ev = [] then (Inl (CheckViolation ''billing_webhook_events''), b)
      else (case find_row ev b of
          None \<Rightarrow> (Inr (Some (db_now env, db_now env)), b\<lparr>inbox := inbox b @ [new_row ev (db_now env) S_received None]\<rparr>)
        | Some r \<Rightarrow>
            if terminal_status (in_status r) then (Inr None, b)
            else (Inr (Some (in_received_at r, db_now env)),
                  update_row ev (\<lambda>r. r\<lparr>in_attempts := in_attempts r + 1, in_status := S_received, in_updated_at := db_now env\<rparr>) b)))"

text \<open>\<open>_finish\<close>; a trigger refuses to move an applied or ignored row to another status.\<close>

definition finish :: "wallet_env \<Rightarrow> billing_event \<Rightarrow> inbox_status \<Rightarrow> str option \<Rightarrow> str option \<Rightarrow> billing \<Rightarrow> unit bres" where
  "finish env ev status tenant reason b =
     (case find_row ev b of
        Some r \<Rightarrow>
          if in_status r \<in> {S_applied, S_ignored} \<and> status \<noteq> in_status r then (Inl (CheckViolation ''billing_webhook_events''), b)
          else (Inr (), update_row ev (\<lambda>r. r\<lparr>in_status := status, in_tenant := tenant, in_error_class := reason, in_updated_at := db_now env\<rparr>) b)
      | None \<Rightarrow> (Inr (), b))"

definition finish_as :: "wallet_env \<Rightarrow> billing_event \<Rightarrow> inbox_status \<Rightarrow> str option \<Rightarrow> str option \<Rightarrow> outcome \<Rightarrow> billing \<Rightarrow> outcome bres" where
  "finish_as env ev status tenant reason out b =
     (case finish env ev status tenant reason b of (Inl e, b') \<Rightarrow> (Inl e, b') | (Inr _, b') \<Rightarrow> (Inr out, b'))"

section \<open>Applying a plan\<close>

definition day_us :: int where "day_us = 86400 * 1000000"
definition hour_us :: int where "hour_us = 3600 * 1000000"

text \<open>The last instant a \<open>datetime\<close> can hold; \<open>now + timedelta\<close> past it raises an \<open>OverflowError\<close>.\<close>

definition max_datetime :: int where "max_datetime = 253402300799999999"

definition grant_expiry :: "wallet_env \<Rightarrow> credit_product \<Rightarrow> wallet_error + py_datetime option" where
  "grant_expiry env p = (case pr_expires_after_days p of
       None \<Rightarrow> Inr None
     | Some d \<Rightarrow>
         if d = 0 then Inr None
         else if app_now env + d * day_us > max_datetime then Inl (RuntimeFault ''OverflowError'')
         else Inr (Some (Aware (app_now env + d * day_us))))"

definition webhook_grant :: "billing_event \<Rightarrow> credit_product \<Rightarrow> py_datetime option \<Rightarrow> grant_args" where
  "webhook_grant ev p expires_at = \<lparr>g_amount = Finite (pr_credits p),
     g_source = (if ev_kind ev = SUBSCRIPTION_PERIOD_STARTED then ''subscription'' else ''purchase''),
     g_key = ev_provider ev @ '':'' @ ev_event_id ev, g_actor = ''webhook:'' @ ev_provider ev,
     g_reason = Some (kind_value (ev_kind ev)), g_expires_at = expires_at, g_provider = Some (ev_provider ev),
     g_external_ref = ev_payment_ref ev,
     g_compare = Some (filter (\<lambda>f. f \<noteq> ''expires_at'') GRANT_FIELDS)\<rparr>"

definition clawback_key :: "billing_event \<Rightarrow> str \<Rightarrow> str" where
  "clawback_key ev payment_ref = ''clawback:'' @ ev_provider ev @ '':'' @ payment_ref"

definition status_text :: "wstatus \<Rightarrow> str" where
  "status_text s = (case s of WApplied \<Rightarrow> ''applied'' | WDuplicate \<Rightarrow> ''duplicate'' | WNoAccount \<Rightarrow> ''no_account'' | WNothing \<Rightarrow> ''nothing'')"

definition apply_grant :: "wallet_env \<Rightarrow> billing_event \<Rightarrow> str \<Rightarrow> credit_product \<Rightarrow> billing \<Rightarrow> outcome bres" where
  "apply_grant env ev tenant p b =
     (case grant_expiry env p of Inl e \<Rightarrow> (Inl e, b) | Inr expires_at \<Rightarrow>
     (case grant_in env tenant (webhook_grant ev p expires_at) (wal b) of
        (Inl (IdempotencyConflict d), w) \<Rightarrow>
          finish_as env ev S_quarantined (Some tenant) (Some ''idempotency_conflict'') O_quarantined (b\<lparr>wal := w\<rparr>)
      | (Inl e, w) \<Rightarrow> (Inl e, b\<lparr>wal := w\<rparr>)
      | (Inr _, w) \<Rightarrow> finish_as env ev S_applied (Some tenant) None O_applied (b\<lparr>wal := w\<rparr>)))"

definition apply_clawback :: "wallet_env \<Rightarrow> billing_event \<Rightarrow> str \<Rightarrow> granted_lot_rec \<Rightarrow> str \<Rightarrow> billing \<Rightarrow> outcome bres" where
  "apply_clawback env ev tenant l payment_ref b =
     (case clawback_in env tenant (Finite (gl_reclaimable l)) (clawback_key ev payment_ref) (''webhook:'' @ ev_provider ev)
             (Some (kind_value (ev_kind ev))) (Some []) (wal b) of
        (Inl e, w) \<Rightarrow> (Inl e, b\<lparr>wal := w\<rparr>)
      | (Inr v, w) \<Rightarrow>
          if ap_status v = WDuplicate then finish_as env ev S_ignored (Some tenant) (Some ''already_reversed'') O_ignored (b\<lparr>wal := w\<rparr>)
          else if ap_status v \<noteq> WApplied
            then finish_as env ev S_quarantined (Some tenant) (Some (''clawback_'' @ status_text (ap_status v))) O_quarantined (b\<lparr>wal := w\<rparr>)
          else finish_as env ev S_applied (Some tenant) None O_applied (b\<lparr>wal := w\<rparr>))"

definition apply_plan :: "wallet_env \<Rightarrow> billing_event \<Rightarrow> str option \<Rightarrow> credit_product option \<Rightarrow> granted_lot_rec option \<Rightarrow> plan \<Rightarrow>
    billing \<Rightarrow> outcome bres" where
  "apply_plan env ev tenant product lot pln b =
     (case pl_action pln of
        A_grant \<Rightarrow>
          (case (tenant, product, ev_payment_ref ev) of
             (Some t, Some p, Some _) \<Rightarrow> apply_grant env ev t p b
           | _ \<Rightarrow> (Inl (RuntimeFault ''AssertionError''), b))
      | A_clawback \<Rightarrow>
          (case (tenant, lot, ev_payment_ref ev) of
             (Some t, Some l, Some ref) \<Rightarrow> apply_clawback env ev t l ref b
           | _ \<Rightarrow> (Inl (RuntimeFault ''AssertionError''), b))
      | A_ignore \<Rightarrow> finish_as env ev S_ignored tenant (pl_reason pln) O_ignored b
      | A_hold \<Rightarrow> finish_as env ev S_received tenant (pl_reason pln) O_retry b
      | A_quarantine \<Rightarrow> finish_as env ev S_quarantined tenant (pl_reason pln) O_quarantined b)"

section \<open>Processing\<close>

record webhook_settings =
  refund_hold_hours :: int
  webhook_max_attempts :: int

definition event_tenant :: "billing_event \<Rightarrow> billing \<Rightarrow> str option" where
  "event_tenant ev b = (if empty_text (ev_customer_ref ev) then None
     else tenant_for_customer (ev_provider ev) (the (ev_customer_ref ev)) b)"

definition event_product :: "billing_event \<Rightarrow> str option \<Rightarrow> billing \<Rightarrow> credit_product option" where
  "event_product ev tenant b = (if tenant \<noteq> None \<and> paid (ev_kind ev) \<and> \<not> empty_text (ev_product_ref ev)
     then get_product (ev_provider ev) (the (ev_product_ref ev)) b else None)"

definition event_lot :: "wallet_env \<Rightarrow> billing_event \<Rightarrow> str option \<Rightarrow> billing \<Rightarrow> granted_lot_rec option" where
  "event_lot env ev tenant b = (case tenant of
       None \<Rightarrow> None
     | Some t \<Rightarrow>
         if \<not> empty_text (ev_payment_ref ev) \<and> (paid (ev_kind ev) \<or> ev_kind ev = PAYMENT_REFUNDED)
         then granted_lot (db_now env) t (ev_provider ev) (the (ev_payment_ref ev)) (wal b) else None)"

definition process :: "webhook_settings \<Rightarrow> wallet_env \<Rightarrow> billing_event \<Rightarrow> billing \<Rightarrow> outcome bres" where
  "process cfg env ev b =
     (case claim env ev b of
        (Inl e, b1) \<Rightarrow> (Inl e, b1)
      | (Inr None, b1) \<Rightarrow> (Inr O_duplicate, b1)
      | (Inr (Some (received_at, now)), b1) \<Rightarrow>
          let tenant = event_tenant ev b1;
              product = event_product ev tenant b1;
              lot = event_lot env ev tenant b1;
              pln = decide_event ev tenant product lot received_at now (refund_hold_hours cfg * hour_us)
          in apply_plan env ev tenant product lot pln b1)"

fun error_class :: "wallet_error \<Rightarrow> str" where
  "error_class (BadArgument m) = ''ValueError''"
| "error_class InvalidOperation = ''InvalidOperation''"
| "error_class (IdempotencyConflict d) = ''IdempotencyConflict''"
| "error_class NumericOutOfRange = ''NumericValueOutOfRange''"
| "error_class (CheckViolation t) = ''CheckViolation''"
| "error_class (UniqueViolation t) = ''UniqueViolation''"
| "error_class (ForeignKeyViolation t) = ''ForeignKeyViolation''"
| "error_class (RuntimeFault m) = m"

text \<open>\<open>_record_failure\<close>, in a transaction of its own; \<open>lost\<close> is that this write fails too.\<close>

definition record_failure :: "webhook_settings \<Rightarrow> wallet_env \<Rightarrow> bool \<Rightarrow> billing_event \<Rightarrow> str \<Rightarrow> billing \<Rightarrow> outcome \<times> billing" where
  "record_failure cfg env lost ev cls b =
     (if lost \<or> ev_provider ev = [] \<or> ev_event_id ev = [] then (O_failed, b)
      else (case find_row ev b of
          None \<Rightarrow>
            let b1 = b\<lparr>inbox := inbox b @ [new_row ev (db_now env) S_failed (Some cls)]\<rparr>
            in if 1 \<ge> webhook_max_attempts cfg
               then (case finish env ev S_quarantined None (Some (take 100 (''max_attempts:'' @ cls))) b1 of
                   (Inl e, _) \<Rightarrow> (O_failed, b) | (Inr _, b2) \<Rightarrow> (O_quarantined, b2))
               else (O_failed, b1)
        | Some r \<Rightarrow>
            if in_status r \<in> {S_received, S_failed} then
              let b1 = update_row ev (\<lambda>r. r\<lparr>in_status := S_failed, in_attempts := in_attempts r + 1, in_error_class := Some cls,
                                           in_updated_at := db_now env\<rparr>) b
              in if in_attempts r + 1 \<ge> webhook_max_attempts cfg
                 then (case finish env ev S_quarantined None (Some (take 100 (''max_attempts:'' @ cls))) b1 of
                     (Inl e, _) \<Rightarrow> (O_failed, b) | (Inr _, b2) \<Rightarrow> (O_quarantined, b2))
                 else (O_failed, b1)
            else (O_duplicate, b)))"

definition process_event :: "webhook_settings \<Rightarrow> wallet_env \<Rightarrow> wallet_env \<Rightarrow> str option \<Rightarrow> bool \<Rightarrow> billing_event \<Rightarrow>
    billing \<Rightarrow> outcome \<times> billing" where
  "process_event cfg env env' fault lost ev b =
     (case fault of
        Some cls \<Rightarrow> record_failure cfg env' lost ev cls b
      | None \<Rightarrow>
          (case process cfg env ev b of
             (Inl e, _) \<Rightarrow> record_failure cfg env' lost ev (error_class e) b
           | (Inr out, b') \<Rightarrow> (out, b')))"

section \<open>Inbox retention\<close>

definition BILLING_INBOX_MIN_RETENTION_DAYS :: int where "BILLING_INBOX_MIN_RETENTION_DAYS = 30"

definition sweepable :: "int \<Rightarrow> int \<Rightarrow> inbox_row \<Rightarrow> bool" where
  "sweepable now days r \<longleftrightarrow> in_status r \<in> {S_applied, S_ignored} \<and> in_received_at r < now - days * day_us"

text \<open>\<open>DELETE ... LIMIT n\<close>: the first \<open>n\<close> rows the predicate picks.\<close>

fun delete_first :: "nat \<Rightarrow> ('a \<Rightarrow> bool) \<Rightarrow> 'a list \<Rightarrow> nat \<times> 'a list" where
  "delete_first n p [] = (0, [])"
| "delete_first n p (r # rs) =
     (if 0 < n \<and> p r then (let (k, rs') = delete_first (n - 1) p rs in (Suc k, rs'))
      else (let (k, rs') = delete_first n p rs in (k, r # rs')))"

fun sweep_batches :: "(nat \<Rightarrow> int) \<Rightarrow> int \<Rightarrow> nat \<Rightarrow> nat \<Rightarrow> nat \<Rightarrow> inbox_row list \<Rightarrow> nat \<times> inbox_row list" where
  "sweep_batches now days batch_size 0 n rows = (n, rows)"
| "sweep_batches now days batch_size (Suc m) n rows =
     (let (deleted, rows') = delete_first batch_size (sweepable (now m) days) rows
      in if deleted < batch_size then (n + deleted, rows')
         else sweep_batches now days batch_size m (n + deleted) rows')"

definition sweep_old_rows :: "(nat \<Rightarrow> int) \<Rightarrow> int \<Rightarrow> nat \<Rightarrow> nat \<Rightarrow> billing \<Rightarrow> nat bres" where
  "sweep_old_rows now older_than_days batch_size max_batches b =
     (if older_than_days < BILLING_INBOX_MIN_RETENTION_DAYS then (Inl (BadArgument ''older_than_days is below the floor''), b)
      else (let (n, rows) = sweep_batches now older_than_days batch_size max_batches 0 (inbox b)
            in (Inr n, b\<lparr>inbox := rows\<rparr>)))"

end
