(* ===== verification/Webhook_Claims.thy ===== *)
theory Webhook_Claims
  imports Webhooks
begin

text \<open>
  Facts of the webhook inbox and the properties of money in: an event moves the tenant's credits
  once, a redelivery is a duplicate, and the sweep keeps what is still open.
\<close>

section \<open>Frame of the inbox statements\<close>

lemma update_row_frame [simp]:
  "wal (update_row ev f b) = wal b" "customers (update_row ev f b) = customers b" "products (update_row ev f b) = products b"
  by (simp_all add: update_row_def)

lemma find_row_update:
  assumes "\<And>r. in_provider (f r) = in_provider r" "\<And>r. in_event_id (f r) = in_event_id r"
  shows "find_row ev (update_row ev f b) = map_option f (find_row ev b)"
proof -
  let ?P = "\<lambda>r. in_provider r = ev_provider ev \<and> in_event_id r = ev_event_id ev"
  have "List.find ?P (map (\<lambda>r. if ?P r then f r else r) rs) = map_option f (List.find ?P rs)" for rs
    by (induction rs) (auto simp: assms)
  then show ?thesis by (simp add: find_row_def update_row_def)
qed

lemma finish_frame:
  "finish env ev st tn rs b = (r, b') \<Longrightarrow> wal b' = wal b \<and> customers b' = customers b \<and> products b' = products b"
  by (auto simp: finish_def split: option.splits if_splits)

lemma finish_as_Inr:
  assumes "finish_as env ev st tn rs out b = (Inr o', b')" "find_row ev b = Some r"
  shows "o' = out \<and> wal b' = wal b \<and> (\<exists>r'. find_row ev b' = Some r' \<and> in_status r' = st)"
  using assms by (auto simp: finish_as_def finish_def find_row_update split: if_splits)

lemma claim_Inr:
  assumes "claim env ev b = (Inr x, b')"
  shows "wal b' = wal b \<and> customers b' = customers b \<and> products b' = products b \<and> (\<exists>r. find_row ev b' = Some r)
    \<and> (x = None \<longleftrightarrow> (\<exists>r. find_row ev b = Some r \<and> terminal_status (in_status r))) \<and> (x = None \<longrightarrow> b' = b)"
  using assms
  by (auto simp: claim_def find_row_update split: option.splits if_splits)
    (auto simp: find_row_def new_row_def find_snoc)

lemma find_row_wal [simp]: "find_row ev (b\<lparr>wal := w\<rparr>) = find_row ev b"
  by (simp add: find_row_def)

lemma finish_as_wal:
  "finish_as env ev st tn rs out (b\<lparr>wal := w\<rparr>) = (Inr o', b') \<Longrightarrow> find_row ev b = Some r \<Longrightarrow>
   o' = out \<and> wal b' = w \<and> (\<exists>r'. find_row ev b' = Some r' \<and> in_status r' = st)"
  using finish_as_Inr [of env ev st tn rs out "b\<lparr>wal := w\<rparr>" o' b' r] by simp

section \<open>What an applied plan does\<close>

lemma apply_grant_cases:
  assumes "apply_grant env ev tenant p b = (Inr out, b')" "find_row ev b = Some r"
  shows "(\<exists>ex v. grant_in env tenant (webhook_grant ev p ex) (wal b) = (Inr v, wal b') \<and> out = O_applied
            \<and> (\<exists>r'. find_row ev b' = Some r' \<and> in_status r' = S_applied))
       \<or> (\<exists>ex d. grant_in env tenant (webhook_grant ev p ex) (wal b) = (Inl (IdempotencyConflict d), wal b') \<and> out = O_quarantined
            \<and> (\<exists>r'. find_row ev b' = Some r' \<and> in_status r' = S_quarantined))"
  using assms unfolding apply_grant_def
  by (auto split: sum.splits prod.splits wallet_error.splits dest!: finish_as_wal)

lemma apply_clawback_cases:
  assumes "apply_clawback env ev tenant l ref b = (Inr out, b')" "find_row ev b = Some r"
  obtains v where "clawback_in env tenant (Finite (gl_reclaimable l)) (clawback_key ev ref) (''webhook:'' @ ev_provider ev)
      (Some (kind_value (ev_kind ev))) (Some []) (wal b) = (Inr v, wal b')"
    "out = (case ap_status v of WDuplicate \<Rightarrow> O_ignored | WApplied \<Rightarrow> O_applied | _ \<Rightarrow> O_quarantined)"
    "\<exists>r'. find_row ev b' = Some r' \<and> terminal_status (in_status r')"
  using assms unfolding apply_clawback_def
  by (auto split: sum.splits prod.splits if_splits wstatus.splits dest!: finish_as_wal simp: terminal_status_def)

text \<open>The posting an event asks the wallet for: the linked tenant, the key and the signed credits.\<close>

definition event_posting :: "wallet_env \<Rightarrow> billing_event \<Rightarrow> billing \<Rightarrow> (str \<times> str \<times> rat) option" where
  "event_posting env ev b =
     (case event_tenant ev b of None \<Rightarrow> None | Some t \<Rightarrow>
        if paid (ev_kind ev) then
          map_option (\<lambda>p. (t, ev_provider ev @ '':'' @ ev_event_id ev, half_up 6 (pr_credits p))) (event_product ev (Some t) b)
        else map_option (\<lambda>l. (t, clawback_key ev (the (ev_payment_ref ev)), - half_up 6 (gl_reclaimable l))) (event_lot env ev (Some t) b))"

lemma credits_amount_half_up: "credits_amount (Finite x) = Inr c \<Longrightarrow> c = half_up 6 x"
  by (auto simp: credits_amount_def quantize_def split: if_splits)

lemma no_conflict:
  "compared c v = Inl e \<Longrightarrow> e \<noteq> IdempotencyConflict d" "credits_amount x = Inl e \<Longrightarrow> e \<noteq> IdempotencyConflict d"
  "insert_lot l db = (Inl e, db') \<Longrightarrow> e \<noteq> IdempotencyConflict d" "move tn tid i y db = (Inl e, db') \<Longrightarrow> e \<noteq> IdempotencyConflict d"
  by (auto simp: compared_def credits_amount_def quantize_def insert_lot_def move_def Let_def
      split: option.splits if_splits number_in.splits)

lemma repay_no_conflict: "repay_debt env tn tid i c db = (Inl e, db') \<Longrightarrow> e \<noteq> IdempotencyConflict d"
  by (auto simp: repay_debt_def overdraft_lot_def Let_def split: option.splits if_splits prod.splits sum.splits dest: no_conflict)

lemma begin_conflict:
  assumes "begin_transaction t rq flds db = (Inl (IdempotencyConflict d), db')"
  shows "db' = db \<and> (\<exists>old. find_txn (txn_tenant t) (txn_key t) db = Some old)"
  using assms by (auto simp: begin_transaction_def insert_txn_def Let_def split: if_splits option.splits)

text \<open>A conflict raised inside a caller's transaction leaves nothing behind.\<close>

lemma conflict_keeps_wallet:
  assumes ok: "wallet_ok db" and g: "grant_in env tenant a db = (Inl (IdempotencyConflict d), db')"
  shows "db' = db"
proof -
  from g obtain flds c where b: "begin_transaction (grant_txn env tenant a) (grant_rq tenant c a) flds
      (insert_account env tenant (g_actor a) db) = (Inl (IdempotencyConflict d), db')"
    unfolding grant_in_def
    by (auto split: sum.splits option.splits prod.splits dest!: no_conflict repay_no_conflict)
  from begin_conflict [OF b] have "db' = insert_account env tenant (g_actor a) db" "\<exists>old. find_txn tenant (g_key a) db = Some old"
    by (auto simp: grant_txn_def)
  moreover have "has_account tenant db" using calculation(2) ok find_txn_SomeD by (fastforce simp: wallet_ok_def)
  ultimately show ?thesis by (simp add: insert_account_def)
qed

text \<open>What one accepted event does to the account book.\<close>

lemma apply_grant_book:
  assumes ok: "wallet_ok (wal b)" and r: "find_row ev b = Some r"
    and a: "apply_grant env ev tenant p b = (Inr out, b')"
  shows "(out = O_applied \<and> abs_book (wal b') = book_post tenant (ev_provider ev @ '':'' @ ev_event_id ev) (half_up 6 (pr_credits p)) (abs_book (wal b))
      \<or> out = O_quarantined \<and> wal b' = wal b) \<and> (\<exists>r'. find_row ev b' = Some r' \<and> terminal_status (in_status r'))"
  using apply_grant_cases [OF a r]
proof (elim disjE exE conjE)
  fix ex v r' assume g: "grant_in env tenant (webhook_grant ev p ex) (wal b) = (Inr v, wal b')" "out = O_applied"
    "find_row ev b' = Some r'" "in_status r' = S_applied"
  obtain c where c: "credits_amount (g_amount (webhook_grant ev p ex)) = Inr c" using g(1) by (cases rule: grant_in_InrE) auto
  then have "c = half_up 6 (pr_credits p)" using credits_amount_half_up by (simp add: webhook_grant_def)
  then show ?thesis using grant_refines [OF ok g(1) c] g by (simp add: webhook_grant_def terminal_status_def)
next
  fix ex d r' assume "grant_in env tenant (webhook_grant ev p ex) (wal b) = (Inl (IdempotencyConflict d), wal b')" "out = O_quarantined"
    "find_row ev b' = Some r'" "in_status r' = S_quarantined"
  then show ?thesis using conflict_keeps_wallet [OF ok] by (auto simp: terminal_status_def)
qed

lemma apply_clawback_book:
  assumes ok: "wallet_ok (wal b)" and r: "find_row ev b = Some r"
    and a: "apply_clawback env ev tenant l ref b = (Inr out, b')"
  shows "(out \<in> {O_applied, O_ignored} \<and> abs_book (wal b') = book_post tenant (clawback_key ev ref) (- half_up 6 (gl_reclaimable l)) (abs_book (wal b))
      \<or> out = O_quarantined \<and> wal b' = wal b) \<and> (\<exists>r'. find_row ev b' = Some r' \<and> terminal_status (in_status r'))"
proof -
  from apply_clawback_cases [OF a r] obtain v where c: "clawback_in env tenant (Finite (gl_reclaimable l)) (clawback_key ev ref)
      (''webhook:'' @ ev_provider ev) (Some (kind_value (ev_kind ev))) (Some []) (wal b) = (Inr v, wal b')"
    and out: "out = (case ap_status v of WDuplicate \<Rightarrow> O_ignored | WApplied \<Rightarrow> O_applied | _ \<Rightarrow> O_quarantined)"
    and t: "\<exists>r'. find_row ev b' = Some r' \<and> terminal_status (in_status r')" .
  note d = c [unfolded clawback_in_def]
  show ?thesis
  proof (cases "ap_status v = WNoAccount \<or> ap_status v = WNothing")
    case True
    have "wal b' = wal b" using d by (cases rule: debit_in_InrE) (use True in \<open>auto simp: Applied_def\<close>)
    then show ?thesis using t out True by auto
  next
    case False
    obtain c where c: "credits_amount (Finite (gl_reclaimable l)) = Inr c" using d by (cases rule: debit_in_InrE) auto
    show ?thesis using debit_refines [OF ok d] c credits_amount_half_up [OF c] t out False by (auto split: wstatus.splits)
  qed
qed

lemma decide_grant: "pl_action (decide_event ev tn p l rc now hold) = A_grant \<Longrightarrow>
   paid (ev_kind ev) \<and> (\<exists>t. tn = Some t) \<and> (\<exists>q. p = Some q \<and> pr_active q) \<and> l = None"
  by (auto simp: decide_event_def Plan_def split: if_splits option.splits)

lemma decide_clawback: "pl_action (decide_event ev tn p l rc now hold) = A_clawback \<Longrightarrow>
   ev_kind ev = PAYMENT_REFUNDED \<and> (\<exists>t. tn = Some t) \<and> (\<exists>q. l = Some q)"
  by (cases "ev_kind ev") (auto simp: decide_event_def Plan_def paid_def split: if_splits option.splits)

lemma event_reads_frame:
  assumes "wal b' = wal b" "customers b' = customers b" "products b' = products b"
  shows "event_tenant ev b' = event_tenant ev b" "event_product ev tn b' = event_product ev tn b" "event_lot env ev tn b' = event_lot env ev tn b"
  using assms by (auto simp: event_tenant_def tenant_for_customer_def find_customer_def event_product_def get_product_def
      event_lot_def split: option.splits)

definition post_event :: "(str \<times> str \<times> rat) option \<Rightarrow> account_book \<Rightarrow> account_book" where
  "post_event p k = (case p of None \<Rightarrow> k | Some (t, key, x) \<Rightarrow> book_post t key x k)"

lemma apply_plan_book:
  assumes ok: "wallet_ok (wal b)" and r: "find_row ev b = Some r"
    and a: "apply_plan env ev (event_tenant ev b) (event_product ev (event_tenant ev b) b) (event_lot env ev (event_tenant ev b) b)
      (decide_event ev (event_tenant ev b) (event_product ev (event_tenant ev b) b) (event_lot env ev (event_tenant ev b) b) rc now hold) b
      = (Inr out, b')"
  shows "(wal b' = wal b \<and> out \<noteq> O_applied \<or> out \<in> {O_applied, O_ignored} \<and> abs_book (wal b') = post_event (event_posting env ev b) (abs_book (wal b)))
    \<and> (out = O_retry \<or> (\<exists>r'. find_row ev b' = Some r' \<and> terminal_status (in_status r')))"
proof -
  let ?t = "event_tenant ev b" and ?p = "event_product ev (event_tenant ev b) b" and ?l = "event_lot env ev (event_tenant ev b) b"
  let ?d = "decide_event ev ?t ?p ?l rc now hold"
  show ?thesis
  proof (cases "pl_action ?d")
    case A_grant
    from decide_grant [OF A_grant] obtain t q where x: "paid (ev_kind ev)" "?t = Some t" "?p = Some q" by auto
    then have "apply_grant env ev t q b = (Inr out, b')"
      using a A_grant by (cases "ev_payment_ref ev") (auto simp: apply_plan_def)
    from apply_grant_book [OF ok r this] show ?thesis using x by (auto simp: event_posting_def post_event_def)
  next
    case A_clawback
    from decide_clawback [OF A_clawback] obtain t q where x: "ev_kind ev = PAYMENT_REFUNDED" "?t = Some t" "?l = Some q" by auto
    then obtain ref where ref: "ev_payment_ref ev = Some ref" "apply_clawback env ev t q ref b = (Inr out, b')"
      using a A_clawback by (cases "ev_payment_ref ev") (auto simp: apply_plan_def)
    from apply_clawback_book [OF ok r ref(2)] show ?thesis using x ref(1) by (auto simp: event_posting_def post_event_def paid_def)
  qed (use a r in \<open>auto simp: apply_plan_def terminal_status_def dest!: finish_as_Inr\<close>)
qed

lemma process_book:
  assumes ok: "wallet_ok (wal b)" and p: "process cfg env ev b = (Inr out, b')"
  shows "(wal b' = wal b \<and> out \<noteq> O_applied \<or> out \<in> {O_applied, O_ignored} \<and> abs_book (wal b') = post_event (event_posting env ev b) (abs_book (wal b)))
    \<and> (out = O_retry \<or> (\<exists>r'. find_row ev b' = Some r' \<and> terminal_status (in_status r')))"
proof -
  from p obtain x b1 where c: "claim env ev b = (Inr x, b1)" by (auto simp: process_def split: prod.splits sum.splits)
  note f = claim_Inr [OF c]
  note reads = event_reads_frame [of b1 b]
  show ?thesis
  proof (cases x)
    case None
    then show ?thesis using p c f by (auto simp: process_def)
  next
    case (Some y)
    obtain rc now where y: "y = (rc, now)" by fastforce
    obtain r where r: "find_row ev b1 = Some r" using f by auto
    have ok1: "wallet_ok (wal b1)" using ok f by simp
    have "event_posting env ev b1 = event_posting env ev b" using reads f by (simp add: event_posting_def split: option.split)
    then show ?thesis using apply_plan_book [OF ok1 r, of env rc now "refund_hold_hours cfg * hour_us" out b'] p c Some y f
      by (simp add: process_def Let_def)
  qed
qed

lemma record_failure_wal: "record_failure cfg env lost ev cls b = (out, b') \<Longrightarrow> wal b' = wal b \<and> out \<in> {O_failed, O_quarantined, O_duplicate}"
  by (auto simp: record_failure_def Let_def split: if_splits option.splits prod.splits sum.splits dest!: finish_frame)

lemma terminal_duplicate:
  "find_row ev b = Some r \<Longrightarrow> terminal_status (in_status r) \<Longrightarrow> ev_provider ev \<noteq> [] \<Longrightarrow> ev_event_id ev \<noteq> [] \<Longrightarrow>
   process_event cfg env env' None lost ev b = (O_duplicate, b)"
  by (simp add: process_event_def process_def claim_def)

lemma record_failure_terminal:
  assumes "record_failure cfg env lost ev cls b = (out, b')" "out \<noteq> O_failed"
  shows "(\<exists>r. find_row ev b' = Some r \<and> terminal_status (in_status r)) \<and> ev_provider ev \<noteq> [] \<and> ev_event_id ev \<noteq> []"
proof -
  have q: "\<exists>r'. find_row ev b2 = Some r' \<and> terminal_status (in_status r')"
    if "finish env ev S_quarantined tn rs b1 = (Inr (), b2)" "find_row ev b1 = Some r1" for tn rs b1 b2 r1
    using that by (auto simp: finish_def find_row_update terminal_status_def split: if_splits)
  have n: "\<exists>r1. find_row ev (b\<lparr>inbox := inbox b @ [new_row ev now S_failed x]\<rparr>) = Some r1" for now x
    by (auto simp: find_row_def find_snoc new_row_def split: option.splits)
  show ?thesis
  proof (cases "find_row ev b")
    case None
    then show ?thesis using assms q n [of "db_now env" "Some cls"]
      by (auto simp: record_failure_def Let_def split: if_splits prod.splits sum.splits)
  next
    case (Some r)
    then show ?thesis using assms q
      by (cases "in_status r")
        (auto simp: record_failure_def Let_def find_row_update terminal_status_def split: if_splits prod.splits sum.splits)
  qed
qed

lemma process_names: "process cfg env ev b = (Inr out, b') \<Longrightarrow> ev_provider ev \<noteq> [] \<and> ev_event_id ev \<noteq> []"
  by (auto simp: process_def claim_def)

lemma process_wallet_cases:
  assumes ok: "wallet_ok (wal b)" and "process cfg env ev b = (Inr out, b')"
  shows "wal b' = wal b \<or> (\<exists>t a v. grant_in env t a (wal b) = (Inr v, wal b')) \<or> (\<exists>t a v. debit_in env t a (wal b) = (Inr v, wal b'))"
proof -
  from assms(2) obtain x b1 where c: "claim env ev b = (Inr x, b1)" by (auto simp: process_def split: prod.splits sum.splits)
  note f = claim_Inr [OF c]
  obtain r where r: "find_row ev b1 = Some r" using f by auto
  have g: "wal b' = wal b \<or> (\<exists>t a v. grant_in env t a (wal b) = (Inr v, wal b'))" if "apply_grant env ev t p b1 = (Inr out, b')" for t p
    using apply_grant_cases [OF that r] f conflict_keeps_wallet [OF ok] by auto
  have k: "\<exists>t a v. debit_in env t a (wal b) = (Inr v, wal b')" if "apply_clawback env ev t l y b1 = (Inr out, b')" for t l y
    using that r
  proof (rule apply_clawback_cases)
    fix v assume "clawback_in env t (Finite (gl_reclaimable l)) (clawback_key ev y) (''webhook:'' @ ev_provider ev)
      (Some (kind_value (ev_kind ev))) (Some []) (wal b1) = (Inr v, wal b')"
    then show ?thesis using f unfolding clawback_in_def by metis
  qed
  have p: ?thesis if "apply_plan env ev tn pr l pln b1 = (Inr out, b')" for tn pr l pln
    using that r f g k
    by (cases "pl_action pln") (auto simp: apply_plan_def split: option.splits dest!: finish_as_Inr)
  show ?thesis using assms(2) c f p by (auto simp: process_def Let_def split: option.splits prod.splits)
qed

lemma process_event_wallet_inv:
  assumes "wallet_inv (wal b, db_now env)" "process_event cfg env env' fault lost ev b = (out, b')"
  shows "wallet_inv (wal b', db_now env)"
proof (cases "\<exists>o'. fault = None \<and> fst (process cfg env ev b) = Inr o'")
  case True
  have ok: "wallet_ok (wal b)" using assms(1) by (simp add: wallet_inv_def)
  from True have p: "process cfg env ev b = (Inr out, b')" using assms(2) by (auto simp: process_event_def split: prod.splits)
  show ?thesis using process_wallet_cases [OF ok p] assms(1) by (metis wallet_inv_grant wallet_inv_debit)
next
  case False
  then have "\<exists>cls. record_failure cfg env' lost ev cls b = (out, b')"
    using assms(2) by (auto simp: process_event_def split: option.splits prod.splits sum.splits)
  then show ?thesis using record_failure_wal assms(1) by auto
qed

subsection \<open>Retention\<close>

lemma delete_first_keeps:
  "delete_first n p rs = (k, rs') \<Longrightarrow> subseq rs' rs \<and> filter (\<lambda>r. \<not> p r) rs' = filter (\<lambda>r. \<not> p r) rs \<and> length rs' + k = length rs \<and> k \<le> n"
proof (induction n p rs arbitrary: k rs' rule: delete_first.induct)
  case (2 n p r rs)
  then show ?case by (cases "0 < n \<and> p r") (fastforce split: prod.splits)+
qed simp

lemma filter_keeps_weaker:
  assumes "filter (\<lambda>r. \<not> p r) rs' = filter (\<lambda>r. \<not> p r) rs" "\<And>r. q r \<Longrightarrow> \<not> p r"
  shows "filter q rs' = filter q rs"
proof -
  have "filter q xs = filter q (filter (\<lambda>r. \<not> p r) xs)" for xs by (induction xs) (auto dest: assms(2))
  then show ?thesis using assms(1) by metis
qed

definition open_question :: "inbox_row \<Rightarrow> bool" where
  "open_question r \<longleftrightarrow> in_status r \<in> {S_received, S_failed, S_quarantined}"

lemma sweep_batches_keeps:
  "sweep_batches now days bs m n rs = (k, rs') \<Longrightarrow> subseq rs' rs \<and> filter open_question rs' = filter open_question rs \<and> length rs' + k = length rs + n"
proof (induction now days bs m n rs arbitrary: k rs' rule: sweep_batches.induct)
  case (2 now days bs m n rs)
  obtain d rs1 where d: "delete_first bs (sweepable (now m) days) rs = (d, rs1)" by fastforce
  note e = delete_first_keeps [OF d]
  have q: "filter open_question rs1 = filter open_question rs"
  proof (rule filter_keeps_weaker)
    show "filter (\<lambda>r. \<not> sweepable (now m) days r) rs1 = filter (\<lambda>r. \<not> sweepable (now m) days r) rs" using e by auto
    show "\<not> sweepable (now m) days r" if "open_question r" for r using that by (auto simp: open_question_def sweepable_def)
  qed
  show ?case
  proof (cases "d < bs")
    case True
    then show ?thesis using 2(2) d e q by auto
  next
    case False
    then have "sweep_batches now days bs m (n + d) rs1 = (k, rs')" using 2(2) d by simp
    then show ?thesis using 2(1) [OF d [symmetric] refl False] e q by (auto intro: subseq_order.order_trans)
  qed
qed simp

section \<open>A small shop\<close>

text \<open>One linked customer, one product of 500 credits, a delivery of its purchase.\<close>

definition sample_billing :: billing where
  "sample_billing = \<lparr>wal = empty_wallet, customers = [\<lparr>cu_tenant = ''acme'', cu_provider = ''fake'', cu_ref = ''c1''\<rparr>],
     products = [\<lparr>pr_provider = ''fake'', pr_ref = ''p1'', pr_credits = 500, pr_expires_after_days = None, pr_active = True\<rparr>],
     inbox = []\<rparr>"

definition sample_purchase :: billing_event where
  "sample_purchase = \<lparr>ev_provider = ''fake'', ev_event_id = ''e1'', ev_kind = CREDITS_PURCHASED, ev_customer_ref = Some ''c1'',
     ev_product_ref = Some ''p1'', ev_payment_ref = Some ''pay1'', ev_amount_minor = Some 999, ev_currency = Some ''usd'',
     ev_occurred_at = Some 0, ev_raw_type = ''order.paid''\<rparr>"

definition sample_webhook_cfg :: webhook_settings where
  "sample_webhook_cfg = \<lparr>refund_hold_hours = 24, webhook_max_attempts = 5\<rparr>"

definition sample_granted :: billing where
  "sample_granted = snd (process_event sample_webhook_cfg (sample_env 100 ''1'') (sample_env 100 ''9'') None False sample_purchase sample_billing)"

lemma sample_delivery:
  "process_event sample_webhook_cfg (sample_env 100 ''1'') (sample_env 100 ''9'') None False sample_purchase sample_billing
    = (O_applied, sample_granted)"
proof -
  have "fst (process_event sample_webhook_cfg (sample_env 100 ''1'') (sample_env 100 ''9'') None False sample_purchase sample_billing)
      = O_applied" by code_simp
  then show ?thesis by (metis prod.collapse sample_granted_def)
qed

section \<open>Properties\<close>

text \<open>C7. A webhook moves only the linked tenant's money, by the catalogue's figure, once. Whatever a
  delivery does (and whatever fault it meets), either the wallet is unchanged and the outcome is not
  \<open>applied\<close>, or the outcome is \<open>applied\<close> or \<open>ignored\<close> and the wallet's account book changed by exactly one posting: for the tenant the
  app itself linked to the event's customer, under the key of the event (a grant of the catalogue's
  credits) or of the payment (a clawback of what the grant of that payment can still return). A posting
  under a key already used changes no balance, and nothing in the payload names a tenant or an amount.\<close>

theorem webhook_moves_linked_money_once:
  assumes "wallet_ok (wal b)" and "process_event cfg env env' fault lost ev b = (out, b')"
  shows "wal b' = wal b \<and> out \<noteq> O_applied
    \<or> out \<in> {O_applied, O_ignored} \<and> abs_book (wal b') = post_event (event_posting env ev b) (abs_book (wal b))"
proof (cases "\<exists>o'. fault = None \<and> fst (process cfg env ev b) = Inr o'")
  case True
  then show ?thesis using assms(2) process_book [OF assms(1)]
    by (auto simp: process_event_def split: prod.splits)
next
  case False
  then have "\<exists>cls. record_failure cfg env' lost ev cls b = (out, b')"
    using assms(2) by (auto simp: process_event_def split: option.splits prod.splits sum.splits)
  then show ?thesis using record_failure_wal by blast
qed

theorem webhook_moves_linked_money_once_witness:
  "process_event sample_webhook_cfg (sample_env 100 ''1'') (sample_env 100 ''9'') None False sample_purchase sample_billing
     = (O_applied, sample_granted)
   \<and> ledger_of ''acme'' (wal sample_granted) = 500"
proof -
  have ok: "wallet_ok (wal sample_billing)" by (simp add: sample_billing_def)
  have "event_posting (sample_env 100 ''1'') sample_purchase sample_billing = Some (''acme'', ''fake:e1'', 500)" by code_simp
  then have "abs_book (wal sample_granted) = book_post ''acme'' ''fake:e1'' 500 (abs_book empty_wallet)"
    using webhook_moves_linked_money_once [OF ok sample_delivery] by (simp add: post_event_def sample_billing_def)
  then have "book_balance (abs_book (wal sample_granted)) ''acme'' = 500"
    by (simp add: book_post_balance) (simp add: abs_book_def empty_wallet_def ledger_of_def tenant_lots_def)
  then show ?thesis using sample_delivery by (simp add: abs_book_def)
qed

text \<open>A delivery that finished is finished for good. Once a delivery of an event was answered
  \<open>applied\<close>, \<open>ignored\<close>, \<open>duplicate\<close> or \<open>quarantined\<close>, every later delivery of the same event that reaches
  the database is answered \<open>duplicate\<close> and changes nothing, in the wallet or in the inbox.\<close>

theorem webhook_redelivery_is_duplicate:
  assumes "wallet_ok (wal b)" and "process_event cfg env env' fault lost ev b = (out, b')"
    and "out \<in> {O_applied, O_ignored, O_quarantined, O_duplicate}"
  shows "process_event cfg env2 env2' None lost2 ev b' = (O_duplicate, b')"
proof (cases "\<exists>o'. fault = None \<and> fst (process cfg env ev b) = Inr o'")
  case True
  then have p: "process cfg env ev b = (Inr out, b')" using assms(2) by (auto simp: process_event_def split: prod.splits)
  then show ?thesis using process_book [OF assms(1) p] process_names [OF p] terminal_duplicate assms(3) by auto
next
  case False
  then obtain cls where "record_failure cfg env' lost ev cls b = (out, b')"
    using assms(2) by (auto simp: process_event_def split: option.splits prod.splits sum.splits)
  then show ?thesis using record_failure_terminal terminal_duplicate assms(3) by blast
qed

theorem webhook_redelivery_is_duplicate_witness:
  "process_event sample_webhook_cfg (sample_env 200 ''2'') (sample_env 200 ''8'') None False sample_purchase sample_granted
     = (O_duplicate, sample_granted)"
proof -
  have ok: "wallet_ok (wal sample_billing)" by (simp add: sample_billing_def)
  show ?thesis using webhook_redelivery_is_duplicate [OF ok sample_delivery] by simp
qed

text \<open>Retention never deletes an open question. A sweep of the inbox, with any age, batch size and
  number of batches, keeps every row that is received, failed or quarantined, in order, removes exactly
  as many rows as it reports, never touches the wallet, and refuses an age below the floor.\<close>

theorem inbox_sweep_keeps_open_questions:
  "(case sweep_old_rows now days batch_size max_batches b of
      (Inl e, b') \<Rightarrow> days < 30 \<and> b' = b
    | (Inr n, b') \<Rightarrow> 30 \<le> days \<and> wal b' = wal b \<and> subseq (inbox b') (inbox b) \<and> length (inbox b') + n = length (inbox b)
        \<and> filter open_question (inbox b') = filter open_question (inbox b))"
  using sweep_batches_keeps [of now days batch_size max_batches 0 "inbox b"]
  by (auto simp: sweep_old_rows_def BILLING_INBOX_MIN_RETENTION_DAYS_def split: prod.splits)

end
