(* ===== verification/Usage_Billing.thy ===== *)
theory Usage_Billing
  imports Webhook_Claims
begin

text \<open>
  Recording billable usage (\<open>credit_billing/usage.py\<close>), the credit gate (\<open>credit_billing/admission.py\<close>,
  \<open>credit_billing/port.py\<close>) and the wallet reconciliation (\<open>credit_billing/reconcile.py\<close>), over the tables
  of \<open>sql/24-billing-usage-events.sql\<close> and \<open>sql/25-billing-export-outbox.sql\<close>. Operational faults of the
  database are arguments: which of the three savepoints of one call dies.
\<close>

section \<open>Tables\<close>

record usage_event =
  ue_tenant :: str
  ue_event_id :: str
  ue_kind :: str
  ue_occurred_at :: int
  ue_recorded_at :: int
  ue_cost_usd :: "rat option"
  ue_credits :: "rat option"
  ue_credits_per_usd :: "rat option"
  ue_markup :: "rat option"
  ue_model :: "str option"
  ue_tokens :: "int option"

datatype outbox_status = OB_pending | OB_sent | OB_expired | OB_failed

record outbox_row =
  ob_provider :: str
  ob_tenant :: str
  ob_event_id :: str
  ob_status :: outbox_status
  ob_attempts :: nat
  ob_next_attempt_at :: int
  ob_last_error_class :: "str option"
  ob_created_at :: int
  ob_sent_at :: "int option"

record meter =
  mt_billing :: billing
  usage_events :: "usage_event list"
  outbox :: "outbox_row list"

record usage_settings =
  us_credits_per_usd :: "rat option"
  us_markup :: rat
  us_providers :: "str list"
  us_enforcement :: bool
  us_fail_closed :: bool

text \<open>The adapters of \<open>providers/__init__.py\<close> and the ones that declare \<open>USAGE_EXPORT\<close>.\<close>

definition FACTORIES :: "(str \<times> bool) list" where
  "FACTORIES = [(''fake'', True), (''stripe'', False), (''polar'', False)]"

definition usage_export_providers :: "str list \<Rightarrow> str list" where
  "usage_export_providers names = filter (\<lambda>n. map_of FACTORIES n = Some True) names"

section \<open>Rating\<close>

record usage =
  u_tenant :: str
  u_event_id :: str
  u_kind :: str
  u_cost_usd :: "number_in option"
  u_model :: "str option"
  u_tokens :: "int option"

definition valid_usage :: "usage_settings \<Rightarrow> usage \<Rightarrow> wallet_error + (rat option \<times> rat option)" where
  "valid_usage cfg u =
     (if strip (u_tenant u) = [] then Inl (BadArgument ''tenant must be a non-blank string'')
      else if strip (u_event_id u) = [] then Inl (BadArgument ''event_id must be a non-blank string'')
      else if strip (u_kind u) = [] then Inl (BadArgument ''kind must be a non-blank string'')
      else if (case u_tokens u of None \<Rightarrow> False | Some n \<Rightarrow> n < 0) then Inl (BadArgument ''tokens must be a non-negative integer'')
      else (case u_cost_usd u of
          None \<Rightarrow> Inr (None, None)
        | Some NotFinite \<Rightarrow> Inl (BadArgument ''cost_usd must be a finite number'')
        | Some (Finite x) \<Rightarrow>
            (case quantize 12 x of
               Inl _ \<Rightarrow> Inl (BadArgument ''cost_usd must be a finite number'')
             | Inr cost \<Rightarrow>
                 if cost < 0 then Inl (BadArgument ''cost_usd must not be negative'')
                 else (case us_credits_per_usd cfg of
                     None \<Rightarrow> Inr (Some cost, None)
                   | Some rate \<Rightarrow>
                       (case credits_for_cost (Finite cost) rate (us_markup cfg) of
                          Inl e \<Rightarrow> Inl e
                        | Inr c \<Rightarrow> Inr (Some cost, Some c))))))"

section \<open>Recording\<close>

datatype recorded_status = R_recorded | R_duplicate | R_off | R_failed

record recorded =
  rc_status :: recorded_status
  rc_credits :: "rat option"
  rc_debit :: "applied option"

definition Recorded :: "recorded_status \<Rightarrow> rat option \<Rightarrow> applied option \<Rightarrow> recorded" where
  "Recorded st c d = \<lparr>rc_status = st, rc_credits = c, rc_debit = d\<rparr>"

definition opt_all :: "('a \<Rightarrow> bool) \<Rightarrow> 'a option \<Rightarrow> bool" where
  "opt_all p v = (case v of None \<Rightarrow> True | Some x \<Rightarrow> p x)"

text \<open>The column types and checks of \<open>billing_usage_events\<close>.\<close>

definition usage_row_fits :: "usage_event \<Rightarrow> bool" where
  "usage_row_fits e \<longleftrightarrow> opt_all (fits_numeric 12) (ue_cost_usd e) \<and> opt_all (fits_numeric 6) (ue_credits e)
     \<and> opt_all (fits_numeric 6) (ue_credits_per_usd e) \<and> opt_all (fits_numeric 6) (ue_markup e)
     \<and> opt_all (\<lambda>n. n < 2 ^ 31) (ue_tokens e)"

definition usage_row_checks :: "usage_event \<Rightarrow> bool" where
  "usage_row_checks e \<longleftrightarrow> ue_tenant e \<noteq> [] \<and> ue_event_id e \<noteq> [] \<and> ue_kind e \<noteq> []
     \<and> opt_all (\<lambda>x. 0 \<le> x) (ue_cost_usd e) \<and> opt_all (\<lambda>x. 0 \<le> x) (ue_credits e)
     \<and> opt_all (\<lambda>x. 0 < half_up 6 x) (ue_credits_per_usd e) \<and> opt_all (\<lambda>x. 0 < half_up 6 x) (ue_markup e)
     \<and> opt_all (\<lambda>n. 0 \<le> n) (ue_tokens e)
     \<and> (ue_credits e = None \<or> ue_credits_per_usd e \<noteq> None \<and> ue_markup e \<noteq> None)"

definition find_event :: "str \<Rightarrow> str \<Rightarrow> meter \<Rightarrow> usage_event option" where
  "find_event tenant event_id m = List.find (\<lambda>e. ue_tenant e = tenant \<and> ue_event_id e = event_id) (usage_events m)"

definition usage_row :: "usage_settings \<Rightarrow> wallet_env \<Rightarrow> usage \<Rightarrow> rat option \<Rightarrow> rat option \<Rightarrow> usage_event" where
  "usage_row cfg env u cost worth = \<lparr>ue_tenant = u_tenant u, ue_event_id = u_event_id u, ue_kind = u_kind u,
     ue_occurred_at = db_now env, ue_recorded_at = db_now env, ue_cost_usd = cost, ue_credits = worth,
     ue_credits_per_usd = us_credits_per_usd cfg,
     ue_markup = (if us_credits_per_usd cfg \<noteq> None then Some (us_markup cfg) else None),
     ue_model = u_model u, ue_tokens = u_tokens u\<rparr>"

text \<open>\<open>_charge\<close>: the debit in a savepoint of its own; a fault undoes only the debit.\<close>

definition usage_debit :: "usage \<Rightarrow> rat \<Rightarrow> pricing \<Rightarrow> debit_args" where
  "usage_debit u worth pr = \<lparr>d_amount = Finite worth, d_key = u_event_id u, d_usage_event_id = Some (u_event_id u), d_actor = ''system'',
     d_reason = Some (''usage ('' @ u_kind u @ '')''), d_kind = ''debit'', d_pricing = Some pr, d_compare = None\<rparr>"

definition charge :: "wallet_env \<Rightarrow> bool \<Rightarrow> usage \<Rightarrow> rat \<Rightarrow> pricing \<Rightarrow> wallet \<Rightarrow> applied option \<times> wallet" where
  "charge env debit_fault u worth pr w =
     (if debit_fault then (None, w)
      else (case in_transaction (debit_in env (u_tenant u) (usage_debit u worth pr)) w of
          (Inl e, w') \<Rightarrow> (None, w')
        | (Inr v, w') \<Rightarrow> (Some v, w')))"

text \<open>\<open>_enqueue\<close>: one pending row per linked exporter, in a savepoint of its own.\<close>

definition outbox_key :: "outbox_row \<Rightarrow> str \<times> str \<times> str" where
  "outbox_key o' = (ob_provider o', ob_tenant o', ob_event_id o')"

definition pending_row :: "wallet_env \<Rightarrow> str \<Rightarrow> str \<Rightarrow> str \<Rightarrow> outbox_row" where
  "pending_row env provider tenant event_id = \<lparr>ob_provider = provider, ob_tenant = tenant, ob_event_id = event_id,
     ob_status = OB_pending, ob_attempts = 0, ob_next_attempt_at = db_now env, ob_last_error_class = None,
     ob_created_at = db_now env, ob_sent_at = None\<rparr>"

fun insert_missing :: "outbox_row list \<Rightarrow> outbox_row list \<Rightarrow> outbox_row list" where
  "insert_missing rows [] = rows"
| "insert_missing rows (n # ns) =
     insert_missing (if outbox_key n \<in> set (map outbox_key rows) then rows else rows @ [n]) ns"

definition enqueue :: "wallet_env \<Rightarrow> bool \<Rightarrow> usage \<Rightarrow> str list \<Rightarrow> meter \<Rightarrow> meter" where
  "enqueue env enqueue_fault u exporters m =
     (if enqueue_fault then m
      else m\<lparr>outbox := insert_missing (outbox m)
        (map (\<lambda>c. pending_row env (cu_provider c) (u_tenant u) (u_event_id u))
          (filter (\<lambda>c. cu_tenant c = u_tenant u \<and> cu_provider c \<in> set exporters) (customers (mt_billing m))))\<rparr>)"

record usage_faults =
  write_fault :: bool
  debit_fault :: bool
  enqueue_fault :: bool

text \<open>The debit step of \<open>record_usage_in\<close>: only a priced event with a rate is charged.\<close>

definition usage_wallet :: "usage_settings \<Rightarrow> wallet_env \<Rightarrow> usage_faults \<Rightarrow> usage \<Rightarrow> rat option \<Rightarrow> rat option \<Rightarrow> wallet \<Rightarrow> applied option \<times> wallet" where
  "usage_wallet cfg env flt u cost worth w = (case (worth, us_credits_per_usd cfg, cost) of
      (Some x, Some r, Some c) \<Rightarrow> charge env (debit_fault flt) u x \<lparr>cost_usd = c, credits_per_usd = r, markup = us_markup cfg\<rparr> w
    | _ \<Rightarrow> (None, w))"

definition with_wallet :: "wallet \<Rightarrow> meter \<Rightarrow> meter" where
  "with_wallet w m = m\<lparr>mt_billing := (mt_billing m)\<lparr>wal := w\<rparr>\<rparr>"

definition record_usage_in :: "usage_settings \<Rightarrow> wallet_env \<Rightarrow> usage_faults \<Rightarrow> usage \<Rightarrow> meter \<Rightarrow> (wallet_error + recorded) \<times> meter" where
  "record_usage_in cfg env flt u m =
     (let exporters = usage_export_providers (us_providers cfg); rate = us_credits_per_usd cfg
      in if rate = None \<and> exporters = [] then (Inr (Recorded R_off None None), m)
         else (case valid_usage cfg u of
             Inl (BadArgument _) \<Rightarrow> (Inr (Recorded R_failed None None), m)
           | Inl e \<Rightarrow> (Inl e, m)
           | Inr (cost, worth) \<Rightarrow>
               let row = usage_row cfg env u cost worth
               in if write_fault flt \<or> \<not> usage_row_fits row \<or> \<not> usage_row_checks row then (Inr (Recorded R_failed None None), m)
                  else if find_event (u_tenant u) (u_event_id u) m \<noteq> None then (Inr (Recorded R_duplicate None None), m)
                  else
                    let m1 = m\<lparr>usage_events := usage_events m @ [row]\<rparr>;
                        (debit, w) = usage_wallet cfg env flt u cost worth (wal (mt_billing m));
                        m2 = with_wallet w m1;
                        m3 = (if exporters \<noteq> [] then enqueue env (enqueue_fault flt) u exporters m2 else m2)
                    in (Inr (Recorded R_recorded worth debit), m3)))"

section \<open>The gate\<close>

datatype admission_status = AD_allowed | AD_exhausted | AD_unavailable | AD_degraded

record admission =
  ad_status :: admission_status
  ad_available :: "rat option"
  ad_reserved :: "rat option"

definition Admission :: "admission_status \<Rightarrow> rat option \<Rightarrow> rat option \<Rightarrow> admission" where
  "Admission st av rs = \<lparr>ad_status = st, ad_available = av, ad_reserved = rs\<rparr>"

definition refused :: "admission \<Rightarrow> bool" where
  "refused a \<longleftrightarrow> ad_status a = AD_exhausted \<or> ad_status a = AD_unavailable"

text \<open>\<open>read\<close> is what reading the wallet gives: \<open>None\<close> is a fault; \<open>reserved_usd\<close> is the caller's holds.\<close>

definition admit :: "usage_settings \<Rightarrow> (balance option) option \<Rightarrow> number_in \<Rightarrow> wallet_error + admission" where
  "admit cfg read reserved_usd =
     (if \<not> us_enforcement cfg then Inr (Admission AD_allowed None None)
      else (case us_credits_per_usd cfg of
          None \<Rightarrow> Inl (RuntimeFault ''RuntimeError'')
        | Some rate \<Rightarrow>
            (case read of
               None \<Rightarrow> Inr (Admission (if us_fail_closed cfg then AD_unavailable else AD_degraded) None None)
             | Some None \<Rightarrow> Inr (Admission AD_allowed None None)
             | Some (Some b) \<Rightarrow>
                 (case credits_for_cost reserved_usd rate (us_markup cfg) of
                    Inl e \<Rightarrow> Inl e
                  | Inr reserved \<Rightarrow>
                      if available b - reserved > 0 then Inr (Admission AD_allowed None None)
                      else Inr (Admission AD_exhausted (Some (available b)) (Some reserved))))))"

record credit_summary_rec =
  cs_balance :: balance
  cs_enforced :: bool

definition credit_summary :: "usage_settings \<Rightarrow> int \<Rightarrow> str \<Rightarrow> wallet \<Rightarrow> credit_summary_rec option" where
  "credit_summary cfg now tenant w =
     (if us_credits_per_usd cfg = None then None
      else map_option (\<lambda>b. \<lparr>cs_balance = b, cs_enforced = us_enforcement cfg\<rparr>) (account_balance_in now tenant w))"

section \<open>Reconciliation\<close>

record window =
  win_start :: int
  win_end :: int

definition window_empty :: "window \<Rightarrow> bool" where
  "window_empty w \<longleftrightarrow> win_end w < win_start w"

text \<open>Whole UTC days back to midnight, up to \<open>settle_seconds\<close> ago, at whole seconds.\<close>

definition default_window :: "int \<Rightarrow> int \<Rightarrow> int \<Rightarrow> window" where
  "default_window now lookback_days settle_seconds =
     \<lparr>win_start = ((now - (lookback_days - 1) * day_us) div day_us) * day_us,
      win_end = ((now - settle_seconds * 1000000) div 1000000) * 1000000\<rparr>"

record reconcile_finding =
  rf_tenant :: str
  rf_day :: int
  rf_events :: nat
  rf_credits :: rat
  rf_usd :: rat

definition uncharged :: "window \<Rightarrow> meter \<Rightarrow> usage_event \<Rightarrow> bool" where
  "uncharged w m e \<longleftrightarrow>
     list_ex (\<lambda>a. acc_tenant a = ue_tenant e \<and> acc_created_at a \<le> ue_recorded_at e) (accounts (wal (mt_billing m)))
     \<and> win_start w \<le> ue_occurred_at e \<and> ue_occurred_at e \<le> win_end w
     \<and> (case ue_credits e of None \<Rightarrow> False | Some c \<Rightarrow> 0 < c)
     \<and> find_txn (ue_tenant e) (ue_event_id e) (wal (mt_billing m)) = None"

definition opt_rat :: "rat option \<Rightarrow> rat" where
  "opt_rat v = (case v of None \<Rightarrow> 0 | Some x \<Rightarrow> x)"

definition event_day :: "usage_event \<Rightarrow> int" where
  "event_day e = ue_occurred_at e div day_us"

definition uncharged_by_tenant_day :: "window \<Rightarrow> meter \<Rightarrow> reconcile_finding list" where
  "uncharged_by_tenant_day w m =
     (let rows = filter (uncharged w m) (usage_events m);
          groups = remdups (map (\<lambda>e. (ue_tenant e, event_day e)) rows);
          finding = (\<lambda>(t, d). let es = filter (\<lambda>e. ue_tenant e = t \<and> event_day e = d) rows
             in \<lparr>rf_tenant = t, rf_day = d, rf_events = length es, rf_credits = sum_list (map (opt_rat \<circ> ue_credits) es),
                 rf_usd = sum_list (map (opt_rat \<circ> ue_cost_usd) es)\<rparr>)
      in sort_key (\<lambda>f. (- rf_usd f, rf_tenant f, rf_day f)) (map finding groups))"

definition wallet_totals :: "int \<Rightarrow> str option \<Rightarrow> wallet \<Rightarrow> rat \<times> rat" where
  "wallet_totals now tenant db =
     (let rows = filter (\<lambda>l. tenant = None \<or> tenant = Some (lot_tenant l)) (lots db)
      in (sum_list (map lot_remaining (filter (lot_live now) rows)),
          - sum_list (map lot_remaining (filter (\<lambda>l. lot_source l = ''overdraft'') rows))))"

record report =
  rp_window :: window
  rp_findings :: "reconcile_finding list"
  rp_tenants :: nat
  rp_events :: nat
  rp_skipped :: "str list"
  rp_outstanding :: "(rat \<times> rat) option"

definition events_in :: "window \<Rightarrow> meter \<Rightarrow> nat \<times> nat" where
  "events_in w m =
     (let es = filter (\<lambda>e. win_start w \<le> ue_occurred_at e \<and> ue_occurred_at e \<le> win_end w) (usage_events m)
      in (length es, length (remdups (map ue_tenant es))))"

definition reconcile :: "int \<Rightarrow> window \<Rightarrow> meter \<Rightarrow> report" where
  "reconcile now w m =
     (if window_empty w then
        \<lparr>rp_window = w, rp_findings = [], rp_tenants = 0, rp_events = 0, rp_skipped = [''window: it is empty''], rp_outstanding = None\<rparr>
      else (let (events, tenants) = events_in w m
            in \<lparr>rp_window = w, rp_findings = uncharged_by_tenant_day w m, rp_tenants = tenants, rp_events = events, rp_skipped = [],
                rp_outstanding = Some (wallet_totals now None (wal (mt_billing m)))\<rparr>))"

definition report_outcome :: "report \<Rightarrow> str" where
  "report_outcome r = (if rp_findings r \<noteq> [] then ''drift'' else ''ok'')"

end
