(* ===== verification/Usage_Export.thy ===== *)
theory Usage_Export
  imports Usage_Billing "HOL-Library.AList"
begin

text \<open>
  Money out: the export worker (\<open>credit_billing/export.py\<close>) and the retention of usage events
  (\<open>credit_billing/retention.py\<close>). The providers' adapters are code outside this development: \<open>send\<close> is
  the answer an adapter gives to one call, or the class name of the exception (or timeout) it died of.
  Rows another worker holds (\<open>FOR UPDATE SKIP LOCKED\<close>) are the argument \<open>locked\<close>.
\<close>

section \<open>Verdicts\<close>

record export_usage =
  xu_event_id :: str
  xu_occurred_at :: int
  xu_credits :: "rat option"
  xu_cost_usd :: "rat option"
  xu_model :: "str option"
  xu_total_tokens :: int

record due =
  du_event_id :: str
  du_tenant :: str
  du_attempts :: nat
  du_customer_ref :: "str option"
  du_usage :: export_usage

datatype verdict_status = V_sent | V_pending | V_failed

record verdict =
  vd_status :: verdict_status
  vd_delay_seconds :: int
  vd_error :: "str option"

record export_result =
  er_accepted :: "str list"
  er_duplicate :: "str list"
  er_failed :: "(str \<times> bool) list"

definition backoff_seconds :: "nat \<Rightarrow> int \<Rightarrow> int \<Rightarrow> int" where
  "backoff_seconds failures base cap = min (base * 2 ^ min (max failures 1 - 1) 30) cap"

definition retry_verdict :: "nat \<Rightarrow> int \<Rightarrow> int \<Rightarrow> due \<Rightarrow> str \<Rightarrow> verdict" where
  "retry_verdict max_attempts base cap d reason =
     (let failures = du_attempts d + 1
      in if failures \<ge> max_attempts
         then \<lparr>vd_status = V_failed, vd_delay_seconds = 0, vd_error = Some (take 100 (''attempts_exhausted:'' @ reason))\<rparr>
         else \<lparr>vd_status = V_pending, vd_delay_seconds = backoff_seconds failures base cap, vd_error = Some (take 100 reason)\<rparr>)"

definition verdict_for :: "nat \<Rightarrow> int \<Rightarrow> int \<Rightarrow> str + export_result \<Rightarrow> due \<Rightarrow> verdict" where
  "verdict_for max_attempts base cap answer d = (case answer of
       Inl err \<Rightarrow> retry_verdict max_attempts base cap d err
     | Inr result \<Rightarrow>
         (case map_of (rev (er_failed result)) (du_event_id d) of
            Some retryable \<Rightarrow>
              if retryable then retry_verdict max_attempts base cap d ''provider_retryable''
              else \<lparr>vd_status = V_failed, vd_delay_seconds = 0, vd_error = Some ''provider_permanent''\<rparr>
          | None \<Rightarrow>
              if du_event_id d \<in> set (er_accepted result) \<union> set (er_duplicate result)
              then \<lparr>vd_status = V_sent, vd_delay_seconds = 0, vd_error = None\<rparr>
              else retry_verdict max_attempts base cap d ''unreported''))"

definition verdicts :: "nat \<Rightarrow> int \<Rightarrow> int \<Rightarrow> str + export_result \<Rightarrow> due list \<Rightarrow> (str \<times> verdict) list" where
  "verdicts max_attempts base cap answer batch =
     fold (\<lambda>d out. AList.update (du_event_id d) (verdict_for max_attempts base cap answer d) out) batch []"

section \<open>One pass\<close>

record export_settings =
  xs_batch_size :: nat
  xs_max_attempts :: nat
  xs_base :: int
  xs_cap :: int
  xs_max_age_days :: int

text \<open>\<open>_expire\<close>: the pending rows, of the providers served, whose event is past the age limit.\<close>

definition over_age :: "int \<Rightarrow> int \<Rightarrow> str list \<Rightarrow> ((str \<times> str \<times> str) \<Rightarrow> bool) \<Rightarrow> meter \<Rightarrow> outbox_row \<Rightarrow> bool" where
  "over_age now max_age_days names locked m r \<longleftrightarrow> ob_status r = OB_pending \<and> ob_provider r \<in> set names \<and> \<not> locked (outbox_key r)
     \<and> (case find_event (ob_tenant r) (ob_event_id r) m of
          None \<Rightarrow> False
        | Some e \<Rightarrow> ue_occurred_at e < now - max_age_days * day_us)"

definition expire_outbox :: "int \<Rightarrow> int \<Rightarrow> str list \<Rightarrow> ((str \<times> str \<times> str) \<Rightarrow> bool) \<Rightarrow> meter \<Rightarrow> nat \<times> meter" where
  "expire_outbox now max_age_days names locked m =
     (length (filter (over_age now max_age_days names locked m) (outbox m)),
      m\<lparr>outbox := map (\<lambda>r. if over_age now max_age_days names locked m r
          then r\<lparr>ob_status := OB_expired, ob_last_error_class := Some ''max_age''\<rparr> else r) (outbox m)\<rparr>)"

definition due_rows :: "int \<Rightarrow> str \<Rightarrow> nat \<Rightarrow> ((str \<times> str \<times> str) \<Rightarrow> bool) \<Rightarrow> meter \<Rightarrow> outbox_row list" where
  "due_rows now name batch_size locked m = take batch_size (sort_key (\<lambda>r. (ob_next_attempt_at r, ob_created_at r))
     (filter (\<lambda>r. ob_provider r = name \<and> ob_status r = OB_pending \<and> ob_next_attempt_at r \<le> now \<and> \<not> locked (outbox_key r)
        \<and> find_event (ob_tenant r) (ob_event_id r) m \<noteq> None) (outbox m)))"

definition due_of :: "str \<Rightarrow> meter \<Rightarrow> outbox_row \<Rightarrow> due" where
  "due_of name m r = (case find_event (ob_tenant r) (ob_event_id r) m of Some e \<Rightarrow>
     \<lparr>du_event_id = ob_event_id r, du_tenant = ob_tenant r, du_attempts = ob_attempts r,
      du_customer_ref = map_option cu_ref (List.find (\<lambda>c. cu_tenant c = ob_tenant r \<and> cu_provider c = name) (customers (mt_billing m))),
      du_usage = \<lparr>xu_event_id = ob_event_id r, xu_occurred_at = ue_occurred_at e, xu_credits = ue_credits e,
        xu_cost_usd = ue_cost_usd e, xu_model = ue_model e, xu_total_tokens = (case ue_tokens e of None \<Rightarrow> 0 | Some n \<Rightarrow> n)\<rparr>\<rparr>)"

text \<open>\<open>groups[(tenant, customer_ref)].append(...)\<close>: one group per customer, in order of first sight.\<close>

definition group_keys :: "due list \<Rightarrow> (str \<times> str option) list" where
  "group_keys ds = rev (remdups (rev (map (\<lambda>d. (du_tenant d, du_customer_ref d)) ds)))"

definition group_of :: "due list \<Rightarrow> str \<times> str option \<Rightarrow> due list" where
  "group_of ds k = filter (\<lambda>d. (du_tenant d, du_customer_ref d) = k) ds"

type_synonym adapter = "str \<Rightarrow> str \<Rightarrow> str \<Rightarrow> export_usage list \<Rightarrow> str + export_result"

definition group_verdicts :: "export_settings \<Rightarrow> str \<Rightarrow> adapter \<Rightarrow> due list \<Rightarrow> str \<times> str option \<Rightarrow> (str \<times> verdict) list" where
  "group_verdicts xs name send ds k = (case k of
       (tenant, None) \<Rightarrow> map (\<lambda>d. (du_event_id d, \<lparr>vd_status = V_failed, vd_delay_seconds = 0, vd_error = Some ''unlinked_customer''\<rparr>)) (group_of ds k)
     | (tenant, Some ref) \<Rightarrow>
         verdicts (xs_max_attempts xs) (xs_base xs) (xs_cap xs) (send name tenant ref (map du_usage (group_of ds k))) (group_of ds k))"

definition decided :: "export_settings \<Rightarrow> str \<Rightarrow> adapter \<Rightarrow> due list \<Rightarrow> (str \<times> verdict) list" where
  "decided xs name send ds =
     fold (\<lambda>k out. fold (\<lambda>(i, v) out. AList.update i v out) (group_verdicts xs name send ds k) out) (group_keys ds) []"

definition owner :: "due list \<Rightarrow> str \<Rightarrow> str" where
  "owner ds i = (case map_of (rev (map (\<lambda>d. (du_event_id d, du_tenant d)) (concat (map (group_of ds) (group_keys ds))))) i of
     Some t \<Rightarrow> t | None \<Rightarrow> [])"

definition record_verdict :: "int \<Rightarrow> str \<Rightarrow> str \<Rightarrow> str \<Rightarrow> verdict \<Rightarrow> outbox_row \<Rightarrow> outbox_row" where
  "record_verdict now name tenant event_id v r =
     (if outbox_key r = (name, tenant, event_id) then
        (case vd_status v of
           V_sent \<Rightarrow> r\<lparr>ob_status := OB_sent, ob_attempts := ob_attempts r + 1, ob_sent_at := Some now, ob_last_error_class := None\<rparr>
         | V_failed \<Rightarrow> r\<lparr>ob_status := OB_failed, ob_attempts := ob_attempts r + 1, ob_last_error_class := vd_error v\<rparr>
         | V_pending \<Rightarrow> r\<lparr>ob_attempts := ob_attempts r + 1, ob_next_attempt_at := now + vd_delay_seconds v * 1000000,
                          ob_last_error_class := vd_error v\<rparr>)
      else r)"

definition drain :: "export_settings \<Rightarrow> int \<Rightarrow> ((str \<times> str \<times> str) \<Rightarrow> bool) \<Rightarrow> str \<Rightarrow> adapter \<Rightarrow> meter \<Rightarrow> verdict_status list \<times> meter" where
  "drain xs now locked name send m =
     (let ds = map (due_of name m) (due_rows now name (xs_batch_size xs) locked m);
          dec = decided xs name send ds
      in (map (vd_status \<circ> snd) dec,
          m\<lparr>outbox := fold (\<lambda>(i, v) rows. map (record_verdict now name (owner ds i) i v) rows) dec (outbox m)\<rparr>))"

text \<open>\<open>run_once\<close>: expire, then drain each provider, each step in a
  transaction with a clock reading of its own; the counts are the lengths by outcome.\<close>

fun drain_all :: "export_settings \<Rightarrow> (nat \<Rightarrow> int) \<Rightarrow> ((str \<times> str \<times> str) \<Rightarrow> bool) \<Rightarrow> adapter \<Rightarrow> str list \<Rightarrow> meter \<Rightarrow> verdict_status list \<times> meter" where
  "drain_all xs clock locked send [] m = ([], m)"
| "drain_all xs clock locked send (name # names) m =
     (let (vs, m1) = drain xs (clock 0) locked name send m;
          (vs', m2) = drain_all xs (\<lambda>n. clock (Suc n)) locked send names m1
      in (vs @ vs', m2))"

definition run_once :: "export_settings \<Rightarrow> (nat \<Rightarrow> int) \<Rightarrow> ((str \<times> str \<times> str) \<Rightarrow> bool) \<Rightarrow> adapter \<Rightarrow> str list \<Rightarrow> meter \<Rightarrow>
    (nat \<times> nat \<times> nat \<times> nat) \<times> meter" where
  "run_once xs clock locked send names m =
     (let (expired, m1) = expire_outbox (clock 0) (xs_max_age_days xs) names locked m;
          (vs, m2) = drain_all xs (\<lambda>n. clock (Suc n)) locked send names m1;
          count = (\<lambda>s. length (filter (\<lambda>v. v = s) vs))
      in ((count V_sent, count V_pending, count V_failed, expired), m2))"

section \<open>Retention of usage events\<close>

definition BILLING_USAGE_EVENT_MIN_RETENTION_DAYS :: int where
  "BILLING_USAGE_EVENT_MIN_RETENTION_DAYS = 35"

definition unfinished_export :: "meter \<Rightarrow> usage_event \<Rightarrow> bool" where
  "unfinished_export m e \<longleftrightarrow>
     list_ex (\<lambda>r. ob_tenant r = ue_tenant e \<and> ob_event_id r = ue_event_id e \<and> ob_status r \<noteq> OB_sent) (outbox m)"

definition past_cutoff :: "int \<Rightarrow> int \<Rightarrow> usage_event \<Rightarrow> bool" where
  "past_cutoff now days e \<longleftrightarrow> ue_occurred_at e < now - days * day_us"

definition doomed_events :: "int \<Rightarrow> int \<Rightarrow> nat \<Rightarrow> meter \<Rightarrow> (str \<times> str) list" where
  "doomed_events now days n m = map (\<lambda>e. (ue_tenant e, ue_event_id e))
     (take n (filter (\<lambda>e. past_cutoff now days e \<and> \<not> unfinished_export m e) (usage_events m)))"

definition retention_batch :: "int \<Rightarrow> int \<Rightarrow> nat \<Rightarrow> meter \<Rightarrow> (nat \<times> nat) \<times> meter" where
  "retention_batch now days n m =
     (let doomed = doomed_events now days n m;
          gone = filter (\<lambda>e. (ue_tenant e, ue_event_id e) \<in> set doomed) (usage_events m);
          cleared = filter (\<lambda>r. (ob_tenant r, ob_event_id r) \<in> set doomed) (outbox m)
      in ((length gone, length cleared),
          m\<lparr>usage_events := filter (\<lambda>e. (ue_tenant e, ue_event_id e) \<notin> set doomed) (usage_events m),
            outbox := filter (\<lambda>r. (ob_tenant r, ob_event_id r) \<notin> set doomed) (outbox m)\<rparr>))"

record sweep_result =
  sw_deleted :: nat
  sw_outbox_cleared :: nat
  sw_held_back :: nat
  sw_complete :: bool

definition held_back :: "int \<Rightarrow> int \<Rightarrow> meter \<Rightarrow> nat" where
  "held_back now days m = length (filter (\<lambda>e. past_cutoff now days e \<and> unfinished_export m e) (usage_events m))"

fun retention_loop :: "(nat \<Rightarrow> int) \<Rightarrow> int \<Rightarrow> nat \<Rightarrow> nat \<Rightarrow> nat \<times> nat \<Rightarrow> meter \<Rightarrow> (nat \<times> nat \<times> bool) \<times> meter" where
  "retention_loop clock days batch_size 0 (deleted, cleared) m = ((deleted, cleared, False), m)"
| "retention_loop clock days batch_size (Suc k) (deleted, cleared) m =
     (let ((gone, ob), m') = retention_batch (clock k) days batch_size m
      in if gone < batch_size then ((deleted + gone, cleared + ob, True), m')
         else retention_loop clock days batch_size k (deleted + gone, cleared + ob) m')"

definition sweep_old_events :: "(nat \<Rightarrow> int) \<Rightarrow> int \<Rightarrow> nat \<Rightarrow> nat \<Rightarrow> meter \<Rightarrow> (wallet_error + sweep_result) \<times> meter" where
  "sweep_old_events clock older_than_days batch_size max_batches m =
     (if older_than_days < BILLING_USAGE_EVENT_MIN_RETENTION_DAYS then (Inl (BadArgument ''older_than_days is below the floor''), m)
      else (let ((deleted, cleared, complete), m') = retention_loop clock older_than_days batch_size max_batches (0, 0) m
            in (Inr \<lparr>sw_deleted = deleted, sw_outbox_cleared = cleared, sw_held_back = held_back (clock max_batches) older_than_days m', sw_complete = complete\<rparr>, m')))"

end
