(* ===== verification/Usage_Claims.thy ===== *)
theory Usage_Claims
  imports Usage_Billing
begin

text \<open>
  Facts of usage recording and its properties: a call is recorded once, charged what it was rated,
  and every divergence is reported; the credit gate admits exactly the tenants it should.
\<close>

section \<open>The cases of one call\<close>

lemma quantize_error: "quantize n x = Inl e \<Longrightarrow> e = InvalidOperation"
  by (simp add: quantize_def split: if_splits)

lemma credits_for_cost_error: "credits_for_cost (Finite c) r mk = Inl e \<Longrightarrow> 0 \<le> c \<Longrightarrow> e = InvalidOperation"
  by (auto simp: credits_for_cost_def credits_amount_def dest: quantize_error split: if_splits)

lemma valid_usage_error: "valid_usage cfg u = Inl e \<Longrightarrow> (\<exists>w. e = BadArgument w) \<or> e = InvalidOperation"
  by (auto simp: valid_usage_def split: if_splits option.splits number_in.splits sum.splits dest: credits_for_cost_error)

lemma valid_usage_worth:
  "valid_usage cfg u = Inr (cost, worth) \<Longrightarrow>
   (case worth of None \<Rightarrow> True | Some x \<Rightarrow>
      \<exists>c rate. cost = Some c \<and> us_credits_per_usd cfg = Some rate \<and> 0 \<le> c \<and> half_up 12 c = c \<and> x = half_up 6 (c * rate * us_markup cfg))"
  by (auto simp: valid_usage_def quantize_def credits_for_cost_def credits_amount_def
      split: if_splits option.splits number_in.splits sum.splits)

lemma enqueue_frame [simp]:
  "mt_billing (enqueue env f u ex m) = mt_billing m" "usage_events (enqueue env f u ex m) = usage_events m"
  by (simp_all add: enqueue_def)

lemma with_wallet_frame [simp]:
  "wal (mt_billing (with_wallet w m)) = w" "usage_events (with_wallet w m) = usage_events m" "outbox (with_wallet w m) = outbox m"
  "customers (mt_billing (with_wallet w m)) = customers (mt_billing m)"
  by (simp_all add: with_wallet_def)

lemma record_usage_cases:
  assumes "record_usage_in cfg env flt u m = (r, m')"
  obtains (raised) "r = Inl InvalidOperation" "m' = m" "valid_usage cfg u = Inl InvalidOperation"
    | (unchanged) st where "r = Inr (Recorded st None None)" "st \<noteq> R_recorded" "m' = m"
        "st = R_duplicate \<longrightarrow> find_event (u_tenant u) (u_event_id u) m \<noteq> None"
    | (written) cost worth debit w where "valid_usage cfg u = Inr (cost, worth)" "find_event (u_tenant u) (u_event_id u) m = None"
        "usage_wallet cfg env flt u cost worth (wal (mt_billing m)) = (debit, w)" "r = Inr (Recorded R_recorded worth debit)"
        "usage_events m' = usage_events m @ [usage_row cfg env u cost worth]" "wal (mt_billing m') = w"
proof (cases "us_credits_per_usd cfg = None \<and> usage_export_providers (us_providers cfg) = []")
  case True
  then show ?thesis using assms unchanged [of R_off] by (simp add: record_usage_in_def)
next
  case on: False
  show ?thesis
  proof (cases "valid_usage cfg u")
    case (Inl e)
    then show ?thesis using valid_usage_error [OF Inl] assms on raised unchanged [of R_failed]
      by (auto simp: record_usage_in_def Let_def split: if_splits)
  next
    case (Inr p)
    obtain cost worth where p: "p = (cost, worth)" by fastforce
    let ?row = "usage_row cfg env u cost worth"
    consider (bad) "write_fault flt \<or> \<not> usage_row_fits ?row \<or> \<not> usage_row_checks ?row"
      | (dup) "\<not> (write_fault flt \<or> \<not> usage_row_fits ?row \<or> \<not> usage_row_checks ?row)" "find_event (u_tenant u) (u_event_id u) m \<noteq> None"
      | (new) "\<not> (write_fault flt \<or> \<not> usage_row_fits ?row \<or> \<not> usage_row_checks ?row)" "find_event (u_tenant u) (u_event_id u) m = None"
      by blast
    then show ?thesis
    proof cases
      case bad
      then show ?thesis using assms on Inr p unchanged [of R_failed]
        by (auto simp: record_usage_in_def Let_def split: if_splits)
    next
      case dup
      then show ?thesis using assms on Inr p unchanged [of R_duplicate]
        by (auto simp: record_usage_in_def Let_def split: if_splits)
    next
      case new
      obtain debit w where w: "usage_wallet cfg env flt u cost worth (wal (mt_billing m)) = (debit, w)" by fastforce
      have "r = Inr (Recorded R_recorded worth debit) \<and> usage_events m' = usage_events m @ [?row] \<and> wal (mt_billing m') = w"
        using assms on Inr p new w unfolding record_usage_in_def usage_wallet_def
        by (auto simp: Let_def split: prod.splits if_splits)
      then show ?thesis using written [OF _ new(2) w] Inr p by blast
    qed
  qed
qed

lemma usage_wallet_cases:
  assumes "usage_wallet cfg env flt u cost worth w = (d, w')"
  shows "w' = w \<and> d = None \<or> (\<exists>x pr v. worth = Some x \<and> d = Some v \<and> debit_in env (u_tenant u) (usage_debit u x pr) w = (Inr v, w'))"
  using assms by (auto simp: usage_wallet_def charge_def in_transaction_def split: option.splits if_splits prod.splits sum.splits)

lemma find_event_present: "usage_events m' = usage_events m @ [e] \<Longrightarrow> find_event (ue_tenant e) (ue_event_id e) m' \<noteq> None"
  by (auto simp: find_event_def find_None_iff)

lemma find_event_replay:
  assumes "record_usage_in cfg env flt u m = (r, m')" "find_event (u_tenant u) (u_event_id u) m \<noteq> None"
  shows "m' = m \<and> (\<forall>v. r = Inr v \<longrightarrow> rc_status v \<noteq> R_recorded)"
  using assms(1) by (cases rule: record_usage_cases) (use assms(2) in \<open>auto simp: Recorded_def\<close>)

lemma exact6_fits_credits:
  assumes "exact6 x" "fits_numeric 6 x"
  shows "credits_amount (Finite x) = Inr x"
proof -
  have u: "of_int (half_up_units 6 x) = x * 10 ^ 6"
    using assms(1) unfolding exact6_def half_up_def by (metis eq_divide_eq power_not_zero zero_neq_numeral)
  have "\<bar>x\<bar> < 10 ^ 12" using assms by (simp add: fits_numeric_def exact6_def)
  then have "\<bar>x * 10 ^ 6\<bar> < 10 ^ 12 * 10 ^ 6" by (simp add: abs_mult)
  then have "\<bar>of_int (half_up_units 6 x) :: rat\<bar> < of_int (10 ^ 28)" unfolding u by simp
  then have "\<bar>half_up_units 6 x\<bar> < 10 ^ 28" by (simp only: of_int_abs [symmetric] of_int_less_iff)
  then show ?thesis using assms(1) by (simp add: credits_amount_def quantize_def exact6_def)
qed

lemma debited_key_used:
  assumes ok: "wallet_ok w" and d: "debit_in env tn (usage_debit u x pr) w = (Inr v, w')" and x: "half_up 6 x = x" "0 < x"
    and ac: "has_account tn w"
  shows "find_txn tn (u_event_id u) w' \<noteq> None"
proof -
  obtain c where c: "credits_amount (d_amount (usage_debit u x pr)) = Inr c" using d by (cases rule: debit_in_InrE) auto
  then have "c = x" using credits_amount_half_up [of x c] x by (simp add: usage_debit_def)
  have "ap_status v \<noteq> WNoAccount \<and> ap_status v \<noteq> WNothing" using d
    by (cases rule: debit_in_InrE) (use ac c \<open>c = x\<close> x in \<open>auto simp: Applied_def usage_debit_def\<close>)
  then have "abs_book w' = book_post tn (u_event_id u) (- c) (abs_book w)"
    using debit_refines [OF ok d c] by (simp add: usage_debit_def)
  then have "book_keys (abs_book w') = insert (tn, u_event_id u) (book_keys (abs_book w))" by (simp add: book_post_balance)
  then show ?thesis by (auto simp: abs_book_def find_txn_None)
qed

lemma uncharged_finding:
  assumes "e \<in> set (usage_events m)" "uncharged w m e"
  shows "\<exists>f\<in>set (uncharged_by_tenant_day w m). rf_tenant f = ue_tenant e \<and> rf_day f = event_day e \<and> 1 \<le> rf_events f"
proof -
  have "(ue_tenant e, event_day e) \<in> set (remdups (map (\<lambda>e. (ue_tenant e, event_day e)) (filter (uncharged w m) (usage_events m))))"
    using assms by auto
  moreover have "filter (\<lambda>x. ue_tenant x = ue_tenant e \<and> event_day x = event_day e) (filter (uncharged w m) (usage_events m)) \<noteq> []"
    using assms by (auto simp: filter_empty_conv)
  ultimately show ?thesis unfolding uncharged_by_tenant_day_def Let_def set_sort set_map
    by (intro bexI [OF _ imageI]) (auto simp: Suc_le_eq)
qed

section \<open>A small meter\<close>

text \<open>The granted wallet of the small shop, a rate of 100 credits per dollar, one call that cost a cent.\<close>

definition sample_usage_cfg :: usage_settings where
  "sample_usage_cfg = \<lparr>us_credits_per_usd = Some 100, us_markup = 1, us_providers = [''fake''], us_enforcement = True, us_fail_closed = False\<rparr>"

definition sample_usage :: usage where
  "sample_usage = \<lparr>u_tenant = ''acme'', u_event_id = ''call1'', u_kind = ''chat'', u_cost_usd = Some (Finite (1 / 100)), u_model = Some ''gpt'', u_tokens = Some 150\<rparr>"

definition sample_meter :: meter where
  "sample_meter = \<lparr>mt_billing = sample_granted, usage_events = [], outbox = []\<rparr>"

definition sample_faults :: "bool \<Rightarrow> usage_faults" where
  "sample_faults d = \<lparr>write_fault = False, debit_fault = d, enqueue_fault = False\<rparr>"

definition sample_metered :: "bool \<Rightarrow> meter" where
  "sample_metered d = snd (record_usage_in sample_usage_cfg (sample_env 500 ''5'') (sample_faults d) sample_usage sample_meter)"

lemma sample_recording:
  "record_usage_in sample_usage_cfg (sample_env 500 ''5'') (sample_faults False) sample_usage sample_meter
     = (Inr (Recorded R_recorded (Some 1) (Some (Applied WApplied (Some ''t5'') 1 0))), sample_metered False)"
  "record_usage_in sample_usage_cfg (sample_env 500 ''5'') (sample_faults True) sample_usage sample_meter
     = (Inr (Recorded R_recorded (Some 1) None), sample_metered True)"
proof -
  have "fst (record_usage_in sample_usage_cfg (sample_env 500 ''5'') (sample_faults False) sample_usage sample_meter)
      = Inr (Recorded R_recorded (Some 1) (Some (Applied WApplied (Some ''t5'') 1 0)))" by code_simp
  then show "record_usage_in sample_usage_cfg (sample_env 500 ''5'') (sample_faults False) sample_usage sample_meter
     = (Inr (Recorded R_recorded (Some 1) (Some (Applied WApplied (Some ''t5'') 1 0))), sample_metered False)"
    by (metis prod.collapse sample_metered_def)
  have "fst (record_usage_in sample_usage_cfg (sample_env 500 ''5'') (sample_faults True) sample_usage sample_meter)
      = Inr (Recorded R_recorded (Some 1) None)" by code_simp
  then show "record_usage_in sample_usage_cfg (sample_env 500 ''5'') (sample_faults True) sample_usage sample_meter
     = (Inr (Recorded R_recorded (Some 1) None), sample_metered True)"
    by (metis prod.collapse sample_metered_def)
qed

lemma sample_meter_ok: "wallet_ok (wal (mt_billing sample_meter))"
proof -
  have "wallet_inv (wal sample_billing, 100)" using wallet_inv_empty by (simp add: sample_billing_def)
  then have "wallet_inv (wal sample_granted, 100)"
    using process_event_wallet_inv [OF _ sample_delivery] by (simp add: sample_env_def)
  then show ?thesis by (simp add: wallet_inv_def sample_meter_def)
qed

section \<open>Properties\<close>



text \<open>A recorded event reproduces its own charge. When a call records an event, the new row stores
  the cost, the rate and the markup its credits are the one rounded product of (or no credits at all for an
  unpriced call), and the tenant's wallet either is unchanged or has been posted exactly those credits
  under the event's id; no other row is touched.\<close>

theorem recorded_usage_is_rated_and_charged:
  assumes "wallet_ok (wal (mt_billing m))" and "record_usage_in cfg env flt u m = (Inr r, m')" and "rc_status r = R_recorded"
  shows "\<exists>e. usage_events m' = usage_events m @ [e] \<and> ue_tenant e = u_tenant u \<and> ue_event_id e = u_event_id u \<and> ue_credits e = rc_credits r
    \<and> (case ue_credits e of
         None \<Rightarrow> wal (mt_billing m') = wal (mt_billing m)
       | Some x \<Rightarrow>
           (\<exists>cost rate mk. ue_cost_usd e = Some cost \<and> ue_credits_per_usd e = Some rate \<and> ue_markup e = Some mk
              \<and> half_up 12 cost = cost \<and> x = half_up 6 (cost * rate * mk))
           \<and> (wal (mt_billing m') = wal (mt_billing m)
              \<or> abs_book (wal (mt_billing m')) = book_post (u_tenant u) (u_event_id u) (- x) (abs_book (wal (mt_billing m)))))"
  using assms(2)
proof (cases rule: record_usage_cases)
  case (written cost worth debit w)
  let ?e = "usage_row cfg env u cost worth"
  have c: "rc_credits r = worth" using written(4) by (simp add: Recorded_def)
  have none: "w = wal (mt_billing m)" if "worth = None"
    using usage_wallet_cases [OF written(3)] that by auto
  have some: "w = wal (mt_billing m) \<or> abs_book w = book_post (u_tenant u) (u_event_id u) (- x) (abs_book (wal (mt_billing m)))"
    if x: "worth = Some x" for x
    using usage_wallet_cases [OF written(3)]
  proof (elim disjE exE conjE)
    fix y pr v assume d: "worth = Some y" "debit_in env (u_tenant u) (usage_debit u y pr) (wal (mt_billing m)) = (Inr v, w)"
    obtain c where c: "credits_amount (d_amount (usage_debit u y pr)) = Inr c" using d(2) by (cases rule: debit_in_InrE) auto
    have "c = x" using c credits_amount_half_up [of y c] valid_usage_worth [OF written(1)] d(1) x by (auto simp: usage_debit_def)
    show ?thesis
    proof (cases "ap_status v = WNoAccount \<or> ap_status v = WNothing")
      case True
      from d(2) show ?thesis by (cases rule: debit_in_InrE) (use True in \<open>auto simp: Applied_def\<close>)
    next
      case False
      then show ?thesis using debit_refines [OF assms(1) d(2) c] \<open>c = x\<close> by (simp add: usage_debit_def)
    qed
  qed simp
  show ?thesis
    using written c none some valid_usage_worth [OF written(1)]
    by (intro exI [of _ ?e]) (auto simp: usage_row_def split: option.splits)
qed (use assms(3) in \<open>auto simp: Recorded_def\<close>)

theorem recorded_usage_is_rated_and_charged_witness:
  "\<exists>e. usage_events (sample_metered False) = usage_events sample_meter @ [e] \<and> ue_event_id e = ''call1'' \<and> ue_credits e = Some 1"
  using recorded_usage_is_rated_and_charged [OF sample_meter_ok sample_recording(1)]
  by (auto simp: Recorded_def sample_usage_def)





text \<open>The credit gate. With enforcement on, a tenant is refused exactly when its wallet can be read and
  its available credits do not exceed the credits reserved for running work, or when its wallet cannot be
  read and the policy is closed; a tenant with no wallet, and every tenant with enforcement off, is admitted
  without the wallet being consulted.\<close>

theorem admit_exact:
  assumes "admit cfg read reserved_usd = Inr a"
  shows "refused a \<longleftrightarrow> us_enforcement cfg
    \<and> (case read of
         None \<Rightarrow> us_fail_closed cfg
       | Some None \<Rightarrow> False
       | Some (Some b) \<Rightarrow> \<exists>rate x. us_credits_per_usd cfg = Some rate \<and> reserved_usd = Finite x
             \<and> available b \<le> half_up 6 (x * rate * us_markup cfg))"
  using assms by (auto simp: admit_def refused_def Admission_def credits_for_cost_def credits_amount_def quantize_def
      split: if_splits option.splits number_in.splits sum.splits)

theorem admit_exact_witness:
  "\<exists>a. admit sample_usage_cfg (Some (Some \<lparr>available = 5, ledger = 5, debt = 0\<rparr>)) (Finite (1 / 20)) = Inr a \<and> refused a"
proof -
  let ?a = "Admission AD_exhausted (Some 5) (Some 5)"
  have a: "admit sample_usage_cfg (Some (Some \<lparr>available = 5, ledger = 5, debt = 0\<rparr>)) (Finite (1 / 20)) = Inr ?a" by code_simp
  have h: "us_enforcement sample_usage_cfg" "us_credits_per_usd sample_usage_cfg = Some 100" "us_markup sample_usage_cfg = 1"
    "(5::rat) \<le> half_up 6 (1 / 20 * 100 * 1)" by code_simp+
  have "\<exists>rate x. us_credits_per_usd sample_usage_cfg = Some rate \<and> Finite (1 / 20) = Finite x \<and> 5 \<le> half_up 6 (x * rate * us_markup sample_usage_cfg)"
    by (intro exI [of _ 100] exI [of _ "1 / 20"]) (use h in simp)
  then show ?thesis using admit_exact [OF a] a h(1) by auto
qed

end
