(* ===== verification/Export_Claims.thy ===== *)
theory Export_Claims
  imports Usage_Export Usage_Claims
begin

text \<open>
  Facts of the export worker and the retention sweep, and the properties of money out.
\<close>

section \<open>Verdicts of a batch\<close>

lemma backoff_bounds:
  "1 \<le> base \<Longrightarrow> base \<le> cap \<Longrightarrow> base \<le> backoff_seconds failures base cap \<and> backoff_seconds failures base cap \<le> cap"
  by (auto simp: backoff_seconds_def intro: order_trans [OF _ mult_left_mono [of 1]])

lemma backoff_doubles:
  "1 \<le> k \<Longrightarrow> k \<le> 31 \<Longrightarrow> backoff_seconds k base cap = min (base * 2 ^ (k - 1)) cap"
  by (simp add: backoff_seconds_def)

lemma fold_update_map_of:
  "map_of (fold (\<lambda>(i, v) out. AList.update i v out) kvs al) i = (case map_of (rev kvs) i of Some v \<Rightarrow> Some v | None \<Rightarrow> map_of al i)"
  by (induction kvs arbitrary: al) (auto simp: update_conv' map_of_append map_add_def split: option.splits)

lemma fold_update_keys:
  "distinct (map fst al) \<Longrightarrow> distinct (map fst (fold (\<lambda>(i, v) out. AList.update i v out) kvs al))"
  by (induction kvs arbitrary: al) (auto simp: distinct_update)

lemma map_of_functional:
  "\<forall>(i, v)\<in>set kvs. v = f i \<Longrightarrow> map_of kvs i = (if i \<in> fst ` set kvs then Some (f i) else None)"
  by (induction kvs) auto

definition due_verdict :: "export_settings \<Rightarrow> str \<Rightarrow> adapter \<Rightarrow> due list \<Rightarrow> due \<Rightarrow> verdict" where
  "due_verdict xs name send ds d = (case du_customer_ref d of
       None \<Rightarrow> \<lparr>vd_status = V_failed, vd_delay_seconds = 0, vd_error = Some ''unlinked_customer''\<rparr>
     | Some ref \<Rightarrow> verdict_for (xs_max_attempts xs) (xs_base xs) (xs_cap xs)
         (send name (du_tenant d) ref (map du_usage (group_of ds (du_tenant d, Some ref)))) d)"

lemma verdicts_conv:
  "verdicts mx base cap ans batch =
   fold (\<lambda>(i, v) out. AList.update i v out) (map (\<lambda>d. (du_event_id d, verdict_for mx base cap ans d)) batch) []"
  by (simp add: verdicts_def fold_map comp_def)

lemma verdicts_map_of:
  assumes "distinct (map du_event_id batch)" "d \<in> set batch"
  shows "map_of (verdicts mx base cap ans batch) (du_event_id d) = Some (verdict_for mx base cap ans d)"
proof -
  have "map_of (rev (map (\<lambda>d. (du_event_id d, verdict_for mx base cap ans d)) batch)) (du_event_id d) = Some (verdict_for mx base cap ans d)"
    using assms by (intro map_of_is_SomeI) (auto simp: comp_def rev_map distinct_map)
  then show ?thesis by (simp add: verdicts_conv fold_update_map_of)
qed

lemma verdicts_set:
  assumes "distinct (map du_event_id batch)"
  shows "(i, v) \<in> set (verdicts mx base cap ans batch) \<longleftrightarrow> (\<exists>d\<in>set batch. i = du_event_id d \<and> v = verdict_for mx base cap ans d)"
proof -
  let ?kvs = "map (\<lambda>d. (du_event_id d, verdict_for mx base cap ans d)) batch"
  have dis: "distinct (map fst (verdicts mx base cap ans batch))"
    unfolding verdicts_conv by (rule fold_update_keys) simp
  have "(i, v) \<in> set (verdicts mx base cap ans batch) \<longleftrightarrow> map_of (verdicts mx base cap ans batch) i = Some v"
    using dis by simp
  also have "\<dots> \<longleftrightarrow> map_of (rev ?kvs) i = Some v"
    by (simp add: verdicts_conv fold_update_map_of split: option.splits)
  also have "\<dots> \<longleftrightarrow> (i, v) \<in> set ?kvs"
    using assms by (subst map_of_eq_Some_iff) (auto simp: comp_def rev_map [symmetric])
  finally show ?thesis by auto
qed

section \<open>Verdicts of a pass\<close>

lemma group_keys_set: "set (group_keys ds) = (\<lambda>d. (du_tenant d, du_customer_ref d)) ` set ds"
  by (simp add: group_keys_def)

lemma group_verdicts_set:
  assumes "distinct (map du_event_id ds)" "k \<in> set (group_keys ds)"
  shows "(i, v) \<in> set (group_verdicts xs name send ds k) \<longleftrightarrow>
    (\<exists>d\<in>set ds. (du_tenant d, du_customer_ref d) = k \<and> i = du_event_id d \<and> v = due_verdict xs name send ds d)"
proof -
  obtain t ref where k: "k = (t, ref)" by fastforce
  have dis: "distinct (map du_event_id (group_of ds k))" using assms(1) by (simp add: group_of_def distinct_map_filter)
  show ?thesis
  proof (cases ref)
    case None
    then show ?thesis using k by (auto simp: group_verdicts_def due_verdict_def group_of_def)
  next
    case (Some x)
    then show ?thesis using k verdicts_set [OF dis] by (auto simp: group_verdicts_def due_verdict_def group_of_def)
  qed
qed

lemma decided_conv:
  "decided xs name send ds =
   fold (\<lambda>(i, v) out. AList.update i v out) (concat (map (group_verdicts xs name send ds) (group_keys ds))) []"
proof -
  have "fold (\<lambda>k out. fold f (g k) out) ks al = fold f (concat (map g ks)) al" for f :: "'x \<Rightarrow> 'y \<Rightarrow> 'y" and g and ks :: "'z list" and al
    by (induction ks arbitrary: al) simp_all
  then show ?thesis by (simp add: decided_def)
qed

lemma decided_keys: "distinct (map fst (decided xs name send ds))"
  unfolding decided_conv by (rule fold_update_keys) simp

lemma decided_set:
  assumes dis: "distinct (map du_event_id ds)"
  shows "(i, v) \<in> set (decided xs name send ds) \<longleftrightarrow> (\<exists>d\<in>set ds. i = du_event_id d \<and> v = due_verdict xs name send ds d)"
proof -
  let ?kvs = "concat (map (group_verdicts xs name send ds) (group_keys ds))"
  have mem: "(j, u) \<in> set ?kvs \<longleftrightarrow> (\<exists>d\<in>set ds. j = du_event_id d \<and> u = due_verdict xs name send ds d)" for j u
    using group_verdicts_set [OF dis, of _ j u xs name send] by (auto simp: group_keys_set)
  let ?f = "\<lambda>j. due_verdict xs name send ds (the (List.find (\<lambda>d. du_event_id d = j) ds))"
  have f: "?f (du_event_id d) = due_verdict xs name send ds d" if mem_d: "d \<in> set ds" for d
  proof -
    obtain e where e: "List.find (\<lambda>x. du_event_id x = du_event_id d) ds = Some e"
      using mem_d by (cases "List.find (\<lambda>x. du_event_id x = du_event_id d) ds") (auto simp: find_None_iff)
    then have "e \<in> set ds" "du_event_id e = du_event_id d" by (auto simp: find_Some_iff)
    then have "e = d" using dis mem_d by (auto simp: distinct_map dest: inj_onD)
    then show ?thesis using e by simp
  qed
  have "\<forall>(j, u)\<in>set (rev ?kvs). u = ?f j"
  proof clarify
    fix j u assume "(j, u) \<in> set (rev ?kvs)"
    then have "(j, u) \<in> set ?kvs" by (simp only: set_rev)
    then show "u = ?f j" using mem f by metis
  qed
  note m = map_of_functional [OF this]
  have "(i, v) \<in> set (decided xs name send ds) \<longleftrightarrow> map_of (decided xs name send ds) i = Some v"
    using decided_keys by simp
  also have "\<dots> \<longleftrightarrow> map_of (rev ?kvs) i = Some v" by (simp add: decided_conv fold_update_map_of split: option.splits)
  also have "\<dots> \<longleftrightarrow> i \<in> fst ` set ?kvs \<and> v = ?f i" using m [of i] by auto
  also have "\<dots> \<longleftrightarrow> (\<exists>d\<in>set ds. i = du_event_id d \<and> v = due_verdict xs name send ds d)"
    using mem f by (force simp: image_iff)
  finally show ?thesis .
qed

lemma owner_eq:
  assumes "distinct (map du_event_id ds)" "d \<in> set ds"
  shows "owner ds (du_event_id d) = du_tenant d"
proof -
  let ?l = "concat (map (group_of ds) (group_keys ds))"
  let ?kvs = "rev (map (\<lambda>d. (du_event_id d, du_tenant d)) ?l)"
  have mem: "x \<in> set ?l \<longleftrightarrow> x \<in> set ds" for x by (auto simp: group_keys_set group_of_def)
  have "(du_event_id d, du_tenant d) \<in> set ?kvs" using assms(2) mem [of d] by auto
  then obtain t where t: "map_of ?kvs (du_event_id d) = Some t" by (meson weak_map_of_SomeI)
  from map_of_SomeD [OF t] obtain e where "e \<in> set ?l" "du_event_id e = du_event_id d" "t = du_tenant e"
    by (auto simp del: set_concat)
  then have "e \<in> set ds" "du_event_id e = du_event_id d" "t = du_tenant e" using mem by auto
  moreover then have "e = d" using assms by (auto simp: distinct_map dest: inj_onD)
  ultimately show ?thesis using t by (simp add: owner_def)
qed

lemma fold_map_rows: "fold (\<lambda>(i, v) rows. map (g i v) rows) kvs rows = map (\<lambda>r. fold (\<lambda>(i, v). g i v) kvs r) rows"
  by (induction kvs arbitrary: rows) auto

lemma record_verdict_key [simp]: "outbox_key (record_verdict now name t i v r) = outbox_key r"
  by (auto simp: record_verdict_def outbox_key_def split: verdict_status.splits)

lemma fold_record:
  assumes "distinct (map fst kvs)"
  shows "fold (\<lambda>(i, v). record_verdict now name (ow i) i v) kvs r =
    (case map_of kvs (ob_event_id r) of Some v \<Rightarrow> record_verdict now name (ow (ob_event_id r)) (ob_event_id r) v r | None \<Rightarrow> r)"
  using assms
proof (induction kvs arbitrary: r)
  case (Cons p kvs)
  obtain i v where p: "p = (i, v)" by fastforce
  have ev: "ob_event_id (record_verdict now name (ow i) i v r) = ob_event_id r"
    using record_verdict_key [of now name "ow i" i v r] by (simp add: outbox_key_def)
  have other: "record_verdict now name (ow i) i v r = r" if "ob_event_id r \<noteq> i" using that by (simp add: record_verdict_def outbox_key_def)
  show ?case
  proof (cases "ob_event_id r = i")
    case True
    then have "map_of kvs (ob_event_id r) = None" using Cons.prems p by (simp add: map_of_eq_None_iff)
    then show ?thesis using Cons.IH [of "record_verdict now name (ow i) i v r"] Cons.prems p ev True by simp
  next
    case False
    then show ?thesis using Cons.IH [of r] Cons.prems p other by simp
  qed
qed simp

section \<open>What a pass does to a row\<close>

definition row_advances :: "nat \<Rightarrow> outbox_row \<Rightarrow> outbox_row \<Rightarrow> bool" where
  "row_advances mx r r' \<longleftrightarrow> outbox_key r' = outbox_key r \<and> ob_created_at r' = ob_created_at r
     \<and> (ob_status r \<noteq> OB_pending \<longrightarrow> r' = r)
     \<and> (ob_status r' = OB_pending \<longrightarrow> r' = r \<or> ob_attempts r' < mx)
     \<and> ob_attempts r \<le> ob_attempts r' \<and> ob_attempts r' \<le> ob_attempts r + 1"

text \<open>The event ids of one provider's queue differ, as \<open>usage.py\<close> requires of its callers.\<close>

definition outbox_ok :: "meter \<Rightarrow> bool" where
  "outbox_ok m \<longleftrightarrow> distinct (map (\<lambda>r. (ob_provider r, ob_event_id r)) (outbox m))"

lemma outbox_okD: "outbox_ok m \<Longrightarrow> r \<in> set (outbox m) \<Longrightarrow> r' \<in> set (outbox m) \<Longrightarrow> ob_provider r = ob_provider r' \<Longrightarrow>
   ob_event_id r = ob_event_id r' \<Longrightarrow> r = r'"
  by (auto simp: outbox_ok_def distinct_map dest: inj_onD)

lemma due_rows_set:
  "r \<in> set (due_rows now name n locked m) \<Longrightarrow> r \<in> set (outbox m) \<and> ob_provider r = name \<and> ob_status r = OB_pending
     \<and> ob_next_attempt_at r \<le> now \<and> \<not> locked (outbox_key r) \<and> find_event (ob_tenant r) (ob_event_id r) m \<noteq> None"
  by (auto simp: due_rows_def dest!: in_set_takeD)

lemma due_of_row:
  "r \<in> set (due_rows now name n locked m) \<Longrightarrow> du_event_id (due_of name m r) = ob_event_id r \<and> du_tenant (due_of name m r) = ob_tenant r
     \<and> du_attempts (due_of name m r) = ob_attempts r"
  using due_rows_set [of r now name n locked m] by (auto simp: due_of_def split: option.splits)

lemma due_ids_distinct:
  assumes "outbox_ok m"
  shows "distinct (map du_event_id (map (due_of name m) (due_rows now name n locked m)))"
proof -
  have "distinct (outbox m)" using assms by (auto simp: outbox_ok_def distinct_map)
  then have "distinct (due_rows now name n locked m)" by (simp add: due_rows_def)
  moreover have "inj_on (\<lambda>r. du_event_id (due_of name m r)) (set (due_rows now name n locked m))"
    by (rule inj_onI) (metis assms due_of_row due_rows_set outbox_okD)
  ultimately show ?thesis by (simp add: distinct_map comp_def)
qed

lemma drain_row:
  assumes ok: "outbox_ok m" and ds: "ds = map (due_of name m) (due_rows now name (xs_batch_size xs) locked m)"
    and r: "r \<in> set (outbox m)"
  shows "fold (\<lambda>(i, v). record_verdict now name (owner ds i) i v) (decided xs name send ds) r =
    (if r \<in> set (due_rows now name (xs_batch_size xs) locked m)
     then record_verdict now name (ob_tenant r) (ob_event_id r) (due_verdict xs name send ds (due_of name m r)) r else r)"
proof -
  note dis = due_ids_distinct [OF ok, of name now "xs_batch_size xs" locked, folded ds]
  note f = fold_record [OF decided_keys, of now name "owner ds" xs name send ds r]
  show ?thesis
  proof (cases "r \<in> set (due_rows now name (xs_batch_size xs) locked m)")
    case True
    then have d: "due_of name m r \<in> set ds" by (simp add: ds)
    have "map_of (decided xs name send ds) (ob_event_id r) = Some (due_verdict xs name send ds (due_of name m r))"
    proof (rule map_of_is_SomeI [OF decided_keys])
      show "(ob_event_id r, due_verdict xs name send ds (due_of name m r)) \<in> set (decided xs name send ds)"
        using decided_set [OF dis] d due_of_row [OF True] by metis
    qed
    then show ?thesis using f True owner_eq [OF dis d] due_of_row [OF True] by simp
  next
    case False
    show ?thesis
    proof (cases "map_of (decided xs name send ds) (ob_event_id r)")
      case (Some v)
      then obtain q where q: "q \<in> set (due_rows now name (xs_batch_size xs) locked m)" "ob_event_id q = ob_event_id r"
        using map_of_SomeD [OF Some] decided_set [OF dis] due_of_row by (fastforce simp: ds)
      then have ne: "ob_provider r \<noteq> name" using outbox_okD [OF ok r, of q] due_rows_set [OF q(1)] False by metis
      then show ?thesis using f Some False by (simp add: record_verdict_def outbox_key_def)
    qed (use f False in simp)
  qed
qed

lemma due_verdict_attempts:
  "vd_status (due_verdict xs name send ds d) = V_pending \<Longrightarrow> du_attempts d + 1 < xs_max_attempts xs"
  by (auto simp: due_verdict_def verdict_for_def retry_verdict_def Let_def split: option.splits sum.splits if_splits)

lemma record_verdict_advances:
  assumes "ob_status r = OB_pending" "vd_status v = V_pending \<Longrightarrow> ob_attempts r + 1 < mx"
  shows "row_advances mx r (record_verdict now name t i v r)"
  using assms by (auto simp: row_advances_def record_verdict_def outbox_key_def split: verdict_status.splits)

lemma row_advances_refl [simp]: "row_advances mx r r"
  by (simp add: row_advances_def)

lemma drain_advances:
  assumes "outbox_ok m"
  shows "list_all2 (row_advances (xs_max_attempts xs)) (outbox m) (outbox (snd (drain xs now locked name send m)))"
proof -
  let ?rows = "due_rows now name (xs_batch_size xs) locked m" and ?ds = "map (due_of name m) (due_rows now name (xs_batch_size xs) locked m)"
  have adv: "row_advances (xs_max_attempts xs) r (fold (\<lambda>(i, v). record_verdict now name (owner ?ds i) i v) (decided xs name send ?ds) r)"
    if r: "r \<in> set (outbox m)" for r
  proof (cases "r \<in> set ?rows")
    case True
    show ?thesis unfolding drain_row [OF assms refl r] if_P [OF True]
      using due_rows_set [OF True] due_verdict_attempts [of xs name send ?ds "due_of name m r"] due_of_row [OF True]
      by (intro record_verdict_advances) auto
  qed (simp add: drain_row [OF assms refl r])
  show ?thesis unfolding drain_def Let_def using adv
    by (simp add: fold_map_rows list_all2_map2 list_all2_same)
qed

lemma expire_advances:
  "list_all2 (row_advances mx) (outbox m) (outbox (snd (expire_outbox now days names locked m)))"
  by (auto simp: expire_outbox_def list_all2_map2 list_all2_same row_advances_def over_age_def outbox_key_def)

lemma outbox_ok_advances:
  assumes "outbox_ok m" "list_all2 (row_advances mx) (outbox m) (outbox m')"
  shows "outbox_ok m'"
proof -
  have "map (\<lambda>r. (ob_provider r, ob_event_id r)) rs' = map (\<lambda>r. (ob_provider r, ob_event_id r)) rs"
    if "list_all2 (row_advances mx) rs rs'" for rs rs'
    using that by (induction rule: list_all2_induct) (auto simp: row_advances_def outbox_key_def)
  then show ?thesis using assms by (simp add: outbox_ok_def)
qed

text \<open>Along a whole pass: what a row of the queue may become.\<close>

definition row_reaches :: "nat \<Rightarrow> outbox_row \<Rightarrow> outbox_row \<Rightarrow> bool" where
  "row_reaches mx r r' \<longleftrightarrow> outbox_key r' = outbox_key r \<and> ob_created_at r' = ob_created_at r
     \<and> (ob_status r \<noteq> OB_pending \<longrightarrow> r' = r) \<and> (ob_status r' = OB_pending \<longrightarrow> r' = r \<or> ob_attempts r' < mx)
     \<and> ob_attempts r \<le> ob_attempts r'"

lemma row_advances_reaches: "row_advances mx r r' \<Longrightarrow> row_reaches mx r r'"
  by (simp add: row_advances_def row_reaches_def)

lemma row_reaches_trans: "row_reaches mx r r' \<Longrightarrow> row_advances mx r' r'' \<Longrightarrow> row_reaches mx r r''"
  by (auto simp: row_advances_def row_reaches_def)

lemma row_reaches_refl [simp]: "row_reaches mx r r"
  by (simp add: row_reaches_def)

lemma list_all2_chain:
  "list_all2 P xs ys \<Longrightarrow> list_all2 Q ys zs \<Longrightarrow> (\<And>x y z. P x y \<Longrightarrow> Q y z \<Longrightarrow> R x z) \<Longrightarrow> list_all2 R xs zs"
  by (auto simp: list_all2_conv_all_nth)

lemma drain_all_reaches:
  "list_all2 (row_reaches (xs_max_attempts xs)) rows (outbox m) \<Longrightarrow> outbox_ok m \<Longrightarrow>
   list_all2 (row_reaches (xs_max_attempts xs)) rows (outbox (snd (drain_all xs clock locked send names m)))"
proof (induction xs clock locked send names m rule: drain_all.induct)
  case (2 xs clock locked send name names m)
  obtain vs m1 where d: "drain xs (clock 0) locked name send m = (vs, m1)" by fastforce
  note adv = drain_advances [OF 2(3), of xs "clock 0" locked name send, unfolded d snd_conv]
  have "list_all2 (row_reaches (xs_max_attempts xs)) rows (outbox m1)"
    using list_all2_chain [OF 2(2) adv] row_reaches_trans by blast
  from 2(1) [OF d [symmetric] refl this outbox_ok_advances [OF 2(3) adv]] show ?case
    by (cases "drain_all xs (\<lambda>n. clock (Suc n)) locked send names m1") (simp add: d Let_def)
qed simp

section \<open>Retention\<close>

abbreviation event_key :: "usage_event \<Rightarrow> str \<times> str" where
  "event_key e \<equiv> (ue_tenant e, ue_event_id e)"

abbreviation unsent :: "meter \<Rightarrow> outbox_row list" where
  "unsent m \<equiv> filter (\<lambda>r. ob_status r \<noteq> OB_sent) (outbox m)"

lemma unfinished_unsent: "unfinished_export m e \<longleftrightarrow> (\<exists>r\<in>set (unsent m). (ob_tenant r, ob_event_id r) = event_key e)"
  by (auto simp: unfinished_export_def list_ex_iff)

lemma doomed_event:
  "k \<in> set (doomed_events now days n m) \<Longrightarrow> \<exists>e\<in>set (usage_events m). k = event_key e \<and> past_cutoff now days e \<and> \<not> unfinished_export m e"
  by (auto simp: doomed_events_def dest!: in_set_takeD)

lemma retention_batch_keeps:
  assumes pk: "distinct (map event_key (usage_events m))" and b: "retention_batch now days n m = (c, m')"
  shows "distinct (map event_key (usage_events m')) \<and> unsent m' = unsent m \<and> set (usage_events m') \<subseteq> set (usage_events m)
    \<and> mt_billing m' = mt_billing m
    \<and> (\<forall>e\<in>set (usage_events m). e \<in> set (usage_events m') \<or> past_cutoff now days e \<and> \<not> unfinished_export m e)
    \<and> (\<forall>r\<in>set (outbox m'). r \<in> set (outbox m) \<and> (ob_tenant r, ob_event_id r) \<notin> event_key ` (set (usage_events m) - set (usage_events m')))"
proof -
  let ?d = "set (doomed_events now days n m)"
  have m': "usage_events m' = filter (\<lambda>e. event_key e \<notin> ?d) (usage_events m)"
    "outbox m' = filter (\<lambda>r. (ob_tenant r, ob_event_id r) \<notin> ?d) (outbox m)" "mt_billing m' = mt_billing m"
    using b by (auto simp: retention_batch_def Let_def)
  have inj: "e = f" if "e \<in> set (usage_events m)" "f \<in> set (usage_events m)" "event_key e = event_key f" for e f
    using pk that by (auto simp: distinct_map dest: inj_onD)
  have "e \<in> set (usage_events m') \<or> past_cutoff now days e \<and> \<not> unfinished_export m e" if e: "e \<in> set (usage_events m)" for e
  proof (cases "event_key e \<in> ?d")
    case True
    from doomed_event [OF True] e inj show ?thesis by blast
  qed (use e m' in auto)
  moreover have "(ob_tenant r, ob_event_id r) \<notin> ?d" if "r \<in> set (unsent m)" for r
    using doomed_event that by (fastforce simp: unfinished_unsent)
  then have "unsent m' = unsent m" by (auto simp: m' filter_id_conv conj_commute intro: filter_cong)
  ultimately show ?thesis using pk m' by (auto simp: distinct_map_filter)
qed

lemma retention_loop_keeps:
  assumes "distinct (map event_key (usage_events m))" "retention_loop clock days bs k c m = (x, m')"
  shows "unsent m' = unsent m \<and> mt_billing m' = mt_billing m \<and> set (usage_events m') \<subseteq> set (usage_events m)
    \<and> (\<forall>e\<in>set (usage_events m). e \<in> set (usage_events m') \<or> (\<exists>j<k. past_cutoff (clock j) days e) \<and> \<not> unfinished_export m e)"
  using assms
proof (induction clock days bs k c m rule: retention_loop.induct)
  case (2 clock days bs k deleted cleared m)
  obtain g ob m1 where b: "retention_batch (clock k) days bs m = ((g, ob), m1)" by (metis prod.exhaust)
  note kb = retention_batch_keeps [OF 2(2) b]
  show ?case
  proof (cases "g < bs")
    case True
    then have "m' = m1" using 2(3) b by simp
    then show ?thesis using kb by auto
  next
    case False
    then have l: "retention_loop clock days bs k (deleted + g, cleared + ob) m1 = (x, m')" using 2(3) b by simp
    have IH: "unsent m' = unsent m1 \<and> mt_billing m' = mt_billing m1 \<and> set (usage_events m') \<subseteq> set (usage_events m1)
      \<and> (\<forall>e\<in>set (usage_events m1). e \<in> set (usage_events m') \<or> (\<exists>j<k. past_cutoff (clock j) days e) \<and> \<not> unfinished_export m1 e)"
      using 2(1) [OF b [symmetric] refl refl False _ l] kb by simp
    have uf: "unfinished_export m1 e = unfinished_export m e" for e using kb by (simp add: unfinished_unsent)
    have "e \<in> set (usage_events m') \<or> (\<exists>j<Suc k. past_cutoff (clock j) days e) \<and> \<not> unfinished_export m e"
      if e: "e \<in> set (usage_events m)" for e
    proof (cases "e \<in> set (usage_events m1)")
      case True
      then show ?thesis using IH uf less_SucI by metis
    next
      case False
      then show ?thesis using kb e by blast
    qed
    then show ?thesis using IH kb by auto
  qed
qed auto

section \<open>Properties\<close>

text \<open>An export attempt decides every row of its batch, and says \<open>sent\<close> only when the provider did.
  For a batch with distinct event ids, each row has exactly one verdict: \<open>sent\<close> if and only if the adapter
  returned and reported the id accepted or duplicate and did not also report it failed; a row is left
  pending only while its attempt budget lasts, with a delay between the base and the cap.\<close>

theorem export_verdicts_exact:
  assumes "distinct (map du_event_id batch)" and "d \<in> set batch" and "1 \<le> base" and "base \<le> cap"
  shows "\<exists>v. map_of (verdicts mx base cap answer batch) (du_event_id d) = Some v
    \<and> (vd_status v = V_sent \<longleftrightarrow> (\<exists>r. answer = Inr r \<and> du_event_id d \<in> set (er_accepted r) \<union> set (er_duplicate r)
          \<and> du_event_id d \<notin> fst ` set (er_failed r)))
    \<and> (vd_status v = V_pending \<longrightarrow> du_attempts d + 1 < mx \<and> base \<le> vd_delay_seconds v \<and> vd_delay_seconds v \<le> cap)"
proof -
  have m: "map_of (rev (er_failed r)) i = None \<longleftrightarrow> i \<notin> fst ` set (er_failed r)" for r i by (simp add: map_of_eq_None_iff rev_map)
  show ?thesis
    unfolding verdicts_map_of [OF assms(1,2)]
    using backoff_bounds [OF assms(3,4)] m
    by (auto simp: verdict_for_def retry_verdict_def Let_def split: sum.splits option.splits) (metis option.distinct(1))+
qed

theorem export_verdicts_exact_witness:
  "\<exists>v. map_of (verdicts 3 30 600 (Inr \<lparr>er_accepted = [''call1''], er_duplicate = [], er_failed = []\<rparr>) [due_of ''fake'' (sample_metered False) (hd (outbox (sample_metered False)))])
      (du_event_id (due_of ''fake'' (sample_metered False) (hd (outbox (sample_metered False))))) = Some v \<and> vd_status v = V_sent"
proof -
  let ?d = "due_of ''fake'' (sample_metered False) (hd (outbox (sample_metered False)))"
  have i: "du_event_id ?d = ''call1''" by code_simp
  show ?thesis using export_verdicts_exact [of "[?d]" ?d 30 600 3 "Inr \<lparr>er_accepted = [''call1''], er_duplicate = [], er_failed = []\<rparr>"] i
    by auto
qed

text \<open>One export pass. Whatever the providers answer and whichever rows other workers hold, a pass
  keeps every row of the queue in its place: a row that is sent, failed or expired does not change, a row
  that is still pending after being attempted has attempts left, and no attempt is forgotten.\<close>

theorem export_pass_keeps_finished_rows:
  assumes "outbox_ok m" and "run_once xs clock locked send names m = (counts, m')"
  shows "list_all2 (row_reaches (xs_max_attempts xs)) (outbox m) (outbox m')
    \<and> usage_events m' = usage_events m \<and> mt_billing m' = mt_billing m"
proof -
  obtain e m1 where e: "expire_outbox (clock 0) (xs_max_age_days xs) names locked m = (e, m1)" by fastforce
  obtain vs m2 where d: "drain_all xs (\<lambda>n. clock (Suc n)) locked send names m1 = (vs, m2)" by fastforce
  have m': "m' = m2" using assms(2) e d by (simp add: run_once_def Let_def)
  note adv = expire_advances [of "xs_max_attempts xs" m "clock 0" "xs_max_age_days xs" names locked, unfolded e snd_conv]
  have "list_all2 (row_reaches (xs_max_attempts xs)) (outbox m) (outbox m1)"
    using adv row_advances_reaches by (rule list_all2_mono)
  from drain_all_reaches [OF this outbox_ok_advances [OF assms(1) adv], of "\<lambda>n. clock (Suc n)" locked send names]
  have "list_all2 (row_reaches (xs_max_attempts xs)) (outbox m) (outbox m')" using d m' by simp
  moreover have "usage_events (snd (drain_all xs c l s ns k)) = usage_events k \<and> mt_billing (snd (drain_all xs c l s ns k)) = mt_billing k"
    for c l s ns k
    by (induction xs c l s ns k rule: drain_all.induct) (auto simp: drain_def Let_def split: prod.splits)
  from this [of "\<lambda>n. clock (Suc n)" locked send names m1] have "usage_events m' = usage_events m1 \<and> mt_billing m' = mt_billing m1"
    using d m' by simp
  moreover have "usage_events m1 = usage_events m \<and> mt_billing m1 = mt_billing m" using e by (auto simp: expire_outbox_def)
  ultimately show ?thesis by simp
qed

theorem export_pass_keeps_finished_rows_witness:
  "list_all2 (row_reaches 3) (outbox (sample_metered False))
     (outbox (snd (run_once \<lparr>xs_batch_size = 10, xs_max_attempts = 3, xs_base = 30, xs_cap = 600, xs_max_age_days = 30\<rparr> (\<lambda>n. 1000) (\<lambda>k. False)
        (\<lambda>p t c us. Inl ''TimeoutError'') [''fake''] (sample_metered False))))"
proof -
  let ?xs = "\<lparr>xs_batch_size = 10, xs_max_attempts = 3, xs_base = 30, xs_cap = 600, xs_max_age_days = 30\<rparr>"
  let ?run = "run_once ?xs (\<lambda>n. 1000) (\<lambda>k. False) (\<lambda>p t c us. Inl ''TimeoutError'') [''fake''] (sample_metered False)"
  have ok: "outbox_ok (sample_metered False)" by code_simp
  have "?run = (fst ?run, snd ?run)" by simp
  from export_pass_keeps_finished_rows [OF ok this] show ?thesis by simp
qed

text \<open>Retention of usage events. A sweep refuses an age below the floor before it touches a row. Otherwise,
  whatever the batch size and the number of batches, it deletes only events that are past the cutoff and
  whose export is finished for every provider; no export row that is pending, failed or expired is lost, and
  the wallet is not touched.\<close>

theorem usage_sweep_keeps_unfinished:
  assumes "distinct (map (\<lambda>e. (ue_tenant e, ue_event_id e)) (usage_events m))"
    and "sweep_old_events clock days batch_size max_batches m = (res, m')"
  shows "case res of
      Inl _ \<Rightarrow> days < 35 \<and> m' = m
    | Inr _ \<Rightarrow> 35 \<le> days \<and> mt_billing m' = mt_billing m
        \<and> filter (\<lambda>r. ob_status r \<noteq> OB_sent) (outbox m') = filter (\<lambda>r. ob_status r \<noteq> OB_sent) (outbox m)
        \<and> (\<forall>e\<in>set (usage_events m). e \<in> set (usage_events m')
             \<or> (\<exists>j<max_batches. ue_occurred_at e < clock j - days * day_us) \<and> \<not> unfinished_export m e)"
proof (cases "days < 35")
  case True
  then show ?thesis using assms(2) by (auto simp: sweep_old_events_def BILLING_USAGE_EVENT_MIN_RETENTION_DAYS_def)
next
  case False
  obtain x where x: "retention_loop clock days batch_size max_batches (0, 0) m = (x, m')"
    using assms(2) False by (auto simp: sweep_old_events_def BILLING_USAGE_EVENT_MIN_RETENTION_DAYS_def split: prod.splits)
  show ?thesis using retention_loop_keeps [OF assms(1) x] assms(2) False
    by (auto simp: sweep_old_events_def BILLING_USAGE_EVENT_MIN_RETENTION_DAYS_def past_cutoff_def split: prod.splits)
qed

theorem usage_sweep_keeps_unfinished_witness:
  "usage_events (snd (sweep_old_events (\<lambda>k. 10 ^ 15) 400 100 10 (sample_metered False))) = usage_events (sample_metered False)"
proof -
  let ?m = "sample_metered False" and ?s = "sweep_old_events (\<lambda>k. 10 ^ 15) 400 100 10 (sample_metered False)"
  have pk: "distinct (map (\<lambda>e. (ue_tenant e, ue_event_id e)) (usage_events ?m))" and u: "list_all (unfinished_export ?m) (usage_events ?m)"
    and l: "length (usage_events ?m) = 1" "length (usage_events (snd ?s)) = 1" and r: "\<not> isl (fst ?s)" by code_simp+
  obtain x where x: "?s = (Inr x, snd ?s)" using r by (metis prod.collapse sum.collapse(2))
  have "\<forall>e\<in>set (usage_events ?m). e \<in> set (usage_events (snd ?s))"
    using usage_sweep_keeps_unfinished [OF pk x] u by (auto simp: list_all_iff)
  then show ?thesis using l by (cases "usage_events ?m"; cases "usage_events (snd ?s)") auto
qed

end
