(* ===== verification/Py_Regex.thy ===== *)
theory Py_Regex
  imports Py_Text
begin

text \<open>
  The backtracking semantics of Python's \<open>re\<close> for the constructs the sources use. A pattern
  run at a position yields the ends of its matches in the order the engine tries them, so the
  first one is the match \<open>re.match\<close> reports there; ordered alternatives, greedy and lazy
  repetition, word boundaries and lookaheads are all this list.
\<close>

datatype rx =
    Chr "char \<Rightarrow> bool"
  | Eps
  | Seq rx rx
  | Alt rx rx
  | Rep bool nat rx
  | Star bool rx
  | WordB
  | Neg rx
  | Look rx
  | AtEnd
  | AtDollar
  | LineStart

text \<open>
  Repetition at most \<open>n\<close> times (\<open>True\<close>: greedy). An iteration that consumes nothing is not
  repeated, as in the engine, so \<open>length s - i\<close> iterations are enough for an unbounded one.
\<close>

fun rep_ends :: "nat \<Rightarrow> bool \<Rightarrow> (nat \<Rightarrow> nat list) \<Rightarrow> nat \<Rightarrow> nat list" where
  "rep_ends 0 g m i = [i]"
| "rep_ends (Suc n) g m i =
     (let more = concat (map (\<lambda>j. if i < j then rep_ends n g m j else []) (m i))
      in if g then more @ [i] else i # more)"

definition word_at :: "string \<Rightarrow> nat \<Rightarrow> bool" where
  "word_at s i = (i < length s \<and> is_word (s ! i))"

definition word_boundary :: "string \<Rightarrow> nat \<Rightarrow> bool" where
  "word_boundary s i = ((0 < i \<and> word_at s (i - 1)) \<noteq> word_at s i)"

primrec rx_ends :: "rx \<Rightarrow> string \<Rightarrow> nat \<Rightarrow> nat list" where
  "rx_ends (Chr p) s i = (if i < length s \<and> p (s ! i) then [Suc i] else [])"
| "rx_ends Eps s i = [i]"
| "rx_ends (Seq a b) s i = concat (map (rx_ends b s) (rx_ends a s i))"
| "rx_ends (Alt a b) s i = rx_ends a s i @ rx_ends b s i"
| "rx_ends (Rep g n a) s i = rep_ends n g (rx_ends a s) i"
| "rx_ends (Star g a) s i = rep_ends (length s - i) g (rx_ends a s) i"
| "rx_ends WordB s i = (if word_boundary s i then [i] else [])"
| "rx_ends (Neg a) s i = (if rx_ends a s i = [] then [i] else [])"
| "rx_ends (Look a) s i = (if rx_ends a s i = [] then [] else [i])"
| "rx_ends AtEnd s i = (if i = length s then [i] else [])"
| "rx_ends AtDollar s i =
     (if i = length s \<or> (Suc i = length s \<and> ccode (s ! i) = 10) then [i] else [])"
| "rx_ends LineStart s i = (if i = 0 \<or> ccode (s ! (i - 1)) = 10 then [i] else [])"

text \<open>\<open>re.match\<close>, \<open>re.search\<close> from a position, and the matches \<open>re.finditer\<close> yields.\<close>

definition rx_match :: "rx \<Rightarrow> string \<Rightarrow> bool" where
  "rx_match r s = (rx_ends r s 0 \<noteq> [])"

definition search_from :: "rx \<Rightarrow> string \<Rightarrow> nat \<Rightarrow> (nat \<times> nat) option" where
  "search_from r s i =
     (case List.find (\<lambda>k. rx_ends r s k \<noteq> []) [i..<Suc (length s)] of
        None \<Rightarrow> None
      | Some k \<Rightarrow> Some (k, hd (rx_ends r s k)))"

definition rx_search :: "rx \<Rightarrow> string \<Rightarrow> bool" where
  "rx_search r s = (search_from r s 0 \<noteq> None)"

primrec finditer_fuel :: "nat \<Rightarrow> rx \<Rightarrow> string \<Rightarrow> nat \<Rightarrow> (nat \<times> nat) list" where
  "finditer_fuel 0 r s i = []"
| "finditer_fuel (Suc n) r s i =
     (case search_from r s i of
        None \<Rightarrow> []
      | Some (a, b) \<Rightarrow> (a, b) # finditer_fuel n r s (if a < b then b else Suc b))"

definition finditer :: "rx \<Rightarrow> string \<Rightarrow> (nat \<times> nat) list" where
  "finditer r s = finditer_fuel (Suc (length s)) r s 0"

definition slice :: "string \<Rightarrow> nat \<Rightarrow> nat \<Rightarrow> string" where
  "slice s a b = take (b - a) (drop a s)"

definition rx_findall :: "rx \<Rightarrow> string \<Rightarrow> string list" where
  "rx_findall r s = map (\<lambda>(a, b). slice s a b) (finditer r s)"

text \<open>
  \<open>re.sub(f, ...)\<close>: the text with each match replaced by \<open>f\<close> of it; \<open>re.sub("", ...)\<close> keeps
  the text outside the matches.
\<close>

fun sub_spans :: "(string \<Rightarrow> string) \<Rightarrow> string \<Rightarrow> nat \<Rightarrow> (nat \<times> nat) list \<Rightarrow> string" where
  "sub_spans f s i [] = drop i s"
| "sub_spans f s i ((a, b) # ms) = slice s i a @ f (slice s a b) @ sub_spans f s b ms"

definition rx_sub :: "rx \<Rightarrow> (string \<Rightarrow> string) \<Rightarrow> string \<Rightarrow> string" where
  "rx_sub r f s = sub_spans f s 0 (finditer r s)"

definition rx_delete :: "rx \<Rightarrow> string \<Rightarrow> string" where
  "rx_delete r s = rx_sub r (\<lambda>_. []) s"

section \<open>Pattern abbreviations\<close>

definition Plus1 :: "rx \<Rightarrow> rx" where
  "Plus1 r = Seq r (Star True r)"

definition Opt :: "rx \<Rightarrow> rx" where
  "Opt r = Alt r Eps"

text \<open>A literal, and a literal under \<open>re.IGNORECASE\<close> (written in lower case).\<close>

primrec lit :: "string \<Rightarrow> rx" where
  "lit [] = Eps"
| "lit (c # s) = Seq (Chr (\<lambda>x. x = c)) (lit s)"

primrec liti :: "string \<Rightarrow> rx" where
  "liti [] = Eps"
| "liti (c # s) = Seq (Chr (\<lambda>x. lower_char x = c)) (liti s)"

primrec seqs :: "rx list \<Rightarrow> rx" where
  "seqs [] = Eps"
| "seqs (r # rs) = Seq r (seqs rs)"

fun alts :: "rx list \<Rightarrow> rx" where
  "alts [] = Neg Eps"
| "alts [r] = r"
| "alts (r # rs) = Alt r (alts rs)"

definition any_char :: rx where "any_char = Chr (\<lambda>_. True)"
definition space_char :: rx where "space_char = Chr is_space"
definition nonspace_char :: rx where "nonspace_char = Chr (\<lambda>c. \<not> is_space c)"
definition digit_char :: rx where "digit_char = Chr is_digit"
definition one_of :: "string \<Rightarrow> rx" where "one_of cs = Chr (\<lambda>c. c \<in> set cs)"
definition none_of :: "string \<Rightarrow> rx" where "none_of cs = Chr (\<lambda>c. c \<notin> set cs)"

lemmas rx_abbrevs = Plus1_def Opt_def any_char_def space_char_def nonspace_char_def
  digit_char_def one_of_def none_of_def

section \<open>Matches stay inside the text\<close>

lemma rep_ends_bounds:
  assumes "\<And>i j. i \<le> n \<Longrightarrow> j \<in> set (m i) \<Longrightarrow> i \<le> j \<and> j \<le> n"
  shows "i \<le> n \<Longrightarrow> j \<in> set (rep_ends k g m i) \<Longrightarrow> i \<le> j \<and> j \<le> n"
proof (induction k arbitrary: i j)
  case 0
  then show ?case by simp
next
  case (Suc k)
  have more: "i \<le> j \<and> j \<le> n"
    if l: "l \<in> set (m i)" "i < l" "j \<in> set (rep_ends k g m l)" for l
  proof -
    from assms [OF Suc.prems(1) l(1)] have "l \<le> n" by simp
    from Suc.IH [OF this l(3)] l(2) show ?thesis by simp
  qed
  from Suc.prems(2) have "j = i \<or> (\<exists>l \<in> set (m i). i < l \<and> j \<in> set (rep_ends k g m l))"
    by (auto simp: Let_def split: if_splits)
  then show ?case using more Suc.prems(1) by auto
qed

lemma rx_ends_bounds: "i \<le> length s \<Longrightarrow> j \<in> set (rx_ends r s i) \<Longrightarrow> i \<le> j \<and> j \<le> length s"
proof (induction r arbitrary: i j)
  case (Seq a b)
  from Seq.prems(2) obtain l where l: "l \<in> set (rx_ends a s i)" "j \<in> set (rx_ends b s l)" by auto
  from Seq.IH(1) [OF Seq.prems(1) l(1)] Seq.IH(2) [OF _ l(2)] show ?case by simp
next
  case (Alt a b)
  from Alt.prems(2) show ?case using Alt.IH(1) [OF Alt.prems(1)] Alt.IH(2) [OF Alt.prems(1)]
    by (metis UnE rx_ends.simps(4) set_append)
next
  case (Rep g n a)
  from Rep.IH have "\<And>i j. i \<le> length s \<Longrightarrow> j \<in> set (rx_ends a s i) \<Longrightarrow> i \<le> j \<and> j \<le> length s" .
  from rep_ends_bounds [OF this Rep.prems(1)] Rep.prems(2) show ?case by simp
next
  case (Star g a)
  from Star.IH have "\<And>i j. i \<le> length s \<Longrightarrow> j \<in> set (rx_ends a s i) \<Longrightarrow> i \<le> j \<and> j \<le> length s" .
  from rep_ends_bounds [OF this Star.prems(1)] Star.prems(2) show ?case by simp
next
  case (Neg a)
  from Neg.prems show ?case by (simp split: if_splits)
next
  case (Look a)
  from Look.prems show ?case by (simp split: if_splits)
qed (simp_all split: if_splits)

lemma search_from_SomeD:
  assumes "search_from r s i = Some (a, b)"
  shows "i \<le> a \<and> a \<le> b \<and> b \<le> length s \<and> rx_ends r s a \<noteq> [] \<and> b = hd (rx_ends r s a)"
proof -
  from assms obtain k where k: "List.find (\<lambda>k. rx_ends r s k \<noteq> []) [i..<Suc (length s)] = Some k"
    and ab: "a = k" "b = hd (rx_ends r s k)"
    by (auto simp: search_from_def split: option.splits)
  from k have r: "i \<le> k" "k \<le> length s" "rx_ends r s k \<noteq> []"
    by (auto simp: find_Some_iff simp del: upt_Suc)
  with ab rx_ends_bounds [OF r(2), of "hd (rx_ends r s k)" r] show ?thesis
    by (auto simp: hd_in_set)
qed

lemma search_from_None_iff:
  "search_from r s i = None \<longleftrightarrow> (\<forall>k. i \<le> k \<and> k \<le> length s \<longrightarrow> rx_ends r s k = [])"
proof -
  have "search_from r s i = None \<longleftrightarrow>
      List.find (\<lambda>k. rx_ends r s k \<noteq> []) [i..<Suc (length s)] = None"
    by (simp add: search_from_def split: option.splits del: upt_Suc)
  also have "\<dots> \<longleftrightarrow> (\<forall>k. i \<le> k \<and> k \<le> length s \<longrightarrow> rx_ends r s k = [])"
    by (auto simp: find_None_iff simp del: upt_Suc)
  finally show ?thesis .
qed

lemma search_from_least:
  "search_from r s i = Some (a, b) \<Longrightarrow> i \<le> k \<Longrightarrow> k < a \<Longrightarrow> rx_ends r s k = []"
  by (auto simp: search_from_def find_Some_iff simp del: upt_Suc split: option.splits)
    (metis (no_types, lifting) add_diff_inverse_nat diff_less_mono leD nth_upt
      add_less_cancel_left less_trans le_add_diff_inverse)

text \<open>The fuel of \<open>finditer\<close> is enough: any more gives the same matches.\<close>

lemma finditer_fuel_enough:
  "Suc (length s) \<le> i + n \<Longrightarrow> finditer_fuel (n + k) r s i = finditer_fuel n r s i"
proof (induction n arbitrary: i)
  case 0
  then have "search_from r s i = None" by (auto simp: search_from_None_iff)
  then show ?case by (cases k) simp_all
next
  case (Suc n)
  show ?case
  proof (cases "search_from r s i")
    case None
    then show ?thesis by simp
  next
    case (Some ab)
    obtain a b where ab: "ab = (a, b)" by (cases ab)
    from search_from_SomeD [OF Some [unfolded ab]]
    have "Suc (length s) \<le> (if a < b then b else Suc b) + n" using Suc.prems by auto
    from Suc.IH [OF this] Some ab show ?thesis by simp
  qed
qed

lemma finditer_fuel_spans:
  "(a, b) \<in> set (finditer_fuel n r s i) \<Longrightarrow> i \<le> a \<and> a \<le> b \<and> b \<le> length s"
proof (induction n arbitrary: i)
  case 0
  then show ?case by simp
next
  case (Suc n)
  then obtain a' b' where f: "search_from r s i = Some (a', b')"
    by (cases "search_from r s i") auto
  note sd = search_from_SomeD [OF f]
  show ?case
  proof (cases "(a, b) = (a', b')")
    case True
    then show ?thesis using sd by simp
  next
    case False
    with Suc.prems f have "(a, b) \<in> set (finditer_fuel n r s (if a' < b' then b' else Suc b'))"
      by (auto simp del: if_split)
    from Suc.IH [OF this] sd show ?thesis by (auto split: if_splits)
  qed
qed

lemma finditer_fuel_sorted:
  "sorted_wrt (\<lambda>(a, b) (c, d). b \<le> c) (finditer_fuel n r s i)"
proof (induction n arbitrary: i)
  case 0
  then show ?case by simp
next
  case (Suc n)
  show ?case
  proof (cases "search_from r s i")
    case None
    then show ?thesis by simp
  next
    case (Some ab)
    obtain a b where ab: "ab = (a, b)" by (cases ab)
    have "b \<le> c" if "(c, d) \<in> set (finditer_fuel n r s (if a < b then b else Suc b))" for c d
      using finditer_fuel_spans [OF that] by (auto split: if_splits)
    with Some ab Suc.IH show ?thesis by auto
  qed
qed

lemma finditer_spans: "(a, b) \<in> set (finditer r s) \<Longrightarrow> a \<le> b \<and> b \<le> length s"
  unfolding finditer_def using finditer_fuel_spans by blast

lemma finditer_sorted: "sorted_wrt (\<lambda>(a, b) (c, d). b \<le> c) (finditer r s)"
  unfolding finditer_def by (rule finditer_fuel_sorted)

text \<open>A lazy repetition of any character reaches every later position.\<close>

lemma rep_ends_any:
  assumes "\<And>i. i < n \<Longrightarrow> Suc i \<in> set (m i)"
  shows "i + k \<le> n \<Longrightarrow> i + k \<in> set (rep_ends (k + l) g m i)"
proof (induction k arbitrary: i)
  case 0
  then show ?case by (cases l) (auto simp: Let_def)
next
  case (Suc k)
  have "Suc i + k \<in> set (rep_ends (k + l) g m (Suc i))" using Suc.IH [of "Suc i"] Suc.prems by simp
  moreover have "Suc i \<in> set (m i)" using assms [of i] Suc.prems by simp
  ultimately have "\<exists>j \<in> set (m i). i < j \<and> Suc i + k \<in> set (rep_ends (k + l) g m j)" by auto
  then show ?case by (auto simp: Let_def)
qed

lemma slice_length [simp]: "a \<le> b \<Longrightarrow> b \<le> length s \<Longrightarrow> length (slice s a b) = b - a"
  by (simp add: slice_def)

lemma slice_split: "a \<le> b \<Longrightarrow> b \<le> length s \<Longrightarrow> slice s a b @ drop b s = drop a s"
  unfolding slice_def by (metis append_take_drop_id drop_drop le_add_diff_inverse2 add.commute)

lemma slice_sublist: "sublist (slice s a b) s"
  unfolding slice_def by (meson sublist_drop sublist_order.order_trans sublist_take)

text \<open>A text shorter than the literal a pattern starts with does not contain the pattern.\<close>

lemma liti_ends: "i \<le> length s \<Longrightarrow> j \<in> set (rx_ends (liti w) s i) \<Longrightarrow> j = i + length w \<and> j \<le> length s"
proof (induction w arbitrary: i)
  case (Cons c w)
  then have "j \<in> set (rx_ends (liti w) s (Suc i))" "Suc i \<le> length s" by (auto split: if_splits)
  then show ?case using Cons.IH [of "Suc i"] by simp
qed simp

lemma short_text_no_match:
  assumes "length s < length w"
  shows "\<not> rx_search (seqs (liti w # rs)) s"
proof -
  have "rx_ends (liti w) s k = []" if "k \<le> length s" for k
    using liti_ends [OF that] assms by (metis last_in_set le_add2 le_trans not_le)
  then show ?thesis by (auto simp: rx_search_def search_from_None_iff)
qed

end
