(* ===== verification/Messages.thy ===== *)
theory Messages
  imports Py_Regex
begin

text \<open>
  \<open>src/app/agent/graph/messages.py\<close>: the messages of a thread and the helpers that read them.
  A message is a record whose \<open>mtype\<close> is its LangChain class; \<open>kwargs\<close> holds the names of
  the flags set in \<open>additional_kwargs\<close>. Tool-call arguments are JSON values.
\<close>

section \<open>Data\<close>

datatype json =
    JNull
  | JBool bool
  | JInt int
  | JFloat string
  | JStr string
  | JList "json list"
  | JObj "(string \<times> json) list"

record tool_call =
  tc_name :: str
  tc_args :: json
  tc_id :: str

datatype content_part = TextPart str | ImagePart str | StrPart str | OtherPart

datatype content = Text str | Parts "content_part list"

datatype msg_type = Human | AI | Tool | System | Remove

record message =
  mtype :: msg_type
  content :: content
  msg_id :: "str option"
  kwargs :: "str list"
  tool_calls :: "tool_call list"
  tool_call_id :: str
  mname :: "str option"
  status :: str

definition base_message :: "msg_type \<Rightarrow> content \<Rightarrow> message" where
  "base_message t c =
     \<lparr>mtype = t, content = c, msg_id = None, kwargs = [], tool_calls = [], tool_call_id = [],
      mname = None, status = ''success''\<rparr>"

definition AIMessage :: "str \<Rightarrow> message" where
  "AIMessage t = base_message AI (Text t)"

definition HumanMessage :: "str \<Rightarrow> message" where
  "HumanMessage t = base_message Human (Text t)"

definition SystemMessage :: "str \<Rightarrow> message" where
  "SystemMessage t = base_message System (Text t)"

definition ToolMessage :: "str \<Rightarrow> str \<Rightarrow> str \<Rightarrow> message" where
  "ToolMessage t call_id name =
     (base_message Tool (Text t))\<lparr>tool_call_id := call_id, mname := Some name\<rparr>"

definition RemoveMessage :: "str \<Rightarrow> message" where
  "RemoveMessage i = (base_message Remove (Text []))\<lparr>msg_id := Some i\<rparr>"

text \<open>\<open>getattr(m, "content", "") or ""\<close>.\<close>

definition content_or_empty :: "message \<Rightarrow> content" where
  "content_or_empty m = (case content m of Parts [] \<Rightarrow> Text [] | c \<Rightarrow> c)"

section \<open>Marks on messages\<close>

definition CANNOT_HELP_MESSAGE :: str where
  "CANNOT_HELP_MESSAGE = ''I can't help with that request.''"

definition GATEWAY_REFUSAL_KEY :: str where
  "GATEWAY_REFUSAL_KEY = ''gateway_refusal''"

definition WITHHELD_MESSAGE :: str where
  "WITHHELD_MESSAGE = ''[This message was withheld: a content policy refused it.]''"

definition RETRY_ARTIFACT_KEY :: str where
  "RETRY_ARTIFACT_KEY = ''retry_artifact''"

definition COMPACTION_MARKER_KEY :: str where
  "COMPACTION_MARKER_KEY = ''compaction_marker''"

definition is_compaction_marker :: "message \<Rightarrow> bool" where
  "is_compaction_marker m = (COMPACTION_MARKER_KEY \<in> set (kwargs m))"

definition is_legacy_prompt :: "message \<Rightarrow> bool" where
  "is_legacy_prompt m = (mtype m = System \<and> \<not> is_compaction_marker m)"

definition is_retry_artifact :: "message \<Rightarrow> bool" where
  "is_retry_artifact m = (RETRY_ARTIFACT_KEY \<in> set (kwargs m))"

definition is_user_message :: "message \<Rightarrow> bool" where
  "is_user_message m = (mtype m = Human \<and> \<not> is_retry_artifact m)"

definition tag_retry_artifact :: "message \<Rightarrow> message" where
  "tag_retry_artifact m = m\<lparr>kwargs := List.insert RETRY_ARTIFACT_KEY (kwargs m)\<rparr>"

section \<open>Retry artifacts of older builds\<close>

definition LEGACY_RETRY_FEEDBACK :: "(str \<times> str list) list" where
  "LEGACY_RETRY_FEEDBACK =
    [(''That answer repeated internal system instructions.'', []),
     (''That answer was too short '' @ em_dash @ '' please give a fuller answer.'', []),
     (''That answer showed a script and its output as if a real tool had run it'', []),
     (''The skill you loaded said to use '',
        ['' for this '' @ em_dash @ '' you computed a number by hand'']),
     (''You described using a tool instead of actually calling it'', []),
     (''That answer uses facts from source(s) '',
        ['' without citing them. Do not call any tools'']),
     (''That answer cites '',
        ['', but its content does not actually support what you wrote''])]"

definition is_legacy_retry_feedback :: "str \<Rightarrow> bool" where
  "is_legacy_retry_feedback t =
     list_ex (\<lambda>(start, parts). prefix start t \<and> list_all (\<lambda>p. sublist p t) parts)
       LEGACY_RETRY_FEEDBACK"

definition legacy_pair :: "message \<Rightarrow> message \<Rightarrow> bool" where
  "legacy_pair answer feedback =
     (mtype feedback = Human \<and> \<not> is_retry_artifact feedback \<and> msg_id feedback \<noteq> None \<and>
      (case content feedback of Text t \<Rightarrow> is_legacy_retry_feedback t | Parts _ \<Rightarrow> False) \<and>
      mtype answer = AI \<and> tool_calls answer = [] \<and> \<not> is_retry_artifact answer)"

fun legacy_retry_artifact_ids :: "message list \<Rightarrow> str list" where
  "legacy_retry_artifact_ids (answer # feedback # ms) =
     (if legacy_pair answer feedback
      then (case msg_id feedback of None \<Rightarrow> [] | Some i \<Rightarrow> [i]) @
           (case msg_id answer of None \<Rightarrow> [] | Some i \<Rightarrow> [i])
      else []) @ legacy_retry_artifact_ids (feedback # ms)"
| "legacy_retry_artifact_ids _ = []"

definition heal_legacy_retry_artifacts :: "message list \<Rightarrow> message list" where
  "heal_legacy_retry_artifacts ms =
     (let ids = legacy_retry_artifact_ids ms
      in map tag_retry_artifact
           (filter (\<lambda>m. case msg_id m of None \<Rightarrow> False | Some i \<Rightarrow> i \<in> set ids) ms))"

section \<open>Finding the person's messages\<close>

definition last_human_message :: "message list \<Rightarrow> message option" where
  "last_human_message ms = last_such is_user_message ms"

definition previous_human_message :: "message list \<Rightarrow> nat \<Rightarrow> message option" where
  "previous_human_message ms before_index = last_such is_user_message (take before_index ms)"

definition current_turn_messages :: "message list \<Rightarrow> message list" where
  "current_turn_messages ms =
     (case last_index is_user_message ms of Some i \<Rightarrow> drop i ms | None \<Rightarrow> ms)"

section \<open>Text of a message\<close>

definition human_text :: "message option \<Rightarrow> str" where
  "human_text mo =
     (case mo of
        None \<Rightarrow> []
      | Some m \<Rightarrow>
          (case content m of
             Text t \<Rightarrow> t
           | Parts ps \<Rightarrow> concat (map (\<lambda>p. case p of TextPart t \<Rightarrow> t | _ \<Rightarrow> []) ps)))"

definition human_has_content :: "message option \<Rightarrow> bool" where
  "human_has_content mo =
     (case mo of
        None \<Rightarrow> False
      | Some m \<Rightarrow>
          (case content m of
             Text t \<Rightarrow> strip t \<noteq> []
           | Parts ps \<Rightarrow>
               strip (human_text mo) \<noteq> [] \<or>
               list_ex (\<lambda>p. case p of ImagePart _ \<Rightarrow> True | _ \<Rightarrow> False) ps))"

text \<open>\<open>"\n\n".join(part for part in (lead, content, tail) if part)\<close> and the part-wise form.\<close>

definition blank_line :: str where
  "blank_line = newline @ newline"

definition with_turn_notes :: "message \<Rightarrow> str list \<Rightarrow> str list \<Rightarrow> message" where
  "with_turn_notes question before after =
     (let lead = join blank_line before; tail = join blank_line after in
      question\<lparr>content :=
        (case content question of
           Text t \<Rightarrow> Text (join blank_line (filter (\<lambda>p. p \<noteq> []) [lead, t, tail]))
         | Parts ps \<Rightarrow>
             Parts ((if lead \<noteq> [] then [TextPart lead] else []) @ ps @
                    (if tail \<noteq> [] then [TextPart tail] else [])))\<rparr>)"

section \<open>Answering a tool batch that will not run\<close>

definition reject_tool_calls :: "tool_call list \<Rightarrow> str \<Rightarrow> message list" where
  "reject_tool_calls calls reason = map (\<lambda>tc. ToolMessage reason (tc_id tc) (tc_name tc)) calls"

section \<open>Words and sentences\<close>

text \<open>The words of the source's \<open>"a an the ...".split()\<close>.\<close>

definition STOPWORDS :: "str list" where
  "STOPWORDS =
    [''a'', ''an'', ''the'', ''is'', ''are'', ''was'', ''were'', ''and'', ''or'', ''of'', ''to'',
     ''in'', ''for'', ''on'', ''at'', ''by'', ''with'', ''from'', ''that'', ''this'', ''it'',
     ''its'', ''be'', ''as'', ''you'', ''your'', ''can'', ''will'', ''if'', ''not'', ''into'',
     ''their'', ''his'', ''her'', ''they'', ''he'', ''she'', ''we'']"

definition word_rx :: rx where
  "word_rx = Plus1 (Chr (\<lambda>c. is_digit c \<or> (97 \<le> ccode c \<and> ccode c \<le> 122)))"

text \<open>The set of content words, as a list without repetition.\<close>

definition content_words :: "str \<Rightarrow> str list" where
  "content_words t =
     remdups (filter (\<lambda>w. w \<notin> set STOPWORDS \<and> 2 < length w) (rx_findall word_rx (lower_text t)))"

definition VAGUE_QUERY_MAX_CONTENT_WORDS :: nat where
  "VAGUE_QUERY_MAX_CONTENT_WORDS = 4"

definition retrieval_query :: "str \<Rightarrow> message option \<Rightarrow> str" where
  "retrieval_query current_text previous =
     (if previous \<noteq> None \<and> length (content_words current_text) \<le> VAGUE_QUERY_MAX_CONTENT_WORDS
      then human_text previous @ '' '' @ current_text
      else current_text)"

text \<open>\<open>\S.*?(?:[.!?](?:[ \t]*\[\d+\])*(?=\s|\Z)|\Z)\<close> under \<open>re.DOTALL\<close>.\<close>

definition sentence_end_rx :: rx where
  "sentence_end_rx =
     Alt (seqs [one_of ''.!?'',
                Star True (seqs [Star True (one_of [CHR '' '', CHR 0x09]), lit ''['', Plus1 digit_char, lit '']'']),
                Look (Alt space_char AtEnd)])
         AtEnd"

definition sentence_rx :: rx where
  "sentence_rx = Seq nonspace_char (Seq (Star False any_char) sentence_end_rx)"

definition sentence_spans :: "str \<Rightarrow> (nat \<times> nat) list" where
  "sentence_spans t = finditer sentence_rx t"

definition split_sentences :: "str \<Rightarrow> str list" where
  "split_sentences t = map (\<lambda>(a, b). slice t a b) (sentence_spans t)"

section \<open>Facts\<close>

lemma mtype_simps [simp]:
  "mtype (AIMessage t) = AI" "mtype (HumanMessage t) = Human" "mtype (SystemMessage t) = System"
  "mtype (ToolMessage t i n) = Tool" "mtype (RemoveMessage i) = Remove"
  by (simp_all add: AIMessage_def HumanMessage_def SystemMessage_def ToolMessage_def
      RemoveMessage_def base_message_def)

lemma message_simps [simp]:
  "tool_calls (AIMessage t) = []" "kwargs (AIMessage t) = []" "content (AIMessage t) = Text t"
  "msg_id (AIMessage t) = None"
  "tool_call_id (ToolMessage t i n) = i" "mname (ToolMessage t i n) = Some n"
  "content (ToolMessage t i n) = Text t" "tool_calls (ToolMessage t i n) = []"
  "kwargs (ToolMessage t i n) = []" "kwargs (HumanMessage t) = []"
  "content (HumanMessage t) = Text t" "tool_calls (HumanMessage t) = []" "msg_id (HumanMessage t) = None"
  by (simp_all add: AIMessage_def HumanMessage_def ToolMessage_def base_message_def)

lemma system_message_simps [simp]:
  "kwargs (SystemMessage t) = []" "content (SystemMessage t) = Text t"
  by (simp_all add: SystemMessage_def base_message_def)

lemma not_artifact_simps [simp]:
  "\<not> is_retry_artifact (HumanMessage t)" "\<not> is_retry_artifact (AIMessage t)"
  "\<not> is_retry_artifact (SystemMessage t)"
  by (simp_all add: is_retry_artifact_def)

lemma is_user_message_AI [simp]: "\<not> is_user_message (AIMessage t)"
  by (simp add: is_user_message_def)

lemma is_user_message_Tool [simp]: "\<not> is_user_message (ToolMessage t i n)"
  by (simp add: is_user_message_def)

lemma tag_retry_artifact_simps [simp]:
  "is_retry_artifact (tag_retry_artifact m)" "msg_id (tag_retry_artifact m) = msg_id m"
  "mtype (tag_retry_artifact m) = mtype m" "tool_calls (tag_retry_artifact m) = tool_calls m"
  "content (tag_retry_artifact m) = content m"
  by (simp_all add: tag_retry_artifact_def is_retry_artifact_def)

lemma reject_tool_calls_ids [simp]:
  "map tool_call_id (reject_tool_calls calls reason) = map tc_id calls"
  by (simp add: reject_tool_calls_def comp_def)

lemma length_reject_tool_calls [simp]: "length (reject_tool_calls calls reason) = length calls"
  by (simp add: reject_tool_calls_def)

lemma reject_tool_calls_type: "m \<in> set (reject_tool_calls calls reason) \<Longrightarrow> mtype m = Tool"
  by (auto simp: reject_tool_calls_def)

lemma reject_tool_calls_Nil_iff [simp]: "reject_tool_calls calls reason = [] \<longleftrightarrow> calls = []"
  by (simp add: reject_tool_calls_def)

lemma current_turn_suffix: "suffix (current_turn_messages ms) ms"
  by (simp add: current_turn_messages_def suffix_drop split: option.splits)

lemma current_turn_no_later_user:
  "m \<in> set (tl (current_turn_messages ms)) \<Longrightarrow> last_index is_user_message ms \<noteq> None \<Longrightarrow>
   \<not> is_user_message m"
proof -
  assume m: "m \<in> set (tl (current_turn_messages ms))" and "last_index is_user_message ms \<noteq> None"
  then obtain i where i: "last_index is_user_message ms = Some i" by blast
  with m have "m \<in> set (drop (Suc i) ms)"
    by (simp add: current_turn_messages_def drop_Suc tl_drop)
  then obtain k where k: "k < length (drop (Suc i) ms)" "m = drop (Suc i) ms ! k"
    by (auto simp: in_set_conv_nth)
  then have "m = ms ! (Suc i + k)" "i < Suc i + k" "Suc i + k < length ms" by auto
  with last_index_SomeD [OF i] show ?thesis by blast
qed

lemma current_turn_append:
  assumes "\<forall>m\<in>set us. \<not> is_user_message m"
  shows "current_turn_messages (ms @ us) = current_turn_messages ms @ us"
proof (cases "last_index is_user_message ms")
  case None
  then show ?thesis using last_index_append_not [OF assms, of ms]
    by (simp add: current_turn_messages_def)
next
  case (Some i)
  then have "i < length ms" by (auto dest: last_index_SomeD)
  with Some show ?thesis using last_index_append_not [OF assms, of ms]
    by (simp add: current_turn_messages_def)
qed

lemma last_human_append:
  "\<forall>m\<in>set us. \<not> is_user_message m \<Longrightarrow> last_human_message (ms @ us) = last_human_message ms"
  by (simp add: last_human_message_def last_such_append_not)

text \<open>A heal only returns tagged copies of messages of the thread, under their own ids.\<close>

lemma heal_legacy_copies:
  "h \<in> set (heal_legacy_retry_artifacts ms) \<Longrightarrow>
   is_retry_artifact h \<and> (\<exists>m\<in>set ms. h = tag_retry_artifact m \<and> msg_id m \<noteq> None)"
  by (auto simp: heal_legacy_retry_artifacts_def Let_def split: option.splits)

lemma legacy_pair_not_user: "legacy_pair a f \<Longrightarrow> tool_calls a = [] \<and> msg_id f \<noteq> None"
  by (auto simp: legacy_pair_def)

section \<open>Sentences lose no text\<close>

lemma any_char_reaches:
  "i \<le> length s \<Longrightarrow> length s \<in> set (rx_ends (Star g any_char) s i)"
  using rep_ends_any [of "length s" "rx_ends any_char s" i "length s - i" 0 g]
  by (simp add: any_char_def)

lemma sentence_rx_ends:
  "rx_ends sentence_rx s i =
     (if i < length s \<and> \<not> is_space (s ! i)
      then rx_ends (Seq (Star False any_char) sentence_end_rx) s (Suc i) else [])"
  by (auto simp: sentence_rx_def nonspace_char_def)

lemma sentence_rx_starts:
  assumes "i < length s"
  shows "rx_ends sentence_rx s i \<noteq> [] \<longleftrightarrow> \<not> is_space (s ! i)"
proof -
  have "length s \<in> set (rx_ends sentence_end_rx s (length s))" by (simp add: sentence_end_rx_def)
  moreover have "length s \<in> set (rx_ends (Star False any_char) s (Suc i))"
    using any_char_reaches [of "Suc i" s] assms by simp
  ultimately have "length s \<in> set (rx_ends (Seq (Star False any_char) sentence_end_rx) s (Suc i))"
    unfolding rx_ends.simps(3) by auto
  then show ?thesis using assms by (auto simp only: sentence_rx_ends empty_iff list.set split: if_splits)
qed

lemma sentence_rx_nonempty: "i \<le> length s \<Longrightarrow> j \<in> set (rx_ends sentence_rx s i) \<Longrightarrow> i < j"
  using rx_ends_bounds [of "Suc i" s j "Seq (Star False any_char) sentence_end_rx"]
  by (simp only: sentence_rx_ends split: if_splits) auto

lemma finditer_fuel_covers:
  assumes "\<And>i. i < length s \<Longrightarrow> rx_ends r s i \<noteq> [] \<longleftrightarrow> P i"
    and "\<And>i j. i \<le> length s \<Longrightarrow> j \<in> set (rx_ends r s i) \<Longrightarrow> i < j"
  shows "Suc (length s) \<le> i + n \<Longrightarrow> i \<le> k \<Longrightarrow> k < length s \<Longrightarrow> P k \<Longrightarrow>
    \<exists>(a, b) \<in> set (finditer_fuel n r s i). a \<le> k \<and> k < b"
proof (induction n arbitrary: i)
  case 0
  then show ?case by simp
next
  case (Suc n)
  have ne: "rx_ends r s k \<noteq> []" using assms(1) Suc.prems by simp
  then obtain a b where f: "search_from r s i = Some (a, b)"
    using Suc.prems search_from_None_iff [of r s i] by fastforce
  note sd = search_from_SomeD [OF f]
  have ak: "a \<le> k" using search_from_least [OF f, of k] Suc.prems ne by (meson not_le)
  have ab: "a < b" using assms(2) [of a b] sd by (auto simp: hd_in_set)
  show ?case
  proof (cases "k < b")
    case True
    then show ?thesis using f ak by auto
  next
    case False
    then have "\<exists>(a, b) \<in> set (finditer_fuel n r s b). a \<le> k \<and> k < b"
      using Suc.IH [of b] Suc.prems sd ab by auto
    then show ?thesis using f ab by auto
  qed
qed

text \<open>
  Splitting an answer into sentences loses no text: a position that holds a character other
  than white space is inside one of the spans, and that span ends within the text.
\<close>

theorem sentences_cover_text:
  assumes "k < length t" and "\<not> is_space (t ! k)"
  shows "\<exists>a b. (a, b) \<in> set (sentence_spans t) \<and> a \<le> k \<and> k < b \<and> b \<le> length t"
proof -
  have "\<exists>(a, b) \<in> set (sentence_spans t). a \<le> k \<and> k < b"
    unfolding sentence_spans_def finditer_def
    by (rule finditer_fuel_covers [where P = "\<lambda>i. \<not> is_space (t ! i)"])
      (use assms in \<open>auto simp: sentence_rx_starts dest: sentence_rx_nonempty\<close>)
  then show ?thesis using finditer_spans by (fastforce simp: sentence_spans_def)
qed

theorem sentences_cover_text_witness:
  "\<exists>a b. (a, b) \<in> set (sentence_spans ''Yes. It is'') \<and> a \<le> 6 \<and> 6 < b \<and> b \<le> length ''Yes. It is''"
  by (rule sentences_cover_text) (simp_all add: is_space_def ccode_def)

end
