(* ===== verification/Security.thy ===== *)
theory Security
  imports Prelude
begin

text \<open>
  \<open>src/app/core/security.py\<close>: the security context stamped at the trusted boundary, the scope a
  store has to apply inside its query, and the one access policy the application ships. The
  \<open>Policy\<close> protocol is the locale \<open>access_policy\<close>; \<open>TenantIsolationPolicy\<close> interprets it.
\<close>

section \<open>Data\<close>

record security_ctx =
  tenant :: str
  principal :: str
  claims :: "(str \<times> str) list"

datatype scope_kind = Document | Memory

text \<open>\<open>created_after\<close> is a point in time in days; \<open>None\<close> where the code leaves it unset.\<close>

record access_scope =
  sc_tenant :: str
  sc_kind :: scope_kind
  sc_owner :: "str option"
  sc_created_after :: "int option"

definition known_actions :: "str list" where
  "known_actions =
     [''search'', ''write_note'', ''recall_memory'', ''write_memory'', ''query_structured_data'']"

definition lower_targets :: "str list" where
  "lower_targets = [''documents'', ''memories'']"

section \<open>Operations\<close>

definition valid_ctx :: "security_ctx option \<Rightarrow> bool" where
  "valid_ctx c =
     (case c of
        None \<Rightarrow> False
      | Some ctx \<Rightarrow> tenant ctx \<noteq> [] \<and> principal ctx \<noteq> [])"

definition permit :: "str \<Rightarrow> security_ctx option \<Rightarrow> bool" where
  "permit action c = (if action \<notin> set known_actions then False else valid_ctx c)"

text \<open>\<open>now\<close> is the clock reading in days and \<open>retention\<close> is \<open>MEMORY_RETENTION_DAYS\<close>.\<close>

definition lower :: "int \<Rightarrow> int \<Rightarrow> security_ctx \<Rightarrow> str \<Rightarrow> access_scope result" where
  "lower now retention ctx target =
     (if target \<notin> set lower_targets then Inl (ValueError target)
      else if target = ''documents'' then
        Inr \<lparr>sc_tenant = tenant ctx, sc_kind = Document, sc_owner = None, sc_created_after = None\<rparr>
      else
        Inr \<lparr>sc_tenant = tenant ctx, sc_kind = Memory, sc_owner = Some (principal ctx),
             sc_created_after = Some (now - retention)\<rparr>)"

text \<open>
  What the scope promises about a stored record: the pre-filter a store applies inside the query.
\<close>

record stored =
  st_tenant :: str
  st_kind :: scope_kind
  st_owner :: "str option"
  st_created :: "int option"

definition in_scope :: "access_scope \<Rightarrow> stored \<Rightarrow> bool" where
  "in_scope sc r \<longleftrightarrow>
     st_tenant r = sc_tenant sc \<and> st_kind r = sc_kind sc \<and>
     (case sc_owner sc of None \<Rightarrow> True | Some p \<Rightarrow> st_owner r = Some p) \<and>
     (case sc_created_after sc of
        None \<Rightarrow> True
      | Some t \<Rightarrow> (case st_created r of None \<Rightarrow> False | Some u \<Rightarrow> t \<le> u))"

section \<open>The interface\<close>

locale access_policy =
  fixes may :: "str \<Rightarrow> security_ctx option \<Rightarrow> bool"
    and lowered :: "security_ctx \<Rightarrow> str \<Rightarrow> access_scope result"
  assumes may_closed: "may a c \<Longrightarrow> valid_ctx c"
    and lowered_tenant: "lowered ctx t = Inr sc \<Longrightarrow> sc_tenant sc = tenant ctx"
    and lowered_memory: "lowered ctx t = Inr sc \<Longrightarrow> sc_kind sc = Memory \<Longrightarrow>
          sc_owner sc = Some (principal ctx)"
begin

lemma may_None [simp]: "\<not> may a None"
  using may_closed [of a None] by (auto simp: valid_ctx_def)

lemma tenants_disjoint:
  "lowered c1 t1 = Inr s1 \<Longrightarrow> lowered c2 t2 = Inr s2 \<Longrightarrow> in_scope s1 r \<Longrightarrow> in_scope s2 r \<Longrightarrow>
   tenant c1 = tenant c2"
  using lowered_tenant by (metis in_scope_def)

lemma memories_disjoint:
  assumes "lowered c1 t1 = Inr s1" and "lowered c2 t2 = Inr s2"
    and "sc_kind s1 = Memory" and "in_scope s1 r" and "in_scope s2 r"
  shows "principal c1 = principal c2"
proof -
  from assms have "sc_kind s2 = Memory" by (auto simp: in_scope_def)
  then have "st_owner r = Some (principal c1)" "st_owner r = Some (principal c2)"
    using assms lowered_memory by (auto simp: in_scope_def)
  then show ?thesis by simp
qed

end

interpretation tip: access_policy permit "lower now retention" for now retention
proof unfold_locales
  fix a c assume "permit a c"
  then show "valid_ctx c" by (simp add: permit_def split: if_splits)
next
  fix ctx t sc assume "lower now retention ctx t = Inr sc"
  then show "sc_tenant sc = tenant ctx" by (auto simp: lower_def split: if_splits)
next
  fix ctx t sc assume "lower now retention ctx t = Inr sc" "sc_kind sc = Memory"
  then show "sc_owner sc = Some (principal ctx)" by (auto simp: lower_def split: if_splits)
qed

section \<open>Properties\<close>

lemma lower_total:
  "target \<in> set lower_targets \<Longrightarrow> \<exists>sc. lower now retention ctx target = Inr sc"
  by (simp add: lower_def)



end
