(* ===== verification/Routing_Policy.thy ===== *)
theory Routing_Policy
  imports Py_Regex
begin

text \<open>
  \<open>src/app/core/routing_policy.py\<close>: which model tier a message is routed to. Two signals (the
  rules over the message, the label of a classifier), a ceiling and the configured tiers.
\<close>

section \<open>Tiers\<close>

datatype tier = Local | Medium | Strong

fun rank :: "tier \<Rightarrow> nat" where
  "rank Local = 0"
| "rank Medium = 1"
| "rank Strong = 2"

instantiation tier :: linorder
begin

definition less_eq_tier :: "tier \<Rightarrow> tier \<Rightarrow> bool" where
  "less_eq_tier a b \<longleftrightarrow> rank a \<le> rank b"

definition less_tier :: "tier \<Rightarrow> tier \<Rightarrow> bool" where
  "less_tier a b \<longleftrightarrow> rank a < rank b"

instance
proof
  fix a b c :: tier
  show "(a < b) = (a \<le> b \<and> \<not> b \<le> a)" by (auto simp: less_tier_def less_eq_tier_def)
  show "a \<le> a" by (simp add: less_eq_tier_def)
  show "a \<le> b \<Longrightarrow> b \<le> c \<Longrightarrow> a \<le> c" by (simp add: less_eq_tier_def)
  show "a \<le> b \<Longrightarrow> b \<le> a \<Longrightarrow> a = b" by (cases a; cases b) (simp_all add: less_eq_tier_def)
  show "a \<le> b \<or> b \<le> a" by (auto simp: less_eq_tier_def)
qed

end

definition TIERS :: "tier list" where
  "TIERS = [Local, Medium, Strong]"

definition LABEL_TIERS :: "(str \<times> tier) list" where
  "LABEL_TIERS =
    [(''smalltalk'', Local), (''lookup'', Local), (''action'', Local), (''drafting'', Local),
     (''analysis'', Medium), (''code'', Medium), (''reasoning'', Strong), (''high_stakes'', Strong)]"

section \<open>The rules over the message\<close>

definition reasoning_patterns :: "rx list" where
  "reasoning_patterns =
    [seqs [WordB, lit ''step'', one_of ''- '', lit ''by'', one_of ''- '', lit ''step'', WordB],
     Alt (seqs [WordB, lit ''prove'', WordB]) (seqs [WordB, lit ''proof'', WordB]),
     Alt (seqs [WordB, lit ''derive'', WordB]) (seqs [WordB, lit ''derivation'', WordB]),
     seqs [WordB, lit ''trade'', Opt (lit ''-''), lit ''off'', Opt (lit ''s''), WordB],
     seqs [WordB, lit ''root cause'', WordB],
     seqs [WordB, lit ''optimi'', one_of ''sz'', Alt (lit ''e'') (lit ''ation''), WordB],
     seqs [WordB, alts [lit ''think'', lit ''reason'', lit ''work''],
           Opt (alts [lit '' it'', lit '' this'', lit '' that'']), lit '' through'', WordB],
     seqs [WordB, lit ''pros and cons'', WordB],
     seqs [WordB, lit ''first principles'', WordB],
     seqs [WordB, lit ''justify'', WordB],
     seqs [WordB, lit ''edge case'', Opt (lit ''s''), WordB],
     seqs [WordB, lit ''compare and contrast'', WordB]]"

definition traceback_rx :: rx where
  "traceback_rx = Seq LineStart (lit ''Traceback (most recent call last)'')"

definition indented_code_rx :: rx where
  "indented_code_rx = seqs [LineStart, Alt (lit ''    '') (lit [CHR 0x09]), nonspace_char]"

definition enumerated_rx :: rx where
  "enumerated_rx = seqs
     [LineStart, Star True space_char,
      Alt (seqs [digit_char, Opt digit_char, one_of ''.)'']) (one_of [CHR ''-'', CHR ''*'', CHR 0x95]),
      Plus1 space_char, nonspace_char]"

definition MAX_SCAN_CHARS :: nat where
  "MAX_SCAN_CHARS = 20000"

record rules =
  r_tier :: tier
  r_fired :: "str list"

text \<open>The dictionary \<open>asked\<close>, in its insertion order.\<close>

definition asked_rules :: "str \<Rightarrow> nat \<Rightarrow> (str \<times> tier) list" where
  "asked_rules t long_prompt_chars =
     (let scanned = take MAX_SCAN_CHARS t;
          lowered = lower_text scanned;
          markers = length (filter (\<lambda>p. rx_search p lowered) reasoning_patterns)
      in (if long_prompt_chars \<le> length t then [(''long_prompt'', Medium)] else []) @
         (if sublist ''```'' scanned \<or> rx_search traceback_rx scanned \<or>
             3 \<le> length (finditer indented_code_rx scanned)
          then [(''code'', Medium)] else []) @
         (if 3 \<le> count_list scanned (CHR ''?'') \<or> 3 \<le> length (finditer enumerated_rx scanned)
          then [(''multi_part'', Medium)] else []) @
         (if 2 \<le> markers
          then [(''reasoning_markers'', if 3 \<le> markers then Strong else Medium)] else []))"

definition evaluate_rules :: "str \<Rightarrow> nat \<Rightarrow> rules" where
  "evaluate_rules t long_prompt_chars =
     (let asked = asked_rules t long_prompt_chars
      in \<lparr>r_tier = fold max (map snd asked) Local, r_fired = map fst asked\<rparr>)"

section \<open>The decision\<close>

datatype decided_by = DNone | DRules | DLabel | DBoth

datatype limited_by = Ceiling | Unconfigured | Unpriced

record decision =
  d_tier :: tier
  d_asked :: tier
  d_rule_tier :: tier
  d_label_tier :: tier
  d_rules :: "str list"
  d_label :: "str option"
  d_decided_by :: decided_by
  d_limited_by :: "limited_by option"

definition highest_at_or_below :: "tier \<Rightarrow> tier list \<Rightarrow> tier" where
  "highest_at_or_below t configured =
     (case List.find (\<lambda>c. c \<in> set configured) (rev (take (Suc (rank t)) TIERS)) of
        Some c \<Rightarrow> c
      | None \<Rightarrow> Local)"

definition step_down :: "tier \<Rightarrow> tier list \<Rightarrow> tier" where
  "step_down t configured =
     (if rank t = 0 then Local else highest_at_or_below (TIERS ! (rank t - 1)) configured)"

definition decide :: "str \<Rightarrow> str option \<Rightarrow> tier \<Rightarrow> tier list \<Rightarrow> nat \<Rightarrow> decision" where
  "decide t label max_tier configured long_prompt_chars =
     (let rs = evaluate_rules t long_prompt_chars;
          known = (case label of None \<Rightarrow> None
                   | Some l \<Rightarrow> if l \<in> set (map fst LABEL_TIERS) then Some l else None);
          label_tier = (case known of None \<Rightarrow> Local | Some l \<Rightarrow> the (map_of LABEL_TIERS l));
          asked = max (r_tier rs) label_tier;
          capped = min asked max_tier;
          chosen = highest_at_or_below capped configured
      in \<lparr>d_tier = chosen, d_asked = asked, d_rule_tier = r_tier rs, d_label_tier = label_tier,
          d_rules = r_fired rs, d_label = known,
          d_decided_by =
            (if rank asked = 0 then DNone
             else if rank (r_tier rs) = rank label_tier then DBoth
             else if rank label_tier < rank (r_tier rs) then DRules else DLabel),
          d_limited_by =
            (if rank chosen < rank capped then Some Unconfigured
             else if rank capped < rank asked then Some Ceiling else None)\<rparr>)"

section \<open>Properties\<close>

lemma tier_le_simps [simp]:
  "Local \<le> t" "t \<le> Strong" "Medium \<le> Local \<longleftrightarrow> False" "Strong \<le> Local \<longleftrightarrow> False"
  "Strong \<le> Medium \<longleftrightarrow> False" "Medium \<le> Medium" "Local < Medium" "Medium < Strong" "Local < Strong"
  by (cases t; simp add: less_eq_tier_def less_tier_def)+

lemma rank_less_iff: "rank a < rank b \<longleftrightarrow> a < b"
  by (simp add: less_tier_def)

lemma rank_eq_iff: "rank a = rank b \<longleftrightarrow> a = b"
  by (cases a; cases b) simp_all

lemma highest_cases:
  "highest_at_or_below Local cs = Local"
  "highest_at_or_below Medium cs = (if Medium \<in> set cs then Medium else Local)"
  "highest_at_or_below Strong cs =
     (if Strong \<in> set cs then Strong else if Medium \<in> set cs then Medium else Local)"
  by (simp_all add: highest_at_or_below_def TIERS_def)

lemma highest_le: "highest_at_or_below t cs \<le> t"
  by (cases t) (simp_all add: highest_cases)

lemma highest_configured: "highest_at_or_below t cs = Local \<or> highest_at_or_below t cs \<in> set cs"
  by (cases t) (simp_all add: highest_cases)

lemma highest_greatest: "c \<in> set cs \<Longrightarrow> c \<le> t \<Longrightarrow> c \<le> highest_at_or_below t cs"
  by (cases t; cases c) (auto simp: highest_cases)

lemma step_down_less: "t \<noteq> Local \<Longrightarrow> step_down t cs < t"
  using highest_le [of Local cs] highest_le [of Medium cs]
  by (cases t) (auto simp: step_down_def TIERS_def less_tier_def less_eq_tier_def)

text \<open>
  The tier of a decision is the highest one that is configured (or \<open>Local\<close>, which always
  exists) among those at or below both the operator's maximum and what the higher of the two
  signals asked for; \<open>d_limited_by\<close> is set exactly when that is less than what was asked for.
\<close>

theorem decide_optimal:
  "let d = decide t label max_tier configured n in
     d_asked d = max (d_rule_tier d) (d_label_tier d) \<and>
     d_tier d = Max {c \<in> insert Local (set configured). c \<le> min max_tier (d_asked d)} \<and>
     (d_limited_by d = None \<longleftrightarrow> d_tier d = d_asked d)"
proof -
  define d where "d = decide t label max_tier configured n"
  define capped where "capped = min (d_asked d) max_tier"
  have tier: "d_tier d = highest_at_or_below capped configured"
    by (simp add: d_def decide_def Let_def capped_def)
  have le: "d_tier d \<le> capped" by (simp add: tier highest_le)
  have signals: "d_asked d = max (d_rule_tier d) (d_label_tier d)"
    by (simp add: d_def decide_def Let_def)
  have best: "d_tier d = Max {c \<in> insert Local (set configured). c \<le> min max_tier (d_asked d)}"
  proof (rule sym, rule Max_eqI)
    show "d_tier d \<in> {c \<in> insert Local (set configured). c \<le> min max_tier (d_asked d)}"
      using le highest_configured [of capped configured] by (auto simp: tier capped_def)
    show "c \<le> d_tier d" if "c \<in> {c \<in> insert Local (set configured). c \<le> min max_tier (d_asked d)}" for c
      using that highest_greatest [of c configured capped] by (auto simp: tier capped_def)
  qed simp
  have "d_limited_by d = (if d_tier d < capped then Some Unconfigured
      else if capped < d_asked d then Some Ceiling else None)"
    by (simp add: d_def decide_def Let_def capped_def less_tier_def)
  then have "d_limited_by d = None \<longleftrightarrow> d_tier d = d_asked d"
    using le by (auto simp: capped_def min_def split: if_splits)
  with signals best show ?thesis unfolding d_def Let_def by blast
qed

end
