(* ===== verification/Graph_State.thy ===== *)
theory Graph_State
  imports Messages Security Routing_Policy
begin

text \<open>
  \<open>src/app/agent/graph/state.py\<close>: the state the graph carries between nodes, the safety budgets,
  and the reducers that merge what a node returns. A node returns a dictionary of some of the
  state's keys: here a list of \<open>upd\<close> values, one per key it writes. The reducer of \<open>messages\<close>
  (\<open>langgraph.graph.message.add_messages\<close>) is library code and so an argument \<open>am\<close>.
\<close>

section \<open>Budgets\<close>

definition MAX_ITERATIONS :: nat where "MAX_ITERATIONS = 10"
definition MIN_ANSWER_LENGTH :: nat where "MIN_ANSWER_LENGTH = 10"
definition MAX_TOOL_CALLS_PER_TURN :: nat where "MAX_TOOL_CALLS_PER_TURN = 5"
definition MAX_TOKENS_PER_TURN :: int where "MAX_TOKENS_PER_TURN = 16000"
definition HISTORY_TOKEN_CEILING :: nat where "HISTORY_TOKEN_CEILING = 24000"
definition HISTORY_TOKEN_FLOOR :: nat where "HISTORY_TOKEN_FLOOR = 4000"
definition MAX_HISTORY_SUMMARY_CHARS :: nat where "MAX_HISTORY_SUMMARY_CHARS = 4000"
definition MAX_REPEATED_ACTIONS :: nat where "MAX_REPEATED_ACTIONS = 3"
definition MAX_CONSECUTIVE_SAME_RETRY_REASON :: nat where "MAX_CONSECUTIVE_SAME_RETRY_REASON = 2"
definition MAX_SUBAGENT_ITERATIONS :: nat where "MAX_SUBAGENT_ITERATIONS = 6"
definition MAX_SUBAGENT_TOKENS_PER_RUN :: int where "MAX_SUBAGENT_TOKENS_PER_RUN = 4000"
definition STATE_SCHEMA_VERSION :: int where "STATE_SCHEMA_VERSION = 1"

lemmas budget_defs = MAX_ITERATIONS_def MIN_ANSWER_LENGTH_def MAX_TOOL_CALLS_PER_TURN_def
  MAX_TOKENS_PER_TURN_def MAX_REPEATED_ACTIONS_def MAX_CONSECUTIVE_SAME_RETRY_REASON_def
  MAX_HISTORY_SUMMARY_CHARS_def

section \<open>Nodes\<close>

text \<open>The names \<open>build_graph\<close> registers, and the end of a run.\<close>

datatype node =
    ValidateInput | RejectInput | RejectContext | ModerateInput | RejectModeration
  | CheckSemanticCache | CompactHistory | ContextWindowExceeded | RouteModel | RetrieveContext
  | Agent | Tools | HumanApproval | ToolBatchGuard | CheckOutput | RetryOutput | RetryExhausted
  | NoAnswer | SuggestFollowups | WriteSemanticCache | END

section \<open>State\<close>

text \<open>A numbered source: the marker it is cited by and its text.\<close>

record citation =
  marker :: str
  cite_text :: str

text \<open>What a fired output check records for its feedback.\<close>

datatype detail = DTrue | DTool str | DMarkers "citation list"

record state =
  messages :: "message list"
  context_text :: str
  iterations :: nat
  total_tokens :: int
  total_cost_usd :: usd
  subagent_spend :: "(int \<times> usd) list"
  require_approval :: bool
  approved :: bool
  cancelled :: bool
  run_id :: str
  graph_version :: str
  state_schema_version :: "int option"
  ctx :: "security_ctx option"
  citations :: "citation list"
  used_citations :: "citation list"
  ungrounded_claims_count :: nat
  output_findings :: "(str \<times> detail) list"
  last_retry_reason :: "str option"
  retry_reason_repeat_count :: nat
  cache_hit :: bool
  moderation_blocked :: bool
  model_route :: "tier option"
  followups :: "str list"
  history_summary :: str
  context_anchor_index :: "int option"

text \<open>A thread before its first turn: every key absent, read through its default.\<close>

definition fresh_state :: state where
  "fresh_state =
     \<lparr>messages = [], context_text = [], iterations = 0, total_tokens = 0, total_cost_usd = 0,
      subagent_spend = [], require_approval = False, approved = False, cancelled = False, run_id = [],
      graph_version = [], state_schema_version = None, ctx = None, citations = [],
      used_citations = [], ungrounded_claims_count = 0, output_findings = [], last_retry_reason = None,
      retry_reason_repeat_count = 0, cache_hit = False, moderation_blocked = False,
      model_route = None, followups = [], history_summary = [], context_anchor_index = None\<rparr>"

definition concat_or_reset ::
  "(int \<times> usd) list \<Rightarrow> (int \<times> usd) list option \<Rightarrow> (int \<times> usd) list" where
  "concat_or_reset current update =
     (case update of None \<Rightarrow> [] | Some u \<Rightarrow> current @ u)"

section \<open>What a node returns\<close>

datatype upd =
    UMessages "message list"
  | UContext str
  | UIterations nat
  | UTotalTokens int
  | UTotalCost usd
  | USubagentSpend "(int \<times> usd) list option"
  | UApproved bool
  | UCancelled bool
  | URunId str
  | UGraphVersion str
  | USchemaVersion int
  | UCtx "security_ctx option"
  | UCitations "citation list"
  | UUsedCitations "citation list"
  | UUngrounded nat
  | UFindings "(str \<times> detail) list"
  | URetryReason "str option"
  | URepeatCount nat
  | UCacheHit bool
  | UModerationBlocked bool
  | UModelRoute "tier option"
  | UFollowups "str list"
  | UHistorySummary str
  | UAnchor "int option"

type_synonym reducer = "message list \<Rightarrow> message list \<Rightarrow> message list"

fun apply_upd :: "reducer \<Rightarrow> upd \<Rightarrow> state \<Rightarrow> state" where
  "apply_upd am (UMessages ms) s = s\<lparr>messages := am (messages s) ms\<rparr>"
| "apply_upd am (UContext t) s = s\<lparr>context_text := t\<rparr>"
| "apply_upd am (UIterations n) s = s\<lparr>iterations := n\<rparr>"
| "apply_upd am (UTotalTokens n) s = s\<lparr>total_tokens := n\<rparr>"
| "apply_upd am (UTotalCost c) s = s\<lparr>total_cost_usd := c\<rparr>"
| "apply_upd am (USubagentSpend u) s = s\<lparr>subagent_spend := concat_or_reset (subagent_spend s) u\<rparr>"
| "apply_upd am (UApproved b) s = s\<lparr>approved := b\<rparr>"
| "apply_upd am (UCancelled b) s = s\<lparr>cancelled := b\<rparr>"
| "apply_upd am (URunId r) s = s\<lparr>run_id := r\<rparr>"
| "apply_upd am (UGraphVersion v) s = s\<lparr>graph_version := v\<rparr>"
| "apply_upd am (USchemaVersion v) s = s\<lparr>state_schema_version := Some v\<rparr>"
| "apply_upd am (UCtx c) s = s\<lparr>ctx := c\<rparr>"
| "apply_upd am (UCitations cs) s = s\<lparr>citations := cs\<rparr>"
| "apply_upd am (UUsedCitations cs) s = s\<lparr>used_citations := cs\<rparr>"
| "apply_upd am (UUngrounded n) s = s\<lparr>ungrounded_claims_count := n\<rparr>"
| "apply_upd am (UFindings f) s = s\<lparr>output_findings := f\<rparr>"
| "apply_upd am (URetryReason r) s = s\<lparr>last_retry_reason := r\<rparr>"
| "apply_upd am (URepeatCount n) s = s\<lparr>retry_reason_repeat_count := n\<rparr>"
| "apply_upd am (UCacheHit b) s = s\<lparr>cache_hit := b\<rparr>"
| "apply_upd am (UModerationBlocked b) s = s\<lparr>moderation_blocked := b\<rparr>"
| "apply_upd am (UModelRoute r) s = s\<lparr>model_route := r\<rparr>"
| "apply_upd am (UFollowups fs) s = s\<lparr>followups := fs\<rparr>"
| "apply_upd am (UHistorySummary t) s = s\<lparr>history_summary := t\<rparr>"
| "apply_upd am (UAnchor a) s = s\<lparr>context_anchor_index := a\<rparr>"

definition apply_upds :: "reducer \<Rightarrow> upd list \<Rightarrow> state \<Rightarrow> state" where
  "apply_upds am us s = fold (apply_upd am) us s"

lemma apply_upds_simps [simp]:
  "apply_upds am [] s = s"
  "apply_upds am (u # us) s = apply_upds am us (apply_upd am u s)"
  "apply_upds am (us @ vs) s = apply_upds am vs (apply_upds am us s)"
  by (simp_all add: apply_upds_def)

section \<open>Fields an update leaves alone\<close>

fun writes_ctx :: "upd \<Rightarrow> bool" where
  "writes_ctx (UCtx _) = True"
| "writes_ctx _ = False"

fun writes_iterations :: "upd \<Rightarrow> bool" where
  "writes_iterations (UIterations _) = True"
| "writes_iterations _ = False"

fun writes_moderation :: "upd \<Rightarrow> bool" where
  "writes_moderation (UModerationBlocked _) = True"
| "writes_moderation _ = False"

fun writes_messages :: "upd \<Rightarrow> bool" where
  "writes_messages (UMessages _) = True"
| "writes_messages _ = False"

fun writes_retry :: "upd \<Rightarrow> bool" where
  "writes_retry (URetryReason _) = True"
| "writes_retry (URepeatCount _) = True"
| "writes_retry (UFindings _) = True"
| "writes_retry _ = False"

lemma apply_upds_ctx: "\<not> list_ex writes_ctx us \<Longrightarrow> ctx (apply_upds am us s) = ctx s"
proof (induction us arbitrary: s)
  case (Cons u us)
  then show ?case by (cases u) simp_all
qed simp

lemma apply_upds_iterations:
  "\<not> list_ex writes_iterations us \<Longrightarrow> iterations (apply_upds am us s) = iterations s"
proof (induction us arbitrary: s)
  case (Cons u us)
  then show ?case by (cases u) simp_all
qed simp

lemma apply_upds_moderation:
  "\<not> list_ex writes_moderation us \<Longrightarrow> moderation_blocked (apply_upds am us s) = moderation_blocked s"
proof (induction us arbitrary: s)
  case (Cons u us)
  then show ?case by (cases u) simp_all
qed simp

lemma apply_upds_messages:
  "\<not> list_ex writes_messages us \<Longrightarrow> messages (apply_upds am us s) = messages s"
proof (induction us arbitrary: s)
  case (Cons u us)
  then show ?case by (cases u) simp_all
qed simp

lemma apply_upds_retry:
  "\<not> list_ex writes_retry us \<Longrightarrow>
   last_retry_reason (apply_upds am us s) = last_retry_reason s \<and>
   retry_reason_repeat_count (apply_upds am us s) = retry_reason_repeat_count s \<and>
   output_findings (apply_upds am us s) = output_findings s"
proof (induction us arbitrary: s)
  case (Cons u us)
  then show ?case by (cases u) simp_all
qed simp

lemma apply_upds_require_approval: "require_approval (apply_upds am us s) = require_approval s"
proof (induction us arbitrary: s)
  case (Cons u us)
  then show ?case by (cases u) simp_all
qed simp

text \<open>A concatenation of several tools' entries keeps each of them, whatever their order.\<close>

lemma concat_or_reset_sum:
  "sum_list (map fst (concat_or_reset cur (Some u))) = sum_list (map fst cur) + sum_list (map fst u)"
  "sum_list (map snd (concat_or_reset cur (Some u))) = sum_list (map snd cur) + sum_list (map snd u)"
  by (simp_all add: concat_or_reset_def)

end
