(* ===== verification/Citations.thy ===== *)
theory Citations
  imports Graph_State
begin

text \<open>
  \<open>src/app/agent/graph/citations.py\<close>: which offered sources an answer cites, which cited markers
  were invented, and the mechanical repair that appends a missing marker. Content that is not
  text (a list of parts) is passed over by each function, as its \<open>isinstance\<close> checks do. A
  marker is a bracketed run of ASCII digits; ratios are exact rationals.
\<close>

definition citation_marker_rx :: rx where
  "citation_marker_rx = seqs [lit ''['', Plus1 digit_char, lit '']'']"

text \<open>\<open>int(n) for n in _CITATION_MARKER_RE.findall(content)\<close>.\<close>

definition referenced_markers :: "str \<Rightarrow> nat list" where
  "referenced_markers t = map (\<lambda>w. digits_value (butlast (tl w))) (rx_findall citation_marker_rx t)"

text \<open>The number of a source's marker, where \<open>marker.strip("[]")\<close> is a number.\<close>

definition marker_number :: "citation \<Rightarrow> nat option" where
  "marker_number c =
     (let d = strip_chars ''[]'' (marker c)
      in if d \<noteq> [] \<and> list_all is_digit d then Some (digits_value d) else None)"

definition find_used_citations :: "content \<Rightarrow> citation list \<Rightarrow> citation list" where
  "find_used_citations c cites =
     (case c of
        Parts _ \<Rightarrow> []
      | Text t \<Rightarrow>
          (if cites = [] then []
           else filter (\<lambda>x. case marker_number x of None \<Rightarrow> False
                            | Some n \<Rightarrow> n \<in> set (referenced_markers t)) cites))"

definition count_ungrounded_claims :: "content \<Rightarrow> citation list \<Rightarrow> nat" where
  "count_ungrounded_claims c cites =
     (case c of
        Parts _ \<Rightarrow> 0
      | Text t \<Rightarrow>
          (if t = [] then 0
           else length (remdups (filter (\<lambda>n. Some n \<notin> set (map marker_number cites))
                                        (referenced_markers t)))))"

definition UNCITED_OVERLAP_RATIO :: rat where "UNCITED_OVERLAP_RATIO = 6 / 10"
definition MIN_JUDGED_SENTENCE_WORDS :: nat where "MIN_JUDGED_SENTENCE_WORDS = 4"
definition MISATTRIBUTED_OVERLAP_RATIO :: rat where "MISATTRIBUTED_OVERLAP_RATIO = 1 / 4"

definition overlap_ratio :: "str list \<Rightarrow> str list \<Rightarrow> rat" where
  "overlap_ratio sentence_words cite_words =
     of_nat (length (filter (\<lambda>w. w \<in> set cite_words) sentence_words)) / of_nat (length sentence_words)"

text \<open>The inner loop: the sentence with the best ratio that clears the bar.\<close>

fun best_sentence :: "str list \<Rightarrow> str list \<Rightarrow> str option \<Rightarrow> rat \<Rightarrow> str option" where
  "best_sentence cite_words [] best ratio = best"
| "best_sentence cite_words (s # ss) best ratio =
     (let ws = content_words s; r = overlap_ratio ws cite_words in
      if length ws < MIN_JUDGED_SENTENCE_WORDS then best_sentence cite_words ss best ratio
      else if UNCITED_OVERLAP_RATIO \<le> r \<and> ratio < r then best_sentence cite_words ss (Some s) r
      else best_sentence cite_words ss best ratio)"

fun uncited_matches_loop :: "str list \<Rightarrow> str list \<Rightarrow> citation list \<Rightarrow> (citation \<times> str) list" where
  "uncited_matches_loop sentences used_markers [] = []"
| "uncited_matches_loop sentences used_markers (c # cs) =
     (let rest = uncited_matches_loop sentences used_markers cs;
          cite_words = content_words (cite_text c)
      in if marker c \<in> set used_markers then rest
         else if cite_words = [] then rest
         else (case best_sentence cite_words sentences None 0 of
                 None \<Rightarrow> rest
               | Some s \<Rightarrow> (c, s) # rest))"

definition uncited_citation_matches ::
  "content \<Rightarrow> citation list \<Rightarrow> citation list \<Rightarrow> (citation \<times> str) list" where
  "uncited_citation_matches c cites used =
     (case c of
        Parts _ \<Rightarrow> []
      | Text t \<Rightarrow>
          (if t = [] \<or> cites = [] then []
           else uncited_matches_loop (split_sentences t) (map marker used) cites))"

definition find_likely_uncited :: "content \<Rightarrow> citation list \<Rightarrow> citation list \<Rightarrow> citation list" where
  "find_likely_uncited c cites used = map fst (uncited_citation_matches c cites used)"

section \<open>The repair\<close>

definition end_punctuation_rx :: rx where
  "end_punctuation_rx = Seq (one_of ''.!?'') AtDollar"

definition add_markers :: "str \<Rightarrow> str \<Rightarrow> str" where
  "add_markers sentence markers_text =
     (case search_from end_punctuation_rx sentence 0 of
        Some (a, _) \<Rightarrow> take a sentence @ '' '' @ markers_text @ drop a sentence
      | None \<Rightarrow> sentence @ '' '' @ markers_text)"

text \<open>\<open>markers_by_sentence\<close>: its keys in insertion order, and the markers of one key.\<close>

definition markers_of :: "(citation \<times> str) list \<Rightarrow> str \<Rightarrow> str" where
  "markers_of matches s = concat (map (\<lambda>(c, _). marker c) (filter (\<lambda>(_, s'). s' = s) matches))"

definition ordered_sentences :: "str \<Rightarrow> (citation \<times> str) list \<Rightarrow> str list" where
  "ordered_sentences t matches =
     sort_key (\<lambda>s. case find_sub s t of None \<Rightarrow> - 1 | Some i \<Rightarrow> int i)
       (rev (remdups (rev (map snd matches))))"

fun insert_loop :: "str \<Rightarrow> (citation \<times> str) list \<Rightarrow> str list \<Rightarrow> nat \<Rightarrow> str" where
  "insert_loop t matches [] cursor = drop cursor t"
| "insert_loop t matches (s # ss) cursor =
     (case find_from s t cursor of
        None \<Rightarrow> insert_loop t matches ss cursor
      | Some idx \<Rightarrow>
          slice t cursor idx @ add_markers s (markers_of matches s) @
          insert_loop t matches ss (idx + length s))"

definition insert_missing_citation_markers ::
  "content \<Rightarrow> citation list \<Rightarrow> citation list \<Rightarrow> content \<times> citation list" where
  "insert_missing_citation_markers c cites used =
     (let matches = uncited_citation_matches c cites used in
      case c of
        Parts _ \<Rightarrow> (c, [])
      | Text t \<Rightarrow>
          (if matches = [] then (c, [])
           else (Text (insert_loop t matches (ordered_sentences t matches) 0), map fst matches)))"

section \<open>Misattribution\<close>

text \<open>Over the citing sentences: (was one long enough to judge, did one support the source).\<close>

fun judge_sentences :: "str list \<Rightarrow> str list \<Rightarrow> bool \<Rightarrow> bool \<times> bool" where
  "judge_sentences cite_words [] judged = (judged, False)"
| "judge_sentences cite_words (s # ss) judged =
     (let ws = content_words s in
      if length ws < MIN_JUDGED_SENTENCE_WORDS then judge_sentences cite_words ss judged
      else if MISATTRIBUTED_OVERLAP_RATIO \<le> overlap_ratio ws cite_words then (True, True)
      else judge_sentences cite_words ss True)"

definition misattributed :: "str list \<Rightarrow> citation \<Rightarrow> bool" where
  "misattributed sentences c =
     (let cite_words = content_words (cite_text c) in
      if cite_words = [] then False
      else (case judge_sentences cite_words (filter (\<lambda>s. sublist (marker c) s) sentences) False of
              (judged, supported) \<Rightarrow> judged \<and> \<not> supported))"

definition find_likely_misattributed :: "content \<Rightarrow> citation list \<Rightarrow> citation list \<Rightarrow> citation list" where
  "find_likely_misattributed c cites used =
     (case c of
        Parts _ \<Rightarrow> []
      | Text t \<Rightarrow> (if t = [] \<or> used = [] then [] else filter (misattributed (split_sentences t)) used))"

section \<open>Facts\<close>

lemma used_citations_subset: "set (find_used_citations c cites) \<subseteq> set cites"
  by (auto simp: find_used_citations_def split: content.splits)

lemma used_citation_iff:
  "c \<in> set (find_used_citations (Text t) cites) \<longleftrightarrow>
   c \<in> set cites \<and> (\<exists>n. marker_number c = Some n \<and> n \<in> set (referenced_markers t))"
  by (cases "marker_number c") (auto simp: find_used_citations_def)

lemma count_ungrounded_zero_iff:
  "count_ungrounded_claims (Text t) cites = 0 \<longleftrightarrow>
   t = [] \<or> (\<forall>n\<in>set (referenced_markers t). Some n \<in> marker_number ` set cites)"
  by (auto simp: count_ungrounded_claims_def filter_empty_conv)

lemma best_sentence_mem:
  "best_sentence cw ss best r = Some s \<Longrightarrow> best = Some s \<or>
     (s \<in> set ss \<and> UNCITED_OVERLAP_RATIO \<le> overlap_ratio (content_words s) cw \<and>
      MIN_JUDGED_SENTENCE_WORDS \<le> length (content_words s))"
proof (induction ss arbitrary: best r)
  case Nil
  then show ?case by simp
next
  case (Cons x ss)
  show ?case
  proof (cases "length (content_words x) < MIN_JUDGED_SENTENCE_WORDS \<or>
      \<not> (UNCITED_OVERLAP_RATIO \<le> overlap_ratio (content_words x) cw \<and>
         r < overlap_ratio (content_words x) cw)")
    case True
    with Cons.prems have "best_sentence cw ss best r = Some s" by (auto simp: Let_def split: if_splits)
    from Cons.IH [OF this] show ?thesis by auto
  next
    case False
    with Cons.prems
    have "best_sentence cw ss (Some x) (overlap_ratio (content_words x) cw) = Some s"
      by (auto simp: Let_def)
    from Cons.IH [OF this] False show ?thesis by auto
  qed
qed

lemma uncited_matches_mem:
  "(c, s) \<in> set (uncited_matches_loop ss um cs) \<Longrightarrow>
   c \<in> set cs \<and> marker c \<notin> set um \<and> s \<in> set ss"
proof (induction cs)
  case Nil
  then show ?case by simp
next
  case (Cons d cs)
  then show ?case
    by (auto simp: Let_def split: if_splits option.splits dest: best_sentence_mem)
qed

lemma find_likely_uncited_mem:
  "c \<in> set (find_likely_uncited t cites used) \<Longrightarrow> c \<in> set cites \<and> marker c \<notin> marker ` set used"
  by (auto simp: find_likely_uncited_def uncited_citation_matches_def
      split: content.splits if_splits dest: uncited_matches_mem)

lemma subseq_add_markers: "subseq s (add_markers s m)"
proof (cases "search_from end_punctuation_rx s 0")
  case None
  then show ?thesis using list_emb_append_mono [of "(=)" s s "[]" "'' '' @ m"]
    by (simp add: add_markers_def)
next
  case (Some ab)
  obtain a b where "ab = (a, b)" by (cases ab)
  with Some show ?thesis
    using subseq_insert_middle [of "take a s" "drop a s" "'' '' @ m"]
    by (simp add: add_markers_def)
qed

lemma subseq_insert_loop:
  "cursor \<le> length t \<Longrightarrow> subseq (drop cursor t) (insert_loop t matches ss cursor)"
proof (induction ss arbitrary: cursor)
  case Nil
  then show ?case by simp
next
  case (Cons s ss)
  show ?case
  proof (cases "find_from s t cursor")
    case None
    then show ?thesis using Cons by simp
  next
    case (Some idx)
    from find_from_SomeD [OF Some] Cons.prems
    have f: "cursor \<le> idx" "idx + length s \<le> length t" "prefix s (drop idx t)" by auto
    have "drop idx t = s @ drop (idx + length s) t"
      using f(3) by (metis add.commute append_eq_conv_conj drop_drop prefix_def)
    then have "drop cursor t = slice t cursor idx @ s @ drop (idx + length s) t"
      using slice_split [of cursor idx t] f(1,2) by simp
    moreover have "subseq (drop (idx + length s) t) (insert_loop t matches ss (idx + length s))"
      using Cons.IH [of "idx + length s"] f(2) by simp
    ultimately show ?thesis using Some subseq_add_markers [of s]
      by (simp add: list_emb_append_mono)
  qed
qed

lemma insert_loop_repairs:
  "subseq t (insert_loop t matches ss 0)"
  using subseq_insert_loop [of 0 t matches ss] by simp

text \<open>
  The citation repair never deletes or reorders text: what was written is a subsequence of
  what is shown, and an answer is changed only when a source was flagged, each flagged source
  being an offered one whose marker the answer did not use.
\<close>

theorem insert_markers_conservative:
  "case insert_missing_citation_markers (Text t) cites used of
     (Text t', fixed) \<Rightarrow>
        subseq t t' \<and> set fixed \<subseteq> {c \<in> set cites. marker c \<notin> marker ` set used} \<and>
        (fixed = [] \<and> t' = t \<or> 0 < length fixed)
   | (Parts _, _) \<Rightarrow> False"
proof -
  let ?m = "uncited_citation_matches (Text t) cites used"
  have fixed: "fst ` set ?m \<subseteq> {c \<in> set cites. marker c \<notin> marker ` set used}"
    using find_likely_uncited_mem [of _ "Text t" cites used]
    by (auto simp: find_likely_uncited_def)
  show ?thesis
  proof (cases "?m = []")
    case True
    then show ?thesis by (simp add: insert_missing_citation_markers_def)
  next
    case False
    then show ?thesis using fixed
      by (auto simp: insert_missing_citation_markers_def Let_def insert_loop_repairs)
  qed
qed

text \<open>
  C40. The two independent readings of an answer's markers agree: it has no ungrounded claim
  exactly when the numbers it references are all numbers of the sources reported as used.
\<close>

theorem grounded_iff_used:
  "count_ungrounded_claims (Text t) cites = 0 \<longleftrightarrow>
   set (referenced_markers t) = {n. Some n \<in> marker_number ` set (find_used_citations (Text t) cites)}"
proof -
  have empty: "referenced_markers [] = []"
  proof -
    have "search_from citation_marker_rx [] 0 = None"
      by (simp add: search_from_None_iff citation_marker_rx_def)
    then show ?thesis by (simp add: referenced_markers_def rx_findall_def finditer_def)
  qed
  have used: "{n. Some n \<in> marker_number ` set (find_used_citations (Text t) cites)} =
      {n \<in> set (referenced_markers t). Some n \<in> marker_number ` set cites}"
    by (force simp: used_citation_iff)
  show ?thesis
    unfolding used count_ungrounded_zero_iff using empty by auto
qed

end
