(* ===== verification/Loop_Guards.thy ===== *)
theory Loop_Guards
  imports Graph_State
begin

text \<open>
  \<open>src/app/agent/graph/loop_guards.py\<close>, \<open>tool_guards.py\<close> and \<open>skill_guards.py\<close>: the fingerprint of a
  batch of tool calls and the repeat count built on it, the capability gate, the check of a
  malformed batch and the node that answers one, and the tool a loaded skill still requires.
\<close>

section \<open>\<open>json.dumps(value, sort_keys=True)\<close>\<close>

definition unicode_point :: "char \<Rightarrow> nat" where
  "unicode_point c =
     (let n = ccode c in
      if 128 \<le> n \<and> n \<le> 159 then
        [8364, 129, 8218, 402, 8222, 8230, 8224, 8225, 710, 8240, 352, 8249, 338, 141, 381, 143,
         144, 8216, 8217, 8220, 8221, 8226, 8211, 8212, 732, 8482, 353, 8250, 339, 157, 382, 376]
        ! (n - 128)
      else n)"

definition hex_digit :: "nat \<Rightarrow> char" where
  "hex_digit n = ''0123456789abcdef'' ! (n mod 16)"

definition hex4 :: "nat \<Rightarrow> string" where
  "hex4 n = [hex_digit (n div 4096), hex_digit (n div 256), hex_digit (n div 16), hex_digit n]"

definition backslash :: char where "backslash = CHR 0x5C"
definition dquote :: char where "dquote = CHR 0x22"
definition squote :: char where "squote = CHR 0x27"

definition escape_json_char :: "char \<Rightarrow> string" where
  "escape_json_char c =
     (let n = ccode c in
      if c = dquote then [backslash, dquote]
      else if c = backslash then [backslash, backslash]
      else if n = 8 then [backslash, CHR ''b'']
      else if n = 9 then [backslash, CHR ''t'']
      else if n = 10 then [backslash, CHR ''n'']
      else if n = 12 then [backslash, CHR ''f'']
      else if n = 13 then [backslash, CHR ''r'']
      else if 32 \<le> n \<and> n < 127 \<or> n = 127 then [c]
      else [backslash, CHR ''u''] @ hex4 (unicode_point c))"

definition dumps_str :: "string \<Rightarrow> string" where
  "dumps_str s = [dquote] @ concat (map escape_json_char s) @ [dquote]"

fun dec_nat :: "nat \<Rightarrow> string" where
  "dec_nat n = (if n < 10 then [char_of (48 + n)] else dec_nat (n div 10) @ [char_of (48 + n mod 10)])"

declare dec_nat.simps [simp del]

definition dec_int :: "int \<Rightarrow> string" where
  "dec_int i = (if i < 0 then ''-'' @ dec_nat (nat (- i)) else dec_nat (nat i))"

fun dumps :: "json \<Rightarrow> string" where
  "dumps JNull = ''null''"
| "dumps (JBool b) = (if b then ''true'' else ''false'')"
| "dumps (JInt i) = dec_int i"
| "dumps (JFloat r) = r"
| "dumps (JStr s) = dumps_str s"
| "dumps (JList xs) = ''['' @ join '', '' (map dumps xs) @ '']''"
| "dumps (JObj kvs) =
     ''{'' @ join '', '' (map (\<lambda>(k, v). dumps_str k @ '': '' @ v)
                     (sort_key fst (map (\<lambda>(k, v). (k, dumps v)) kvs))) @ ''}''"

section \<open>Capabilities\<close>

type_synonym capabilities = "(str \<times> str) list"

definition tool_capability :: "str \<Rightarrow> capabilities \<Rightarrow> str" where
  "tool_capability name caps = (case map_of caps name of Some c \<Rightarrow> c | None \<Rightarrow> ''outward'')"

definition mandatory_gate_reason :: "tool_call list \<Rightarrow> capabilities \<Rightarrow> str option" where
  "mandatory_gate_reason calls caps =
     (let cs = map (\<lambda>tc. tool_capability (tc_name tc) caps) calls
      in if ''outward'' \<in> set cs then Some ''outward''
         else if ''mutating'' \<in> set cs then Some ''mutating''
         else None)"

section \<open>Fingerprints and repeats\<close>

definition tool_call_fingerprint :: "tool_call list \<Rightarrow> str" where
  "tool_call_fingerprint calls =
     (let normalized = sort (map (\<lambda>tc. (tc_name tc, dumps (tc_args tc))) calls)
      in dumps (JList (map (\<lambda>(n, a). JList [JStr n, JStr a]) normalized)))"

definition current_turn_tool_call_batches :: "message list \<Rightarrow> tool_call list list" where
  "current_turn_tool_call_batches ms =
     map tool_calls (filter (\<lambda>m. mtype m = AI \<and> tool_calls m \<noteq> []) (rev (current_turn_messages ms)))"

text \<open>The counting loop, which stops at the first batch with another fingerprint.\<close>

fun count_same :: "str \<Rightarrow> tool_call list list \<Rightarrow> nat" where
  "count_same target [] = 0"
| "count_same target (b # bs) =
     (if tool_call_fingerprint b \<noteq> target then 0 else Suc (count_same target bs))"

definition consecutive_repeat_count :: "message list \<Rightarrow> nat" where
  "consecutive_repeat_count ms =
     (case current_turn_tool_call_batches ms of
        [] \<Rightarrow> 0
      | b # bs \<Rightarrow> count_same (tool_call_fingerprint b) (b # bs))"

definition use_skill_called_without_search :: "tool_call list \<Rightarrow> message list \<Rightarrow> bool" where
  "use_skill_called_without_search calls ms =
     (if \<not> list_ex (\<lambda>tc. tc_name tc = ''use_skill'') calls then False
      else \<not> list_ex (list_ex (\<lambda>tc. tc_name tc = ''skill_search'')) (current_turn_tool_call_batches ms))"

section \<open>Malformed batches\<close>

datatype batch_fault = TooManyToolCalls | InvalidToolCall | UseSkillWithoutSearch

definition invalid_tool_call_names :: "tool_call list \<Rightarrow> str list \<Rightarrow> str list" where
  "invalid_tool_call_names calls valid = filter (\<lambda>n. n \<notin> set valid) (map tc_name calls)"

definition batch_problem :: "tool_call list \<Rightarrow> message list \<Rightarrow> str list \<Rightarrow> batch_fault option" where
  "batch_problem calls ms valid =
     (if MAX_TOOL_CALLS_PER_TURN < length calls then Some TooManyToolCalls
      else if invalid_tool_call_names calls valid \<noteq> [] then Some InvalidToolCall
      else if use_skill_called_without_search calls ms then Some UseSkillWithoutSearch
      else None)"

definition repr_char :: "char \<Rightarrow> char \<Rightarrow> string" where
  "repr_char q c =
     (let n = ccode c in
      if c = q \<or> c = backslash then [backslash, c]
      else if n = 9 then [backslash, CHR ''t'']
      else if n = 10 then [backslash, CHR ''n'']
      else if n = 13 then [backslash, CHR ''r'']
      else if n < 32 \<or> n \<in> set [127, 129, 141, 143, 144, 157, 160, 173]
        then [backslash, CHR ''x'', hex_digit (n div 16), hex_digit n]
      else [c])"

definition repr_str :: "string \<Rightarrow> string" where
  "repr_str s =
     (let q = (if squote \<in> set s \<and> dquote \<notin> set s then dquote else squote)
      in [q] @ concat (map (repr_char q) s) @ [q])"

definition rejection_reason :: "batch_fault \<Rightarrow> tool_call list \<Rightarrow> str list \<Rightarrow> str" where
  "rejection_reason problem calls valid =
     (case problem of
        TooManyToolCalls \<Rightarrow>
          ''Too many tool calls requested at once (limit: '' @ dec_nat MAX_TOOL_CALLS_PER_TURN @ ''). '' @
          ''Please make fewer, more targeted tool calls.''
      | InvalidToolCall \<Rightarrow>
          (let bad_names = sort (remdups (invalid_tool_call_names calls valid));
               names_text = (if bad_names \<noteq> [] then join '', '' (map repr_str bad_names) else ''one of them'')
           in ''I tried to call a tool that doesn't exist ('' @ names_text @ ''). Let me try again '' @
              ''using only the tools actually available to me.'')
      | UseSkillWithoutSearch \<Rightarrow>
          ''You called use_skill without calling skill_search first this turn. '' @
          ''Call skill_search now to find the exact name of a matching skill '' @ em_dash @
          '' if nothing matches well, don't guess a name; just answer directly '' @
          ''using what you already have.'')"

text \<open>The node: answers every call of the batch, or does nothing when there is no problem.\<close>

definition pending_calls :: "message list \<Rightarrow> tool_call list" where
  "pending_calls ms = (if ms = [] then [] else tool_calls (last ms))"

definition tool_batch_guard :: "state \<Rightarrow> str list \<Rightarrow> upd list" where
  "tool_batch_guard s valid =
     (let calls = pending_calls (messages s)
      in case batch_problem calls (messages s) valid of
           None \<Rightarrow> []
         | Some p \<Rightarrow> [UMessages (reject_tool_calls calls (rejection_reason p calls valid))])"

section \<open>Tools a skill requires\<close>

definition SKILL_REQUIRED_TOOL_MARKERS :: "str list" where
  "SKILL_REQUIRED_TOOL_MARKERS = [''run_python_in_sandbox'']"

text \<open>\<open>name in str(m.content)\<close>, for a name that is an identifier.\<close>

definition content_mentions :: "str \<Rightarrow> content \<Rightarrow> bool" where
  "content_mentions name c =
     (case c of
        Text t \<Rightarrow> sublist name t
      | Parts ps \<Rightarrow>
          list_ex (\<lambda>p. case p of TextPart t \<Rightarrow> sublist name t | StrPart t \<Rightarrow> sublist name t
                         | ImagePart t \<Rightarrow> sublist name t | OtherPart \<Rightarrow> False) ps)"

definition tool_ran :: "str \<Rightarrow> message list \<Rightarrow> bool" where
  "tool_ran name ms = list_ex (\<lambda>m. mtype m = Tool \<and> mname m = Some name) ms"

definition skill_named :: "str \<Rightarrow> message list \<Rightarrow> bool" where
  "skill_named name ms =
     list_ex (\<lambda>m. mtype m = Tool \<and> mname m = Some ''use_skill'' \<and> content_mentions name (content m)) ms"

fun pending_skill_required_tool :: "message list \<Rightarrow> str list \<Rightarrow> str option" where
  "pending_skill_required_tool turn [] = None"
| "pending_skill_required_tool turn (name # names) =
     (if \<not> skill_named name turn then pending_skill_required_tool turn names
      else if \<not> tool_ran name turn then Some name
      else pending_skill_required_tool turn names)"

section \<open>Facts\<close>

lemma mandatory_gate_reason_None_iff [guard_simps]:
  "mandatory_gate_reason calls caps = None \<longleftrightarrow>
   (\<forall>tc\<in>set calls. tool_capability (tc_name tc) caps \<noteq> ''outward'' \<and>
      tool_capability (tc_name tc) caps \<noteq> ''mutating'')"
  by (force simp: mandatory_gate_reason_def Let_def)

lemma undeclared_outward: "map_of caps n = None \<Longrightarrow> tool_capability n caps = ''outward''"
  by (simp add: tool_capability_def)

lemma fingerprint_permutation:
  assumes "mset (map (\<lambda>tc. (tc_name tc, tc_args tc)) calls) = mset (map (\<lambda>tc. (tc_name tc, tc_args tc)) calls')"
  shows "tool_call_fingerprint calls = tool_call_fingerprint calls'"
proof -
  have eq: "mset (map (\<lambda>tc. (tc_name tc, dumps (tc_args tc))) cs) =
      image_mset (\<lambda>(n, a). (n, dumps a)) (mset (map (\<lambda>tc. (tc_name tc, tc_args tc)) cs))" for cs
    by (simp add: multiset.map_comp comp_def)
  have "mset (map (\<lambda>tc. (tc_name tc, dumps (tc_args tc))) calls) =
      mset (map (\<lambda>tc. (tc_name tc, dumps (tc_args tc))) calls')" by (simp only: eq assms)
  then have "sort (map (\<lambda>tc. (tc_name tc, dumps (tc_args tc))) calls) =
      sort (map (\<lambda>tc. (tc_name tc, dumps (tc_args tc))) calls')"
    by (intro properties_for_sort) simp_all
  then show ?thesis by (simp add: tool_call_fingerprint_def)
qed

lemma count_same_takeWhile:
  "count_same target bs = length (takeWhile (\<lambda>b. tool_call_fingerprint b = target) bs)"
  by (induction bs) simp_all

lemma count_same_ge_iff:
  "k \<le> count_same target bs \<longleftrightarrow>
   k \<le> length bs \<and> (\<forall>b\<in>set (take k bs). tool_call_fingerprint b = target)"
proof (induction bs arbitrary: k)
  case Nil
  then show ?case by auto
next
  case (Cons b bs)
  then show ?case by (cases k) auto
qed

lemma batch_problem_None_iff [guard_simps]:
  "batch_problem calls ms valid = None \<longleftrightarrow>
   length calls \<le> MAX_TOOL_CALLS_PER_TURN \<and> (\<forall>tc\<in>set calls. tc_name tc \<in> set valid) \<and>
   \<not> use_skill_called_without_search calls ms"
  by (auto simp: batch_problem_def invalid_tool_call_names_def filter_empty_conv)

lemma pending_skill_required_tool_Some:
  "pending_skill_required_tool turn names = Some n \<Longrightarrow>
   n \<in> set names \<and> skill_named n turn \<and> \<not> tool_ran n turn"
  by (induction names) (auto split: if_splits)

lemma pending_skill_required_tool_None:
  "pending_skill_required_tool turn names = None \<longleftrightarrow>
   (\<forall>n\<in>set names. skill_named n turn \<longrightarrow> tool_ran n turn)"
  by (induction names) auto

lemma reject_tool_calls_ran:
  "tc \<in> set calls \<Longrightarrow> tool_ran (tc_name tc) (ms @ reject_tool_calls calls reason)"
  by (force simp: tool_ran_def reject_tool_calls_def list_ex_iff)

lemma batch_guard_writes:
  "\<not> list_ex writes_ctx (tool_batch_guard s valid)"
  "\<not> list_ex writes_iterations (tool_batch_guard s valid)"
  "\<not> list_ex writes_moderation (tool_batch_guard s valid)"
  "\<not> list_ex writes_retry (tool_batch_guard s valid)"
  by (simp_all add: tool_batch_guard_def Let_def split: option.splits)

section \<open>Properties\<close>

text \<open>
  Repetition is recognised whatever the order of the calls in a batch and whatever their ids:
  if the latest \<open>MAX_REPEATED_ACTIONS\<close> batches of the turn ask for the same calls with the
  same arguments, in any order within each batch, the repeat count reaches the limit at which the
  run stops.
\<close>

theorem repeated_batches_counted:
  assumes "current_turn_tool_call_batches ms = latest # older"
    and "MAX_REPEATED_ACTIONS \<le> length (latest # older)"
    and "\<forall>b\<in>set (take MAX_REPEATED_ACTIONS (latest # older)).
      mset (map (\<lambda>tc. (tc_name tc, tc_args tc)) b) = mset (map (\<lambda>tc. (tc_name tc, tc_args tc)) latest)"
  shows "MAX_REPEATED_ACTIONS \<le> consecutive_repeat_count ms"
proof -
  have "tool_call_fingerprint b = tool_call_fingerprint latest"
    if "mset (map (\<lambda>tc. (tc_name tc, tc_args tc)) b) = mset (map (\<lambda>tc. (tc_name tc, tc_args tc)) latest)" for b
    using fingerprint_permutation [OF that] .
  then have "\<forall>b\<in>set (take MAX_REPEATED_ACTIONS (latest # older)).
      tool_call_fingerprint b = tool_call_fingerprint latest" using assms(3) by blast
  then have "MAX_REPEATED_ACTIONS \<le> count_same (tool_call_fingerprint latest) (latest # older)"
    using assms(2) unfolding count_same_ge_iff by blast
  then show ?thesis unfolding consecutive_repeat_count_def assms(1) by (simp only: list.case)
qed

theorem repeated_batches_counted_witness:
  "MAX_REPEATED_ACTIONS \<le> consecutive_repeat_count
    (let a = \<lparr>tc_name = ''find'', tc_args = JInt 1, tc_id = ''x''\<rparr>;
         b = \<lparr>tc_name = ''find'', tc_args = JInt 2, tc_id = ''y''\<rparr>
     in [(AIMessage [])\<lparr>tool_calls := [a, b]\<rparr>, (AIMessage [])\<lparr>tool_calls := [b, a]\<rparr>,
         (AIMessage [])\<lparr>tool_calls := [a, b]\<rparr>])"
  by (rule repeated_batches_counted [where
        latest = "[\<lparr>tc_name = ''find'', tc_args = JInt 1, tc_id = ''x''\<rparr>, \<lparr>tc_name = ''find'', tc_args = JInt 2, tc_id = ''y''\<rparr>]"
        and older = "[[\<lparr>tc_name = ''find'', tc_args = JInt 2, tc_id = ''y''\<rparr>, \<lparr>tc_name = ''find'', tc_args = JInt 1, tc_id = ''x''\<rparr>],
          [\<lparr>tc_name = ''find'', tc_args = JInt 1, tc_id = ''x''\<rparr>, \<lparr>tc_name = ''find'', tc_args = JInt 2, tc_id = ''y''\<rparr>]]"])
    (simp_all add: current_turn_tool_call_batches_def current_turn_messages_def is_user_message_def
      MAX_REPEATED_ACTIONS_def Let_def add_mset_commute)

text \<open>
  A malformed batch is answered in full: when the pending batch has a fault, the guard appends one
  message per pending call, in order and under the call's own id and name, so no call is left
  without a result; without a fault it does nothing.
\<close>

theorem batch_guard_answers_all:
  "(case batch_problem (pending_calls (messages s)) (messages s) valid of
      None \<Rightarrow> tool_batch_guard s valid = []
    | Some p \<Rightarrow> \<exists>ms. tool_batch_guard s valid = [UMessages ms] \<and>
        map (\<lambda>m. (mtype m, tool_call_id m, mname m)) ms =
        map (\<lambda>tc. (Tool, tc_id tc, Some (tc_name tc))) (pending_calls (messages s)))"
  by (simp add: tool_batch_guard_def Let_def reject_tool_calls_def split: option.splits)

text \<open>
  The gate knows two capabilities by name and passes every other: a declared value outside the
  three documented ones is neither \<open>read_only\<close> nor gated.
\<close>

theorem unknown_capability_ungated:
  "(\<exists>calls caps. mandatory_gate_reason calls caps = None \<and>
      list_ex (\<lambda>tc. tool_capability (tc_name tc) caps \<noteq> ''read_only'') calls) \<and>
   mandatory_gate_reason [\<lparr>tc_name = n, tc_args = a, tc_id = i\<rparr>] [] = Some ''outward''"
proof
  show "\<exists>calls caps. mandatory_gate_reason calls caps = None \<and>
      list_ex (\<lambda>tc. tool_capability (tc_name tc) caps \<noteq> ''read_only'') calls"
    by (rule exI [of _ "[\<lparr>tc_name = ''save'', tc_args = JNull, tc_id = ''c''\<rparr>]"],
        rule exI [of _ "[(''save'', ''writes'')]"])
      (simp add: mandatory_gate_reason_def tool_capability_def)
qed (simp add: mandatory_gate_reason_def tool_capability_def)

end
