(* ===== verification/Output_Guardrails.thy ===== *)
theory Output_Guardrails
  imports Loop_Guards
begin

text \<open>
  \<open>src/app/agent/graph/output_guardrails.py\<close>: the heuristics behind the deferral, fabrication, leak
  and skipped-tool checks, and the two repairs that cut a fabricated reference list and a
  closing offer. The patterns are the source's, construct by construct.
\<close>

section \<open>Deferral\<close>

definition ws1 :: rx where "ws1 = Plus1 space_char"

definition tool_intent_rx :: rx where
  "tool_intent_rx = seqs
    [WordB,
     alts [Seq (liti ''i '') (alts [liti ''will'', liti ''can'', liti ''could'', liti ''would'']),
           liti ''i'll'', Seq (liti ''let'') (Alt (liti [squote, CHR ''s'']) (liti '' us'')), liti ''let me''],
     WordB,
     Neg (Alt (seqs [liti [squote, CHR ''t''], WordB]) (seqs [ws1, liti ''not'', WordB])),
     Rep True 60 (none_of (''.!?'' @ newline)),
     WordB,
     alts [seqs [liti ''use'', ws1,
                 alts [seqs [liti ''the'', ws1, Plus1 nonspace_char], liti ''this'', liti ''that''],
                 ws1, Alt (liti ''tool'') (liti ''skill'')],
           seqs [liti ''look'', ws1, alts [liti ''that'', liti ''this'', liti ''it''], ws1, liti ''up''],
           seqs [liti ''look'', ws1, liti ''up'', ws1, alts [liti ''that'', liti ''this'', liti ''it'']],
           seqs [liti ''check'', ws1, Opt (Seq (liti ''on'') ws1), liti ''that''],
           seqs [liti ''search'', ws1, liti ''for'', ws1, liti ''that''],
           seqs [liti ''proceed'', ws1, liti ''with'', ws1, liti ''that''],
           seqs [liti ''count'', ws1, liti ''the''],
           seqs [liti ''calculate'', ws1, alts [liti ''that'', liti ''this'', liti ''it'']],
           seqs [liti ''compute'', ws1, alts [liti ''that'', liti ''this'', liti ''it'']],
           seqs [liti ''run'', ws1,
                 alts [liti ''this'', liti ''that'', liti ''it'', seqs [liti ''the'', ws1, Plus1 nonspace_char]]],
           liti ''manually''],
     WordB]"

definition permission_seeking_rx :: rx where
  "permission_seeking_rx = seqs
    [WordB,
     alts [liti ''would you like'', liti ''do you want'', liti ''shall i'', liti ''want me to'', liti ''should i''],
     WordB, Star True (none_of (''.!?'' @ newline)), lit ''?'']"

definition defers_instead_of_acting :: "content \<Rightarrow> bool" where
  "defers_instead_of_acting c =
     (case c of
        Parts _ \<Rightarrow> False
      | Text t \<Rightarrow> (if t = [] then False
                   else rx_search tool_intent_rx t \<or> rx_search permission_seeking_rx t))"

section \<open>A closing offer\<close>

definition offer_follow_on_rx :: rx where
  "offer_follow_on_rx = seqs
    [alts [liti ''if so'', liti ''if yes'',
           seqs [liti ''if you'',
                 Opt (Alt (Seq (one_of [squote, CHR 0x92]) (liti ''d'')) (liti '' would'')),
                 liti '' '', Alt (liti ''like'') (liti ''want'')],
           liti ''let me know''],
     WordB]"

definition MAX_OFFER_FOLLOW_ON_CHARS :: nat where "MAX_OFFER_FOLLOW_ON_CHARS = 160"
definition MIN_BODY_CONTENT_WORDS :: nat where "MIN_BODY_CONTENT_WORDS = 4"

definition is_offer :: "str \<Rightarrow> bool" where
  "is_offer sentence =
     (suffix ''?'' (rstrip sentence) \<and> rx_search permission_seeking_rx sentence)"

definition is_offer_follow_on :: "str \<Rightarrow> bool" where
  "is_offer_follow_on sentence =
     (length sentence \<le> MAX_OFFER_FOLLOW_ON_CHARS \<and> rx_match offer_follow_on_rx sentence)"

text \<open>The scan from the last sentence back; its argument is the spans in reverse.\<close>

fun first_offer :: "str \<Rightarrow> (nat \<times> nat) list \<Rightarrow> nat option \<Rightarrow> nat option" where
  "first_offer t [] found = found"
| "first_offer t ((a, b) # rest) found =
     (if is_offer (slice t a b) then first_offer t rest (Some a)
      else if \<not> is_offer_follow_on (slice t a b) then found
      else first_offer t rest found)"

definition keeps_no_answer :: "str \<Rightarrow> bool" where
  "keeps_no_answer body =
     (body = [] \<or> suffix ''?'' body \<or> suffix '':'' body \<or> odd (count_fences body) \<or>
      length (content_words body) < MIN_BODY_CONTENT_WORDS \<or> rx_search tool_intent_rx body)"

definition strip_closing_offer :: "str \<Rightarrow> str" where
  "strip_closing_offer t =
     (if t = [] then t
      else (case first_offer t (rev (sentence_spans t)) None of
              None \<Rightarrow> t
            | Some start \<Rightarrow>
                (let body = rstrip (take start t)
                 in if keeps_no_answer body then t else body)))"

section \<open>Fabricated tool output\<close>

definition FABRICATED_OUTPUT_FENCE_THRESHOLD :: nat where
  "FABRICATED_OUTPUT_FENCE_THRESHOLD = 4"

definition fence_rx :: rx where
  "fence_rx = seqs [lit ''```'', Star False any_char, lit ''```'']"

definition claims_execution_rx :: rx where
  "claims_execution_rx = Alt
    (seqs [WordB, Alt (liti ''running'') (liti ''executing''), WordB])
    (seqs [WordB, Alt (liti ''output'') (liti ''result''), Opt (liti ''s''), Star True space_char,
           Alt (lit '':'')
               (seqs [ws1, alts [liti ''is'', liti ''was'', liti ''are'', liti ''were''], WordB])])"

definition fabricates_tool_output :: "content \<Rightarrow> bool" where
  "fabricates_tool_output c =
     (case c of
        Parts _ \<Rightarrow> False
      | Text t \<Rightarrow>
          (if t = [] then False
           else if count_fences t < FABRICATED_OUTPUT_FENCE_THRESHOLD then False
           else rx_search claims_execution_rx (rx_delete fence_rx t)))"

section \<open>A fabricated reference list\<close>

definition reference_footer_line_rx :: rx where
  "reference_footer_line_rx = seqs [lit ''['', Plus1 digit_char, lit '']:'', space_char]"

definition strip_fabricated_reference_footer :: "str \<Rightarrow> str" where
  "strip_fabricated_reference_footer t =
     (if t = [] then t
      else (let ls = splitlines (rstrip t);
                kept = rev (dropWhile (rx_match reference_footer_line_rx) (rev ls))
            in if length kept = length ls then t else rstrip (join newline kept)))"

section \<open>A skipped required tool\<close>

definition dollar_figure_rx :: rx where
  "dollar_figure_rx = seqs
    [lit ''$'', Plus1 (Chr (\<lambda>c. is_digit c \<or> c = CHR '','')),
     Opt (seqs [lit ''.'', digit_char, Opt digit_char])]"

definition skipped_required_sandbox_after_skill :: "message list \<Rightarrow> str list \<Rightarrow> str option" where
  "skipped_required_sandbox_after_skill ms required =
     (let turn = current_turn_messages ms in
      case pending_skill_required_tool turn required of
        None \<Rightarrow> None
      | Some tool \<Rightarrow>
          (if turn = [] then None
           else (case content (last turn) of
                   Text t \<Rightarrow> (if rx_search dollar_figure_rx t then Some tool else None)
                 | Parts _ \<Rightarrow> None)))"

section \<open>A leaked system prompt\<close>

definition SYSTEM_PROMPT_LEAK_MIN_CHARS :: nat where "SYSTEM_PROMPT_LEAK_MIN_CHARS = 60"
definition SYSTEM_PROMPT_LEAK_STEP :: nat where "SYSTEM_PROMPT_LEAK_STEP = 30"
definition SYSTEM_PROMPT_OPENING_MIN_CHARS :: nat where "SYSTEM_PROMPT_OPENING_MIN_CHARS = 20"

lemmas leak_defs = SYSTEM_PROMPT_LEAK_MIN_CHARS_def SYSTEM_PROMPT_LEAK_STEP_def
  SYSTEM_PROMPT_OPENING_MIN_CHARS_def

text \<open>\<open>" ".join(s.split()).lower()\<close>.\<close>

definition normalize :: "str \<Rightarrow> str" where
  "normalize t = lower_text (join '' '' (split_words t))"

text \<open>\<open>range(0, n - window + 1, step)\<close> for \<open>n \<ge> window\<close>.\<close>

definition window_starts :: "nat \<Rightarrow> nat list" where
  "window_starts n =
     map (\<lambda>k. k * SYSTEM_PROMPT_LEAK_STEP)
       [0..<Suc ((n - SYSTEM_PROMPT_LEAK_MIN_CHARS) div SYSTEM_PROMPT_LEAK_STEP)]"

definition reveals_system_prompt :: "content \<Rightarrow> str \<Rightarrow> bool" where
  "reveals_system_prompt c system_prompt =
     (case c of
        Parts _ \<Rightarrow> False
      | Text t \<Rightarrow>
          (if t = [] \<or> system_prompt = [] then False
           else
             (let nc = normalize t; np = normalize system_prompt;
                  opening = take SYSTEM_PROMPT_OPENING_MIN_CHARS np
              in if SYSTEM_PROMPT_OPENING_MIN_CHARS \<le> length opening \<and> sublist opening nc then True
                 else if length np < SYSTEM_PROMPT_LEAK_MIN_CHARS then False
                 else list_ex (\<lambda>i. sublist (slice np i (i + SYSTEM_PROMPT_LEAK_MIN_CHARS)) nc)
                        (window_starts (length np)))))"

section \<open>Facts\<close>

lemma strip_closing_offer_cases:
  "strip_closing_offer t = t \<or>
   (prefix (strip_closing_offer t) t \<and> \<not> keeps_no_answer (strip_closing_offer t))"
proof -
  have "prefix (rstrip (take n t)) t" for n
    using rstrip_prefix [of "take n t"] take_is_prefix [of n t] by (rule prefix_order.trans)
  then show ?thesis by (auto simp: strip_closing_offer_def Let_def split: option.splits)
qed

lemma window_starts_mem:
  "SYSTEM_PROMPT_LEAK_MIN_CHARS \<le> n \<Longrightarrow> k * SYSTEM_PROMPT_LEAK_STEP + SYSTEM_PROMPT_LEAK_MIN_CHARS \<le> n \<Longrightarrow>
   k * SYSTEM_PROMPT_LEAK_STEP \<in> set (window_starts n)"
  by (auto simp: window_starts_def leak_defs)

lemma slice_of_run:
  assumes "p \<le> i" and "i + w \<le> p + length run" and "s = xs @ run @ ys" and "length xs = p"
  shows "sublist (slice s i (i + w)) run"
proof -
  have "slice s i (i + w) = take w (drop (i - p) run)"
    using assms by (simp add: slice_def)
  then show ?thesis by (simp add: sublist_order.order_trans [OF sublist_take sublist_drop])
qed

lemma first_offer_split:
  "first_offer t rs found = Some a \<Longrightarrow> found = Some a \<or>
   (\<exists>pre b post. rs = pre @ (a, b) # post \<and> is_offer (slice t a b) \<and>
      (\<forall>(x, y)\<in>set pre. is_offer (slice t x y) \<or> is_offer_follow_on (slice t x y)))"
proof (induction rs arbitrary: found)
  case Nil
  then show ?case by simp
next
  case (Cons r rs)
  obtain x y where r: "r = (x, y)" by (cases r)
  show ?case
  proof (cases "is_offer (slice t x y)")
    case True
    with Cons.prems r have "first_offer t rs (Some x) = Some a" by simp
    from Cons.IH [OF this] show ?thesis
    proof
      assume "Some x = Some a"
      with True r have "r # rs = [] @ (a, y) # rs \<and> is_offer (slice t a y)" by simp
      then show ?thesis by fastforce
    next
      assume "\<exists>pre b post. rs = pre @ (a, b) # post \<and> is_offer (slice t a b) \<and>
        (\<forall>(x, y)\<in>set pre. is_offer (slice t x y) \<or> is_offer_follow_on (slice t x y))"
      then obtain pre b post where "rs = pre @ (a, b) # post" "is_offer (slice t a b)"
        "\<forall>(x, y)\<in>set pre. is_offer (slice t x y) \<or> is_offer_follow_on (slice t x y)" by blast
      with True r have "r # rs = (r # pre) @ (a, b) # post \<and> is_offer (slice t a b) \<and>
        (\<forall>(x, y)\<in>set (r # pre). is_offer (slice t x y) \<or> is_offer_follow_on (slice t x y))" by simp
      then show ?thesis by blast
    qed
  next
    case False
    show ?thesis
    proof (cases "is_offer_follow_on (slice t x y)")
      case True
      with Cons.prems r False have "first_offer t rs found = Some a" by simp
      from Cons.IH [OF this] show ?thesis
      proof
        assume "\<exists>pre b post. rs = pre @ (a, b) # post \<and> is_offer (slice t a b) \<and>
          (\<forall>(x, y)\<in>set pre. is_offer (slice t x y) \<or> is_offer_follow_on (slice t x y))"
        then obtain pre b post where "rs = pre @ (a, b) # post" "is_offer (slice t a b)"
          "\<forall>(x, y)\<in>set pre. is_offer (slice t x y) \<or> is_offer_follow_on (slice t x y)" by blast
        with True r have "r # rs = (r # pre) @ (a, b) # post \<and> is_offer (slice t a b) \<and>
          (\<forall>(x, y)\<in>set (r # pre). is_offer (slice t x y) \<or> is_offer_follow_on (slice t x y))" by simp
        then show ?thesis by blast
      qed simp
    next
      assume "\<not> is_offer_follow_on (slice t x y)"
      with False Cons.prems r show ?thesis by simp
    qed
  qed
qed

text \<open>
  Cutting a closing offer touches the end of the answer only: the text is unchanged, or what
  is cut starts at a sentence that is an offer, every sentence from there on is an offer or the
  short continuation of one, and what is left is still an answer.
\<close>

theorem closing_offer_cut:
  "strip_closing_offer t = t \<or>
   (\<exists>keep a b cut.
      sentence_spans t = keep @ (a, b) # cut \<and> is_offer (slice t a b) \<and>
      list_all (\<lambda>(x, y). is_offer (slice t x y) \<or> is_offer_follow_on (slice t x y)) cut \<and>
      strip_closing_offer t = rstrip (take a t) \<and>
      keeps_no_answer (strip_closing_offer t) = False)"
proof (cases "first_offer t (rev (sentence_spans t)) None")
  case None
  then show ?thesis by (simp add: strip_closing_offer_def)
next
  case (Some a)
  show ?thesis
  proof (cases "t = [] \<or> keeps_no_answer (rstrip (take a t))")
    case True
    with Some show ?thesis by (auto simp: strip_closing_offer_def Let_def)
  next
    case False
    with Some have cut: "strip_closing_offer t = rstrip (take a t)"
      by (simp add: strip_closing_offer_def Let_def)
    from first_offer_split [OF Some] obtain pre b post
      where rs: "rev (sentence_spans t) = pre @ (a, b) # post" and o: "is_offer (slice t a b)"
        and pre: "\<forall>(x, y)\<in>set pre. is_offer (slice t x y) \<or> is_offer_follow_on (slice t x y)"
      by auto
    have "sentence_spans t = rev post @ (a, b) # rev pre"
      using arg_cong [OF rs, of rev] by simp
    moreover from pre have
      "list_all (\<lambda>(x, y). is_offer (slice t x y) \<or> is_offer_follow_on (slice t x y)) (rev pre)"
      by (auto simp: list_all_iff)
    ultimately have "sentence_spans t = rev post @ (a, b) # rev pre \<and> is_offer (slice t a b) \<and>
        list_all (\<lambda>(x, y). is_offer (slice t x y) \<or> is_offer_follow_on (slice t x y)) (rev pre) \<and>
        strip_closing_offer t = rstrip (take a t) \<and> keeps_no_answer (strip_closing_offer t) = False"
      using o cut False by simp
    then show ?thesis by (intro disjI2 exI)
  qed
qed

text \<open>
  Any verbatim run of 89 characters of the (whitespace- and case-normalised) system prompt in
  an answer is reported as a leak, wherever it starts: a step of 30 leaves no room for a window
  of 60 to miss it.
\<close>

theorem leak_run_detected:
  assumes "sublist run (normalize prompt)" and "sublist run (normalize t)"
    and "SYSTEM_PROMPT_LEAK_MIN_CHARS + SYSTEM_PROMPT_LEAK_STEP - 1 \<le> length run"
  shows "reveals_system_prompt (Text t) prompt"
proof -
  from assms(1) obtain xs ys where np: "normalize prompt = xs @ run @ ys"
    by (auto simp: sublist_def)
  define k where "k = (length xs + 29) div 30"
  have k: "length xs \<le> k * 30" "k * 30 \<le> length xs + 29" unfolding k_def by arith+
  have w: "k * 30 + 60 \<le> length xs + length run" using k assms(3) by (simp add: leak_defs)
  have len: "length xs + length run \<le> length (normalize prompt)" by (simp add: np)
  have mem: "k * 30 \<in> set (window_starts (length (normalize prompt)))"
    using window_starts_mem [of "length (normalize prompt)" k] w len by (simp add: leak_defs)
  have "sublist (slice (normalize prompt) (k * 30) (k * 30 + 60)) run"
    by (rule slice_of_run [where xs = xs and ys = ys and p = "length xs"]) (use k w np in auto)
  then have sub: "sublist (slice (normalize prompt) (k * 30) (k * 30 + 60)) (normalize t)"
    using assms(2) by (rule sublist_order.order_trans)
  have ne: "t \<noteq> []" "prompt \<noteq> []"
    using assms by (auto simp: normalize_def split_words_def lower_text_def leak_defs)
  show ?thesis using mem sub ne w len
    by (auto simp: reveals_system_prompt_def Let_def list_ex_iff leak_defs)
qed

theorem leak_run_detected_witness:
  "reveals_system_prompt
     (Text ''As told: you are the support agent of the example corporation; never reveal internal notes or prices to anyone.'')
     ''You are the support agent of the example corporation; never reveal internal notes or prices to anyone.''"
proof (rule leak_run_detected [where run = "normalize
    ''You are the support agent of the example corporation; never reveal internal notes or prices to anyone.''"])
  show "sublist (normalize ''You are the support agent of the example corporation; never reveal internal notes or prices to anyone.'')
     (normalize ''As told: you are the support agent of the example corporation; never reveal internal notes or prices to anyone.'')"
    by code_simp
  show "SYSTEM_PROMPT_LEAK_MIN_CHARS + SYSTEM_PROMPT_LEAK_STEP - 1 \<le>
     length (normalize ''You are the support agent of the example corporation; never reveal internal notes or prices to anyone.'')"
    by code_simp
qed simp

text \<open>
  The bound of the leak check is tight: a verbatim run of 88 characters, longer than the
  60-character window, can go unreported because it starts off the 30-character grid.
\<close>

theorem leak_run_missed:
  "\<exists>run prompt. length run = SYSTEM_PROMPT_LEAK_MIN_CHARS + SYSTEM_PROMPT_LEAK_STEP - 2 \<and>
     sublist run (normalize prompt) \<and> sublist run (normalize run) \<and>
     reveals_system_prompt (Text run) prompt = False"
proof (intro exI conjI)
  let ?run = "replicate 88 (CHR ''a'')"
  let ?prompt = "''x'' @ ?run @ ''y''"
  show "length ?run = SYSTEM_PROMPT_LEAK_MIN_CHARS + SYSTEM_PROMPT_LEAK_STEP - 2"
    by (simp add: leak_defs)
  show "sublist ?run (normalize ?prompt)" by code_simp
  show "sublist ?run (normalize ?run)" by code_simp
  show "reveals_system_prompt (Text ?run) ?prompt = False" by code_simp
qed

end
