(* ===== verification/Routing.thy ===== *)
theory Routing
  imports Output_Checks
begin

text \<open>
  \<open>src/app/agent/graph/routing.py\<close>: where a run goes after the model spoke (\<open>should_continue\<close>), the
  judgement of a final answer (\<open>check_output\<close>) and where that sends the run
  (\<open>route_after_check\<close>). \<open>tools_condition\<close> is library code (\<open>langgraph.prebuilt\<close>) and an argument;
  what is relied on is \<open>tools_condition_spec\<close>, its documented behaviour. Metrics are left out.
\<close>

section \<open>After the model\<close>

definition tools_condition_spec :: "(message list \<Rightarrow> bool) \<Rightarrow> bool" where
  "tools_condition_spec tc \<longleftrightarrow>
     (\<forall>ms. ms \<noteq> [] \<and> mtype (last ms) = AI \<longrightarrow> tc ms = (tool_calls (last ms) \<noteq> []))"

record limits =
  max_iterations :: nat
  max_tokens :: int
  max_cost_usd :: usd

definition gateway_refused :: "message list \<Rightarrow> bool" where
  "gateway_refused ms =
     (ms \<noteq> [] \<and> mtype (last ms) = AI \<and> GATEWAY_REFUSAL_KEY \<in> set (kwargs (last ms)))"

definition effective_tokens :: "state \<Rightarrow> int" where
  "effective_tokens s = total_tokens s + sum_list (map fst (subagent_spend s))"

definition effective_cost_usd :: "state \<Rightarrow> usd" where
  "effective_cost_usd s = total_cost_usd s + sum_list (map snd (subagent_spend s))"

definition should_continue ::
  "(message list \<Rightarrow> bool) \<Rightarrow> limits \<Rightarrow> capabilities \<Rightarrow> str list \<Rightarrow> state \<Rightarrow> node" where
  "should_continue tools_condition lims caps valid s =
     (let ms = messages s in
      if gateway_refused ms then NoAnswer
      else if max_iterations lims \<le> iterations s then NoAnswer
      else if max_tokens lims \<le> effective_tokens s then NoAnswer
      else if max_cost_usd lims \<le> effective_cost_usd s then NoAnswer
      else if \<not> tools_condition ms then CheckOutput
      else
        (let calls = pending_calls ms in
         if batch_problem calls ms valid \<noteq> None then ToolBatchGuard
         else if MAX_REPEATED_ACTIONS \<le> consecutive_repeat_count ms then NoAnswer
         else if require_approval s \<or> mandatory_gate_reason calls caps \<noteq> None then HumanApproval
         else Tools))"

section \<open>Judging the answer\<close>

record checked =
  ck_messages :: "message list option"
  ck_used :: "citation list"
  ck_ungrounded :: nat
  ck_findings :: "(str \<times> detail) list"
  ck_reason :: "str option"
  ck_repeat :: nat

text \<open>A text repair, applied where the content is text.\<close>

definition map_text :: "(str \<Rightarrow> str) \<Rightarrow> content \<Rightarrow> content" where
  "map_text f c = (case c of Text t \<Rightarrow> Text (f t) | Parts ps \<Rightarrow> Parts ps)"

text \<open>The repairs: the content to judge, the body, and (shown, messages update).\<close>

definition repaired :: "message \<Rightarrow> citation list \<Rightarrow> bool \<Rightarrow> content \<times> content \<times> content \<times> message list option" where
  "repaired m cites enforce =
     (let original = content_or_empty m;
          c = map_text strip_fabricated_reference_footer original;
          mu_footer = (if c \<noteq> original then Some [m\<lparr>content := c\<rparr>] else None);
          body = map_text strip_closing_offer c;
          mu_offer = (if body \<noteq> c then Some [m\<lparr>content := body\<rparr>] else mu_footer);
          used = find_used_citations body cites
      in if enforce \<and> find_likely_uncited body cites used \<noteq> [] then
           (case insert_missing_citation_markers body cites used of
              (corrected, fixed) \<Rightarrow>
                if fixed \<noteq> [] then (c, body, corrected, Some [m\<lparr>content := corrected\<rparr>])
                else (c, body, body, mu_offer))
         else (c, body, body, mu_offer))"

definition check_output :: "state \<Rightarrow> str \<Rightarrow> bool \<Rightarrow> str list \<Rightarrow> checked result" where
  "check_output s system_prompt enforce required =
     (if messages s = [] then Inl IndexError
      else
        (case repaired (last (messages s)) (citations s) enforce of
           (c, body, shown, message_update) \<Rightarrow>
             (let used = find_used_citations body (citations s);
                  shown_used = find_used_citations shown (citations s);
                  findings = run_checks
                    \<lparr>cc_content = c, cc_body = body, cc_messages = messages s,
                     cc_citations = citations s, cc_used = used, cc_shown = shown,
                     cc_shown_used = shown_used, cc_system_prompt = system_prompt,
                     cc_enforce_citations = enforce, cc_skill_required_tools = required\<rparr>;
                  reason = (case findings of [] \<Rightarrow> None | (r, _) # _ \<Rightarrow> Some r);
                  repeat_count =
                    (if reason = None then 0
                     else if reason = last_retry_reason s then retry_reason_repeat_count s + 1
                     else 1)
              in Inr \<lparr>ck_messages = message_update, ck_used = shown_used,
                      ck_ungrounded = count_ungrounded_claims shown (citations s),
                      ck_findings = findings, ck_reason = reason, ck_repeat = repeat_count\<rparr>)))"

definition checked_upds :: "checked \<Rightarrow> upd list" where
  "checked_upds k =
     (case ck_messages k of None \<Rightarrow> [] | Some ms \<Rightarrow> [UMessages ms]) @
     [UUsedCitations (ck_used k), UUngrounded (ck_ungrounded k), UFindings (ck_findings k),
      URetryReason (ck_reason k), URepeatCount (ck_repeat k)]"

section \<open>After the check\<close>

datatype after_check = ToRetryOutput | ToRetryExhausted | ToFinish

definition route_after_check :: "state \<Rightarrow> after_check" where
  "route_after_check s =
     (case last_retry_reason s of
        None \<Rightarrow> ToFinish
      | Some _ \<Rightarrow>
          (if MAX_CONSECUTIVE_SAME_RETRY_REASON \<le> retry_reason_repeat_count s then ToRetryExhausted
           else ToRetryOutput))"

section \<open>Facts\<close>

text \<open>What must hold for a run to go from the model straight to its tools.\<close>

lemma should_continue_Tools [guard_simps]:
  "should_continue tc lims caps valid s = Tools \<longleftrightarrow>
   \<not> gateway_refused (messages s) \<and> iterations s < max_iterations lims \<and>
   effective_tokens s < max_tokens lims \<and> effective_cost_usd s < max_cost_usd lims \<and>
   tc (messages s) \<and> batch_problem (pending_calls (messages s)) (messages s) valid = None \<and>
   consecutive_repeat_count (messages s) < MAX_REPEATED_ACTIONS \<and>
   \<not> require_approval s \<and> mandatory_gate_reason (pending_calls (messages s)) caps = None"
  by (auto simp: should_continue_def Let_def not_le)

lemma should_continue_HumanApproval:
  "should_continue tc lims caps valid s = HumanApproval \<Longrightarrow>
   iterations s < max_iterations lims \<and> tc (messages s) \<and>
   batch_problem (pending_calls (messages s)) (messages s) valid = None \<and>
   (require_approval s \<or> mandatory_gate_reason (pending_calls (messages s)) caps \<noteq> None)"
  by (auto simp: should_continue_def Let_def not_le split: if_splits)

lemma should_continue_range:
  "should_continue tc lims caps valid s \<in> {NoAnswer, CheckOutput, ToolBatchGuard, HumanApproval, Tools}"
  by (simp add: should_continue_def Let_def)

lemma should_continue_exhausted:
  "max_iterations lims \<le> iterations s \<Longrightarrow> should_continue tc lims caps valid s = NoAnswer"
  by (simp add: should_continue_def Let_def)

lemma should_continue_refused:
  "gateway_refused (messages s) \<Longrightarrow> should_continue tc lims caps valid s = NoAnswer"
  by (simp add: should_continue_def Let_def)

lemma should_continue_batch_guard:
  "should_continue tc lims caps valid s = ToolBatchGuard \<Longrightarrow>
   batch_problem (pending_calls (messages s)) (messages s) valid \<noteq> None \<and> iterations s < max_iterations lims"
  by (auto simp: should_continue_def Let_def split: if_splits)

lemma check_output_total: "messages s \<noteq> [] \<Longrightarrow> \<exists>k. check_output s sp enf req = Inr k"
  by (simp add: check_output_def Let_def split: prod.splits)

lemma check_output_messages: "check_output s sp enf req = Inr k \<Longrightarrow> messages s \<noteq> []"
  by (auto simp: check_output_def split: if_splits)

lemma check_output_findings:
  assumes "check_output s sp enf req = Inr k"
  shows "\<exists>c. ck_findings k = run_checks c \<and> cc_enforce_citations c = enf \<and> cc_system_prompt c = sp"
  using assms by (auto simp: check_output_def Let_def split: prod.splits if_splits)

lemma check_output_reason:
  "check_output s sp enf req = Inr k \<Longrightarrow>
   ck_reason k = (case ck_findings k of [] \<Rightarrow> None | (r, _) # _ \<Rightarrow> Some r)"
  by (auto simp: check_output_def Let_def split: prod.splits if_splits)

lemma check_output_repeat:
  "check_output s sp enf req = Inr k \<Longrightarrow>
   ck_repeat k = (if ck_reason k = None then 0
     else if ck_reason k = last_retry_reason s then retry_reason_repeat_count s + 1 else 1)"
  by (auto simp: check_output_def Let_def split: prod.splits if_splits)

lemma check_output_reason_registered:
  assumes "check_output s sp enf req = Inr k" and "ck_reason k = Some r"
  shows "\<exists>d t kk. map_of (ck_findings k) r = Some d \<and> check_for r = Inr kk \<and> feedback kk (Some d) = Inr t"
proof -
  from check_output_findings [OF assms(1)] obtain c where f: "ck_findings k = run_checks c" by blast
  from check_output_reason [OF assms(1)] assms(2) f obtain d where d: "(r, d) \<in> set (run_checks c)"
    by (auto split: list.splits)
  then obtain kk where kk: "kk \<in> set CHECKS" "code kk = r" "detect kk c = Some d"
    by (auto simp: run_checks_mem)
  then have "r \<in> set check_codes" by auto
  from check_for_registered [OF this] obtain k' where k': "check_for r = Inr k'" "k' \<in> set CHECKS" "code k' = r"
    by blast
  have "k' = kk" using kk k' distinct_check_codes
    by (metis (no_types, lifting) distinct_map inj_on_def)
  with kk k' feedback_reads_detection [of kk c d] run_checks_map_of [OF d] f show ?thesis by auto
qed

lemma checked_upds_writes:
  "\<not> list_ex writes_ctx (checked_upds k)" "\<not> list_ex writes_iterations (checked_upds k)"
  "\<not> list_ex writes_moderation (checked_upds k)"
  by (simp_all add: checked_upds_def split: option.splits)

lemma checked_upds_apply:
  "last_retry_reason (apply_upds am (checked_upds k) s) = ck_reason k"
  "retry_reason_repeat_count (apply_upds am (checked_upds k) s) = ck_repeat k"
  "output_findings (apply_upds am (checked_upds k) s) = ck_findings k"
  "used_citations (apply_upds am (checked_upds k) s) = ck_used k"
  "ungrounded_claims_count (apply_upds am (checked_upds k) s) = ck_ungrounded k"
  by (simp_all add: checked_upds_def split: option.splits)

text \<open>The content a repaired message is shown with.\<close>

lemma repaired_shown:
  assumes "repaired m cites enforce = (c, body, shown, mu)"
  shows "shown = (case mu of None \<Rightarrow> content_or_empty m | Some ms \<Rightarrow> content (hd ms))"
    and "mu \<noteq> None \<Longrightarrow> \<exists>x. mu = Some [m\<lparr>content := x\<rparr>]"
  using assms by (auto simp: repaired_def Let_def split: if_splits prod.splits)

text \<open>An empty final answer is rejected as too short.\<close>

lemma empty_answer_too_short:
  assumes "messages s \<noteq> []" and "content_or_empty (last (messages s)) = Text []"
  shows "\<exists>k. check_output s sp False req = Inr k \<and> ck_reason k = Some ''too_short''"
proof -
  have "strip_fabricated_reference_footer [] = []" by code_simp
  moreover have "strip_closing_offer [] = []" using strip_closing_offer_cases [of "[]"] by auto
  ultimately have "\<exists>mu. repaired (last (messages s)) (citations s) False = (Text [], Text [], Text [], mu)"
    using assms(2) by (simp add: repaired_def map_text_def Let_def)
  then show ?thesis using assms(1)
    by (auto simp: check_output_def Let_def run_checks_def CHECKS_def leaks_prompt_def
        reveals_system_prompt_def too_short_def MIN_ANSWER_LENGTH_def)
qed

end
