(* ===== verification/Hitl.thy ===== *)
theory Hitl
  imports Routing
begin

text \<open>
  \<open>src/app/agent/graph/hitl.py\<close>: the approval pause. \<open>interrupt\<close> is the function that suspends the
  graph; its value is the decision the run is resumed with. A checkpoint as the resume checks
  read it is a \<open>snapshot\<close>: the nodes scheduled next, the interrupts of each task (each with the
  tool calls it asks about) and the schema version stored in its values.
\<close>

datatype decision_value = DBool bool | DStr str

fun truthy :: "decision_value \<Rightarrow> bool" where
  "truthy (DBool b) = b"
| "truthy (DStr t) = (t \<noteq> [])"

definition CANCEL_SENTINEL :: str where
  "CANCEL_SENTINEL = ''cancelled''"

text \<open>What the pause shows the person.\<close>

definition approval_request :: "state \<Rightarrow> (str \<times> json) list" where
  "approval_request s = map (\<lambda>tc. (tc_name tc, tc_args tc)) (pending_calls (messages s))"

definition human_approval :: "decision_value \<Rightarrow> state \<Rightarrow> upd list" where
  "human_approval d s =
     (let calls = pending_calls (messages s) in
      if d = DStr CANCEL_SENTINEL then
        [UMessages (reject_tool_calls calls
           (''Cancelled by request '' @ em_dash @ '' this action will not run.'')),
         UApproved False, UCancelled True]
      else if truthy d then [UApproved True]
      else [UMessages (reject_tool_calls calls ''Rejected by human reviewer.''), UApproved False])"

definition route_after_approval :: "state \<Rightarrow> node" where
  "route_after_approval s = (if cancelled s then END else if approved s then Tools else Agent)"

section \<open>Before a resume\<close>

record snapshot =
  snap_next :: "str list"
  snap_tasks :: "(str \<times> json) list list list"
  snap_schema :: "int option"

definition is_paused :: "snapshot \<Rightarrow> bool" where
  "is_paused sn = (snap_next sn \<noteq> [] \<and> list_ex (\<lambda>interrupts. interrupts \<noteq> []) (snap_tasks sn))"

definition repr_schema :: "int option \<Rightarrow> str" where
  "repr_schema v = (case v of None \<Rightarrow> ''None'' | Some i \<Rightarrow> dec_int i)"

definition resumability_error_from_state :: "snapshot \<Rightarrow> str option" where
  "resumability_error_from_state sn =
     (if \<not> is_paused sn then
        Some (''checkpoint_lost: no paused run found for this thread '' @ em_dash @ '' it may '' @
              ''have completed, never existed, its checkpoint was lost, or '' @
              ''it's still actively running (not yet paused at an approval gate).'')
      else if snap_schema sn \<noteq> Some STATE_SCHEMA_VERSION then
        Some (''checkpoint_incompatible: paused under state_schema_version '' @
              repr_schema (snap_schema sn) @ '', this build is '' @ dec_int STATE_SCHEMA_VERSION @ '' '' @
              em_dash @ '' refusing to resume into a possibly different topology.'')
      else None)"

text \<open>The nested loops: the first interrupt of each task, until one has tool calls.\<close>

fun first_tool_calls :: "(str \<times> json) list list list \<Rightarrow> (str \<times> json) list" where
  "first_tool_calls [] = []"
| "first_tool_calls ([] # ts) = first_tool_calls ts"
| "first_tool_calls ((calls # _) # ts) = (if calls \<noteq> [] then calls else first_tool_calls ts)"

record pending_approval =
  pa_tool_calls :: "(str \<times> json) list"
  pa_resumable :: bool

definition paused_approval :: "snapshot \<Rightarrow> pending_approval option" where
  "paused_approval sn =
     (if \<not> is_paused sn then None
      else Some \<lparr>pa_tool_calls = first_tool_calls (snap_tasks sn),
                 pa_resumable = (resumability_error_from_state sn = None)\<rparr>)"

section \<open>Facts\<close>

lemma human_approval_approves:
  "route_after_approval (apply_upds am (human_approval d s) (s\<lparr>cancelled := False\<rparr>)) = Tools \<longleftrightarrow>
   truthy d \<and> d \<noteq> DStr CANCEL_SENTINEL"
  by (simp add: route_after_approval_def human_approval_def Let_def)

lemma human_approval_keeps_messages:
  "truthy d \<Longrightarrow> d \<noteq> DStr CANCEL_SENTINEL \<Longrightarrow>
   messages (apply_upds am (human_approval d s) s) = messages s"
  by (simp add: human_approval_def Let_def)

lemma human_approval_writes:
  "\<not> list_ex writes_ctx (human_approval d s)" "\<not> list_ex writes_iterations (human_approval d s)"
  "\<not> list_ex writes_moderation (human_approval d s)" "\<not> list_ex writes_retry (human_approval d s)"
  by (simp_all add: human_approval_def Let_def)

lemma route_after_approval_range: "route_after_approval s \<in> {END, Tools, Agent}"
  by (simp add: route_after_approval_def)

lemma resumable_iff:
  "resumability_error_from_state sn = None \<longleftrightarrow> is_paused sn \<and> snap_schema sn = Some STATE_SCHEMA_VERSION"
  by (simp add: resumability_error_from_state_def)

text \<open>
  A run is resumed only into a real pause of this build's schema: the resume check passes
  exactly when the checkpoint has a next node, a task suspended at an interrupt, and the
  schema version of this build; and the read-only probe of a thread agrees with it.
\<close>

theorem resume_only_when_paused:
  "(resumability_error_from_state sn = None \<longleftrightarrow>
      snap_next sn \<noteq> [] \<and> (\<exists>i \<in> set (snap_tasks sn). i \<noteq> []) \<and>
      snap_schema sn = Some STATE_SCHEMA_VERSION) \<and>
   (resumability_error_from_state sn = None \<longleftrightarrow>
      (case paused_approval sn of None \<Rightarrow> False | Some pa \<Rightarrow> pa_resumable pa))"
  by (auto simp: resumability_error_from_state_def is_paused_def paused_approval_def list_ex_iff)

end
