(* ===== verification/Retry.thy ===== *)
theory Retry
  imports Hitl
begin

text \<open>
  \<open>src/app/agent/graph/retry.py\<close>: sending the model back with feedback, giving up on a stuck retry
  loop, and the answer of a turn that a safety budget stopped.
\<close>

definition as_retry_artifact :: "message option \<Rightarrow> message list" where
  "as_retry_artifact mo =
     (case mo of
        None \<Rightarrow> []
      | Some m \<Rightarrow>
          (if mtype m \<noteq> AI \<or> tool_calls m \<noteq> [] \<or> msg_id m = None then []
           else [tag_retry_artifact m]))"

definition last_message :: "state \<Rightarrow> message option" where
  "last_message s = (if messages s = [] then None else Some (last (messages s)))"

definition retry_feedback_message :: "str \<Rightarrow> message" where
  "retry_feedback_message t = tag_retry_artifact (HumanMessage t)"

definition retry_output :: "state \<Rightarrow> upd list result" where
  "retry_output s =
     (case last_retry_reason s of
        None \<Rightarrow> Inl (ValueError ''retry_output is only reached when check_output recorded a reason'')
      | Some r \<Rightarrow>
          (case check_for r of
             Inl e \<Rightarrow> Inl e
           | Inr k \<Rightarrow>
               (case feedback k (map_of (output_findings s) r) of
                  Inl e \<Rightarrow> Inl e
                | Inr t \<Rightarrow>
                    Inr [UMessages (as_retry_artifact (last_message s) @ [retry_feedback_message t])])))"

text \<open>\<open>isinstance(content, str) and content.strip()\<close>.\<close>

definition has_text :: "content \<Rightarrow> bool" where
  "has_text c = (case c of Text t \<Rightarrow> strip t \<noteq> [] | Parts _ \<Rightarrow> False)"

definition retry_exhausted :: "bool \<Rightarrow> state \<Rightarrow> upd list result" where
  "retry_exhausted emit_message s =
     (let c = (case last_message s of None \<Rightarrow> Text [] | Some m \<Rightarrow> content_or_empty m) in
      case trusts_content (last_retry_reason s) of
        Inl e \<Rightarrow> Inl e
      | Inr trusted \<Rightarrow>
          (if trusted \<and> has_text c then Inr []
           else
             (case (if emit_message then fallback_message (last_retry_reason s) else Inr []) of
                Inl e \<Rightarrow> Inl e
              | Inr t \<Rightarrow>
                  Inr [UMessages (as_retry_artifact (last_message s) @ [AIMessage t]),
                       UUsedCitations [], UUngrounded 0])))"

definition no_answer_fallback :: "bool \<Rightarrow> str \<Rightarrow> bool \<Rightarrow> str list \<Rightarrow> state \<Rightarrow> upd list result" where
  "no_answer_fallback emit_message system_prompt enforce required s =
     (case last_message s of
        None \<Rightarrow> Inl IndexError
      | Some m \<Rightarrow>
          (let pending = (if mtype m = AI then tool_calls m else []);
               rejections = reject_tool_calls pending
                 ''Not run: this turn reached a safety limit before this call could run.''
           in if \<not> emit_message then Inr (if rejections \<noteq> [] then [UMessages rejections] else [])
              else
                (case check_output s system_prompt enforce required of
                   Inl e \<Rightarrow> Inl e
                 | Inr fresh \<Rightarrow>
                     (case trusts_content (ck_reason fresh) of
                        Inl e \<Rightarrow> Inl e
                      | Inr trusted \<Rightarrow>
                          (let updates = [UUsedCitations (ck_used fresh), UUngrounded (ck_ungrounded fresh)] in
                           if \<not> (pending = [] \<and> trusted \<and> has_text (content_or_empty m)) then
                             (case fallback_message (ck_reason fresh) of
                                Inl e \<Rightarrow> Inl e
                              | Inr t \<Rightarrow>
                                  Inr (updates @
                                    [UMessages (rejections @ as_retry_artifact (Some m) @ [AIMessage t])]))
                           else
                             (case ck_messages fresh of
                                None \<Rightarrow> Inr updates
                              | Some ms \<Rightarrow> Inr (updates @ [UMessages ms])))))))"

section \<open>Facts\<close>

lemma as_retry_artifact_mem:
  "x \<in> set (as_retry_artifact mo) \<Longrightarrow>
   \<exists>m. mo = Some m \<and> x = tag_retry_artifact m \<and> mtype m = AI \<and> tool_calls m = [] \<and> msg_id m \<noteq> None"
  by (auto simp: as_retry_artifact_def split: option.splits if_splits)

lemma retry_feedback_not_user [simp]: "\<not> is_user_message (retry_feedback_message t)"
  by (simp add: is_user_message_def retry_feedback_message_def)

lemma as_retry_artifact_not_user: "x \<in> set (as_retry_artifact mo) \<Longrightarrow> \<not> is_user_message x"
  by (auto simp: is_user_message_def dest!: as_retry_artifact_mem)

lemma trusts_registered: "r \<in> set check_codes \<Longrightarrow> \<exists>b. trusts_content (Some r) = Inr b"
  using check_for_registered [of r] by (auto simp: trusts_content_def simp del: set_map)

lemma fallback_registered: "r \<in> set check_codes \<Longrightarrow> \<exists>t. fallback_message (Some r) = Inr t"
  using check_for_registered [of r] by (auto simp: fallback_message_def simp del: set_map)

lemma checked_reason_registered:
  "check_output s sp enf req = Inr k \<Longrightarrow> ck_reason k = Some r \<Longrightarrow> r \<in> set check_codes"
  using check_output_reason_registered [of s sp enf req k r] check_for_unregistered [of r] by fastforce

lemma checked_trust_total:
  assumes "check_output s sp enf req = Inr k"
  shows "\<exists>b t. trusts_content (ck_reason k) = Inr b \<and> fallback_message (ck_reason k) = Inr t"
proof (cases "ck_reason k")
  case None
  then show ?thesis by (auto simp: trusts_content_def fallback_message_def)
next
  case (Some r)
  from checked_reason_registered [OF assms Some] have "r \<in> set check_codes" .
  then show ?thesis using Some trusts_registered [of r] fallback_registered [of r] by auto
qed

lemma retry_output_shape:
  "retry_output s = Inr us \<Longrightarrow> \<exists>t. us = [UMessages (as_retry_artifact (last_message s) @ [retry_feedback_message t])]"
  by (auto simp: retry_output_def split: option.splits sum.splits)

lemma retry_exhausted_shape:
  "retry_exhausted em s = Inr us \<Longrightarrow> us = [] \<or>
   (\<exists>t. us = [UMessages (as_retry_artifact (last_message s) @ [AIMessage t]), UUsedCitations [], UUngrounded 0])"
  by (auto simp: retry_exhausted_def Let_def split: sum.splits if_splits)

lemma no_answer_shape:
  "no_answer_fallback em sp enf req s = Inr us \<Longrightarrow> \<exists>ms used n.
     us = [] \<or> us = [UMessages ms] \<or> us = [UUsedCitations used, UUngrounded n] \<or>
     us = [UUsedCitations used, UUngrounded n, UMessages ms]"
  by (simp add: no_answer_fallback_def Let_def split: option.splits sum.splits if_splits) blast+

lemma retry_nodes_writes:
  assumes "retry_output s = Inr us \<or> retry_exhausted em s = Inr us \<or>
     no_answer_fallback em sp enf req s = Inr us"
  shows "\<not> list_ex writes_ctx us \<and> \<not> list_ex writes_iterations us \<and>
     \<not> list_ex writes_moderation us \<and> \<not> list_ex writes_retry us"
  using assms
proof (elim disjE)
  assume "retry_output s = Inr us"
  from retry_output_shape [OF this] show ?thesis by auto
next
  assume "retry_exhausted em s = Inr us"
  from retry_exhausted_shape [OF this] show ?thesis by auto
next
  assume "no_answer_fallback em sp enf req s = Inr us"
  from no_answer_shape [OF this] show ?thesis by auto
qed

text \<open>
  The node that answers a turn stopped by a safety budget never fails on a thread with a
  message, and never leaves a tool call unanswered: it answers each pending call of the last
  message, in order, before anything else it appends.
\<close>

theorem no_answer_total:
  assumes "messages s \<noteq> []" and "mtype (last (messages s)) = AI"
    and "tool_calls (last (messages s)) = calls" and "calls \<noteq> []"
  shows "\<exists>us ms rest. no_answer_fallback emit sp enf req s = Inr us \<and> UMessages ms \<in> set us \<and>
    ms = reject_tool_calls calls
      ''Not run: this turn reached a safety limit before this call could run.'' @ rest \<and>
    map tool_call_id (take (length calls) ms) = map tc_id calls"
proof -
  have m: "last_message s = Some (last (messages s))" using assms(1) by (simp add: last_message_def)
  show ?thesis
  proof (cases emit)
    case False
    then show ?thesis using m assms by (auto simp: no_answer_fallback_def Let_def)
  next
    case True
    obtain k where k: "check_output s sp enf req = Inr k" using check_output_total [OF assms(1)] by blast
    obtain b t where bt: "trusts_content (ck_reason k) = Inr b" "fallback_message (ck_reason k) = Inr t"
      using checked_trust_total [OF k] by blast
    from True m k bt assms show ?thesis
      by (auto simp: no_answer_fallback_def Let_def)
  qed
qed

theorem no_answer_total_witness:
  "\<exists>us ms rest. no_answer_fallback True ''p'' True []
      (fresh_state\<lparr>messages := [HumanMessage ''q'',
          (AIMessage [])\<lparr>tool_calls := [\<lparr>tc_name = ''search_docs'', tc_args = JNull, tc_id = ''c1''\<rparr>]\<rparr>]\<rparr>) = Inr us \<and>
     UMessages ms \<in> set us \<and>
     ms = reject_tool_calls [\<lparr>tc_name = ''search_docs'', tc_args = JNull, tc_id = ''c1''\<rparr>]
       ''Not run: this turn reached a safety limit before this call could run.'' @ rest \<and>
     map tool_call_id (take (length [\<lparr>tc_name = ''search_docs'', tc_args = JNull, tc_id = ''c1''\<rparr>]) ms) =
       map tc_id [\<lparr>tc_name = ''search_docs'', tc_args = JNull, tc_id = ''c1''\<rparr>]"
  by (rule no_answer_total) simp_all

end
