(* ===== verification/Moderation.thy ===== *)
theory Moderation
  imports Py_Regex
begin

text \<open>
  \<open>src/app/core/moderation.py\<close>: the input screen. A pattern layer and then a classifier score;
  a hit refuses the input, a failure of the classifier lets it through. The classifier is the
  \<open>InjectionScorer\<close> port: its answer is an argument, an error or a score.
\<close>

definition ML_INJECTION_THRESHOLD :: rat where
  "ML_INJECTION_THRESHOLD = 1 / 2"

record moderation_result =
  allowed :: bool
  reason :: "str option"

text \<open>\<open>w1|w2|...\<close> and an optional one of them.\<close>

definition any_of :: "str list \<Rightarrow> rx" where
  "any_of ws = alts (map liti ws)"

definition plural :: "str \<Rightarrow> rx" where
  "plural w = Seq (liti w) (Opt (liti ''s''))"

definition injection_patterns :: "rx list" where
  "injection_patterns =
    [seqs [liti ''ignore '', Opt (any_of [''all '', ''any '']),
           any_of [''previous'', ''prior'', ''above''], liti '' '', plural ''instruction''],
     seqs [liti ''disregard '', Opt (any_of [''all '', ''any '']),
           any_of [''previous'', ''prior'', ''above''], liti '' '',
           alts [plural ''instruction'', plural ''rule'']],
     seqs [liti ''you are now '', any_of [''dan'', ''in developer mode'', ''unrestricted'']],
     seqs [liti ''reveal '', Opt (any_of [''your '', ''the '', ''my '']),
           alts [liti ''system prompt'', plural ''instruction'']],
     seqs [liti ''act as if you '', any_of [''have'', ''had''], liti '' no '',
           alts [plural ''restriction'', plural ''guideline'', plural ''filter'']],
     seqs [liti ''pretend '', any_of [''you are'', ''to be''], liti '' '',
           Star True (none_of newline), Opt (liti ''with ''), liti ''no '',
           alts [plural ''restriction'', plural ''rule'', plural ''filter'']]]"

definition denylist_patterns :: "rx list" where
  "denylist_patterns =
    [seqs [liti ''how to '', any_of [''make'', ''build'', ''synthesize''], liti '' '',
           any_of [''a bomb'', ''explosives'', ''nerve gas'']]]"

definition screen :: "rat result \<Rightarrow> str \<Rightarrow> moderation_result" where
  "screen score t =
     (if list_ex (\<lambda>p. rx_search p t) injection_patterns then
        \<lparr>allowed = False, reason = Some ''possible prompt-injection or jailbreak attempt detected''\<rparr>
      else if list_ex (\<lambda>p. rx_search p t) denylist_patterns then
        \<lparr>allowed = False, reason = Some ''disallowed content''\<rparr>
      else
        (case score of
           Inl _ \<Rightarrow> \<lparr>allowed = True, reason = None\<rparr>
         | Inr m \<Rightarrow>
             if ML_INJECTION_THRESHOLD \<le> m then
               \<lparr>allowed = False,
                reason = Some ''possible prompt-injection or jailbreak attempt detected''\<rparr>
             else \<lparr>allowed = True, reason = None\<rparr>))"

definition pattern_hit :: "str \<Rightarrow> bool" where
  "pattern_hit t = list_ex (\<lambda>p. rx_search p t) (injection_patterns @ denylist_patterns)"

text \<open>
  The screen fails closed on a genuine hit and open only on its own failure: an input is
  allowed exactly when no pattern of either list occurs in it and the classifier failed or
  scored below the threshold; every refusal carries a reason and no allowed result does.
\<close>

theorem screen_decision:
  "(allowed (screen score t) \<longleftrightarrow>
      \<not> pattern_hit t \<and>
      (case score of Inl _ \<Rightarrow> True | Inr m \<Rightarrow> m < ML_INJECTION_THRESHOLD)) \<and>
   (reason (screen score t) = None \<longleftrightarrow> allowed (screen score t))"
  by (auto simp: screen_def pattern_hit_def split: sum.splits)

lemma screen_pattern_hit: "pattern_hit t \<Longrightarrow> \<not> allowed (screen score t)"
  by (auto simp: screen_def pattern_hit_def)

end
