(* ===== verification/Entry_Nodes.thy ===== *)
theory Entry_Nodes
  imports Retry Moderation
begin

text \<open>
  \<open>src/app/agent/graph/core.py\<close>: the nodes a turn enters through (the per-turn resets and the
  stamping of the security context, the screen of the text, the refusals), the routers between
  them, and which failures of a model call are tried again. The run id, the build id, the
  security context of the configuration and the classifier's score are arguments.
\<close>

section \<open>What the agent node retries\<close>

text \<open>The failure predicates of the \<open>LlmFailures\<close> port and LangGraph's own \<open>default_retry_on\<close>.\<close>

record 'e failure_port =
  is_budget_exceeded :: "'e \<Rightarrow> bool"
  is_permanent_client_error :: "'e \<Rightarrow> bool"
  default_retry_on :: "'e \<Rightarrow> bool"

definition retry_agent_on :: "'e failure_port \<Rightarrow> 'e \<Rightarrow> bool" where
  "retry_agent_on p exc =
     (\<not> is_budget_exceeded p exc \<and> \<not> is_permanent_client_error p exc \<and> default_retry_on p exc)"

definition AGENT_MAX_ATTEMPTS :: nat where
  "AGENT_MAX_ATTEMPTS = 3"

text \<open>\<open>env\<close> is the value of \<open>GRAPH_VERSION\<close>; \<open>git\<close> the output of the command, or its failure.\<close>

definition graph_version_of :: "str option \<Rightarrow> str result \<Rightarrow> str" where
  "graph_version_of env git =
     (case env of
        Some (c # cs) \<Rightarrow> c # cs
      | _ \<Rightarrow>
          (case git of
             Inl _ \<Rightarrow> ''unknown''
           | Inr out \<Rightarrow> (if strip out \<noteq> [] then strip out else ''unknown'')))"

section \<open>Validation\<close>

definition validate_input :: "str \<Rightarrow> str \<Rightarrow> security_ctx option \<Rightarrow> state \<Rightarrow> upd list" where
  "validate_input uuid_hex version cfg_ctx s =
     [UIterations 0, UTotalTokens 0, UTotalCost 0, USubagentSpend None, UCancelled False,
      UApproved False, URunId (take 8 uuid_hex), UGraphVersion version,
      USchemaVersion STATE_SCHEMA_VERSION, UCtx cfg_ctx, UCitations [], UContext [], UAnchor None,
      UUsedCitations [], UUngrounded 0, UFindings [], URetryReason None, URepeatCount 0,
      UCacheHit False, UModerationBlocked False, UModelRoute None, UFollowups []] @
     (let healed = heal_legacy_retry_artifacts (messages s)
      in if healed \<noteq> [] then [UMessages healed] else [])"

definition route_after_validation :: "state \<Rightarrow> node" where
  "route_after_validation s =
     (if \<not> valid_ctx (ctx s) then RejectContext
      else if \<not> human_has_content (last_human_message (messages s)) then RejectInput
      else ModerateInput)"

section \<open>Moderation\<close>

definition moderate_input :: "rat result \<Rightarrow> state \<Rightarrow> upd list" where
  "moderate_input score s =
     (case last_human_message (messages s) of
        None \<Rightarrow> [UModerationBlocked False]
      | Some m \<Rightarrow> [UModerationBlocked (\<not> allowed (screen score (human_text (Some m))))])"

text \<open>The two outcomes; the graph maps the second to the stage that follows moderation.\<close>

datatype moderation_route = ToRejectModeration | ToCheckSemanticCache

definition route_after_moderation :: "state \<Rightarrow> moderation_route" where
  "route_after_moderation s =
     (if moderation_blocked s then ToRejectModeration else ToCheckSemanticCache)"

section \<open>Refusals\<close>

definition reject_moderation :: "state \<Rightarrow> upd list" where
  "reject_moderation s = [UMessages [AIMessage CANNOT_HELP_MESSAGE]]"

definition reject_input :: "state \<Rightarrow> upd list" where
  "reject_input s =
     [UMessages [AIMessage (''I didn't receive a question '' @ em_dash @ '' please try again.'')]]"

definition reject_context :: "state \<Rightarrow> upd list" where
  "reject_context s =
     [UMessages [AIMessage (''I couldn't verify who's asking, so I can't help with '' @
        ''this request. Please try again.'')]]"

datatype after_compaction = ToRetrieveContext | ToContextWindowExceeded

definition route_after_compaction :: "state \<Rightarrow> after_compaction" where
  "route_after_compaction s =
     (if MAX_HISTORY_SUMMARY_CHARS < length (history_summary s) then ToContextWindowExceeded
      else ToRetrieveContext)"

definition context_window_exceeded :: "state \<Rightarrow> upd list" where
  "context_window_exceeded s =
     [UMessages [AIMessage (''This conversation has grown too long to continue safely '' @
        ''in this thread, even after compacting earlier turns '' @ em_dash @ '' please '' @
        ''start a new conversation.'')]]"

section \<open>Facts\<close>

lemma validate_input_apply:
  "ctx (apply_upds am (validate_input u v c s) s) = c"
  "iterations (apply_upds am (validate_input u v c s) s) = 0"
  "total_tokens (apply_upds am (validate_input u v c s) s) = 0"
  "total_cost_usd (apply_upds am (validate_input u v c s) s) = 0"
  "subagent_spend (apply_upds am (validate_input u v c s) s) = []"
  "approved (apply_upds am (validate_input u v c s) s) = False"
  "cancelled (apply_upds am (validate_input u v c s) s) = False"
  "cache_hit (apply_upds am (validate_input u v c s) s) = False"
  "last_retry_reason (apply_upds am (validate_input u v c s) s) = None"
  "retry_reason_repeat_count (apply_upds am (validate_input u v c s) s) = 0"
  "model_route (apply_upds am (validate_input u v c s) s) = None"
  "moderation_blocked (apply_upds am (validate_input u v c s) s) = False"
  by (simp_all add: validate_input_def Let_def concat_or_reset_def)

lemma moderate_input_writes:
  "\<not> list_ex writes_ctx (moderate_input sc s)" "\<not> list_ex writes_iterations (moderate_input sc s)"
  "\<not> list_ex writes_messages (moderate_input sc s)" "\<not> list_ex writes_retry (moderate_input sc s)"
  by (simp_all add: moderate_input_def split: option.splits)

lemma moderate_input_blocks:
  "last_human_message (messages s) = Some m \<Longrightarrow> pattern_hit (human_text (Some m)) \<Longrightarrow>
   moderation_blocked (apply_upds am (moderate_input sc s) s)"
  by (simp add: moderate_input_def screen_pattern_hit)

lemmas refusal_defs = reject_moderation_def reject_input_def reject_context_def
  context_window_exceeded_def

lemma refusals_write_messages_only:
  assumes "us \<in> {reject_moderation s, reject_input s, reject_context s, context_window_exceeded s}"
  shows "\<not> list_ex writes_ctx us \<and> \<not> list_ex writes_iterations us \<and> \<not> list_ex writes_moderation us \<and>
    \<not> list_ex writes_retry us"
  using assms by (auto simp: refusal_defs)

text \<open>A budget stop and a rejected request are never sent again.\<close>

lemma retry_agent_on_permanent:
  "is_budget_exceeded p e \<or> is_permanent_client_error p e \<Longrightarrow> \<not> retry_agent_on p e"
  by (auto simp: retry_agent_on_def)

text \<open>
  A turn starts clean: whatever the previous turn of the thread left behind (spent
  iterations, tokens, cost, a delegated run's spend, an approval, a cancellation, citations,
  findings, a routing decision), after validation the counters are zero, the flags are down and
  the only security context is the one of this request's configuration.
\<close>

theorem turn_starts_clean:
  "let s' = apply_upds am (validate_input uuid version c s) s in
     ctx s' = c \<and> iterations s' = 0 \<and> effective_tokens s' = 0 \<and> effective_cost_usd s' = 0 \<and>
     \<not> approved s' \<and> \<not> cancelled s' \<and> \<not> cache_hit s' \<and> \<not> moderation_blocked s' \<and>
     citations s' = [] \<and> used_citations s' = [] \<and> context_text s' = [] \<and>
     context_anchor_index s' = None \<and> output_findings s' = [] \<and> last_retry_reason s' = None \<and>
     retry_reason_repeat_count s' = 0 \<and> model_route s' = None \<and> followups s' = [] \<and>
     state_schema_version s' = Some STATE_SCHEMA_VERSION \<and> history_summary s' = history_summary s \<and>
     require_approval s' = require_approval s \<and>
     (route_after_validation s' = ModerateInput \<longleftrightarrow>
        valid_ctx c \<and> human_has_content (last_human_message (messages s')))"
  by (simp add: validate_input_def Let_def concat_or_reset_def effective_tokens_def
      effective_cost_usd_def route_after_validation_def)

end
