(* ===== verification/Semantic_Cache.thy ===== *)
theory Semantic_Cache
  imports Entry_Nodes
begin

text \<open>
  \<open>src/app/agent/graph/cache.py\<close>: serving a turn from the semantic cache, and writing a finished
  turn's answer through to it. The cache client is an argument: the look-up a function of the
  security context and the question, the write the value a node hands to \<open>cache_set\<close>.
\<close>

section \<open>Look-up\<close>

type_synonym cache_get = "security_ctx option \<Rightarrow> str \<Rightarrow> (str \<times> citation list) option"

definition check_semantic_cache :: "cache_get \<Rightarrow> state \<Rightarrow> upd list" where
  "check_semantic_cache get s =
     (case last_human_message (messages s) of
        None \<Rightarrow> []
      | Some m \<Rightarrow>
          (case get (ctx s) (human_text (Some m)) of
             None \<Rightarrow> []
           | Some (answer, cites) \<Rightarrow> [UMessages [AIMessage answer], UCitations cites, UCacheHit True]))"

datatype after_cache = HitToCheckOutput | MissToCompactHistory

definition route_after_cache :: "state \<Rightarrow> after_cache" where
  "route_after_cache s = (if cache_hit s then HitToCheckOutput else MissToCompactHistory)"

section \<open>Write-through\<close>

definition turn_acted :: "state \<Rightarrow> capabilities \<Rightarrow> bool" where
  "turn_acted s caps =
     list_ex (\<lambda>m. list_ex (\<lambda>tc. tool_capability (tc_name tc) caps \<noteq> ''read_only'') (tool_calls m))
       (current_turn_messages (messages s))"

record cache_entry =
  ce_ctx :: "security_ctx option"
  ce_question :: str
  ce_answer :: content
  ce_citations :: "citation list"

text \<open>What the node passes to \<open>cache_set\<close>, if anything; it returns no update.\<close>

definition write_semantic_cache :: "capabilities \<Rightarrow> state \<Rightarrow> cache_entry option result" where
  "write_semantic_cache caps s =
     (if cache_hit s then Inr None
      else if turn_acted s caps then Inr None
      else
        (let last_human = last_human_message (messages s) in
         case last_message s of
           None \<Rightarrow> Inl IndexError
         | Some m \<Rightarrow>
             (let c = content_or_empty m in
              if last_human = None \<or> c = Text [] then Inr None
              else Inr (Some \<lparr>ce_ctx = ctx s, ce_question = human_text last_human, ce_answer = c,
                              ce_citations = used_citations s\<rparr>))))"

section \<open>Facts\<close>

lemma check_semantic_cache_writes:
  "\<not> list_ex writes_ctx (check_semantic_cache get s)"
  "\<not> list_ex writes_iterations (check_semantic_cache get s)"
  "\<not> list_ex writes_moderation (check_semantic_cache get s)"
  "\<not> list_ex writes_retry (check_semantic_cache get s)"
  by (auto simp: check_semantic_cache_def split: option.splits)

lemma turn_acted_iff:
  "turn_acted s caps \<longleftrightarrow>
   (\<exists>m\<in>set (current_turn_messages (messages s)). \<exists>tc\<in>set (tool_calls m).
      tool_capability (tc_name tc) caps \<noteq> ''read_only'')"
  by (auto simp: turn_acted_def list_ex_iff)

lemma write_semantic_cache_Some:
  "write_semantic_cache caps s = Inr (Some e) \<Longrightarrow>
   \<not> cache_hit s \<and> \<not> turn_acted s caps \<and> ce_ctx e = ctx s \<and> ce_citations e = used_citations s \<and>
   ce_question e = human_text (last_human_message (messages s))"
  by (auto simp: write_semantic_cache_def Let_def split: if_splits option.splits)

lemma turn_acted_append:
  "\<forall>m\<in>set us. \<not> is_user_message m \<Longrightarrow> messages s' = messages s @ us \<Longrightarrow> turn_acted s caps \<Longrightarrow> turn_acted s' caps"
  by (auto simp: turn_acted_iff current_turn_append)

text \<open>
  Only an answer that came from reading is cached, and only for the person it was given to:
  what the node hands to the cache exists exactly when the turn was not itself served from the
  cache, asked something, produced a non-empty last message, and every tool call of the current
  turn went to a tool declared \<open>read_only\<close> (an undeclared tool counts as acting); the entry is
  filed under the turn's own security context and question.
\<close>

theorem cached_iff_only_read:
  "(\<exists>e. write_semantic_cache caps s = Inr (Some e)) \<longleftrightarrow>
     \<not> cache_hit s \<and>
     \<not> (\<exists>m tc. m \<in> set (current_turn_messages (messages s)) \<and> tc \<in> set (tool_calls m) \<and>
          map_of caps (tc_name tc) \<noteq> Some ''read_only'') \<and>
     last_human_message (messages s) \<noteq> None \<and>
     content_or_empty (last (messages s)) \<noteq> Text []"
proof -
  have cap: "tool_capability n caps \<noteq> ''read_only'' \<longleftrightarrow> map_of caps n \<noteq> Some ''read_only''" for n
    by (simp add: tool_capability_def split: option.splits)
  have "turn_acted s caps \<longleftrightarrow> (\<exists>m tc. m \<in> set (current_turn_messages (messages s)) \<and>
      tc \<in> set (tool_calls m) \<and> map_of caps (tc_name tc) \<noteq> Some ''read_only'')"
    by (auto simp: turn_acted_iff cap)
  moreover have "last_human_message (messages s) \<noteq> None \<Longrightarrow> messages s \<noteq> []"
    by (auto simp: last_human_message_def last_such_def)
  ultimately show ?thesis
    by (auto simp: write_semantic_cache_def Let_def last_message_def)
qed

end
