(* ===== verification/Enrichment.thy ===== *)
theory Enrichment
  imports Semantic_Cache
begin

text \<open>
  The enrichment stages, which degrade instead of failing a turn:
  \<open>src/app/agent/graph/retrieval.py\<close> (documents and memories before the model reasons),
  \<open>followups.py\<close> (questions suggested from a grounded answer) and \<open>links.py\<close> (a message with a
  link in a domain that cannot open one). The search and the model are arguments.
\<close>

section \<open>Retrieval\<close>

type_synonym search = "str \<Rightarrow> security_ctx option \<Rightarrow> (str \<times> citation list) result"

text \<open>
  The question is found by identity among the thread's messages: the last message of the person.
\<close>

definition question_anchor :: "message list \<Rightarrow> int" where
  "question_anchor ms =
     (case last_index is_user_message ms of Some i \<Rightarrow> int i | None \<Rightarrow> int (length ms) - 1)"

definition retrieve_context :: "search \<Rightarrow> state \<Rightarrow> upd list" where
  "retrieve_context search s =
     (let ms = messages s; anchor = question_anchor ms in
      case last_human_message ms of
        None \<Rightarrow> [UContext [], UCitations [], UAnchor (Some anchor)]
      | Some m \<Rightarrow>
          (let query = retrieval_query (human_text (Some m)) (previous_human_message ms (nat anchor)) in
           case search query (ctx s) of
             Inr (found, cites) \<Rightarrow> [UContext found, UCitations cites, UAnchor (Some anchor)]
           | Inl _ \<Rightarrow> [UContext [], UCitations [], UAnchor (Some anchor)]))"

section \<open>Text of any content\<close>

text \<open>\<open>str(content)\<close>: the text itself, or Python's rendering of the list of parts.\<close>

fun repr_part :: "content_part \<Rightarrow> str" where
  "repr_part (TextPart t) = ''{'' @ repr_str ''type'' @ '': '' @ repr_str ''text'' @ '', '' @
     repr_str ''text'' @ '': '' @ repr_str t @ ''}''"
| "repr_part (ImagePart u) = ''{'' @ repr_str ''type'' @ '': '' @ repr_str ''image_url'' @ '', '' @
     repr_str ''image_url'' @ '': {'' @ repr_str ''url'' @ '': '' @ repr_str u @ ''}}''"
| "repr_part (StrPart t) = repr_str t"
| "repr_part OtherPart = ''{}''"

definition str_content :: "content \<Rightarrow> str" where
  "str_content c =
     (case c of Text t \<Rightarrow> t | Parts ps \<Rightarrow> ''['' @ join '', '' (map repr_part ps) @ '']'')"

section \<open>Follow-ups\<close>

definition followup_prompt :: "str \<Rightarrow> str" where
  "followup_prompt answer =
     ''Based on the answer below, suggest 2-3 short, natural follow-up '' @
     ''questions a user might ask next. Respond with ONLY the questions, '' @
     ''one per line, no numbering, no extra commentary.'' @ newline @ newline @ ''Answer:'' @ newline @ answer"

text \<open>The bullet characters of \<open>line.strip("-\<bullet>* ")\<close>.\<close>

definition bullet_chars :: str where
  "bullet_chars = [CHR ''-'', CHR 0x95, CHR ''*'', CHR '' '']"

definition followup_lines :: "str \<Rightarrow> str list" where
  "followup_lines t =
     map (\<lambda>line. strip (strip_chars bullet_chars line))
       (filter (\<lambda>line. strip line \<noteq> []) (split_on (CHR 0x0A) t))"

text \<open>The model's reply is its content, or the failure of the call; a list has no \<open>split\<close>.\<close>

definition suggest_followups :: "(str \<Rightarrow> content result) \<Rightarrow> state \<Rightarrow> upd list result" where
  "suggest_followups llm s =
     (if cache_hit s then Inr [UFollowups []]
      else if used_citations s = [] then Inr [UFollowups []]
      else
        (case last_message s of
           None \<Rightarrow> Inl IndexError
         | Some m \<Rightarrow>
             (let c = content_or_empty m in
              if c = Text [] then Inr [UFollowups []]
              else
                (case llm (followup_prompt (str_content c)) of
                   Inl _ \<Rightarrow> Inr [UFollowups []]
                 | Inr (Text t) \<Rightarrow> Inr [UFollowups (take 3 (followup_lines t))]
                 | Inr (Parts _) \<Rightarrow> Inr [UFollowups []]))))"

section \<open>Links\<close>

definition LINK_TOOL_NAMES :: "str list" where
  "LINK_TOOL_NAMES =
     [''fetch_external_reference'', ''check_vendor_status_page'', ''enrich_lead_from_website'']"

definition LINK_REMINDER :: str where
  "LINK_REMINDER =
     ''Reminder: you cannot open links. If the person gave you one, say you cannot open it; '' @
     ''do not describe what is on the page or guess what it is.''"

definition link_rx :: rx where
  "link_rx = seqs
     [WordB, Alt (seqs [liti ''http'', Opt (liti ''s''), liti ''://'']) (liti ''www.''),
      Plus1 nonspace_char]"

definition mentions_link :: "str \<Rightarrow> bool" where
  "mentions_link t = rx_search link_rx t"

definition cannot_open_links :: "str list \<Rightarrow> bool" where
  "cannot_open_links tool_names = (\<not> list_ex (\<lambda>n. n \<in> set LINK_TOOL_NAMES) tool_names)"

section \<open>Facts\<close>

lemma retrieve_context_shape:
  "\<exists>t cs. retrieve_context search s = [UContext t, UCitations cs, UAnchor (Some (question_anchor (messages s)))]"
  by (auto simp: retrieve_context_def Let_def split: option.splits sum.splits)

lemma retrieve_context_writes:
  "\<not> list_ex writes_ctx (retrieve_context search s)"
  "\<not> list_ex writes_iterations (retrieve_context search s)"
  "\<not> list_ex writes_moderation (retrieve_context search s)"
  "\<not> list_ex writes_messages (retrieve_context search s)"
  "\<not> list_ex writes_retry (retrieve_context search s)"
  using retrieve_context_shape [of search s] by auto

lemma suggest_followups_shape:
  "suggest_followups llm s = Inr us \<Longrightarrow> \<exists>fs. us = [UFollowups fs] \<and> length fs \<le> 3"
  by (auto simp: suggest_followups_def Let_def split: if_splits option.splits sum.splits content.splits)

lemma suggest_followups_total: "messages s \<noteq> [] \<Longrightarrow> \<exists>us. suggest_followups llm s = Inr us"
  by (auto simp: suggest_followups_def Let_def last_message_def split: sum.splits content.splits)

lemma question_anchor_bounds:
  "last_human_message ms \<noteq> None \<Longrightarrow>
   0 \<le> question_anchor ms \<and> nat (question_anchor ms) < length ms \<and>
   is_user_message (ms ! nat (question_anchor ms))"
  using last_index_None_iff [of is_user_message ms]
  by (auto simp: question_anchor_def last_human_message_def last_such_None_iff dest: last_index_SomeD
      split: option.splits)

text \<open>
  Retrieval anchors the turn's notes to the person's question and to nothing else: with a
  question in the thread the recorded index is in range, the message there is the person's last
  one (every later message is the graph's), and whatever the search returns or raises the node
  writes a context, the citations of that context and this anchor.
\<close>

theorem retrieval_anchors_question:
  assumes "last_human_message (messages s) = Some m"
  shows "\<exists>i t cs. retrieve_context search s = [UContext t, UCitations cs, UAnchor (Some (int i))] \<and>
    i < length (messages s) \<and> is_user_message (messages s ! i) \<and>
    list_all (\<lambda>x. \<not> is_user_message x) (drop (Suc i) (messages s))"
proof -
  obtain i where i: "last_index is_user_message (messages s) = Some i"
    using assms last_index_None_iff [of is_user_message "messages s"]
    by (cases "last_index is_user_message (messages s)")
      (auto simp: last_human_message_def dest: last_such_SomeD)
  note d = last_index_SomeD [OF i]
  have "\<not> is_user_message x" if "x \<in> set (drop (Suc i) (messages s))" for x
  proof -
    from that obtain k where "k < length (drop (Suc i) (messages s))" "x = drop (Suc i) (messages s) ! k"
      by (metis in_set_conv_nth)
    then have "x = messages s ! (Suc i + k)" "i < Suc i + k" "Suc i + k < length (messages s)" by auto
    with d show ?thesis by blast
  qed
  then have "list_all (\<lambda>x. \<not> is_user_message x) (drop (Suc i) (messages s))"
    by (simp add: list_all_iff)
  moreover obtain t cs where
    "retrieve_context search s = [UContext t, UCitations cs, UAnchor (Some (int i))]"
    using retrieve_context_shape [of search s] i by (auto simp: question_anchor_def)
  ultimately show ?thesis using d by blast
qed

theorem retrieval_anchors_question_witness:
  "\<exists>i t cs. retrieve_context (\<lambda>q c. Inl TimeoutError)
       (fresh_state\<lparr>messages := [HumanMessage ''hello'', SystemMessage ''[1 earlier turn summarized]'']\<rparr>) =
     [UContext t, UCitations cs, UAnchor (Some (int i))] \<and>
    i < length (messages (fresh_state\<lparr>messages := [HumanMessage ''hello'', SystemMessage ''[1 earlier turn summarized]'']\<rparr>)) \<and>
    is_user_message (messages (fresh_state\<lparr>messages :=
       [HumanMessage ''hello'', SystemMessage ''[1 earlier turn summarized]'']\<rparr>) ! i) \<and>
    list_all (\<lambda>x. \<not> is_user_message x) (drop (Suc i)
      (messages (fresh_state\<lparr>messages := [HumanMessage ''hello'', SystemMessage ''[1 earlier turn summarized]'']\<rparr>)))"
  by (rule retrieval_anchors_question [where m = "HumanMessage ''hello''"])
    (simp add: last_human_message_def last_such_def is_user_message_def is_retry_artifact_def)

end
