(* ===== verification/Compaction.thy ===== *)
theory Compaction
  imports Enrichment
begin

text \<open>
  \<open>src/app/agent/graph/compaction.py\<close>: which whole turns leave the kept history, and the node that
  folds them into the running summary. The tokenizer (\<open>tiktoken\<close>) is an argument \<open>tok\<close>, the number
  of tokens of a text; so is the summarising model.
\<close>

section \<open>Estimating\<close>

definition message_text :: "message \<Rightarrow> str" where
  "message_text m = str_content (content_or_empty m)"

definition estimate_tokens :: "(str \<Rightarrow> nat) \<Rightarrow> message list \<Rightarrow> nat" where
  "estimate_tokens tok ms =
     sum_list (map (\<lambda>m. tok (message_text m)) (filter (\<lambda>m. \<not> is_retry_artifact m) ms))"

section \<open>Trimming\<close>

definition non_system :: "message list \<Rightarrow> message list" where
  "non_system ms = filter (\<lambda>m. mtype m \<noteq> System) ms"

definition turn_starts :: "message list \<Rightarrow> nat list" where
  "turn_starts ms = filter (\<lambda>i. is_user_message (ms ! i)) [0..<length ms]"

text \<open>The loop over \<open>turn_starts[1:]\<close>, with the worst case it falls back to.\<close>

fun find_cutoff :: "(str \<Rightarrow> nat) \<Rightarrow> nat \<Rightarrow> message list \<Rightarrow> nat \<Rightarrow> nat list \<Rightarrow> nat" where
  "find_cutoff tok floor_tokens ms worst [] = worst"
| "find_cutoff tok floor_tokens ms worst (idx # rest) =
     (if estimate_tokens tok (non_system (drop idx ms)) \<le> floor_tokens then idx
      else find_cutoff tok floor_tokens ms worst rest)"

definition messages_to_trim :: "(str \<Rightarrow> nat) \<Rightarrow> nat \<Rightarrow> nat \<Rightarrow> message list \<Rightarrow> message list" where
  "messages_to_trim tok ceil_tokens floor_tokens ms =
     (let starts = turn_starts ms in
      if length starts \<le> 1 then []
      else if estimate_tokens tok (non_system ms) \<le> ceil_tokens then []
      else
        (let cutoff = find_cutoff tok floor_tokens ms (last starts) (tl starts)
         in filter (\<lambda>m. mtype m \<noteq> System \<and> msg_id m \<noteq> None) (take cutoff ms)))"

definition trim_history :: "(str \<Rightarrow> nat) \<Rightarrow> nat \<Rightarrow> nat \<Rightarrow> message list \<Rightarrow> message list" where
  "trim_history tok ceil_tokens floor_tokens ms =
     map (\<lambda>m. RemoveMessage (the (msg_id m))) (messages_to_trim tok ceil_tokens floor_tokens ms)"

section \<open>Summarising\<close>

definition role_name :: "msg_type \<Rightarrow> str" where
  "role_name t =
     (case t of Human \<Rightarrow> ''User'' | AI \<Rightarrow> ''Assistant'' | Tool \<Rightarrow> ''Tool'' | System \<Rightarrow> ''system''
        | Remove \<Rightarrow> ''remove'')"

definition summary_line :: "message \<Rightarrow> str list" where
  "summary_line m =
     (if is_retry_artifact m then []
      else
        (let c = (if mtype m = Human then Text (human_text (Some m)) else content_or_empty m)
         in if c = Text [] then [] else [role_name (mtype m) @ '': '' @ str_content c]))"

definition format_turns_for_summary :: "message list \<Rightarrow> str" where
  "format_turns_for_summary ms = join newline (concat (map summary_line ms))"

definition history_summary_prompt :: "str \<Rightarrow> str \<Rightarrow> str" where
  "history_summary_prompt prior_clause turns_text =
     ''Summarize the following earlier conversation turns concisely, in a '' @
     ''few sentences. Preserve any facts, decisions, names, or commitments '' @
     ''that might matter for later turns; drop small talk and anything '' @
     ''already resolved.'' @ newline @ newline @ prior_clause @
     ''Turns to summarize:'' @ newline @ turns_text @ newline @ newline @ ''Summary:''"

definition prior_clause :: "str \<Rightarrow> str" where
  "prior_clause prior =
     (if prior \<noteq> [] then
        ''Existing summary so far (extend it, don't discard it):'' @ newline @ prior @ newline @ newline
      else [])"

definition compaction_marker_message :: "nat \<Rightarrow> bool \<Rightarrow> message" where
  "compaction_marker_message turns_dropped summarized =
     (SystemMessage (''['' @ dec_nat turns_dropped @ '' earlier '' @
        (if turns_dropped = 1 then ''turn'' else ''turns'') @ '' '' @
        (if summarized then ''summarized'' else ''dropped (summarization unavailable)'') @
        '' to keep this conversation within budget.]''))\<lparr>kwargs := [COMPACTION_MARKER_KEY]\<rparr>"

text \<open>The model's reply is its content, or the failure of the call; a list has no \<open>strip\<close>.\<close>

definition compact_history ::
  "(str \<Rightarrow> nat) \<Rightarrow> (str \<Rightarrow> content result) \<Rightarrow> nat \<Rightarrow> nat \<Rightarrow> state \<Rightarrow> upd list" where
  "compact_history tok llm ceil_tokens floor_tokens s =
     (let to_summarize = messages_to_trim tok ceil_tokens floor_tokens (messages s) in
      if to_summarize = [] then []
      else
        (let removals = map (\<lambda>m. RemoveMessage (the (msg_id m))) to_summarize;
             turns_dropped = length (filter is_user_message to_summarize);
             prompt = history_summary_prompt (prior_clause (history_summary s))
               (format_turns_for_summary to_summarize);
             dropped = [UMessages (removals @ [compaction_marker_message turns_dropped False])]
         in case llm prompt of
              Inl _ \<Rightarrow> dropped
            | Inr (Parts (_ # _)) \<Rightarrow> dropped
            | Inr (Parts []) \<Rightarrow> dropped
            | Inr (Text t) \<Rightarrow>
                (if strip t = [] then dropped
                 else [UMessages (removals @ [compaction_marker_message turns_dropped True]),
                       UHistorySummary (strip t)])))"

section \<open>Facts\<close>

lemma turn_starts_mem: "i \<in> set (turn_starts ms) \<longleftrightarrow> i < length ms \<and> is_user_message (ms ! i)"
  by (auto simp: turn_starts_def)

lemma turn_starts_sorted: "sorted_wrt (<) (turn_starts ms)"
  by (simp add: turn_starts_def sorted_wrt_filter)

lemma turn_starts_last:
  "turn_starts ms \<noteq> [] \<Longrightarrow> last_index is_user_message ms = Some (last (turn_starts ms))"
proof -
  assume ne: "turn_starts ms \<noteq> []"
  then have mem: "last (turn_starts ms) < length ms" "is_user_message (ms ! last (turn_starts ms))"
    using turn_starts_mem [of "last (turn_starts ms)" ms] by simp_all
  then obtain i where i: "last_index is_user_message ms = Some i"
    using last_index_None_iff [of is_user_message ms] by (metis not_None_eq nth_mem)
  note d = last_index_SomeD [OF i]
  then have "i \<in> set (turn_starts ms)" by (simp add: turn_starts_mem)
  then have "i \<le> last (turn_starts ms)"
    using turn_starts_sorted [of ms] ne
    by (metis append_butlast_last_id in_set_conv_decomp less_imp_le order_refl set_ConsD
        sorted_wrt_append append_is_Nil_conv list.distinct(1) in_set_butlastD set_append Un_iff
        list.set_intros(1) append_butlast_last_id)
  with d mem have "i = last (turn_starts ms)" by (metis le_neq_implies_less)
  with i show ?thesis by simp
qed

lemma find_cutoff_cases:
  "find_cutoff tok fl ms w is \<in> insert w (set is)"
  by (induction "is") auto

text \<open>Of the starts that fit, the loop takes the first: it keeps as much as the floor allows.\<close>

lemma find_cutoff_first:
  "sorted_wrt (<) is \<Longrightarrow> i \<in> set is \<Longrightarrow> estimate_tokens tok (non_system (drop i ms)) \<le> fl \<Longrightarrow>
   find_cutoff tok fl ms w is \<le> i"
proof (induction "is")
  case (Cons j js)
  then show ?case by (cases "i = j") (auto intro: less_imp_le)
qed simp

lemma find_cutoff_last:
  "find_cutoff tok fl ms w is = w \<or>
   estimate_tokens tok (non_system (drop (find_cutoff tok fl ms w is) ms)) \<le> fl"
  by (induction "is") auto

lemma compact_history_writes:
  "\<not> list_ex writes_ctx (compact_history tok llm c f s)"
  "\<not> list_ex writes_iterations (compact_history tok llm c f s)"
  "\<not> list_ex writes_moderation (compact_history tok llm c f s)"
  "\<not> list_ex writes_retry (compact_history tok llm c f s)"
  by (auto simp: compact_history_def Let_def split: sum.splits content.splits list.splits)

lemma trim_cutoff:
  assumes "messages_to_trim tok c f ms \<noteq> []"
  obtains k where "k \<in> set (tl (turn_starts ms))"
    and "messages_to_trim tok c f ms = filter (\<lambda>m. mtype m \<noteq> System \<and> msg_id m \<noteq> None) (take k ms)"
    and "k = find_cutoff tok f ms (last (turn_starts ms)) (tl (turn_starts ms))"
    and "c < estimate_tokens tok (non_system ms)"
proof -
  let ?k = "find_cutoff tok f ms (last (turn_starts ms)) (tl (turn_starts ms))"
  from assms have len: "1 < length (turn_starts ms)" and over: "c < estimate_tokens tok (non_system ms)"
    and eq: "messages_to_trim tok c f ms = filter (\<lambda>m. mtype m \<noteq> System \<and> msg_id m \<noteq> None) (take ?k ms)"
    by (auto simp: messages_to_trim_def Let_def split: if_splits)
  have "last (turn_starts ms) \<in> set (tl (turn_starts ms))"
    using len by (cases "turn_starts ms"; cases "tl (turn_starts ms)") auto
  then have "?k \<in> set (tl (turn_starts ms))"
    using find_cutoff_cases [of tok f ms "last (turn_starts ms)" "tl (turn_starts ms)"] by auto
  with that eq over show thesis by blast
qed

text \<open>
  C39. Compaction drops whole old turns and never the current one. When it drops anything the
  history really was over the ceiling, and what goes is exactly the removable messages (not a
  system message, and with an id) before some turn start: the current turn is kept whole, the
  kept tail is at or under the floor unless it is the current turn alone, and no earlier start
  (after the first) would have kept a tail that fits.
\<close>

theorem compaction_keeps_current_turn:
  assumes "messages_to_trim tok c f ms \<noteq> []"
  shows "\<exists>k. messages_to_trim tok c f ms =
      filter (\<lambda>m. mtype m \<noteq> System \<and> msg_id m \<noteq> None) (take k ms) \<and>
    k < length ms \<and> is_user_message (ms ! k) \<and> suffix (current_turn_messages ms) (drop k ms) \<and>
    (estimate_tokens tok (non_system (drop k ms)) \<le> f \<or> drop k ms = current_turn_messages ms) \<and>
    (\<forall>i\<in>set (tl (turn_starts ms)). estimate_tokens tok (non_system (drop i ms)) \<le> f \<longrightarrow> k \<le> i) \<and>
    c < estimate_tokens tok (non_system ms)"
proof -
  obtain k where k: "k \<in> set (tl (turn_starts ms))"
    and eq: "messages_to_trim tok c f ms = filter (\<lambda>m. mtype m \<noteq> System \<and> msg_id m \<noteq> None) (take k ms)"
    and cut: "k = find_cutoff tok f ms (last (turn_starts ms)) (tl (turn_starts ms))"
    and over: "c < estimate_tokens tok (non_system ms)"
    using trim_cutoff [OF assms] .
  have start: "k \<in> set (turn_starts ms)" and ne: "turn_starts ms \<noteq> []"
    using k by (cases "turn_starts ms"; simp)+
  have cur: "current_turn_messages ms = drop (last (turn_starts ms)) ms"
    using turn_starts_last [OF ne] by (simp add: current_turn_messages_def)
  have "k \<le> last (turn_starts ms)"
    using last_index_SomeD [OF turn_starts_last [OF ne]] start
    by (metis turn_starts_mem not_le)
  then have "drop (last (turn_starts ms)) ms = drop (last (turn_starts ms) - k) (drop k ms)" by simp
  then have suf: "suffix (current_turn_messages ms) (drop k ms)" unfolding cur by (metis suffix_drop)
  have fits: "estimate_tokens tok (non_system (drop k ms)) \<le> f \<or> drop k ms = current_turn_messages ms"
    using find_cutoff_last [of tok f ms "last (turn_starts ms)" "tl (turn_starts ms)"]
    unfolding cur cut [symmetric] by auto
  have "sorted_wrt (<) (tl (turn_starts ms))"
    using turn_starts_sorted [of ms] by (cases "turn_starts ms") auto
  then have "\<forall>i\<in>set (tl (turn_starts ms)). estimate_tokens tok (non_system (drop i ms)) \<le> f \<longrightarrow> k \<le> i"
    unfolding cut by (auto intro: find_cutoff_first)
  with eq start suf fits over show ?thesis by (auto simp: turn_starts_mem)
qed

theorem compaction_keeps_current_turn_witness:
  "\<exists>k. messages_to_trim length 3 4
      [(HumanMessage ''one'')\<lparr>msg_id := Some ''1''\<rparr>, (HumanMessage ''two'')\<lparr>msg_id := Some ''2''\<rparr>] =
      filter (\<lambda>m. mtype m \<noteq> System \<and> msg_id m \<noteq> None) (take k
        [(HumanMessage ''one'')\<lparr>msg_id := Some ''1''\<rparr>, (HumanMessage ''two'')\<lparr>msg_id := Some ''2''\<rparr>]) \<and>
    k < length [(HumanMessage ''one'')\<lparr>msg_id := Some ''1''\<rparr>, (HumanMessage ''two'')\<lparr>msg_id := Some ''2''\<rparr>] \<and>
    is_user_message ([(HumanMessage ''one'')\<lparr>msg_id := Some ''1''\<rparr>, (HumanMessage ''two'')\<lparr>msg_id := Some ''2''\<rparr>] ! k)"
  using compaction_keeps_current_turn [of length 3 4
      "[(HumanMessage ''one'')\<lparr>msg_id := Some ''1''\<rparr>, (HumanMessage ''two'')\<lparr>msg_id := Some ''2''\<rparr>]"]
  by (fastforce simp: messages_to_trim_def turn_starts_def is_user_message_def is_retry_artifact_def Let_def
      estimate_tokens_def non_system_def message_text_def str_content_def content_or_empty_def upt_rec)

end
