(* ===== verification/Model_Route.thy ===== *)
theory Model_Route
  imports Compaction
begin

text \<open>
  \<open>src/app/agent/graph/model_route.py\<close>: the node that may send a turn to another model tier. The
  operator's settings are a record; the classifier of the \<open>RouteClassifier\<close> port and the price check
  (\<open>pricing.refuse_unpriced\<close>, which reads the gateway's price list) are arguments.
\<close>

section \<open>Settings\<close>

datatype router_mode = Off | Shadow | On

record router_config =
  ROUTER_MODE :: router_mode
  ROUTER_LABELS :: bool
  ROUTER_MAX_TIER :: tier
  ROUTER_LONG_PROMPT_CHARS :: nat
  MEDIUM_CHAT_MODEL :: str
  STRONG_CHAT_MODEL :: str

definition configured_tiers :: "router_config \<Rightarrow> tier list" where
  "configured_tiers cfg =
     [Local] @ (if MEDIUM_CHAT_MODEL cfg \<noteq> [] then [Medium] else []) @
     (if STRONG_CHAT_MODEL cfg \<noteq> [] then [Strong] else [])"

definition tier_alias :: "router_config \<Rightarrow> tier option \<Rightarrow> str option" where
  "tier_alias cfg route =
     (let alias = (case route of
                     Some Medium \<Rightarrow> MEDIUM_CHAT_MODEL cfg
                   | Some Strong \<Rightarrow> STRONG_CHAT_MODEL cfg
                   | _ \<Rightarrow> [])
      in if alias \<noteq> [] then Some alias else None)"

section \<open>The decision\<close>

record labelled =
  lb_outcome :: str
  lb_label :: "str option"

record route_result =
  rr_outcome :: str
  rr_decision :: "decision option"
  rr_labelled :: "labelled option"

text \<open>The loop that steps down while a tier's alias has no price.\<close>

function step_down_priced ::
  "router_config \<Rightarrow> (str \<Rightarrow> bool result) \<Rightarrow> tier list \<Rightarrow> tier \<Rightarrow> tier result" where
  "step_down_priced cfg refuse configured t =
     (if t = Local then Inr t
      else
        (case refuse (case tier_alias cfg (Some t) of None \<Rightarrow> [] | Some a \<Rightarrow> a) of
           Inl e \<Rightarrow> Inl e
         | Inr False \<Rightarrow> Inr t
         | Inr True \<Rightarrow> step_down_priced cfg refuse configured (step_down t configured)))"
  by pat_completeness auto
termination
  by (relation "measure (\<lambda>(_, _, _, t). rank t)") (auto simp: step_down_less rank_less_iff)

declare step_down_priced.simps [simp del]

definition label_outcome :: "labelled \<Rightarrow> str" where
  "label_outcome lb =
     (if lb_outcome lb \<noteq> ''labelled'' then
        (if lb_outcome lb = ''no_answer'' then ''label_none''
         else if lb_outcome lb = ''timeout'' then ''label_timeout'' else ''label_error'')
      else
        (case lb_label lb of
           None \<Rightarrow> ''decided''
         | Some l \<Rightarrow> if l \<notin> set (map fst LABEL_TIERS) then ''label_unknown'' else ''decided''))"

definition decide_route ::
  "router_config \<Rightarrow> (str \<Rightarrow> labelled result) \<Rightarrow> (str \<Rightarrow> bool result) \<Rightarrow> state \<Rightarrow> route_result result" where
  "decide_route cfg classify refuse s =
     (let t = human_text (last_human_message (messages s)) in
      if strip t = [] then Inr \<lparr>rr_outcome = ''no_text'', rr_decision = None, rr_labelled = None\<rparr>
      else
        (case (if ROUTER_LABELS cfg then map_sum id Some (classify t) else Inr None) of
           Inl e \<Rightarrow> Inl e
         | Inr lb \<Rightarrow>
             (let label = (case lb of Some l \<Rightarrow> if lb_outcome l = ''labelled'' then lb_label l else None
                           | None \<Rightarrow> None);
                  configured = configured_tiers cfg;
                  d = decide t label (ROUTER_MAX_TIER cfg) configured (ROUTER_LONG_PROMPT_CHARS cfg);
                  outcome = (case lb of Some l \<Rightarrow> label_outcome l | None \<Rightarrow> ''decided'')
              in case step_down_priced cfg refuse configured (d_tier d) of
                   Inl e \<Rightarrow> Inl e
                 | Inr t' \<Rightarrow>
                     Inr (if t' \<noteq> d_tier d
                          then \<lparr>rr_outcome = ''tier_unpriced'',
                                rr_decision = Some (d\<lparr>d_tier := t', d_limited_by := Some Unpriced\<rparr>),
                                rr_labelled = lb\<rparr>
                          else \<lparr>rr_outcome = outcome, rr_decision = Some d, rr_labelled = lb\<rparr>))))"

definition route_model ::
  "router_config \<Rightarrow> (str \<Rightarrow> labelled result) \<Rightarrow> (str \<Rightarrow> bool result) \<Rightarrow> state \<Rightarrow> upd list" where
  "route_model cfg classify refuse s =
     (if ROUTER_MODE cfg = Off then [UModelRoute (Some Local)]
      else
        (let r = (case decide_route cfg classify refuse s of
                    Inl _ \<Rightarrow> \<lparr>rr_outcome = ''error'', rr_decision = None, rr_labelled = None\<rparr>
                  | Inr r \<Rightarrow> r)
         in case rr_decision r of
              Some d \<Rightarrow> (if ROUTER_MODE cfg = On then [UModelRoute (Some (d_tier d))]
                         else [UModelRoute (Some Local)])
            | None \<Rightarrow> [UModelRoute (Some Local)]))"

section \<open>Facts\<close>

lemma configured_tiers_alias:
  "t \<in> set (configured_tiers cfg) \<Longrightarrow> t \<noteq> Local \<Longrightarrow> tier_alias cfg (Some t) \<noteq> None"
  by (cases t) (auto simp: configured_tiers_def tier_alias_def split: if_splits)

lemma step_down_configured: "step_down t cs = Local \<or> step_down t cs \<in> set cs"
  using highest_configured by (simp add: step_down_def)

lemma step_down_priced_result:
  "step_down_priced cfg refuse cs t = Inr t' \<Longrightarrow> t = Local \<or> t \<in> set cs \<Longrightarrow>
   t' \<le> t \<and> (t' = Local \<or> t' \<in> set cs \<and>
     refuse (case tier_alias cfg (Some t') of None \<Rightarrow> [] | Some a \<Rightarrow> a) = Inr False)"
proof (induction cfg refuse cs t rule: step_down_priced.induct)
  case (1 cfg refuse cs t)
  show ?case
  proof (cases "t = Local \<or> refuse (case tier_alias cfg (Some t) of None \<Rightarrow> [] | Some a \<Rightarrow> a) \<noteq> Inr True")
    case True
    then show ?thesis using "1.prems"
      by (auto simp: step_down_priced.simps [of cfg refuse cs t] split: sum.splits bool.splits if_splits)
  next
    case False
    then have "step_down_priced cfg refuse cs (step_down t cs) = Inr t'"
      using "1.prems" by (simp add: step_down_priced.simps [of cfg refuse cs t])
    from "1.IH" [OF _ _ _ this step_down_configured] False
    have "t' \<le> step_down t cs \<and> (t' = Local \<or> t' \<in> set cs \<and>
        refuse (case tier_alias cfg (Some t') of None \<Rightarrow> [] | Some a \<Rightarrow> a) = Inr False)" by simp
    then show ?thesis using step_down_less [of t cs] False by (meson less_imp_le order_trans)
  qed
qed

lemma route_model_shape: "\<exists>t. route_model cfg classify refuse s = [UModelRoute (Some t)]"
  by (auto simp: route_model_def Let_def split: option.splits)

lemma route_model_writes:
  "\<not> list_ex writes_ctx (route_model cfg classify refuse s)"
  "\<not> list_ex writes_iterations (route_model cfg classify refuse s)"
  "\<not> list_ex writes_moderation (route_model cfg classify refuse s)"
  "\<not> list_ex writes_messages (route_model cfg classify refuse s)"
  "\<not> list_ex writes_retry (route_model cfg classify refuse s)"
  using route_model_shape [of cfg classify refuse s] by auto

lemma decide_tier_bounds:
  "d_tier (decide t l mx cs n) \<le> mx \<and> (d_tier (decide t l mx cs n) = Local \<or> d_tier (decide t l mx cs n) \<in> set cs)"
proof -
  have "d_tier (decide t l mx cs n) = highest_at_or_below (min (d_asked (decide t l mx cs n)) mx) cs"
    by (simp add: decide_def Let_def)
  then show ?thesis using highest_le highest_configured by (metis min.bounded_iff)
qed

lemma decide_route_tier:
  assumes "decide_route cfg classify refuse s = Inr r" and "rr_decision r = Some d"
  shows "d_tier d \<le> ROUTER_MAX_TIER cfg \<and> (d_tier d = Local \<or> d_tier d \<in> set (configured_tiers cfg) \<and>
    refuse (case tier_alias cfg (Some (d_tier d)) of None \<Rightarrow> [] | Some a \<Rightarrow> a) = Inr False)"
proof -
  obtain t l n where
    sd: "step_down_priced cfg refuse (configured_tiers cfg)
      (d_tier (decide t l (ROUTER_MAX_TIER cfg) (configured_tiers cfg) n)) = Inr (d_tier d)"
    using assms by (auto simp: decide_route_def Let_def split: if_splits sum.splits)
  show ?thesis
    using step_down_priced_result [OF sd] decide_tier_bounds by (meson order_trans)
qed

text \<open>
  Routing is advisory and bounded by the operator: whatever the classifier and the price list
  answer or raise, the node writes only the route, and a route other than \<open>Local\<close> is written only
  in mode \<open>On\<close>, is at or below the operator's maximum, has an alias to call, and that alias was
  priced (not refused) when the decision was made. The stepping-down loop always ends.
\<close>

theorem route_within_policy:
  "\<exists>t. route_model cfg classify refuse s = [UModelRoute (Some t)] \<and>
     (t = Local \<or>
      ROUTER_MODE cfg = On \<and> t \<le> ROUTER_MAX_TIER cfg \<and>
      (\<exists>a. tier_alias cfg (Some t) = Some a \<and> refuse a = Inr False))"
proof -
  obtain t where t: "route_model cfg classify refuse s = [UModelRoute (Some t)]"
    using route_model_shape by blast
  moreover have "t = Local \<or> ROUTER_MODE cfg = On \<and> t \<le> ROUTER_MAX_TIER cfg \<and>
      (\<exists>a. tier_alias cfg (Some t) = Some a \<and> refuse a = Inr False)"
  proof (cases "t = Local")
    case False
    then obtain r d where r: "decide_route cfg classify refuse s = Inr r" "rr_decision r = Some d"
      "d_tier d = t" "ROUTER_MODE cfg = On"
      using t by (auto simp: route_model_def Let_def split: if_splits option.splits sum.splits)
    with False decide_route_tier [OF r(1,2)] configured_tiers_alias [of t cfg] show ?thesis by auto
  qed simp
  ultimately show ?thesis by blast
qed

end
