(* ===== verification/Agent_Node.thy ===== *)
theory Agent_Node
  imports Model_Route Untrusted
begin

text \<open>
  \<open>src/app/agent/graph/agent_node.py\<close>: what the model is sent, which alias serves the call, and what
  the turn's counters become. The metered call (\<open>metering.metered_invoke\<close>: model alias and messages
  to a priced reply) and the classification of its failures are arguments.
\<close>

section \<open>Reminders\<close>

definition SUMMARY_REMINDER :: str where
  "SUMMARY_REMINDER =
     ''Reminder: do not restate the earlier-conversation summary above verbatim in your answer.''"

definition CITATION_REMINDER :: str where
  "CITATION_REMINDER =
     ''Reminder: every sentence in your answer that uses a fact from the retrieved content above must end '' @
     ''with that fact's [n] bracket marker. If none of that content helps answer the question, ignore it '' @
     ''and cite nothing.''"

section \<open>Configuration and calls\<close>

record agent_config =
  ag_system_prompt :: str
  ag_model_alias :: str
  ag_citation_reminder :: bool
  ag_skill_required_tools :: "str list"
  ag_cannot_open_links :: bool

text \<open>A priced reply: the message, the usage reported (0 when none was) and the cost.\<close>

record llm_call =
  lc_response :: message
  lc_total_tokens :: int
  lc_cost_usd :: usd

record llm_port =
  invoke :: "str \<Rightarrow> message list \<Rightarrow> llm_call result"
  is_unreachable :: "py_error \<Rightarrow> bool"
  content_block :: "py_error \<Rightarrow> str option"

section \<open>Where the question is\<close>

definition question_index :: "message list \<Rightarrow> int option \<Rightarrow> nat option" where
  "question_index ms anchor =
     (case anchor of
        Some a \<Rightarrow>
          (if 0 \<le> a \<and> a < int (length ms) \<and> is_user_message (ms ! nat a) then Some (nat a)
           else last_index is_user_message ms)
      | None \<Rightarrow> last_index is_user_message ms)"

section \<open>What the model is sent\<close>

definition droppable :: "nat option \<Rightarrow> nat \<Rightarrow> message \<Rightarrow> bool" where
  "droppable turn_start i m =
     (is_legacy_prompt m \<or>
      (case turn_start of None \<Rightarrow> False | Some t \<Rightarrow> i < t \<and> is_retry_artifact m))"

text \<open>The surviving messages with their original positions: identity is position.\<close>

definition surviving :: "message list \<Rightarrow> (nat \<times> message) list" where
  "surviving ms =
     filter (\<lambda>(i, m). \<not> droppable (last_index is_user_message ms) i m) (enumerate 0 ms)"

definition drop_hidden :: "message list \<Rightarrow> int option \<Rightarrow> message list \<times> int option" where
  "drop_hidden ms anchor =
     (if list_ex (\<lambda>(i, m). droppable (last_index is_user_message ms) i m) (enumerate 0 ms) then
        (map snd (surviving ms),
         (case anchor of
            Some a \<Rightarrow>
              (if 0 \<le> a \<and> a < int (length ms)
               then map_option int (first_index (\<lambda>(i, m). i = nat a) (surviving ms))
               else None)
          | None \<Rightarrow> None))
      else (ms, anchor))"

definition notes_before :: "state \<Rightarrow> str list" where
  "notes_before s =
     (if history_summary s \<noteq> []
      then [''Summary of earlier conversation (background only):'' @ newline @ history_summary s] else []) @
     (if context_text s \<noteq> [] then [frame_untrusted (context_text s)] else [])"

definition notes_after :: "agent_config \<Rightarrow> state \<Rightarrow> str list" where
  "notes_after cfg s =
     (if history_summary s \<noteq> [] then [SUMMARY_REMINDER] else []) @
     (if context_text s \<noteq> [] \<and> ag_citation_reminder cfg then [CITATION_REMINDER] else []) @
     (case pending_skill_required_tool (current_turn_messages (messages s)) (ag_skill_required_tools cfg) of
        None \<Rightarrow> []
      | Some t \<Rightarrow>
          [''Reminder: call '' @ t @ '' now, for real, for the '' @
           ''computation the skill you loaded described '' @ em_dash @ '' do not '' @
           ''compute the result yourself.'']) @
     (if ag_cannot_open_links cfg \<and> mentions_link (human_text (last_human_message (messages s)))
      then [LINK_REMINDER] else [])"

definition put_notes :: "message list \<Rightarrow> int option \<Rightarrow> str list \<Rightarrow> str list \<Rightarrow> message list" where
  "put_notes ms anchor before after =
     (if before = [] \<and> after = [] then ms
      else
        (case question_index ms anchor of
           Some i \<Rightarrow>
             (if mtype (ms ! i) = Human then ms[i := with_turn_notes (ms ! i) before after]
              else ms @ [HumanMessage (join blank_line (before @ after))])
         | None \<Rightarrow> ms @ [HumanMessage (join blank_line (before @ after))]))"

definition agent_messages :: "agent_config \<Rightarrow> state \<Rightarrow> message list" where
  "agent_messages cfg s =
     (let (ms, anchor) = drop_hidden (messages s) (context_anchor_index s);
          noted = put_notes ms anchor (notes_before s) (notes_after cfg s)
      in if ag_system_prompt cfg \<noteq> [] then SystemMessage (ag_system_prompt cfg) # noted else noted)"

section \<open>The call\<close>

text \<open>The aliases called, in order, and the outcome of the last of the calls.\<close>

definition invoke_routed ::
  "llm_port \<Rightarrow> str \<Rightarrow> str option \<Rightarrow> message list \<Rightarrow> str list \<times> llm_call result" where
  "invoke_routed port alias routed ms =
     (case routed of
        None \<Rightarrow> ([alias], invoke port alias ms)
      | Some r \<Rightarrow>
          (case invoke port r ms of
             Inr c \<Rightarrow> ([r], Inr c)
           | Inl e \<Rightarrow>
               (if \<not> is_unreachable port e then ([r], Inl e)
                else ([r, alias], invoke port alias ms))))"

definition refusal_message :: message where
  "refusal_message = (AIMessage CANNOT_HELP_MESSAGE)\<lparr>kwargs := [GATEWAY_REFUSAL_KEY]\<rparr>"

definition refusal_update :: "state \<Rightarrow> str \<Rightarrow> upd list" where
  "refusal_update s mode =
     (let asked = (if mode = ''pre_call'' then last_human_message (messages s) else None);
          withheld = (case asked of
                        Some m \<Rightarrow>
                          (if msg_id m \<noteq> None
                           then [(HumanMessage WITHHELD_MESSAGE)\<lparr>msg_id := msg_id m, kwargs := kwargs m\<rparr>]
                           else [])
                      | None \<Rightarrow> [])
      in [UMessages (withheld @ [refusal_message]), UIterations (iterations s + 1)])"

definition agent :: "llm_port \<Rightarrow> router_config \<Rightarrow> agent_config \<Rightarrow> state \<Rightarrow> upd list result" where
  "agent port rcfg cfg s =
     (case snd (invoke_routed port (ag_model_alias cfg) (tier_alias rcfg (model_route s)) (agent_messages cfg s)) of
        Inl e \<Rightarrow>
          (case content_block port e of
             None \<Rightarrow> Inl e
           | Some mode \<Rightarrow> Inr (refusal_update s mode))
      | Inr call \<Rightarrow>
          Inr [UMessages [lc_response call], UIterations (iterations s + 1),
               UTotalTokens (total_tokens s + lc_total_tokens call),
               UTotalCost (total_cost_usd s + lc_cost_usd call)])"

section \<open>Facts\<close>

lemma droppable_not_user: "is_user_message m \<Longrightarrow> \<not> droppable (Some i) i m"
  by (simp add: droppable_def is_legacy_prompt_def is_user_message_def)

lemma agent_iterations:
  "agent port rcfg cfg s = Inr us \<Longrightarrow> iterations (apply_upds am us s) = Suc (iterations s)"
  by (auto simp: agent_def refusal_update_def Let_def split: sum.splits option.splits)

lemma agent_writes:
  "agent port rcfg cfg s = Inr us \<Longrightarrow>
   \<not> list_ex writes_ctx us \<and> \<not> list_ex writes_moderation us \<and> \<not> list_ex writes_retry us"
  by (auto simp: agent_def refusal_update_def Let_def split: sum.splits option.splits)

lemma refusal_message_simps [simp]:
  "mtype refusal_message = AI" "GATEWAY_REFUSAL_KEY \<in> set (kwargs refusal_message)"
  "tool_calls refusal_message = []"
  by (simp_all add: refusal_message_def)

lemma enumerate_split:
  "i < length ms \<Longrightarrow>
   enumerate 0 ms = enumerate 0 (take i ms) @ (i, ms ! i) # enumerate (Suc i) (drop (Suc i) ms)"
proof -
  assume "i < length ms"
  then have "ms = take i ms @ ms ! i # drop (Suc i) ms" by (simp add: id_take_nth_drop)
  then have "enumerate 0 ms = enumerate 0 (take i ms @ ms ! i # drop (Suc i) ms)" by simp
  also have "\<dots> = enumerate 0 (take i ms) @ (i, ms ! i) # enumerate (Suc i) (drop (Suc i) ms)"
    using \<open>i < length ms\<close> by (simp add: enumerate_append_eq min_def)
  finally show ?thesis .
qed

text \<open>The messages before and after the question that the model still sees.\<close>

definition seen_before :: "message list \<Rightarrow> nat \<Rightarrow> message list" where
  "seen_before ms i = filter (\<lambda>m. \<not> is_legacy_prompt m \<and> \<not> is_retry_artifact m) (take i ms)"

definition seen_after :: "message list \<Rightarrow> nat \<Rightarrow> message list" where
  "seen_after ms i = filter (\<lambda>m. \<not> is_legacy_prompt m) (drop (Suc i) ms)"

lemma filter_enumerate_snd:
  "(\<And>j m. (j, m) \<in> set (enumerate n ms) \<Longrightarrow> P j m = Q m) \<Longrightarrow>
   map snd (filter (\<lambda>(j, m). P j m) (enumerate n ms)) = filter Q ms"
  by (induction ms arbitrary: n) auto

lemma surviving_split:
  assumes "last_index is_user_message ms = Some i"
  obtains pre post where "surviving ms = pre @ (i, ms ! i) # post"
    and "map snd pre = seen_before ms i" and "map snd post = seen_after ms i"
    and "\<forall>(j, m)\<in>set pre. j \<noteq> i"
proof -
  let ?P = "\<lambda>(j, m). \<not> droppable (Some i) j m"
  from last_index_SomeD [OF assms] have i: "i < length ms" "is_user_message (ms ! i)" by auto
  let ?pre = "filter ?P (enumerate 0 (take i ms))"
  let ?post = "filter ?P (enumerate (Suc i) (drop (Suc i) ms))"
  have "surviving ms = ?pre @ (i, ms ! i) # ?post"
    using i droppable_not_user [OF i(2), of i] by (simp add: surviving_def assms enumerate_split)
  moreover have "map snd ?pre = seen_before ms i" unfolding seen_before_def
    by (rule filter_enumerate_snd) (use i in \<open>auto simp: droppable_def in_set_enumerate_eq\<close>)
  moreover have "map snd ?post = seen_after ms i" unfolding seen_after_def
    by (rule filter_enumerate_snd) (auto simp: droppable_def in_set_enumerate_eq)
  moreover have "\<forall>(j, m)\<in>set ?pre. j \<noteq> i" by (auto simp: in_set_enumerate_eq)
  ultimately show thesis using that by blast
qed

lemma seen_after_no_user:
  assumes "last_index is_user_message ms = Some i"
  shows "\<forall>m\<in>set (seen_after ms i). \<not> is_user_message m"
proof
  fix m assume "m \<in> set (seen_after ms i)"
  then have "m \<in> set (drop (Suc i) ms)" by (simp add: seen_after_def)
  then obtain k where "k < length (drop (Suc i) ms)" "m = drop (Suc i) ms ! k" by (metis in_set_conv_nth)
  then have "m = ms ! (Suc i + k)" "i < Suc i + k" "Suc i + k < length ms" by auto
  with last_index_SomeD [OF assms] show "\<not> is_user_message m" by blast
qed

lemma question_index_middle:
  assumes "is_user_message q" and "\<forall>m\<in>set post. \<not> is_user_message m"
    and "a = None \<or> a = Some (int (length pre))"
  shows "question_index (pre @ q # post) a = Some (length pre)"
proof -
  have "last_index is_user_message ((pre @ [q]) @ post) = Some (length pre)"
    using assms last_index_append_not [of post is_user_message "pre @ [q]"] by simp
  then show ?thesis using assms by (auto simp: question_index_def)
qed

lemma none_dropped:
  assumes "last_index is_user_message ms = Some i"
    and "\<not> list_ex (\<lambda>(j, m). droppable (Some i) j m) (enumerate 0 ms)"
  shows "seen_before ms i = take i ms \<and> seen_after ms i = drop (Suc i) ms"
proof -
  have i: "i < length ms" using last_index_SomeD [OF assms(1)] by simp
  have nd: "\<not> droppable (Some i) j (ms ! j)" if "j < length ms" for j
    using assms(2) that by (force simp: list_ex_iff in_set_enumerate_eq)
  have "\<not> is_legacy_prompt m \<and> \<not> is_retry_artifact m" if "m \<in> set (take i ms)" for m
    using that nd i by (fastforce simp: in_set_conv_nth droppable_def)
  moreover have "\<not> is_legacy_prompt m" if "m \<in> set (drop (Suc i) ms)" for m
    using that nd i by (fastforce simp: in_set_conv_nth droppable_def)
  ultimately show ?thesis by (simp add: seen_before_def seen_after_def)
qed

lemma drop_hidden_question:
  assumes "last_index is_user_message ms = Some i" and "anchor = None \<or> anchor = Some (int i)"
  shows "fst (drop_hidden ms anchor) = seen_before ms i @ ms ! i # seen_after ms i \<and>
    (snd (drop_hidden ms anchor) = None \<or> snd (drop_hidden ms anchor) = Some (int (length (seen_before ms i))))"
proof -
  have i: "i < length ms" using last_index_SomeD [OF assms(1)] by simp
  show ?thesis
  proof (cases "list_ex (\<lambda>(j, m). droppable (Some i) j m) (enumerate 0 ms)")
    case True
    obtain pre post where sp: "surviving ms = pre @ (i, ms ! i) # post"
      "map snd pre = seen_before ms i" "map snd post = seen_after ms i" "\<forall>(j, m)\<in>set pre. j \<noteq> i"
      using surviving_split [OF assms(1)] .
    have "length pre = length (seen_before ms i)" using sp(2) by (metis length_map)
    moreover have "first_index (\<lambda>(j, m). j = i) (surviving ms) = Some (length pre)"
      unfolding sp(1) using sp(4) by (intro first_index_append) auto
    ultimately show ?thesis using True assms i sp by (auto simp: drop_hidden_def)
  next
    case False
    then show ?thesis using none_dropped [OF assms(1) False] assms i
      by (auto simp: drop_hidden_def id_take_nth_drop [symmetric])
  qed
qed

text \<open>
  What the model is sent: the domain's system prompt, once, first; then the thread without a
  prompt an older build stored in it and without the rejected answers of earlier turns; this
  turn's own retry artifacts are kept; and the person's question is the only message that
  carries the turn's notes (the summary and the framed context before it, the reminders after
  it), wherever dropping messages has moved it to.
\<close>

theorem agent_prompt_view:
  assumes "last_index is_user_message (messages s) = Some i"
    and "context_anchor_index s = None \<or> context_anchor_index s = Some (int i)"
  shows "agent_messages cfg s =
    (if ag_system_prompt cfg \<noteq> [] then [SystemMessage (ag_system_prompt cfg)] else []) @
    filter (\<lambda>m. \<not> is_legacy_prompt m \<and> \<not> is_retry_artifact m) (take i (messages s)) @
    (if notes_before s = [] \<and> notes_after cfg s = [] then messages s ! i
     else with_turn_notes (messages s ! i) (notes_before s) (notes_after cfg s)) #
    filter (\<lambda>m. \<not> is_legacy_prompt m) (drop (Suc i) (messages s))"
proof -
  obtain ms a where d: "drop_hidden (messages s) (context_anchor_index s) = (ms, a)" by fastforce
  let ?pre = "seen_before (messages s) i" and ?q = "messages s ! i" and ?post = "seen_after (messages s) i"
  have q: "is_user_message ?q" using last_index_SomeD [OF assms(1)] by simp
  have ms: "ms = ?pre @ ?q # ?post" and a: "a = None \<or> a = Some (int (length ?pre))"
    using drop_hidden_question [OF assms] d by auto
  have "question_index ms a = Some (length ?pre)"
    unfolding ms by (rule question_index_middle [OF q seen_after_no_user [OF assms(1)] a])
  moreover have "mtype ?q = Human" using q by (simp add: is_user_message_def)
  ultimately show ?thesis
    by (simp add: agent_messages_def d put_notes_def ms seen_before_def seen_after_def)
qed

theorem agent_prompt_view_witness:
  "agent_messages \<lparr>ag_system_prompt = ''Be brief.'', ag_model_alias = ''m'', ag_citation_reminder = True,
       ag_skill_required_tools = [], ag_cannot_open_links = False\<rparr>
     (fresh_state\<lparr>messages := [SystemMessage ''old prompt'', tag_retry_artifact (AIMessage ''bad''),
        HumanMessage ''hi''], history_summary := ''s'', context_anchor_index := Some 2\<rparr>) =
   [SystemMessage ''Be brief.'',
    with_turn_notes (HumanMessage ''hi'')
      [''Summary of earlier conversation (background only):'' @ newline @ ''s''] [SUMMARY_REMINDER]]"
  using agent_prompt_view [of "fresh_state\<lparr>messages := [SystemMessage ''old prompt'',
      tag_retry_artifact (AIMessage ''bad''), HumanMessage ''hi''], history_summary := ''s'',
      context_anchor_index := Some 2\<rparr>" 2
      "\<lparr>ag_system_prompt = ''Be brief.'', ag_model_alias = ''m'', ag_citation_reminder = True,
       ag_skill_required_tools = [], ag_cannot_open_links = False\<rparr>"]
  by (simp add: is_user_message_def is_legacy_prompt_def is_compaction_marker_def
      notes_before_def notes_after_def fresh_state_def)

text \<open>
  Accounting and fallback of one agent step. It makes one call, or two when a routed alias was
  never reached, and then the second goes to the default alias; a reply adds exactly its usage and
  cost to the turn's totals, and only a content refusal of the last call is turned into an answer:
  every other failure of that call leaves the node unchanged.
\<close>

theorem agent_step_accounting:
  "let r = invoke_routed port (ag_model_alias cfg) (tier_alias rcfg (model_route s)) (agent_messages cfg s) in
     (fst r = [ag_model_alias cfg] \<or> (\<exists>a. tier_alias rcfg (model_route s) = Some a \<and> fst r = [a]) \<or>
      (\<exists>a e. tier_alias rcfg (model_route s) = Some a \<and> fst r = [a, ag_model_alias cfg] \<and>
         invoke port a (agent_messages cfg s) = Inl e \<and> is_unreachable port e)) \<and>
     snd r = invoke port (last (fst r)) (agent_messages cfg s) \<and>
     (case agent port rcfg cfg s of
        Inl e \<Rightarrow> snd r = Inl e \<and> content_block port e = None
      | Inr us \<Rightarrow>
          let s' = apply_upds am us s in
          iterations s' = Suc (iterations s) \<and>
          (case snd r of
             Inr c \<Rightarrow> total_tokens s' = total_tokens s + lc_total_tokens c \<and>
                      total_cost_usd s' = total_cost_usd s + lc_cost_usd c \<and>
                      messages s' = am (messages s) [lc_response c]
           | Inl e \<Rightarrow> content_block port e \<noteq> None \<and> total_tokens s' = total_tokens s \<and>
                      total_cost_usd s' = total_cost_usd s))"
  by (auto simp: Let_def invoke_routed_def agent_def refusal_update_def split: option.splits sum.splits)

end
