(* ===== verification/Graph_Build.thy ===== *)
theory Graph_Build
  imports Agent_Node
begin

text \<open>
  \<open>src/app/agent/graph/build.py\<close>: the graph, its profiles, what \<open>build_graph\<close> binds for a domain, and
  a run of it. \<open>run_node\<close> is one node on a state, \<open>next_nodes\<close> the edges, \<open>graph_step\<close> one superstep
  of a run: every scheduled node reads the same state, the updates are merged, and the edges say
  what is scheduled next. A run waits at \<open>human_approval\<close> until it is resumed with a decision.
  What LangGraph, the model, the stores and the tools answer in a superstep is a value of \<open>io\<close>.
\<close>

section \<open>Profiles\<close>

record graph_profile =
  include_cache :: bool
  include_followups :: bool
  include_compaction :: bool
  enforce_citations :: bool
  include_router :: bool

definition FULL_PROFILE :: graph_profile where
  "FULL_PROFILE = \<lparr>include_cache = True, include_followups = True, include_compaction = True,
     enforce_citations = True, include_router = True\<rparr>"

definition SUBAGENT_PROFILE :: graph_profile where
  "SUBAGENT_PROFILE = \<lparr>include_cache = False, include_followups = False, include_compaction = False,
     enforce_citations = False, include_router = False\<rparr>"

section \<open>What a graph is built from\<close>

record manifest =
  system_prompt :: str
  allowed_tools :: "str list"

record domain_plugin =
  dom_tools :: "str list"
  dom_tool_capabilities :: capabilities

text \<open>LangGraph's own two functions a run depends on.\<close>

record library =
  add_messages :: reducer
  tools_condition :: "message list \<Rightarrow> bool"

record graph =
  g_profile :: graph_profile
  g_limits :: limits
  g_capabilities :: capabilities
  g_valid_tool_names :: "str list"
  g_skill_required_tools :: "str list"
  g_system_prompt :: str
  g_emit_no_answer :: bool
  g_ceiling :: nat
  g_floor :: nat
  g_agent :: agent_config
  g_router :: router_config
  g_lib :: library

definition or_default :: "'a option \<Rightarrow> 'a \<Rightarrow> 'a" where
  "or_default x d = (case x of None \<Rightarrow> d | Some y \<Rightarrow> y)"

definition build_graph ::
  "library \<Rightarrow> router_config \<Rightarrow> str \<Rightarrow> usd \<Rightarrow> manifest \<Rightarrow> domain_plugin \<Rightarrow> nat option \<Rightarrow> int option \<Rightarrow> usd option \<Rightarrow>
   bool \<Rightarrow> nat option \<Rightarrow> nat option \<Rightarrow> graph_profile \<Rightarrow> graph" where
  "build_graph lib router alias max_cost m d max_it max_tok cost emit ceil_o floor_o p =
     (let domain_tools = (if allowed_tools m \<noteq> [] then filter (\<lambda>t. t \<in> set (allowed_tools m)) (dom_tools d)
                          else dom_tools d);
          skills = filter (\<lambda>t. t \<in> set domain_tools) SKILL_REQUIRED_TOOL_MARKERS
      in \<lparr>g_profile = p,
          g_limits = \<lparr>max_iterations = or_default max_it MAX_ITERATIONS,
                      max_tokens = or_default max_tok MAX_TOKENS_PER_TURN,
                      max_cost_usd = or_default cost max_cost\<rparr>,
          g_capabilities = dom_tool_capabilities d, g_valid_tool_names = domain_tools,
          g_skill_required_tools = skills, g_system_prompt = system_prompt m,
          g_emit_no_answer = emit,
          g_ceiling = or_default ceil_o HISTORY_TOKEN_CEILING,
          g_floor = or_default floor_o HISTORY_TOKEN_FLOOR,
          g_agent = \<lparr>ag_system_prompt = system_prompt m, ag_model_alias = alias,
                     ag_citation_reminder = enforce_citations p, ag_skill_required_tools = skills,
                     ag_cannot_open_links = cannot_open_links domain_tools\<rparr>,
          g_router = router, g_lib = lib\<rparr>)"

definition build_subagent_graph ::
  "library \<Rightarrow> router_config \<Rightarrow> str \<Rightarrow> usd \<Rightarrow> manifest \<Rightarrow> domain_plugin \<Rightarrow> nat option \<Rightarrow> int option \<Rightarrow> usd option \<Rightarrow>
   bool \<Rightarrow> graph" where
  "build_subagent_graph lib router alias max_cost m d max_it max_tok cost emit =
     build_graph lib router alias max_cost m d max_it max_tok cost emit None None SUBAGENT_PROFILE"

section \<open>Nodes\<close>

definition registered :: "graph_profile \<Rightarrow> node list" where
  "registered p =
     [ValidateInput, RejectInput, RejectContext, ModerateInput, RejectModeration, RetrieveContext,
      Agent, Tools, HumanApproval, ToolBatchGuard, CheckOutput, RetryOutput, RetryExhausted, NoAnswer] @
     (if include_cache p then [CheckSemanticCache, WriteSemanticCache] else []) @
     (if include_compaction p then [CompactHistory, ContextWindowExceeded] else []) @
     (if include_followups p then [SuggestFollowups] else []) @
     (if include_router p then [RouteModel] else [])"

text \<open>Everything outside the graph that a superstep reads.\<close>

record io =
  io_uuid :: str
  io_version :: str
  io_ctx :: "security_ctx option"
  io_score :: "rat result"
  io_cache_get :: cache_get
  io_tokens :: "str \<Rightarrow> nat"
  io_plain_llm :: "str \<Rightarrow> content result"
  io_classify :: "str \<Rightarrow> labelled result"
  io_refuse_unpriced :: "str \<Rightarrow> bool result"
  io_search :: search
  io_llm :: llm_port
  io_tool_node :: "state \<Rightarrow> upd list result"
  io_decision :: decision_value

definition run_node :: "graph \<Rightarrow> io \<Rightarrow> node \<Rightarrow> state \<Rightarrow> upd list result" where
  "run_node g i n s =
     (case n of
        ValidateInput \<Rightarrow> Inr (validate_input (io_uuid i) (io_version i) (io_ctx i) s)
      | RejectInput \<Rightarrow> Inr (reject_input s)
      | RejectContext \<Rightarrow> Inr (reject_context s)
      | ModerateInput \<Rightarrow> Inr (moderate_input (io_score i) s)
      | RejectModeration \<Rightarrow> Inr (reject_moderation s)
      | CheckSemanticCache \<Rightarrow> Inr (check_semantic_cache (io_cache_get i) s)
      | CompactHistory \<Rightarrow>
          Inr (compact_history (io_tokens i) (io_plain_llm i) (g_ceiling g) (g_floor g) s)
      | ContextWindowExceeded \<Rightarrow> Inr (context_window_exceeded s)
      | RouteModel \<Rightarrow> Inr (route_model (g_router g) (io_classify i) (io_refuse_unpriced i) s)
      | RetrieveContext \<Rightarrow> Inr (retrieve_context (io_search i) s)
      | Agent \<Rightarrow> agent (io_llm i) (g_router g) (g_agent g) s
      | Tools \<Rightarrow> io_tool_node i s
      | HumanApproval \<Rightarrow> Inr (human_approval (io_decision i) s)
      | ToolBatchGuard \<Rightarrow> Inr (tool_batch_guard s (g_valid_tool_names g))
      | CheckOutput \<Rightarrow>
          map_sum id checked_upds
            (check_output s (g_system_prompt g) (enforce_citations (g_profile g)) (g_skill_required_tools g))
      | RetryOutput \<Rightarrow> retry_output s
      | RetryExhausted \<Rightarrow> retry_exhausted (g_emit_no_answer g) s
      | NoAnswer \<Rightarrow>
          no_answer_fallback (g_emit_no_answer g) (g_system_prompt g)
            (enforce_citations (g_profile g)) (g_skill_required_tools g) s
      | SuggestFollowups \<Rightarrow> suggest_followups (io_plain_llm i) s
      | WriteSemanticCache \<Rightarrow> map_sum id (\<lambda>_. []) (write_semantic_cache (g_capabilities g) s)
      | END \<Rightarrow> Inr [])"

section \<open>Edges\<close>

definition before_retrieval :: "graph_profile \<Rightarrow> node" where
  "before_retrieval p = (if include_router p then RouteModel else RetrieveContext)"

definition after_cache_miss :: "graph_profile \<Rightarrow> node" where
  "after_cache_miss p = (if include_compaction p then CompactHistory else before_retrieval p)"

definition after_moderation :: "graph_profile \<Rightarrow> node" where
  "after_moderation p = (if include_cache p then CheckSemanticCache else after_cache_miss p)"

definition finish_steps :: "graph_profile \<Rightarrow> node list" where
  "finish_steps p =
     (if include_followups p then [SuggestFollowups] else []) @
     (if include_cache p then [WriteSemanticCache] else [])"

definition route_after_check_bound :: "graph_profile \<Rightarrow> state \<Rightarrow> node list" where
  "route_after_check_bound p s =
     (case route_after_check s of
        ToRetryOutput \<Rightarrow> [RetryOutput]
      | ToRetryExhausted \<Rightarrow> [RetryExhausted]
      | ToFinish \<Rightarrow> (if finish_steps p \<noteq> [] then finish_steps p else [END]))"

definition next_nodes :: "graph \<Rightarrow> node \<Rightarrow> state \<Rightarrow> node list" where
  "next_nodes g n s =
     (case n of
        ValidateInput \<Rightarrow> [route_after_validation s]
      | RejectInput \<Rightarrow> [END]
      | RejectContext \<Rightarrow> [END]
      | ModerateInput \<Rightarrow>
          (case route_after_moderation s of
             ToRejectModeration \<Rightarrow> [RejectModeration]
           | ToCheckSemanticCache \<Rightarrow> [after_moderation (g_profile g)])
      | RejectModeration \<Rightarrow> [END]
      | CheckSemanticCache \<Rightarrow>
          (case route_after_cache s of
             HitToCheckOutput \<Rightarrow> [CheckOutput]
           | MissToCompactHistory \<Rightarrow> [after_cache_miss (g_profile g)])
      | CompactHistory \<Rightarrow>
          (case route_after_compaction s of
             ToRetrieveContext \<Rightarrow> [before_retrieval (g_profile g)]
           | ToContextWindowExceeded \<Rightarrow> [ContextWindowExceeded])
      | ContextWindowExceeded \<Rightarrow> [END]
      | RouteModel \<Rightarrow> [RetrieveContext]
      | RetrieveContext \<Rightarrow> [Agent]
      | Agent \<Rightarrow>
          [should_continue (tools_condition (g_lib g)) (g_limits g) (g_capabilities g) (g_valid_tool_names g) s]
      | Tools \<Rightarrow> [Agent]
      | HumanApproval \<Rightarrow> [route_after_approval s]
      | ToolBatchGuard \<Rightarrow> [Agent]
      | CheckOutput \<Rightarrow> route_after_check_bound (g_profile g) s
      | RetryOutput \<Rightarrow> [Agent]
      | RetryExhausted \<Rightarrow> [END]
      | NoAnswer \<Rightarrow> [END]
      | SuggestFollowups \<Rightarrow> [END]
      | WriteSemanticCache \<Rightarrow> [END]
      | END \<Rightarrow> [])"

section \<open>Runs\<close>

datatype config =
    Running "node list" state
  | Paused state
  | Finished state
  | Failed py_error state

text \<open>The nodes' updates in the order the nodes are scheduled; the first failure fails the step.\<close>

fun run_nodes :: "graph \<Rightarrow> io \<Rightarrow> node list \<Rightarrow> state \<Rightarrow> upd list result" where
  "run_nodes g i [] s = Inr []"
| "run_nodes g i (n # ns) s =
     (case run_node g i n s of
        Inl e \<Rightarrow> Inl e
      | Inr us \<Rightarrow> map_sum id (\<lambda>vs. us @ vs) (run_nodes g i ns s))"

definition superstep :: "graph \<Rightarrow> io \<Rightarrow> node list \<Rightarrow> state \<Rightarrow> config" where
  "superstep g i ns s =
     (case run_nodes g i ns s of
        Inl e \<Rightarrow> Failed e s
      | Inr us \<Rightarrow>
          (let s' = apply_upds (add_messages (g_lib g)) us s;
               ns' = filter (\<lambda>n. n \<noteq> END) (remdups (concat (map (\<lambda>n. next_nodes g n s') ns)))
           in if ns' = [] then Finished s' else Running ns' s'))"

fun graph_step :: "graph \<Rightarrow> io \<Rightarrow> config \<Rightarrow> config" where
  "graph_step g i (Running ns s) = (if HumanApproval \<in> set ns then Paused s else superstep g i ns s)"
| "graph_step g i (Paused s) = superstep g i [HumanApproval] s"
| "graph_step g i (Finished s) = Finished s"
| "graph_step g i (Failed e s) = Failed e s"

text \<open>The invocation of the graph on the state of a thread.\<close>

definition start :: "state \<Rightarrow> config" where
  "start s = Running [ValidateInput] s"

text \<open>
  The documented contract of the tool node, and of the one tool that returns more than text
  (\<open>run_subagent\<close>): it writes tool messages and entries of \<open>subagent_spend\<close>, nothing else.
\<close>

fun tool_upd :: "upd \<Rightarrow> bool" where
  "tool_upd (UMessages ms) = list_all (\<lambda>m. mtype m = Tool) ms"
| "tool_upd (USubagentSpend (Some _)) = True"
| "tool_upd _ = False"

definition tool_node_ok :: "io \<Rightarrow> bool" where
  "tool_node_ok i \<longleftrightarrow> (\<forall>s us. io_tool_node i s = Inr us \<longrightarrow> list_all tool_upd us)"

fun terminal :: "config \<Rightarrow> bool" where
  "terminal (Finished _) = True"
| "terminal (Failed _ _) = True"
| "terminal _ = False"

inductive step :: "graph \<Rightarrow> config \<Rightarrow> config \<Rightarrow> bool" for g where
  step: "\<not> terminal c \<Longrightarrow> tool_node_ok i \<Longrightarrow> step g c (graph_step g i c)"

inductive_simps step_iff: "step g c c'"

fun config_state :: "config \<Rightarrow> state" where
  "config_state (Running _ s) = s"
| "config_state (Paused s) = s"
| "config_state (Finished s) = s"
| "config_state (Failed _ s) = s"

fun scheduled :: "config \<Rightarrow> node list" where
  "scheduled (Running ns _) = ns"
| "scheduled (Paused _) = [HumanApproval]"
| "scheduled _ = []"

end
