(* ===== verification/Graph_Runs.thy ===== *)
theory Graph_Runs
  imports Graph_Build Transition_Systems
begin

text \<open>
  What holds along every run of the graph of \<open>Graph_Build\<close>: the conditions under which each node is
  scheduled, the security context, the order of the gates, the bound on a turn.
\<close>

section \<open>Frames of the nodes\<close>

lemma tool_upds_frame:
  "list_all tool_upd us \<Longrightarrow> \<not> list_ex writes_ctx us \<and> \<not> list_ex writes_iterations us \<and>
   \<not> list_ex writes_moderation us \<and> \<not> list_ex writes_retry us"
proof (induction us)
  case (Cons u us)
  then show ?case by (cases u rule: tool_upd.cases) auto
qed simp

lemmas node_frames = batch_guard_writes human_approval_writes moderate_input_writes
  check_semantic_cache_writes retrieve_context_writes compact_history_writes route_model_writes
  checked_upds_writes

lemma suggest_followups_frame:
  "suggest_followups llm s = Inr us \<Longrightarrow> \<not> list_ex writes_ctx us \<and> \<not> list_ex writes_iterations us \<and>
   \<not> list_ex writes_moderation us \<and> \<not> list_ex writes_retry us"
  using suggest_followups_shape by fastforce

lemma retry_nodes_frame:
  "retry_output s = Inr us \<Longrightarrow> \<not> list_ex writes_ctx us \<and> \<not> list_ex writes_iterations us \<and>
     \<not> list_ex writes_moderation us \<and> \<not> list_ex writes_retry us"
  "retry_exhausted em s = Inr us \<Longrightarrow> \<not> list_ex writes_ctx us \<and> \<not> list_ex writes_iterations us \<and>
     \<not> list_ex writes_moderation us \<and> \<not> list_ex writes_retry us"
  "no_answer_fallback em sp enf req s = Inr us \<Longrightarrow> \<not> list_ex writes_ctx us \<and> \<not> list_ex writes_iterations us \<and>
     \<not> list_ex writes_moderation us \<and> \<not> list_ex writes_retry us"
  using retry_nodes_writes by blast+

lemma map_sum_Inr_iff: "map_sum f h x = Inr y \<longleftrightarrow> (\<exists>z. x = Inr z \<and> y = h z)"
  by (cases x) auto

lemma run_node_ctx:
  "run_node g i n s = Inr us \<Longrightarrow> tool_node_ok i \<Longrightarrow> n \<noteq> ValidateInput \<Longrightarrow> \<not> list_ex writes_ctx us"
  by (cases n) (auto simp: run_node_def tool_node_ok_def node_frames refusal_defs map_sum_Inr_iff
      dest: agent_writes suggest_followups_frame retry_nodes_frame tool_upds_frame)

lemma run_node_iterations:
  "run_node g i n s = Inr us \<Longrightarrow> tool_node_ok i \<Longrightarrow> n \<noteq> ValidateInput \<Longrightarrow> n \<noteq> Agent \<Longrightarrow>
   \<not> list_ex writes_iterations us"
  by (cases n) (auto simp: run_node_def tool_node_ok_def node_frames refusal_defs map_sum_Inr_iff
      dest: suggest_followups_frame retry_nodes_frame tool_upds_frame)

lemma run_node_moderation:
  "run_node g i n s = Inr us \<Longrightarrow> tool_node_ok i \<Longrightarrow> n \<noteq> ValidateInput \<Longrightarrow> n \<noteq> ModerateInput \<Longrightarrow>
   \<not> list_ex writes_moderation us"
  by (cases n) (auto simp: run_node_def tool_node_ok_def node_frames refusal_defs map_sum_Inr_iff
      dest: agent_writes suggest_followups_frame retry_nodes_frame tool_upds_frame)

lemma run_node_retry:
  "run_node g i n s = Inr us \<Longrightarrow> tool_node_ok i \<Longrightarrow> n \<noteq> ValidateInput \<Longrightarrow> n \<noteq> CheckOutput \<Longrightarrow>
   \<not> list_ex writes_retry us"
  by (cases n) (auto simp: run_node_def tool_node_ok_def node_frames refusal_defs map_sum_Inr_iff
      dest: agent_writes suggest_followups_frame retry_nodes_frame tool_upds_frame)

section \<open>When a node is scheduled\<close>

text \<open>How often a turn may call the model: the entry into the loop is not gated.\<close>

definition agent_budget :: "graph \<Rightarrow> nat" where
  "agent_budget g = max 1 (max_iterations (g_limits g))"

definition past_gate :: "state \<Rightarrow> bool" where
  "past_gate s = (valid_ctx (ctx s) \<and> \<not> moderation_blocked s)"

definition repeat_ok :: "state \<Rightarrow> bool" where
  "repeat_ok s =
     (if last_retry_reason s = None then retry_reason_repeat_count s = 0
      else retry_reason_repeat_count s = 1)"

definition in_loop :: "graph \<Rightarrow> state \<Rightarrow> bool" where
  "in_loop g s = (past_gate s \<and> iterations s < agent_budget g \<and> repeat_ok s)"

definition answered :: "graph \<Rightarrow> state \<Rightarrow> bool" where
  "answered g s = (past_gate s \<and> iterations s \<le> agent_budget g)"

definition runs :: "'a result \<Rightarrow> bool" where
  "runs r = (case r of Inl _ \<Rightarrow> False | Inr _ \<Rightarrow> True)"

definition node_inv :: "graph \<Rightarrow> node \<Rightarrow> state \<Rightarrow> bool" where
  "node_inv g n s =
     (case n of
        RejectInput \<Rightarrow> valid_ctx (ctx s)
      | ModerateInput \<Rightarrow> valid_ctx (ctx s) \<and> iterations s = 0 \<and> repeat_ok s
      | RejectModeration \<Rightarrow> valid_ctx (ctx s)
      | CheckSemanticCache \<Rightarrow> past_gate s \<and> iterations s = 0 \<and> repeat_ok s
      | CompactHistory \<Rightarrow> past_gate s \<and> iterations s = 0 \<and> repeat_ok s
      | RouteModel \<Rightarrow> past_gate s \<and> iterations s = 0 \<and> repeat_ok s
      | RetrieveContext \<Rightarrow> past_gate s \<and> iterations s = 0 \<and> repeat_ok s
      | Agent \<Rightarrow> in_loop g s
      | ToolBatchGuard \<Rightarrow> in_loop g s
      | CheckOutput \<Rightarrow> in_loop g s
      | Tools \<Rightarrow> in_loop g s \<and> batch_problem (pending_calls (messages s)) (messages s) (g_valid_tool_names g) = None
      | HumanApproval \<Rightarrow>
          in_loop g s \<and> batch_problem (pending_calls (messages s)) (messages s) (g_valid_tool_names g) = None
      | RetryOutput \<Rightarrow> in_loop g s \<and> runs (retry_output s)
      | RetryExhausted \<Rightarrow> answered g s \<and> runs (retry_exhausted (g_emit_no_answer g) s)
      | ContextWindowExceeded \<Rightarrow> answered g s
      | NoAnswer \<Rightarrow> answered g s
      | SuggestFollowups \<Rightarrow> answered g s
      | WriteSemanticCache \<Rightarrow> answered g s
      | _ \<Rightarrow> True)"

lemma runs_iff [simp]: "runs r \<longleftrightarrow> (\<exists>x. r = Inr x)"
  by (simp add: runs_def split: sum.splits)

lemma agent_budget_pos [simp]: "0 < agent_budget g" "Suc 0 \<le> agent_budget g"
  by (simp_all add: agent_budget_def)

text \<open>The fields the invariant reads, after a node that is none of the four that write them.\<close>

lemma run_node_kept:
  assumes "run_node g i n s = Inr us" and "tool_node_ok i" and "n \<noteq> ValidateInput"
  shows "ctx (apply_upds am us s) = ctx s"
    and "n \<noteq> Agent \<Longrightarrow> iterations (apply_upds am us s) = iterations s"
    and "n \<noteq> ModerateInput \<Longrightarrow> moderation_blocked (apply_upds am us s) = moderation_blocked s"
    and "n \<noteq> ModerateInput \<Longrightarrow> past_gate (apply_upds am us s) = past_gate s"
    and "n \<noteq> CheckOutput \<Longrightarrow> repeat_ok (apply_upds am us s) = repeat_ok s"
    and "n \<noteq> CheckOutput \<Longrightarrow> n \<noteq> Agent \<Longrightarrow> n \<noteq> ModerateInput \<Longrightarrow>
      in_loop g (apply_upds am us s) = in_loop g s"
    and "n \<noteq> Agent \<Longrightarrow> n \<noteq> ModerateInput \<Longrightarrow> answered g (apply_upds am us s) = answered g s"
  using run_node_ctx [OF assms] run_node_iterations [OF assms] run_node_moderation [OF assms]
    run_node_retry [OF assms]
  by (simp_all add: past_gate_def repeat_ok_def in_loop_def answered_def apply_upds_ctx apply_upds_iterations
      apply_upds_moderation apply_upds_retry)

lemma should_continue_inv:
  assumes "in_loop g s" and "past_gate s' = past_gate s" and "iterations s' = Suc (iterations s)"
    and "repeat_ok s' = repeat_ok s"
  shows "node_inv g (should_continue tc (g_limits g) caps (g_valid_tool_names g) s') s'"
proof -
  let ?n = "should_continue tc (g_limits g) caps (g_valid_tool_names g) s'"
  have ans: "answered g s'" using assms by (simp add: in_loop_def answered_def)
  have loop: "in_loop g s'" if "iterations s' < max_iterations (g_limits g)"
    using assms that by (simp add: in_loop_def agent_budget_def)
  have guard: "?n \<noteq> NoAnswer \<Longrightarrow> iterations s' < max_iterations (g_limits g)"
    using should_continue_exhausted [of "g_limits g" s' tc caps "g_valid_tool_names g"] by (meson not_le)
  consider "?n = NoAnswer" | "?n = CheckOutput" | "?n = ToolBatchGuard" | "?n = HumanApproval" | "?n = Tools"
    using should_continue_range [of tc "g_limits g" caps "g_valid_tool_names g" s'] by auto
  then show ?thesis
  proof cases
    case 4
    then show ?thesis using should_continue_HumanApproval [OF 4] loop by (simp add: node_inv_def)
  next
    case 5
    then show ?thesis using loop guard should_continue_Tools [of tc "g_limits g" caps "g_valid_tool_names g" s']
      by (simp add: node_inv_def)
  qed (use ans loop guard in \<open>simp_all add: node_inv_def\<close>)
qed

lemma retry_output_runs:
  "check_output s sp enf req = Inr k \<Longrightarrow> ck_reason k = Some r \<Longrightarrow>
   \<exists>us. retry_output (apply_upds am (checked_upds k) s) = Inr us"
  using check_output_reason_registered [of s sp enf req k r]
  by (auto simp: retry_output_def checked_upds_apply)

lemma retry_exhausted_runs:
  "check_output s sp enf req = Inr k \<Longrightarrow>
   \<exists>us. retry_exhausted em (apply_upds am (checked_upds k) s) = Inr us"
  using checked_trust_total [of s sp enf req k]
  by (auto simp: retry_exhausted_def checked_upds_apply Let_def)

lemma check_output_inv:
  assumes "in_loop g s" and k: "check_output s sp enf req = Inr k"
    and s': "s' = apply_upds am (checked_upds k) s"
    and n': "n' \<in> set (route_after_check_bound (g_profile g) s')"
  shows "node_inv g n' s'"
proof -
  have gate: "past_gate s'" "iterations s' = iterations s" "last_retry_reason s' = ck_reason k"
      "retry_reason_repeat_count s' = ck_repeat k"
    using assms(1) by (simp_all add: s' in_loop_def past_gate_def checked_upds_apply apply_upds_ctx
        apply_upds_iterations apply_upds_moderation checked_upds_writes)
  have ans: "answered g s'" using gate assms(1) by (simp add: answered_def in_loop_def)
  show ?thesis
  proof (cases "route_after_check s'")
    case ToRetryOutput
    then obtain r where r: "ck_reason k = Some r" "ck_repeat k < MAX_CONSECUTIVE_SAME_RETRY_REASON"
      using gate by (auto simp: route_after_check_def split: option.splits if_splits)
    then have "repeat_ok s'" using check_output_repeat [OF k] gate
      by (auto simp: repeat_ok_def budget_defs split: if_splits)
    then have "in_loop g s'" using gate assms(1) by (simp add: in_loop_def)
    moreover have "runs (retry_output s')" using retry_output_runs [OF k r(1)] by (simp add: s')
    ultimately show ?thesis using n' ToRetryOutput by (simp add: route_after_check_bound_def node_inv_def)
  next
    case ToRetryExhausted
    then show ?thesis using n' ans retry_exhausted_runs [OF k]
      by (simp add: route_after_check_bound_def node_inv_def s')
  next
    case ToFinish
    then show ?thesis using n' ans
      by (auto simp: route_after_check_bound_def node_inv_def finish_steps_def split: if_splits)
  qed
qed

lemma pre_agent_inv:
  "past_gate s \<Longrightarrow> iterations s = 0 \<Longrightarrow> repeat_ok s \<Longrightarrow>
   node_inv g (before_retrieval p) s \<and> node_inv g (after_cache_miss p) s \<and> node_inv g (after_moderation p) s"
  by (simp add: node_inv_def before_retrieval_def after_cache_miss_def after_moderation_def)

lemma in_loop_start: "past_gate s \<Longrightarrow> iterations s = 0 \<Longrightarrow> repeat_ok s \<Longrightarrow> in_loop g s"
  by (simp add: in_loop_def)

lemma human_approval_to_tools:
  "route_after_approval (apply_upds am (human_approval d s) s) = Tools \<Longrightarrow>
   truthy d \<and> d \<noteq> DStr CANCEL_SENTINEL \<and> messages (apply_upds am (human_approval d s) s) = messages s"
  by (auto simp: route_after_approval_def human_approval_def Let_def split: if_splits)

lemma node_inv_next:
  assumes inv: "node_inv g n s" and run: "run_node g i n s = Inr us" and ok: "tool_node_ok i"
    and s': "s' = apply_upds am us s" and n': "n' \<in> set (next_nodes g n s')"
  shows "node_inv g n' s'"
proof (cases "n = ValidateInput")
  case True
  with run have us: "us = validate_input (io_uuid i) (io_version i) (io_ctx i) s" by (simp add: run_node_def)
  from n' True show ?thesis
    by (auto simp: next_nodes_def route_after_validation_def node_inv_def repeat_ok_def s' us validate_input_apply)
next
  case False
  note kept = run_node_kept [OF run ok False, of am, folded s']
  show ?thesis
  proof (cases n)
    case ModerateInput
    then show ?thesis using inv n' kept pre_agent_inv [of s' g "g_profile g"]
      by (auto simp: next_nodes_def node_inv_def route_after_moderation_def past_gate_def
          split: if_splits moderation_route.splits)
  next
    case Agent
    have it: "iterations s' = Suc (iterations s)"
      using run Agent agent_iterations by (simp add: run_node_def s')
    from inv Agent have loop: "in_loop g s" by (simp add: node_inv_def)
    show ?thesis using n' Agent should_continue_inv [OF loop _ it] kept by (simp add: next_nodes_def)
  next
    case CheckOutput
    then obtain k where k: "check_output s (g_system_prompt g) (enforce_citations (g_profile g))
        (g_skill_required_tools g) = Inr k" "us = checked_upds k"
      using run by (auto simp: run_node_def map_sum_Inr_iff)
    from inv CheckOutput have loop: "in_loop g s" by (simp add: node_inv_def)
    show ?thesis
      by (rule check_output_inv [OF loop k(1), where am = am])
        (use n' CheckOutput k s' in \<open>simp_all add: next_nodes_def\<close>)
  next
    case HumanApproval
    with run have us: "us = human_approval (io_decision i) s" by (simp add: run_node_def)
    have "n' = Tools \<Longrightarrow> messages s' = messages s"
      using human_approval_to_tools [of am "io_decision i" s] n' HumanApproval
      by (simp add: next_nodes_def s' us)
    then show ?thesis
      using inv n' HumanApproval kept route_after_approval_range [of s'] by (auto simp: next_nodes_def node_inv_def)
  qed (use False inv n' kept pre_agent_inv [of s' g "g_profile g"] in_loop_start [of s' g] in
      \<open>auto simp: next_nodes_def node_inv_def answered_def route_after_cache_def route_after_compaction_def
        split: if_splits\<close>)
qed

section \<open>The invariant and the rank of a run\<close>

lemma next_registered:
  "n \<in> set (registered (g_profile g)) \<Longrightarrow> n' \<in> set (next_nodes g n s) \<Longrightarrow>
   n' = END \<or> n' \<in> set (registered (g_profile g))"
  using should_continue_range [of "tools_condition (g_lib g)" "g_limits g" "g_capabilities g" "g_valid_tool_names g" s]
    route_after_approval_range [of s]
  by (cases n) (auto simp: next_nodes_def registered_def before_retrieval_def after_cache_miss_def
      after_moderation_def finish_steps_def route_after_check_bound_def route_after_validation_def
      split: if_splits moderation_route.splits after_cache.splits after_compaction.splits after_check.splits)

lemma next_nodes_many:
  "length (next_nodes g n s) \<noteq> 1 \<Longrightarrow> set (next_nodes g n s) \<subseteq> {SuggestFollowups, WriteSemanticCache}"
  by (cases n) (auto simp: next_nodes_def route_after_check_bound_def finish_steps_def
      split: if_splits moderation_route.splits after_cache.splits after_compaction.splits after_check.splits)

lemma next_not_validate: "ValidateInput \<notin> set (next_nodes g n s)"
  using should_continue_range [of "tools_condition (g_lib g)" "g_limits g" "g_capabilities g" "g_valid_tool_names g" s]
    route_after_approval_range [of s]
  by (cases n) (auto simp: next_nodes_def before_retrieval_def after_cache_miss_def
      after_moderation_def finish_steps_def route_after_check_bound_def route_after_validation_def
      split: if_splits moderation_route.splits after_cache.splits after_compaction.splits after_check.splits)

fun node_rank :: "node \<Rightarrow> nat" where
  "node_rank ValidateInput = 7"
| "node_rank ModerateInput = 6"
| "node_rank CheckSemanticCache = 5"
| "node_rank CompactHistory = 4"
| "node_rank RouteModel = 3"
| "node_rank RetrieveContext = 2"
| "node_rank HumanApproval = 4"
| "node_rank Tools = 2"
| "node_rank ToolBatchGuard = 2"
| "node_rank CheckOutput = 3"
| "node_rank RetryOutput = 2"
| "node_rank _ = 1"

fun turn_rank :: "graph \<Rightarrow> config \<Rightarrow> nat" where
  "turn_rank g (Running ns s) =
     (if ns = [ValidateInput] then 4 * agent_budget g + 7
      else 4 * (agent_budget g - iterations s) + node_rank (hd ns))"
| "turn_rank g (Paused s) = 4 * (agent_budget g - iterations s) + 3"
| "turn_rank g _ = 0"

definition nodes_ok :: "graph \<Rightarrow> node list \<Rightarrow> state \<Rightarrow> bool" where
  "nodes_ok g ns s \<longleftrightarrow>
     ns \<noteq> [] \<and> (\<forall>n\<in>set ns. node_inv g n s \<and> n \<in> set (registered (g_profile g)) \<and> n \<noteq> END) \<and>
     (length ns = 1 \<or> set ns \<subseteq> {SuggestFollowups, WriteSemanticCache})"

fun turn_inv :: "graph \<Rightarrow> config \<Rightarrow> bool" where
  "turn_inv g (Running ns s) = nodes_ok g ns s"
| "turn_inv g (Paused s) = node_inv g HumanApproval s"
| "turn_inv g _ = True"

lemma turn_inv_start [simp]: "turn_inv g (start s)"
  by (simp add: start_def nodes_ok_def node_inv_def registered_def)

lemma superstep_one:
  "superstep g i [n] s =
     (case run_node g i n s of
        Inl e \<Rightarrow> Failed e s
      | Inr us \<Rightarrow>
          (let s' = apply_upds (add_messages (g_lib g)) us s;
               ns' = filter (\<lambda>n. n \<noteq> END) (remdups (next_nodes g n s'))
           in if ns' = [] then Finished s' else Running ns' s'))"
  by (simp add: superstep_def split: sum.splits)

text \<open>The two parallel steps that end a turn lead nowhere else.\<close>

lemma superstep_finish:
  "set ns \<subseteq> {SuggestFollowups, WriteSemanticCache} \<Longrightarrow>
   (\<exists>e. superstep g i ns s = Failed e s) \<or> (\<exists>s'. superstep g i ns s = Finished s')"
proof -
  assume ns: "set ns \<subseteq> {SuggestFollowups, WriteSemanticCache}"
  have "filter (\<lambda>n. n \<noteq> END) (remdups (concat (map (\<lambda>n. next_nodes g n s') ns))) = []" for s'
    using ns by (auto simp: filter_empty_conv next_nodes_def)
  then show ?thesis by (auto simp: superstep_def Let_def split: sum.splits)
qed

lemma superstep_cases:
  assumes "superstep g i [n] s = c"
  obtains (failed) e where "c = Failed e s" "run_node g i n s = Inl e"
  | (finished) us where "run_node g i n s = Inr us" "c = Finished (apply_upds (add_messages (g_lib g)) us s)"
  | (runs) us ns' where "run_node g i n s = Inr us"
      "ns' = filter (\<lambda>n. n \<noteq> END) (remdups (next_nodes g n (apply_upds (add_messages (g_lib g)) us s)))"
      "ns' \<noteq> []" "c = Running ns' (apply_upds (add_messages (g_lib g)) us s)"
  using assms unfolding superstep_one Let_def by (fastforce split: sum.splits if_splits)

lemma next_nodes_ok:
  assumes inv: "node_inv g n s" and reg: "n \<in> set (registered (g_profile g))"
    and run: "run_node g i n s = Inr us" and ok: "tool_node_ok i"
    and s': "s' = apply_upds am us s"
    and ns': "ns' = filter (\<lambda>n. n \<noteq> END) (remdups (next_nodes g n s'))" "ns' \<noteq> []"
  shows "nodes_ok g ns' s'"
proof -
  have sub: "set ns' = set (next_nodes g n s') - {END}" by (auto simp: ns'(1))
  have "length ns' = 1 \<or> set ns' \<subseteq> {SuggestFollowups, WriteSemanticCache}"
  proof (cases "length (next_nodes g n s') = 1")
    case True
    then obtain x where "next_nodes g n s' = [x]" by (auto simp: length_Suc_conv)
    then show ?thesis using ns' by (auto split: if_splits)
  next
    case False
    then show ?thesis using next_nodes_many [OF False] sub by auto
  qed
  moreover have "node_inv g x s' \<and> x \<in> set (registered (g_profile g)) \<and> x \<noteq> END" if "x \<in> set ns'" for x
    using that sub node_inv_next [OF inv run ok s'] next_registered [OF reg] by blast
  ultimately show ?thesis using ns'(2) by (simp add: nodes_ok_def)
qed

lemma superstep_inv:
  "node_inv g n s \<Longrightarrow> n \<in> set (registered (g_profile g)) \<Longrightarrow> tool_node_ok i \<Longrightarrow>
   turn_inv g (superstep g i [n] s)"
  by (rule superstep_cases [OF refl, of g i n s]) (simp_all add: next_nodes_ok)

lemma nodes_ok_cases:
  assumes "nodes_ok g ns s"
  obtains (one) n where "ns = [n]" "node_inv g n s" "n \<in> set (registered (g_profile g))" "n \<noteq> END"
  | (finish) "set ns \<subseteq> {SuggestFollowups, WriteSemanticCache}" "ns \<noteq> []" "length ns \<noteq> 1"
proof (cases "length ns = 1")
  case True
  then obtain n where "ns = [n]" by (auto simp: length_Suc_conv)
  then show thesis using assms one by (simp add: nodes_ok_def)
next
  case False
  then show thesis using assms finish by (auto simp: nodes_ok_def)
qed

lemma turn_inv_step:
  assumes "turn_inv g c" and "step g c c'"
  shows "turn_inv g c'"
proof -
  obtain i where i: "tool_node_ok i" "c' = graph_step g i c" using assms(2) by (auto simp: step_iff)
  show ?thesis
  proof (cases c)
    case (Running ns s)
    with assms(1) have "nodes_ok g ns s" by simp
    then show ?thesis
    proof (cases rule: nodes_ok_cases)
      case (one n)
      then show ?thesis using i Running superstep_inv [of g n s i] by (cases "n = HumanApproval") auto
    next
      case finish
      then show ?thesis using i Running superstep_finish [of ns g i s] by auto
    qed
  next
    case (Paused s)
    then show ?thesis using i assms(1) superstep_inv [of g HumanApproval s i] by (simp add: registered_def)
  qed (use i in simp_all)
qed

lemma rank_next:
  assumes inv: "node_inv g n s" and run: "run_node g i n s = Inr us" and ok: "tool_node_ok i"
    and s': "s' = apply_upds am us s" and n': "n' \<in> set (next_nodes g n s')" "n' \<noteq> END"
    and nv: "n \<noteq> ValidateInput"
  shows "4 * (agent_budget g - iterations s') + node_rank n' <
    4 * (agent_budget g - iterations s) + (if n = HumanApproval then 3 else node_rank n)"
proof (cases "n = Agent")
  case True
  have "iterations s' = Suc (iterations s)" using run True agent_iterations by (simp add: run_node_def s')
  moreover have "iterations s < agent_budget g" using inv True by (simp add: node_inv_def in_loop_def)
  moreover have "node_rank n' \<le> 4"
    using n' True should_continue_range [of "tools_condition (g_lib g)" "g_limits g" "g_capabilities g" "g_valid_tool_names g" s']
    by (auto simp: next_nodes_def)
  ultimately show ?thesis using True by simp
next
  case False
  have it: "iterations s' = iterations s" using run_node_kept(2) [OF run ok nv False] by (simp add: s')
  have "node_rank n' < (if n = HumanApproval then 3 else node_rank n)"
    using n' nv False route_after_approval_range [of s']
    by (cases n) (auto simp: next_nodes_def before_retrieval_def after_cache_miss_def
      after_moderation_def finish_steps_def route_after_check_bound_def
      split: if_splits moderation_route.splits after_cache.splits after_compaction.splits after_check.splits)
  with it show ?thesis by simp
qed

lemma rank_next_validate:
  assumes "n' \<in> set (next_nodes g ValidateInput s)"
  shows "node_rank n' < 7"
  using assms by (auto simp: next_nodes_def route_after_validation_def split: if_splits)

lemma superstep_rank:
  assumes inv: "node_inv g n s" and ok: "tool_node_ok i" and "n \<noteq> END"
  shows "turn_rank g (superstep g i [n] s) <
    (if n = ValidateInput then 4 * agent_budget g + 7
     else 4 * (agent_budget g - iterations s) + (if n = HumanApproval then 3 else node_rank n))"
proof (rule superstep_cases [OF refl, of g i n s])
  fix us ns'
  let ?s' = "apply_upds (add_messages (g_lib g)) us s"
  assume run: "run_node g i n s = Inr us"
    and ns': "ns' = filter (\<lambda>n. n \<noteq> END) (remdups (next_nodes g n ?s'))" "ns' \<noteq> []"
    and c: "superstep g i [n] s = Running ns' ?s'"
  have "hd ns' \<in> set ns'" using ns'(2) by simp
  then have hd: "hd ns' \<in> set (next_nodes g n ?s')" "hd ns' \<noteq> END" by (auto simp: ns'(1))
  then have "ns' \<noteq> [ValidateInput]" using next_not_validate [of g n ?s'] by auto
  then have r: "turn_rank g (superstep g i [n] s) = 4 * (agent_budget g - iterations ?s') + node_rank (hd ns')"
    by (simp add: c)
  show ?thesis
  proof (cases "n = ValidateInput")
    case True
    then show ?thesis using r hd rank_next_validate [of "hd ns'" g ?s'] by simp
  next
    case False
    then show ?thesis using r rank_next [OF inv run ok refl hd False] by simp
  qed
qed (cases n; use assms in simp)+

lemma turn_rank_step:
  assumes "turn_inv g c" and "step g c c'"
  shows "turn_rank g c' < turn_rank g c"
proof -
  obtain i where i: "tool_node_ok i" "c' = graph_step g i c" "\<not> terminal c"
    using assms(2) by (auto simp: step_iff)
  show ?thesis
  proof (cases c)
    case (Running ns s)
    with assms(1) have "nodes_ok g ns s" by simp
    then show ?thesis
    proof (cases rule: nodes_ok_cases)
      case (one n)
      then show ?thesis using i Running superstep_rank [of g n s i] by (cases "n = HumanApproval") auto
    next
      case finish
      then have "hd ns \<in> {SuggestFollowups, WriteSemanticCache}" "HumanApproval \<notin> set ns" by (auto dest: hd_in_set)
      then show ?thesis using i Running finish superstep_finish [of ns g i s] by auto
    qed
  next
    case (Paused s)
    then show ?thesis using i assms(1) superstep_rank [of g HumanApproval s i] by simp
  qed (use i in simp_all)
qed

interpretation turn: ranked_system "step g" "turn_inv g" "turn_rank g" for g
  by unfold_locales (auto intro: turn_inv_step turn_rank_step)

lemma tool_node_ok_exists: "\<exists>i. tool_node_ok i"
proof -
  have "tool_node_ok (undefined\<lparr>io_tool_node := \<lambda>_. Inl TimeoutError\<rparr>)" by (simp add: tool_node_ok_def)
  then show ?thesis by blast
qed

lemma no_step_iff_terminal: "(\<nexists>d. step g c d) \<longleftrightarrow> terminal c"
  using tool_node_ok_exists by (auto simp: step_iff)

lemma turn_rank_start: "turn_rank g (start s) = 4 * agent_budget g + 7"
  by (simp add: start_def)

section \<open>Facts along runs\<close>

lemma reach_inv: "(step g)\<^sup>*\<^sup>* (start s) c \<Longrightarrow> turn_inv g c"
  using turn.inv_reach [OF _ turn_inv_start] .

lemma reach_scheduled:
  assumes "(step g)\<^sup>*\<^sup>* (start s) c" and "n \<in> set (scheduled c)"
  shows "node_inv g n (config_state c)" and "n \<in> set (registered (g_profile g))"
  using reach_inv [OF assms(1)] assms(2) by (cases c; auto simp: nodes_ok_def registered_def)+

lemma reach_from_first:
  "(step g)\<^sup>*\<^sup>* (graph_step g i (start s)) c \<Longrightarrow> tool_node_ok i \<Longrightarrow> (step g)\<^sup>*\<^sup>* (start s) c"
  by (rule converse_rtranclp_into_rtranclp [of _ _ "graph_step g i (start s)"]) (auto simp: step_iff start_def)

lemma first_step:
  "graph_step g i (start s) =
     (let s' = apply_upds (add_messages (g_lib g)) (validate_input (io_uuid i) (io_version i) (io_ctx i) s) s
      in Running [route_after_validation s'] s')"
  by (auto simp: start_def superstep_one run_node_def next_nodes_def Let_def route_after_validation_def)

lemma turn_inv_first: "turn_inv g (graph_step g i (start s))"
proof -
  have ok: "tool_node_ok (i\<lparr>io_tool_node := \<lambda>_. Inl TimeoutError\<rparr>)" by (simp add: tool_node_ok_def)
  have "graph_step g i (start s) = graph_step g (i\<lparr>io_tool_node := \<lambda>_. Inl TimeoutError\<rparr>) (start s)"
    by (simp add: first_step)
  moreover have "step g (start s) (graph_step g (i\<lparr>io_tool_node := \<lambda>_. Inl TimeoutError\<rparr>) (start s))"
    using ok by (auto simp: step_iff start_def)
  ultimately show ?thesis using turn_inv_step [OF turn_inv_start] by metis
qed

lemma run_nodes_ctx:
  "run_nodes g i ns s = Inr us \<Longrightarrow> tool_node_ok i \<Longrightarrow> ValidateInput \<notin> set ns \<Longrightarrow> \<not> list_ex writes_ctx us"
  by (induction ns arbitrary: us) (auto simp: map_sum_Inr_iff dest: run_node_ctx split: sum.splits)

lemma superstep_ctx:
  assumes "ValidateInput \<notin> set ns" and "tool_node_ok i"
  shows "ctx (config_state (superstep g i ns s)) = ctx s \<and> ValidateInput \<notin> set (scheduled (superstep g i ns s))"
  using run_nodes_ctx [of g i ns s] assms next_not_validate
  by (auto simp: superstep_def Let_def apply_upds_ctx split: sum.splits)

text \<open>Past validation the security context is fixed and validation is not scheduled again.\<close>

lemma step_ctx:
  assumes "step g c c'" and "ValidateInput \<notin> set (scheduled c)"
  shows "ctx (config_state c') = ctx (config_state c) \<and> ValidateInput \<notin> set (scheduled c')"
proof -
  obtain i where i: "tool_node_ok i" "c' = graph_step g i c" using assms(1) by (auto simp: step_iff)
  show ?thesis
  proof (cases c)
    case (Running ns s)
    then show ?thesis using i assms(2) superstep_ctx [of ns i g s] by auto
  next
    case (Paused s)
    then show ?thesis using i superstep_ctx [of "[HumanApproval]" i g s] by auto
  qed (use i in simp_all)
qed

lemma reach_ctx:
  assumes "(step g)\<^sup>*\<^sup>* (graph_step g i (start s)) c"
  shows "ctx (config_state c) = io_ctx i \<and> ValidateInput \<notin> set (scheduled c)"
  using assms
proof (induction rule: rtranclp_induct)
  case base
  then show ?case
    by (simp add: first_step Let_def validate_input_apply route_after_validation_def)
next
  case (step d d')
  then show ?case using step_ctx [OF step.hyps(2)] by simp
qed

text \<open>Where a run can come from when its tools are scheduled.\<close>

lemma into_tools:
  assumes "turn_inv g c" and "step g c (Running ns s)" and "Tools \<in> set ns"
  shows "(scheduled c = [Agent] \<and> should_continue (tools_condition (g_lib g)) (g_limits g) (g_capabilities g)
      (g_valid_tool_names g) s = Tools) \<or>
    (\<exists>p i. c = Paused p \<and> Running ns s = graph_step g i c \<and> truthy (io_decision i) \<and>
       io_decision i \<noteq> DStr CANCEL_SENTINEL \<and> messages s = messages p)"
proof -
  obtain i where i: "tool_node_ok i" "Running ns s = graph_step g i c" using assms(2) by (auto simp: step_iff)
  have nx: "Tools \<in> set (next_nodes g n s') \<Longrightarrow> n = Agent \<or> n = HumanApproval" for n s'
    by (cases n) (auto simp: next_nodes_def before_retrieval_def after_cache_miss_def
      after_moderation_def finish_steps_def route_after_check_bound_def route_after_validation_def
      split: if_splits moderation_route.splits after_cache.splits after_compaction.splits after_check.splits)
  show ?thesis
  proof (cases c)
    case (Running ms t)
    with assms(1) have "nodes_ok g ms t" by simp
    then show ?thesis
    proof (cases rule: nodes_ok_cases)
      case (one n)
      then have ss: "superstep g i [n] t = Running ns s" and nh: "n \<noteq> HumanApproval"
        using i Running by (auto split: if_splits)
      from ss obtain us where "s = apply_upds (add_messages (g_lib g)) us t"
        "ns = filter (\<lambda>n. n \<noteq> END) (remdups (next_nodes g n s))"
        by (rule superstep_cases) auto
      then have "Tools \<in> set (next_nodes g n s)" using assms(3) by auto
      with nx nh have "n = Agent" "Tools \<in> set (next_nodes g Agent s)" by blast+
      then show ?thesis using one Running by (simp add: next_nodes_def)
    next
      case finish
      then show ?thesis using i Running superstep_finish [of ms g i t] by (auto split: if_splits)
    qed
  next
    case (Paused p)
    then have ss: "superstep g i [HumanApproval] p = Running ns s" using i by simp
    then obtain us where us: "run_node g i HumanApproval p = Inr us"
      "s = apply_upds (add_messages (g_lib g)) us p"
      "ns = filter (\<lambda>n. n \<noteq> END) (remdups (next_nodes g HumanApproval s))"
      by (rule superstep_cases) auto
    then have "route_after_approval s = Tools" using assms(3) by (auto simp: next_nodes_def split: if_splits)
    with us human_approval_to_tools [of "add_messages (g_lib g)" "io_decision i" p] Paused i show ?thesis
      by (auto simp: run_node_def)
  qed (use i in simp_all)
qed

text \<open>Which nodes can raise.\<close>

lemma run_nodes_fail: "run_nodes g i ns s = Inl e \<Longrightarrow> \<exists>n\<in>set ns. run_node g i n s = Inl e"
proof (induction ns)
  case (Cons n ns)
  show ?case
  proof (cases "run_node g i n s")
    case (Inr us)
    with Cons.prems have "run_nodes g i ns s = Inl e" by (cases "run_nodes g i ns s") simp_all
    then show ?thesis using Cons.IH by simp
  qed (use Cons.prems in simp)
qed simp

lemma superstep_fail: "superstep g i ns s = Failed e t \<Longrightarrow> \<exists>n\<in>set ns. run_node g i n s = Inl e"
  by (rule run_nodes_fail) (auto simp: superstep_def Let_def split: sum.splits if_splits)

lemma no_answer_runs: "messages s \<noteq> [] \<Longrightarrow> \<exists>us. no_answer_fallback em sp enf req s = Inr us"
  using check_output_total [of s sp enf req] checked_trust_total [of s sp enf req]
  by (fastforce simp: no_answer_fallback_def last_message_def Let_def split: option.splits)

lemma run_node_fails:
  assumes "node_inv g n s" and "run_node g i n s = Inl e" and "messages s \<noteq> []"
  shows "n = Agent \<or> n = Tools"
proof (cases n)
  case CheckOutput
  obtain k where "check_output s (g_system_prompt g) (enforce_citations (g_profile g))
      (g_skill_required_tools g) = Inr k" using check_output_total [OF assms(3)] by blast
  then show ?thesis using assms CheckOutput by (simp add: run_node_def)
next
  case WriteSemanticCache
  then show ?thesis using assms
    by (auto simp: run_node_def write_semantic_cache_def last_message_def Let_def split: if_splits)
next
  case NoAnswer
  obtain us where "no_answer_fallback (g_emit_no_answer g) (g_system_prompt g)
      (enforce_citations (g_profile g)) (g_skill_required_tools g) s = Inr us"
    using no_answer_runs [OF assms(3)] by blast
  then show ?thesis using assms NoAnswer by (simp add: run_node_def)
next
  case SuggestFollowups
  obtain us where "suggest_followups (io_plain_llm i) s = Inr us"
    using suggest_followups_total [OF assms(3)] by blast
  then show ?thesis using assms SuggestFollowups by (simp add: run_node_def)
qed (use assms in \<open>auto simp: run_node_def node_inv_def\<close>)

end
