(* ===== verification/Tool_Idempotency.thy ===== *)
theory Tool_Idempotency
  imports Prelude
begin

text \<open>
  \<open>src/app/core/tool_idempotency.py\<close> and its store, \<open>src/app/adapters/postgres/tool_idempotency.py\<close>:
  a tool call that acts runs once per call id. The \<open>ToolCallLedger\<close> port is the locale
  \<open>tool_call_ledger\<close>; the Postgres table interprets it. \<open>up\<close> says whether the store answers: a
  connection that fails raises before any row changes. Times are in hours.
\<close>

section \<open>The Postgres table\<close>

record dedup_row =
  row_tenant :: str
  row_thread :: "str option"
  row_tool :: str
  row_result :: "str option"
  row_created :: int

type_synonym dedup_table = "(str \<times> dedup_row) list"

definition pg_claim_or_cached ::
  "bool \<Rightarrow> int \<Rightarrow> str \<Rightarrow> str option \<Rightarrow> str \<Rightarrow> dedup_table \<Rightarrow> str \<Rightarrow> dedup_table \<times> str option result" where
  "pg_claim_or_cached up now tenant_id thread tool t call_id =
     (if \<not> up then (t, Inl (StoreError ''connection''))
      else
        (case map_of t call_id of
           None \<Rightarrow>
             ((call_id, \<lparr>row_tenant = tenant_id, row_thread = thread, row_tool = tool, row_result = None,
                         row_created = now\<rparr>) # t, Inr None)
         | Some row \<Rightarrow> (t, Inr (row_result row))))"

definition pg_store_result :: "bool \<Rightarrow> dedup_table \<Rightarrow> str \<Rightarrow> str \<Rightarrow> dedup_table \<times> unit result" where
  "pg_store_result up t call_id res =
     (if \<not> up then (t, Inl (StoreError ''connection''))
      else (map (\<lambda>(k, row). if k = call_id then (k, row\<lparr>row_result := Some res\<rparr>) else (k, row)) t, Inr ()))"

definition pg_sweep :: "int \<Rightarrow> int \<Rightarrow> dedup_table \<Rightarrow> dedup_table \<times> nat" where
  "pg_sweep now older_than_hours t =
     (let old = (\<lambda>(k, row). row_created row < now - older_than_hours)
      in (filter (\<lambda>e. \<not> old e) t, length (filter old t)))"

section \<open>Running a tool once\<close>

text \<open>
  \<open>fn\<close> is the tool's own call: its outcome. The last component says whether it ran, which is when
  its effect may have happened.
\<close>

definition idempotent ::
  "('l \<Rightarrow> str \<Rightarrow> 'l \<times> str option result) \<Rightarrow> ('l \<Rightarrow> str \<Rightarrow> str \<Rightarrow> 'l \<times> unit result) \<Rightarrow>
   str \<Rightarrow> str \<Rightarrow> str result \<Rightarrow> 'l \<Rightarrow> 'l \<times> str result \<times> bool" where
  "idempotent claim store call_id tool_name fn l =
     (case claim l call_id of
        (l', Inl _) \<Rightarrow> (l', fn, True)
      | (l', Inr (Some cached)) \<Rightarrow> (l', Inr cached, False)
      | (l', Inr None) \<Rightarrow>
          (case fn of
             Inl e \<Rightarrow> (l', Inl (if e = TimeoutError then MutatingToolTimedOut tool_name else e), True)
           | Inr res \<Rightarrow> (fst (store l' call_id res), Inr res, True)))"

section \<open>The interface\<close>

text \<open>
  \<open>entry l i\<close> is what the ledger knows of the call \<open>i\<close>: nothing, a claim, or a claim with a result.
\<close>

locale tool_call_ledger =
  fixes claim :: "'l \<Rightarrow> str \<Rightarrow> 'l \<times> str option result"
    and store :: "'l \<Rightarrow> str \<Rightarrow> str \<Rightarrow> 'l \<times> unit result"
    and entry :: "'l \<Rightarrow> str \<Rightarrow> str option option"
  assumes claim_known: "entry l i = Some r \<Longrightarrow> claim l i = (l, Inr r)"
    and claim_new: "entry l i = None \<Longrightarrow>
      snd (claim l i) = Inr None \<and> entry (fst (claim l i)) = (entry l)(i \<mapsto> None)"
    and store_known: "entry l i \<noteq> None \<Longrightarrow> entry (fst (store l i x)) = (entry l)(i \<mapsto> Some x)"
begin

lemma idempotent_cached:
  "entry l i = Some (Some r) \<Longrightarrow> idempotent claim store i name fn l = (l, Inr r, False)"
  by (simp add: idempotent_def claim_known)

lemma idempotent_open:
  assumes "entry l i = None \<or> entry l i = Some None"
  shows "snd (snd (idempotent claim store i name fn l))"
    and "fn = Inr r \<Longrightarrow> entry (fst (idempotent claim store i name fn l)) = (entry l)(i \<mapsto> Some r)"
    and "fn = Inl e \<Longrightarrow> entry (fst (idempotent claim store i name fn l)) = (entry l)(i \<mapsto> None)"
    and "fn = Inr r \<Longrightarrow> fst (snd (idempotent claim store i name fn l)) = Inr r"
    and "fn = Inl e \<Longrightarrow> e \<noteq> TimeoutError \<Longrightarrow> fst (snd (idempotent claim store i name fn l)) = Inl e"
    and "fn = Inl TimeoutError \<Longrightarrow>
      fst (snd (idempotent claim store i name fn l)) = Inl (MutatingToolTimedOut name)"
proof -
  obtain l' where c: "claim l i = (l', Inr None)" "entry l' = (entry l)(i \<mapsto> None)"
  proof (cases "entry l i")
    case None
    then show ?thesis using that claim_new [OF None] by (cases "claim l i") auto
  next
    case (Some x)
    then show ?thesis using that [of l] claim_known [of l i None] assms by (auto simp: fun_upd_idem)
  qed
  show "snd (snd (idempotent claim store i name fn l))"
    by (simp add: idempotent_def c split: sum.splits)
  show "fn = Inr r \<Longrightarrow> entry (fst (idempotent claim store i name fn l)) = (entry l)(i \<mapsto> Some r)"
    using store_known [of l' i r] by (simp add: idempotent_def c)
  show "fn = Inl e \<Longrightarrow> entry (fst (idempotent claim store i name fn l)) = (entry l)(i \<mapsto> None)"
    by (simp add: idempotent_def c)
  show "fn = Inr r \<Longrightarrow> fst (snd (idempotent claim store i name fn l)) = Inr r"
    "fn = Inl e \<Longrightarrow> e \<noteq> TimeoutError \<Longrightarrow> fst (snd (idempotent claim store i name fn l)) = Inl e"
    "fn = Inl TimeoutError \<Longrightarrow>
      fst (snd (idempotent claim store i name fn l)) = Inl (MutatingToolTimedOut name)"
    by (simp_all add: idempotent_def c)
qed

text \<open>A result, once recorded, is what every later call of any id leaves in place.\<close>

lemma idempotent_keeps:
  assumes "entry l i = Some (Some r)"
  shows "entry (fst (idempotent claim store j name fn l)) i = Some (Some r)"
proof (cases "entry l j = None \<or> entry l j = Some None")
  case True
  then have "j \<noteq> i" using assms by auto
  then show ?thesis using assms idempotent_open(2,3) [OF True] by (cases fn) auto
next
  case False
  then obtain r' where "entry l j = Some (Some r')" by auto
  then show ?thesis using assms by (simp add: idempotent_cached)
qed

end

section \<open>The table is a ledger\<close>

definition pg_entry :: "dedup_table \<Rightarrow> str \<Rightarrow> str option option" where
  "pg_entry t i = map_option row_result (map_of t i)"

lemma map_of_store:
  "map_of (map (\<lambda>(k, row). if k = i then (k, row\<lparr>row_result := Some r\<rparr>) else (k, row)) t) j =
   (if j = i then map_option (\<lambda>row. row\<lparr>row_result := Some r\<rparr>) (map_of t j) else map_of t j)"
  by (induction t) auto

interpretation pg: tool_call_ledger "pg_claim_or_cached True now tenant_id thread tool"
  "pg_store_result True" pg_entry for now tenant_id thread tool
proof unfold_locales
  fix t i r
  show "pg_entry t i = Some r \<Longrightarrow> pg_claim_or_cached True now tenant_id thread tool t i = (t, Inr r)"
    by (auto simp: pg_entry_def pg_claim_or_cached_def)
  show "pg_entry t i = None \<Longrightarrow>
      snd (pg_claim_or_cached True now tenant_id thread tool t i) = Inr None \<and>
      pg_entry (fst (pg_claim_or_cached True now tenant_id thread tool t i)) = (pg_entry t)(i \<mapsto> None)"
    by (auto simp: pg_entry_def pg_claim_or_cached_def)
next
  fix t i and r :: str
  show "pg_entry t i \<noteq> None \<Longrightarrow> pg_entry (fst (pg_store_result True t i r)) = (pg_entry t)(i \<mapsto> Some r)"
    by (auto simp: pg_entry_def pg_store_result_def map_of_store)
qed

section \<open>Histories of calls\<close>

record invocation =
  inv_now :: int
  inv_tenant :: str
  inv_thread :: "str option"
  inv_tool :: str
  inv_id :: str
  inv_outcome :: "str result"

definition pg_idempotent :: "bool \<Rightarrow> invocation \<Rightarrow> dedup_table \<Rightarrow> dedup_table \<times> str result \<times> bool" where
  "pg_idempotent up v t =
     idempotent (pg_claim_or_cached up (inv_now v) (inv_tenant v) (inv_thread v) (inv_tool v))
       (pg_store_result up) (inv_id v) (inv_tool v) (inv_outcome v) t"

text \<open>The results and whether the tool ran, call by call.\<close>

fun run_invocations :: "invocation list \<Rightarrow> dedup_table \<Rightarrow> (str \<times> str result \<times> bool) list" where
  "run_invocations [] t = []"
| "run_invocations (v # vs) t =
     (case pg_idempotent True v t of (t', res, fired) \<Rightarrow> (inv_id v, res, fired) # run_invocations vs t')"

lemma run_invocations_cached:
  "pg_entry t i = Some (Some r) \<Longrightarrow> (i, res, fired) \<in> set (run_invocations vs t) \<Longrightarrow> res = Inr r \<and> \<not> fired"
proof (induction vs arbitrary: t)
  case (Cons v vs)
  obtain t' res' fired' where v: "pg_idempotent True v t = (t', res', fired')" by (cases "pg_idempotent True v t")
  have keep: "pg_entry t' i = Some (Some r)"
    using pg.idempotent_keeps [OF Cons.prems(1), of _ _ _ _ "inv_id v"] v
    by (metis fst_conv pg_idempotent_def)
  have "inv_id v = i \<Longrightarrow> res' = Inr r \<and> \<not> fired'"
    using pg.idempotent_cached [OF Cons.prems(1)] v by (auto simp: pg_idempotent_def)
  then show ?case using Cons.prems(2) Cons.IH [OF keep] v by auto
qed simp

lemma pg_success_recorded:
  "pg_idempotent True v t = (t', Inr r, fired) \<Longrightarrow> pg_entry t' (inv_id v) = Some (Some r)"
proof -
  assume v: "pg_idempotent True v t = (t', Inr r, fired)"
  show ?thesis
  proof (cases "pg_entry t (inv_id v) = None \<or> pg_entry t (inv_id v) = Some None")
    case True
    note open_call = pg.idempotent_open [OF True, where now = "inv_now v" and tenant_id = "inv_tenant v"
        and thread = "inv_thread v" and tool = "inv_tool v" and name = "inv_tool v" and fn = "inv_outcome v",
        folded pg_idempotent_def]
    show ?thesis
    proof (cases "inv_outcome v")
      case (Inl e)
      then show ?thesis using v open_call(5,6) by (cases "e = TimeoutError") auto
    next
      case (Inr x)
      then have "x = r" "pg_entry t' = (pg_entry t)(inv_id v \<mapsto> Some x)" using v open_call(2,4) by auto
      then show ?thesis by simp
    qed
  next
    case False
    then obtain x where "pg_entry t (inv_id v) = Some (Some x)" by auto
    then show ?thesis using v pg.idempotent_cached [of t "inv_id v" x] by (auto simp: pg_idempotent_def)
  qed
qed

lemma map_of_filter_values:
  "distinct (map fst t) \<Longrightarrow> map_of t i = Some row \<Longrightarrow> P (i, row) \<Longrightarrow> map_of (filter P t) i = Some row"
proof (induction t)
  case (Cons e t)
  then show ?case by (cases e) (auto split: if_splits dest: map_of_SomeD)
qed simp

section \<open>Properties\<close>

text \<open>
  C9. At most one success per call id, ever: in any history of calls against a store that
  answers, interleaved with any others, once a call of an id has returned a result every later
  call of that id returns the same result and does not run the tool again.
\<close>

theorem acting_call_runs_once:
  "run_invocations vs t = pre @ (i, Inr r, fired) # post \<Longrightarrow> (i, res, again) \<in> set post \<Longrightarrow>
   res = Inr r \<and> \<not> again"
proof (induction vs arbitrary: t pre)
  case (Cons v vs)
  obtain t' res' fired' where v: "pg_idempotent True v t = (t', res', fired')" by (cases "pg_idempotent True v t")
  show ?case
  proof (cases pre)
    case Nil
    then have eq: "inv_id v = i" "res' = Inr r" "run_invocations vs t' = post" using Cons.prems(1) v by auto
    then have "pg_entry t' i = Some (Some r)" using pg_success_recorded [of v t t' r fired'] v by simp
    then show ?thesis using run_invocations_cached [of t' i r res again vs] Cons.prems(2) eq by simp
  next
    case (Cons x xs)
    then show ?thesis using Cons.IH [of t' xs] Cons.prems v by auto
  qed
qed simp

theorem acting_call_runs_once_witness:
  "\<exists>post res again.
     run_invocations [\<lparr>inv_now = 0, inv_tenant = ''acme'', inv_thread = None, inv_tool = ''mail'', inv_id = ''c'',
         inv_outcome = Inr ''sent''\<rparr>,
       \<lparr>inv_now = 1, inv_tenant = ''acme'', inv_thread = None, inv_tool = ''mail'', inv_id = ''c'',
         inv_outcome = Inr ''sent again''\<rparr>] [] = (''c'', Inr ''sent'', True) # post \<and>
     (''c'', res, again) \<in> set post \<and> res = Inr ''sent'' \<and> \<not> again"
proof (intro exI conjI)
  let ?vs = "[\<lparr>inv_now = 0, inv_tenant = ''acme'', inv_thread = None, inv_tool = ''mail'', inv_id = ''c'',
       inv_outcome = Inr ''sent''\<rparr>,
     \<lparr>inv_now = 1, inv_tenant = ''acme'', inv_thread = None, inv_tool = ''mail'', inv_id = ''c'',
       inv_outcome = Inr ''sent again''\<rparr>]"
  have run: "run_invocations ?vs [] = [] @ (''c'', Inr ''sent'', True) # [(''c'', Inr ''sent'', False)]"
    by (simp add: pg_idempotent_def idempotent_def pg_claim_or_cached_def pg_store_result_def)
  then show "run_invocations ?vs [] = (''c'', Inr ''sent'', True) # [(''c'', Inr ''sent'', False)]" by simp
  show "(''c'', Inr ''sent'', False) \<in> set [(''c'', Inr ''sent'', False)]" by simp
  then show "(Inr ''sent'' :: str result) = Inr ''sent''" "\<not> False"
    using acting_call_runs_once [OF run] by blast+
qed

text \<open>
  A soft timeout of an acting tool is marked as such only when the ledger answered. With the
  store down the call still runs (the layer fails open and leaves the table as it was), but its
  timeout comes back as the plain \<open>TimeoutError\<close>, not as \<open>MutatingToolTimedOut\<close>.
\<close>

theorem degraded_timeout_unmarked:
  "pg_idempotent False (v\<lparr>inv_outcome := Inl TimeoutError\<rparr>) t = (t, Inl TimeoutError, True) \<and>
   fst (snd (pg_idempotent True (v\<lparr>inv_outcome := Inl TimeoutError\<rparr>) [])) = Inl (MutatingToolTimedOut (inv_tool v))"
  by (simp add: pg_idempotent_def idempotent_def pg_claim_or_cached_def)

text \<open>
  The sweep forgets only what is old: every row created within the window keeps its claim and
  its result, so a replay inside the window is still answered from the ledger; and the number it
  returns is the number of rows it removed.
\<close>

theorem sweep_keeps_recent:
  assumes "distinct (map fst t)" and "map_of t i = Some row" and "now - h \<le> row_created row"
  shows "pg_entry (fst (pg_sweep now h t)) i = Some (row_result row) \<and>
    length (fst (pg_sweep now h t)) + snd (pg_sweep now h t) = length t"
proof
  show "pg_entry (fst (pg_sweep now h t)) i = Some (row_result row)"
    using map_of_filter_values [OF assms(1,2), of "\<lambda>e. \<not> (case e of (k, row) \<Rightarrow> row_created row < now - h)"] assms(3)
    by (simp add: pg_sweep_def pg_entry_def Let_def)
  show "length (fst (pg_sweep now h t)) + snd (pg_sweep now h t) = length t"
    using sum_length_filter_compl [of "\<lambda>(k, row). row_created row < now - h" t] by (simp add: pg_sweep_def Let_def)
qed

theorem sweep_keeps_recent_witness:
  "pg_entry (fst (pg_sweep 100 24
     [(''c'', \<lparr>row_tenant = ''acme'', row_thread = None, row_tool = ''mail'', row_result = Some ''sent'', row_created = 90\<rparr>),
      (''d'', \<lparr>row_tenant = ''acme'', row_thread = None, row_tool = ''mail'', row_result = None, row_created = 10\<rparr>)])) ''c'' =
   Some (Some ''sent'')"
  using sweep_keeps_recent [of "[(''c'', \<lparr>row_tenant = ''acme'', row_thread = None, row_tool = ''mail'',
       row_result = Some ''sent'', row_created = 90\<rparr>),
      (''d'', \<lparr>row_tenant = ''acme'', row_thread = None, row_tool = ''mail'', row_result = None, row_created = 10\<rparr>)]"
      "''c''" "\<lparr>row_tenant = ''acme'', row_thread = None, row_tool = ''mail'', row_result = Some ''sent'',
        row_created = 90\<rparr>" 100 24] by simp

end
