(* ===== verification/Graph_Utils.thy ===== *)
theory Graph_Utils
  imports Tool_Idempotency Messages
begin

text \<open>
  \<open>src/app/agent/graph/utils.py\<close>: what a failed tool tells the model, and a client with its tool
  schemas taken off. A driver's error class is known by registration (\<open>is_store_error\<close>), and the
  class name and text of an exception are the language's; all three are arguments. The lifecycle
  logging around a node (\<open>instrumented\<close>) returns or re-raises what the node does.
\<close>

section \<open>A failed tool\<close>

record error_view =
  is_store_error :: "py_error \<Rightarrow> bool"
  class_name :: "py_error \<Rightarrow> str"
  error_text :: "py_error \<Rightarrow> str"

definition friendly_tool_error :: "error_view \<Rightarrow> py_error \<Rightarrow> str" where
  "friendly_tool_error ev e =
     (case e of
        MutatingToolTimedOut tool_name \<Rightarrow>
          tool_name @ '' timed out, but its effect may already have been '' @
          ''applied on the far side of that timeout before this failure was '' @
          ''reported. Do NOT blindly call it again with the same arguments '' @ em_dash @
          '' a retry would run under a brand new call id, invisible to this '' @
          ''app's own duplicate-call detection. First check whether it already '' @
          ''happened, using a read-only tool for this domain (e.g. a status/'' @
          ''list tool), and only retry if it clearly did not.''
      | _ \<Rightarrow>
          (if is_store_error ev e then
             ''Tool failed ('' @ class_name ev e @
             ''): the data store rejected a valid request, so this is a fault '' @
             ''on the service's side and not in your arguments. Do not retry it or try another query. Tell the '' @
             ''person plainly that this lookup is unavailable right now.''
           else ''Tool failed ('' @ class_name ev e @ '': '' @ error_text ev e @ ''). Try a different approach.''))"

section \<open>A client without tools\<close>

datatype client = Client str | Binding client "(str \<times> json) list"

definition TOOL_KWARGS :: "str list" where
  "TOOL_KWARGS = [''tools'', ''tool_choice'', ''parallel_tool_calls'', ''functions'', ''function_call'']"

fun without_tools :: "client \<Rightarrow> client" where
  "without_tools (Client c) = Client c"
| "without_tools (Binding bound kw) =
     (let kept = filter (\<lambda>(k, v). k \<notin> set TOOL_KWARGS) kw; inner = without_tools bound
      in if kept \<noteq> [] then Binding inner kept else inner)"

text \<open>Every keyword bound on a client, outermost first.\<close>

fun bound_kwargs :: "client \<Rightarrow> (str \<times> json) list" where
  "bound_kwargs (Client c) = []"
| "bound_kwargs (Binding b kw) = kw @ bound_kwargs b"

fun base_client :: "client \<Rightarrow> str" where
  "base_client (Client c) = c"
| "base_client (Binding b _) = base_client b"

section \<open>Properties\<close>

text \<open>
  Taking the tools off takes off exactly the tools: the client underneath is the same, and the
  keywords still bound are, in order, those that are not one of the tool keywords.
\<close>

theorem without_tools_exact:
  "base_client (without_tools c) = base_client c \<and>
   bound_kwargs (without_tools c) = filter (\<lambda>(k, v). k \<notin> set TOOL_KWARGS) (bound_kwargs c)"
  by (induction c) (auto simp: Let_def filter_empty_conv)

text \<open>
  What a store's error says never reaches the model: two errors a driver raised that differ in
  their text alone give the same message, whatever the text.
\<close>

theorem store_text_hidden:
  "is_store_error ev (StoreError t) = is_store_error ev (StoreError u) \<Longrightarrow>
   class_name ev (StoreError t) = class_name ev (StoreError u) \<Longrightarrow> is_store_error ev (StoreError t) \<Longrightarrow>
   friendly_tool_error ev (StoreError t) = friendly_tool_error ev (StoreError u)"
  by (simp add: friendly_tool_error_def)

theorem store_text_hidden_witness:
  "friendly_tool_error \<lparr>is_store_error = (\<lambda>e. True), class_name = (\<lambda>_. ''OperationalError''),
       error_text = (\<lambda>e. case e of StoreError t \<Rightarrow> t | _ \<Rightarrow> [])\<rparr> (StoreError ''LINE 1: FROM tickets'') =
   friendly_tool_error \<lparr>is_store_error = (\<lambda>e. True), class_name = (\<lambda>_. ''OperationalError''),
       error_text = (\<lambda>e. case e of StoreError t \<Rightarrow> t | _ \<Rightarrow> [])\<rparr> (StoreError ''LINE 2: FROM notes'')"
  by (rule store_text_hidden) simp_all

end
