(* ===== verification/Pricing.thy ===== *)
theory Pricing
  imports Py_Text
begin

text \<open>
  What a model costs (\<open>app/agent/cost/pricing.py\<close>): the gateway's \<open>/model/info\<close> entries, the price of an
  alias served by several deployments, the per-process price table with its refresh and back-off, and
  the arithmetic from token usage to dollars. The process's clock and the gateway's answer are
  arguments; a failed answer is the class name of the exception.
\<close>

section \<open>The gateway's answer\<close>

text \<open>A JSON value as the module reads it: numbers are finite or not (\<open>NaN\<close>, \<open>Infinity\<close>).\<close>

datatype info_val =
    VNull
  | VBool bool
  | VNum rat
  | VNotFinite
  | VStr str
  | VList "info_val list"
  | VObj "(str \<times> info_val) list"

fun value_truthy :: "info_val \<Rightarrow> bool" where
  "value_truthy VNull = False"
| "value_truthy (VBool b) = b"
| "value_truthy (VNum x) = (x \<noteq> 0)"
| "value_truthy VNotFinite = True"
| "value_truthy (VStr s) = (s \<noteq> [])"
| "value_truthy (VList xs) = (xs \<noteq> [])"
| "value_truthy (VObj kvs) = (kvs \<noteq> [])"

text \<open>\<open>m.get(k)\<close>; a value that is not a mapping has no \<open>get\<close>.\<close>

definition get_key :: "(str \<times> info_val) list \<Rightarrow> str \<Rightarrow> info_val" where
  "get_key m k = (case map_of m k of None \<Rightarrow> VNull | Some v \<Rightarrow> v)"

fun mapping_of :: "info_val \<Rightarrow> str + (str \<times> info_val) list" where
  "mapping_of (VObj kvs) = Inr kvs"
| "mapping_of _ = Inl ''AttributeError''"

section \<open>Prices\<close>

record model_price =
  input_per_token :: rat
  output_per_token :: rat
  cache_read_per_token :: "rat option"

fun rate :: "info_val \<Rightarrow> rat option" where
  "rate (VNum x) = (if 0 \<le> x then Some x else None)"
| "rate _ = None"

definition GATEWAY_ROUTER_PREFIX :: str where
  "GATEWAY_ROUTER_PREFIX = ''auto_router/''"

definition is_gateway_router :: "(str \<times> info_val) list \<Rightarrow> bool" where
  "is_gateway_router entry = (case get_key entry ''litellm_params'' of
       VObj params \<Rightarrow>
         (case get_key params ''model'' of VStr m \<Rightarrow> prefix GATEWAY_ROUTER_PREFIX m | _ \<Rightarrow> False)
         \<or> value_truthy (get_key params ''complexity_router_config'')
     | _ \<Rightarrow> False)"

definition deployment_price :: "info_val \<Rightarrow> str + model_price option" where
  "deployment_price e = (case mapping_of e of Inl err \<Rightarrow> Inl err | Inr entry \<Rightarrow>
     if is_gateway_router entry then Inr None
     else
       let mi = get_key entry ''model_info''
       in case mapping_of (if value_truthy mi then mi else VObj []) of Inl err \<Rightarrow> Inl err | Inr info \<Rightarrow>
         (case (rate (get_key info ''input_cost_per_token''), rate (get_key info ''output_cost_per_token'')) of
            (Some i, Some j) \<Rightarrow> Inr (Some \<lparr>input_per_token = i, output_per_token = j,
              cache_read_per_token = rate (get_key info ''cache_read_input_token_cost'')\<rparr>)
          | _ \<Rightarrow> Inr None))"

fun sequence_res :: "('e + 'a) list \<Rightarrow> 'e + 'a list" where
  "sequence_res [] = Inr []"
| "sequence_res (r # rs) = (case r of Inl e \<Rightarrow> Inl e | Inr x \<Rightarrow>
     (case sequence_res rs of Inl e \<Rightarrow> Inl e | Inr xs \<Rightarrow> Inr (x # xs)))"

fun max_of :: "rat list \<Rightarrow> rat" where
  "max_of [] = 0"
| "max_of [x] = x"
| "max_of (x # xs) = max x (max_of xs)"

text \<open>The most expensive deployment, component by component; unknown if any is unknown.\<close>

definition worst_price :: "model_price list \<Rightarrow> model_price" where
  "worst_price known = \<lparr>input_per_token = max_of (map input_per_token known),
     output_per_token = max_of (map output_per_token known),
     cache_read_per_token =
       (if None \<in> set (map cache_read_per_token known) then None
        else Some (max_of (List.map_filter cache_read_per_token known)))\<rparr>"

definition alias_price :: "info_val list \<Rightarrow> str + model_price option" where
  "alias_price es = (case sequence_res (map deployment_price es) of Inl e \<Rightarrow> Inl e | Inr prices \<Rightarrow>
     if None \<in> set prices then Inr None else Inr (Some (worst_price (List.map_filter id prices))))"

definition entry_alias :: "info_val \<Rightarrow> str + str option" where
  "entry_alias e = (case mapping_of e of Inl err \<Rightarrow> Inl err | Inr entry \<Rightarrow>
     Inr (case get_key entry ''model_name'' of VStr a \<Rightarrow> Some a | _ \<Rightarrow> None))"

text \<open>Deployments grouped by alias, the aliases in order of first appearance.\<close>

definition deployments :: "info_val list \<Rightarrow> str \<Rightarrow> info_val list" where
  "deployments es a = filter (\<lambda>e. entry_alias e = Inr (Some a)) es"

definition parse_model_info :: "info_val list \<Rightarrow> str + (str \<times> model_price option) list" where
  "parse_model_info es = (case sequence_res (map entry_alias es) of Inl e \<Rightarrow> Inl e | Inr names \<Rightarrow>
     sequence_res (map (\<lambda>a. map_sum id (Pair a) (alias_price (deployments es a))) (rev (remdups (rev (List.map_filter id names))))))"

section \<open>The price table\<close>

record price_state =
  prices :: "(str \<times> model_price option) list"
  fetched_at :: "rat option"
  failed_at :: "rat option"
  warned_unpriced :: "str list"

definition no_prices :: price_state where
  "no_prices = \<lparr>prices = [], fetched_at = None, failed_at = None, warned_unpriced = []\<rparr>"

definition FAILED_LOOKUP_RETRY_SECONDS :: rat where
  "FAILED_LOOKUP_RETRY_SECONDS = 60"

text \<open>One call at \<open>now\<close>; \<open>answer\<close> is what the gateway answers if it is asked, and \<open>later\<close> the clock when it has.\<close>

definition wants_fetch :: "rat \<Rightarrow> rat \<Rightarrow> price_state \<Rightarrow> bool" where
  "wants_fetch refresh now s \<longleftrightarrow>
     (case fetched_at s of None \<Rightarrow> True | Some t \<Rightarrow> refresh \<le> now - t)
     \<and> \<not> (case failed_at s of None \<Rightarrow> False | Some t \<Rightarrow> now - t < FAILED_LOOKUP_RETRY_SECONDS)"

definition refresh_prices :: "rat \<Rightarrow> str + info_val list \<Rightarrow> price_state \<Rightarrow> price_state" where
  "refresh_prices later answer s =
     (case (case answer of Inl e \<Rightarrow> Inl e | Inr es \<Rightarrow> parse_model_info es) of
        Inl _ \<Rightarrow> s\<lparr>failed_at := Some later\<rparr>
      | Inr p \<Rightarrow> s\<lparr>prices := p, fetched_at := Some later, failed_at := None\<rparr>)"

definition get_price :: "rat \<Rightarrow> rat \<Rightarrow> rat \<Rightarrow> str + info_val list \<Rightarrow> str \<Rightarrow> price_state \<Rightarrow> model_price option \<times> price_state" where
  "get_price refresh now later answer a s =
     (let s' = if wants_fetch refresh now s then refresh_prices later answer s else s
      in (case map_of (prices s') a of None \<Rightarrow> None | Some p \<Rightarrow> p, s'))"

section \<open>From tokens to dollars\<close>

definition cost_usd_for :: "model_price \<Rightarrow> int \<Rightarrow> int \<Rightarrow> int \<Rightarrow> rat" where
  "cost_usd_for p input_tokens output_tokens cached_input_tokens =
     (let it = max input_tokens 0;
          cached = min (max cached_input_tokens 0) it;
          cache_rate = (case cache_read_per_token p of Some r \<Rightarrow> r | None \<Rightarrow> input_per_token p)
      in of_int (it - cached) * input_per_token p + of_int cached * cache_rate
         + of_int (max output_tokens 0) * output_per_token p)"

record priced_call =
  pc_input_tokens :: int
  pc_output_tokens :: int
  pc_cached_input_tokens :: int
  pc_total_tokens :: int
  pc_cost_usd :: "rat option"
  pc_price :: "model_price option"

definition spent_tokens :: "priced_call \<Rightarrow> bool" where
  "spent_tokens c \<longleftrightarrow> 0 < pc_total_tokens c"

text \<open>A call's \<open>usage_metadata\<close>: each figure may be missing.\<close>

record usage_report =
  ur_input_tokens :: "int option"
  ur_output_tokens :: "int option"
  ur_total_tokens :: "int option"
  ur_cache_read :: "int option"

definition figure :: "int option \<Rightarrow> int" where
  "figure v = (case v of None \<Rightarrow> 0 | Some n \<Rightarrow> n)"

definition note_unpriced :: "str \<Rightarrow> price_state \<Rightarrow> price_state" where
  "note_unpriced a s = (if a \<in> set (warned_unpriced s) then s else s\<lparr>warned_unpriced := a # warned_unpriced s\<rparr>)"

definition price_call ::
  "rat \<Rightarrow> rat \<Rightarrow> rat \<Rightarrow> str + info_val list \<Rightarrow> str \<Rightarrow> usage_report \<Rightarrow> price_state \<Rightarrow> priced_call \<times> price_state" where
  "price_call refresh now later answer a u s =
     (let input_tokens = figure (ur_input_tokens u); output_tokens = figure (ur_output_tokens u);
          reported_total = figure (ur_total_tokens u); cached = figure (ur_cache_read u);
          total_tokens = max (input_tokens + output_tokens) reported_total
      in if total_tokens \<le> 0 then (\<lparr>pc_input_tokens = 0, pc_output_tokens = 0, pc_cached_input_tokens = 0,
             pc_total_tokens = 0, pc_cost_usd = Some 0, pc_price = None\<rparr>, s)
         else (case get_price refresh now later answer a s of
             (None, s') \<Rightarrow> (\<lparr>pc_input_tokens = input_tokens, pc_output_tokens = output_tokens, pc_cached_input_tokens = cached,
                pc_total_tokens = total_tokens, pc_cost_usd = None, pc_price = None\<rparr>, note_unpriced a s')
           | (Some p, s') \<Rightarrow>
               let unexplained = max (reported_total - input_tokens - output_tokens) 0;
                   cost = cost_usd_for p input_tokens output_tokens cached
                     + of_int unexplained * max (input_per_token p) (output_per_token p)
               in (\<lparr>pc_input_tokens = input_tokens, pc_output_tokens = output_tokens, pc_cached_input_tokens = cached,
                  pc_total_tokens = total_tokens, pc_cost_usd = Some cost, pc_price = Some p\<rparr>, s')))"

text \<open>\<open>price_usage\<close> folds an unknown price to zero for the running totals.\<close>

definition price_usage ::
  "rat \<Rightarrow> rat \<Rightarrow> rat \<Rightarrow> str + info_val list \<Rightarrow> str \<Rightarrow> usage_report \<Rightarrow> price_state \<Rightarrow> rat \<times> price_state" where
  "price_usage refresh now later answer a u s =
     (case price_call refresh now later answer a u s of (c, s') \<Rightarrow> (case pc_cost_usd c of None \<Rightarrow> 0 | Some x \<Rightarrow> x, s'))"

definition refuse_unpriced ::
  "str \<Rightarrow> rat \<Rightarrow> rat \<Rightarrow> rat \<Rightarrow> str + info_val list \<Rightarrow> str \<Rightarrow> price_state \<Rightarrow> bool \<times> price_state" where
  "refuse_unpriced policy refresh now later answer a s =
     (if policy = ''block'' then (case get_price refresh now later answer a s of (p, s') \<Rightarrow> (p = None, s')) else (False, s))"

end
