(* ===== verification/Pricing_Claims.thy ===== *)
theory Pricing_Claims
  imports Pricing
begin

text \<open>
  Facts of the price table and the properties of pricing: the price of an alias bounds every deployment
  behind it, a call is never priced below any reading of its report, and an unanswered gateway leaves
  the last known prices in force.
\<close>

section \<open>Lists of rates and of results\<close>

lemma max_of_upper: "x \<in> set xs \<Longrightarrow> x \<le> max_of xs"
proof (induction xs rule: max_of.induct)
  case (3 x y zs)
  then show ?case by (cases "x = y") (auto simp: max.coboundedI2)
qed auto

lemma max_of_in: "xs \<noteq> [] \<Longrightarrow> max_of xs \<in> set xs"
  by (induction xs rule: max_of.induct) (auto simp: max_def)

lemma sequence_res_Inr: "sequence_res rs = Inr xs \<longleftrightarrow> rs = map Inr xs"
proof (induction rs arbitrary: xs)
  case (Cons r rs)
  show ?case
  proof (cases r)
    case (Inr x)
    then show ?thesis using Cons by (cases "sequence_res rs") (auto simp: Cons_eq_map_conv)
  qed auto
qed auto

lemma set_map_filter: "x \<in> set (List.map_filter f xs) \<longleftrightarrow> (\<exists>y\<in>set xs. f y = Some x)"
  by (force simp: List.map_filter_def)

section \<open>Costs\<close>

definition cache_rate_of :: "model_price \<Rightarrow> rat" where
  "cache_rate_of p = (case cache_read_per_token p of Some r \<Rightarrow> r | None \<Rightarrow> input_per_token p)"

lemma cost_usd_for_mono:
  assumes "input_per_token q \<le> input_per_token p" "output_per_token q \<le> output_per_token p" "cache_rate_of q \<le> cache_rate_of p"
  shows "cost_usd_for q i j c \<le> cost_usd_for p i j c"
proof -
  let ?c = "min (max c 0) (max i 0)"
  have "0 \<le> rat_of_int (max i 0 - ?c)" "0 \<le> rat_of_int ?c" "0 \<le> rat_of_int (max j 0)" by simp_all
  from mult_left_mono [OF assms(1) this(1)] mult_left_mono [OF assms(3) this(2)] mult_left_mono [OF assms(2) this(3)]
  show ?thesis by (simp add: cost_usd_for_def Let_def cache_rate_of_def)
qed

lemma cost_usd_for_split:
  assumes "0 \<le> i" "0 \<le> j" "0 \<le> c" "c \<le> i" "i \<le> i'" "j \<le> j'"
  shows "cost_usd_for p i' j' c = cost_usd_for p i j c + of_int (i' - i) * input_per_token p + of_int (j' - j) * output_per_token p"
  using assms by (simp add: cost_usd_for_def Let_def algebra_simps)

section \<open>Deployments of an alias\<close>

lemma worst_price_bounds:
  assumes "q \<in> set known" "cache_rate_of q \<le> input_per_token q"
  shows "input_per_token q \<le> input_per_token (worst_price known)" "output_per_token q \<le> output_per_token (worst_price known)"
    "cache_rate_of q \<le> cache_rate_of (worst_price known)"
proof -
  show i: "input_per_token q \<le> input_per_token (worst_price known)"
    using assms(1) by (auto simp: worst_price_def intro: max_of_upper)
  show "output_per_token q \<le> output_per_token (worst_price known)"
    using assms(1) by (auto simp: worst_price_def intro: max_of_upper)
  show "cache_rate_of q \<le> cache_rate_of (worst_price known)"
  proof (cases "None \<in> set (map cache_read_per_token known)")
    case True
    then show ?thesis using i assms(2) by (simp add: cache_rate_of_def worst_price_def)
  next
    case False
    then obtain r where r: "cache_read_per_token q = Some r" using assms(1) by (cases "cache_read_per_token q") force+
    then have "r \<in> set (List.map_filter cache_read_per_token known)" using assms(1) by (auto simp: set_map_filter)
    from max_of_upper [OF this] False r show ?thesis by (simp add: cache_rate_of_def worst_price_def)
  qed
qed

lemma alias_price_cases:
  assumes "alias_price es = Inr po"
  obtains (unknown) e where "po = None" "e \<in> set es" "deployment_price e = Inr None"
  | (known) qs where "po = Some (worst_price qs)" "map deployment_price es = map (Inr \<circ> Some) qs"
proof -
  obtain ps where ps: "map deployment_price es = map Inr ps"
      and po: "po = (if None \<in> set ps then None else Some (worst_price (List.map_filter id ps)))"
    using assms by (auto simp: alias_price_def sequence_res_Inr split: sum.splits if_splits)
  show thesis
  proof (cases "None \<in> set ps")
    case True
    then have "Inr None \<in> set (map deployment_price es)" using ps by auto
    then show thesis using unknown True po by (auto simp: eq_commute [of "Inr None"])
  next
    case False
    then have "ps = map Some (List.map_filter id ps)"
    proof (induction ps)
      case (Cons x ps)
      then show ?case by (cases x) auto
    qed simp
    then show thesis using known [of "List.map_filter id ps"] False po ps by (metis map_map)
  qed
qed

lemma parse_model_info_lookup:
  assumes "parse_model_info es = Inr ps" "map_of ps a = Some po"
  shows "alias_price (deployments es a) = Inr po \<and> deployments es a \<noteq> []"
proof -
  obtain names where names: "map entry_alias es = map Inr names"
      and ps: "map (\<lambda>a. map_sum id (Pair a) (alias_price (deployments es a))) (rev (remdups (rev (List.map_filter id names)))) = map Inr ps"
    using assms(1) by (auto simp: parse_model_info_def sequence_res_Inr split: sum.splits)
  from assms(2) have "(a, po) \<in> set ps" by (rule map_of_SomeD)
  then have "Inr (a, po) \<in> set (map (\<lambda>a. map_sum id (Pair a) (alias_price (deployments es a))) (rev (remdups (rev (List.map_filter id names)))))"
    unfolding ps by (rule imageI [of "(a, po)" "set ps" Inr, simplified set_map [symmetric]])
  then obtain b where b: "b \<in> set (List.map_filter id names)" "Inr (a, po) = map_sum id (Pair b) (alias_price (deployments es b))"
    by (simp only: set_map set_rev set_remdups image_iff) blast
  then have ap: "b = a \<and> alias_price (deployments es a) = Inr po" by (cases "alias_price (deployments es b)") auto
  then have "Inr (Some a) \<in> set (map entry_alias es)" using b(1) by (auto simp: names set_map_filter)
  then obtain e where "e \<in> set es" "entry_alias e = Inr (Some a)" by auto
  then have "e \<in> set (deployments es a)" by (simp add: deployments_def)
  then show ?thesis using ap by auto
qed

section \<open>The table under failing refreshes\<close>

lemma get_price_unasked:
  "\<not> wants_fetch refresh now s \<Longrightarrow> snd (get_price refresh now later answer a s) = s"
  by (simp add: get_price_def Let_def)

lemma refresh_failure_keeps_prices:
  assumes "case answer of Inl e \<Rightarrow> True | Inr es \<Rightarrow> isl (parse_model_info es)"
  shows "prices (snd (get_price refresh now later answer a s)) = prices s"
    "fetched_at (snd (get_price refresh now later answer a s)) = fetched_at s"
  using assms by (auto simp: get_price_def refresh_prices_def Let_def isl_def split: sum.splits)

section \<open>Properties\<close>

text \<open>C33. The price of an alias is the worst case. For every alias the gateway's answer prices, the alias has
  no known price exactly when some deployment behind it has none, and otherwise every deployment behind
  it has a price under which no call, however its tokens split, costs more than under the alias's price,
  as long as the deployment's cache rate is not above its input rate.\<close>

theorem alias_price_bounds_every_deployment:
  assumes "parse_model_info es = Inr ps" and "map_of ps a = Some po"
  shows "deployments es a \<noteq> []
    \<and> (po = None \<longleftrightarrow> (\<exists>e\<in>set (deployments es a). deployment_price e = Inr None))
    \<and> (\<forall>p e. po = Some p \<and> e \<in> set (deployments es a) \<longrightarrow>
         (\<exists>q. deployment_price e = Inr (Some q)
           \<and> ((\<forall>r. cache_read_per_token q = Some r \<longrightarrow> r \<le> input_per_token q) \<longrightarrow>
                (\<forall>i j c. cost_usd_for q i j c \<le> cost_usd_for p i j c))))"
proof -
  note ap = parse_model_info_lookup [OF assms]
  from ap have "alias_price (deployments es a) = Inr po" ..
  then show ?thesis
  proof (cases rule: alias_price_cases)
    case (unknown e)
    then show ?thesis using ap by auto
  next
    case (known qs)
    have *: "\<exists>q\<in>set qs. deployment_price e = Inr (Some q)" if e: "e \<in> set (deployments es a)" for e
    proof -
      from e have "deployment_price e \<in> set (map deployment_price (deployments es a))" by simp
      then show ?thesis unfolding known(2) by auto
    qed
    have "cost_usd_for q i j c \<le> cost_usd_for (worst_price qs) i j c"
      if "q \<in> set qs" "\<forall>r. cache_read_per_token q = Some r \<longrightarrow> r \<le> input_per_token q" for q i j c
      using worst_price_bounds [OF that(1)] that(2)
      by (intro cost_usd_for_mono) (auto simp: cache_rate_of_def split: option.splits)
    then show ?thesis using ap known(1) * by fastforce
  qed
qed

definition sample_deployment :: "str \<Rightarrow> rat \<Rightarrow> rat \<Rightarrow> (str \<times> info_val) list \<Rightarrow> info_val" where
  "sample_deployment a i j rest = VObj [(''model_name'', VStr a),
     (''model_info'', VObj ([(''input_cost_per_token'', VNum i), (''output_cost_per_token'', VNum j)] @ rest))]"

definition sample_entries :: "info_val list" where
  "sample_entries = [sample_deployment ''chat'' 2 8 [(''cache_read_input_token_cost'', VNum 1)], sample_deployment ''chat'' 3 6 []]"

theorem alias_price_bounds_every_deployment_witness:
  "\<exists>ps p q. parse_model_info sample_entries = Inr ps \<and> map_of ps ''chat'' = Some (Some p)
     \<and> deployment_price (hd sample_entries) = Inr (Some q) \<and> cost_usd_for q 100 10 50 \<le> cost_usd_for p 100 10 50"
proof -
  let ?p = "\<lparr>input_per_token = 3, output_per_token = 8, cache_read_per_token = None\<rparr>"
  have ps: "parse_model_info sample_entries = Inr [(''chat'', Some ?p)]" by code_simp
  have d: "deployments sample_entries ''chat'' = sample_entries" by code_simp
  have q: "deployment_price (hd sample_entries) = Inr (Some \<lparr>input_per_token = 2, output_per_token = 8, cache_read_per_token = Some 1\<rparr>)"
    by code_simp
  have "hd sample_entries \<in> set (deployments sample_entries ''chat'')" unfolding d by (simp add: sample_entries_def)
  with alias_price_bounds_every_deployment [OF ps, of "''chat''" "Some ?p"] q ps show ?thesis by fastforce
qed

text \<open>A call is never priced below a reading of its report. The cost of a call is unknown exactly when it spent
  tokens on a model without a price; otherwise, however the tokens a report does not explain are split
  into input and output, the recorded cost is at least the cost of that split at the price recorded
  with it.\<close>

theorem call_cost_covers_any_split:
  assumes "price_call refresh now later answer a u s = (c, s')"
    and "0 \<le> figure (ur_input_tokens u)" and "0 \<le> figure (ur_output_tokens u)"
    and "0 \<le> figure (ur_cache_read u)" and "figure (ur_cache_read u) \<le> figure (ur_input_tokens u)"
  shows "(pc_cost_usd c = None \<longleftrightarrow> spent_tokens c \<and> fst (get_price refresh now later answer a s) = None)
    \<and> (\<forall>p i j. pc_price c = Some p \<and> figure (ur_input_tokens u) \<le> i \<and> figure (ur_output_tokens u) \<le> j
         \<and> i + j = pc_total_tokens c \<longrightarrow>
         (\<exists>x. pc_cost_usd c = Some x \<and> cost_usd_for p i j (figure (ur_cache_read u)) \<le> x))"
proof -
  let ?i = "figure (ur_input_tokens u)" and ?j = "figure (ur_output_tokens u)" and ?t = "figure (ur_total_tokens u)"
    and ?c = "figure (ur_cache_read u)"
  obtain g g' where g: "get_price refresh now later answer a s = (g, g')" by force
  have known: "pc_cost_usd c = None \<longleftrightarrow> spent_tokens c \<and> g = None"
    using assms(1) g by (auto simp: price_call_def spent_tokens_def Let_def split: if_splits option.splits)
  have bound: "\<exists>x. pc_cost_usd c = Some x \<and> cost_usd_for p i j ?c \<le> x"
    if p: "pc_price c = Some p" and i: "?i \<le> i" and j: "?j \<le> j" and t: "i + j = pc_total_tokens c" for p i j
  proof -
    let ?m = "max (input_per_token p) (output_per_token p)"
    have c: "pc_cost_usd c = Some (cost_usd_for p ?i ?j ?c + of_int (max (?t - ?i - ?j) 0) * ?m)" "pc_total_tokens c = max (?i + ?j) ?t"
      using assms(1) g p by (auto simp: price_call_def Let_def split: if_splits option.splits)
    have u: "max (?t - ?i - ?j) 0 = (i - ?i) + (j - ?j)" using t c(2) by linarith
    have "of_int (i - ?i) * input_per_token p \<le> of_int (i - ?i) * ?m" "of_int (j - ?j) * output_per_token p \<le> of_int (j - ?j) * ?m"
      using i j by (auto intro!: mult_left_mono)
    moreover have "of_int ((i - ?i) + (j - ?j)) * ?m = of_int (i - ?i) * ?m + of_int (j - ?j) * ?m"
      by (simp only: of_int_add distrib_right)
    ultimately show ?thesis
      using cost_usd_for_split [OF assms(2-5) i j, of p] c(1) unfolding u by auto
  qed
  show ?thesis using known bound g by auto
qed

definition sample_report :: usage_report where
  "sample_report = \<lparr>ur_input_tokens = Some 100, ur_output_tokens = Some 10, ur_total_tokens = Some 130, ur_cache_read = Some 40\<rparr>"

theorem call_cost_covers_any_split_witness:
  "\<exists>c s' p x. price_call 300 0 1 (Inr sample_entries) ''chat'' sample_report no_prices = (c, s')
     \<and> pc_price c = Some p \<and> pc_cost_usd c = Some x \<and> cost_usd_for p 115 15 40 \<le> x"
proof -
  let ?r = "price_call 300 0 1 (Inr sample_entries) ''chat'' sample_report no_prices"
  let ?p = "\<lparr>input_per_token = 3, output_per_token = 8, cache_read_per_token = None\<rparr>"
  have p: "pc_price (fst ?r) = Some ?p" by code_simp
  have t: "pc_total_tokens (fst ?r) = 130" by code_simp
  have f: "figure (ur_input_tokens sample_report) = 100" "figure (ur_output_tokens sample_report) = 10" "figure (ur_cache_read sample_report) = 40"
    by (simp_all add: sample_report_def figure_def)
  obtain c s' where r: "?r = (c, s')" by (cases ?r)
  then have cp: "pc_price c = Some ?p" and ct: "pc_total_tokens c = 130" using p t by simp_all
  have "\<forall>p i j. pc_price c = Some p \<and> 100 \<le> i \<and> 10 \<le> j \<and> i + j = pc_total_tokens c \<longrightarrow>
      (\<exists>x. pc_cost_usd c = Some x \<and> cost_usd_for p i j 40 \<le> x)"
    using call_cost_covers_any_split [OF r] f by simp
  from spec [OF spec [OF spec [OF this, of ?p], of 115], of 15] cp ct
  obtain x where "pc_cost_usd c = Some x" "cost_usd_for ?p 115 15 40 \<le> x" by auto
  with r cp show ?thesis by blast
qed

text \<open>A deployment whose cache rate is above its input rate is not bounded by the alias's price when another
  deployment states no cache rate: its cached tokens are billed at the dearest input rate alone.\<close>

lemma alias_price_below_deployment:
  "\<exists>p q. alias_price [sample_deployment ''chat'' 2 8 [(''cache_read_input_token_cost'', VNum 5)], sample_deployment ''chat'' 3 6 []] = Inr (Some p)
     \<and> deployment_price (sample_deployment ''chat'' 2 8 [(''cache_read_input_token_cost'', VNum 5)]) = Inr (Some q)
     \<and> cost_usd_for p 100 0 100 < cost_usd_for q 100 0 100"
proof (intro exI conjI)
  show "alias_price [sample_deployment ''chat'' 2 8 [(''cache_read_input_token_cost'', VNum 5)], sample_deployment ''chat'' 3 6 []]
      = Inr (Some \<lparr>input_per_token = 3, output_per_token = 8, cache_read_per_token = None\<rparr>)" by code_simp
  show "deployment_price (sample_deployment ''chat'' 2 8 [(''cache_read_input_token_cost'', VNum 5)])
      = Inr (Some \<lparr>input_per_token = 2, output_per_token = 8, cache_read_per_token = Some 5\<rparr>)" by code_simp
  show "cost_usd_for \<lparr>input_per_token = 3, output_per_token = 8, cache_read_per_token = None\<rparr> 100 0 100
      < cost_usd_for \<lparr>input_per_token = 2, output_per_token = 8, cache_read_per_token = Some 5\<rparr> 100 0 100" by code_simp
qed

end
