(* ===== verification/Gateway_Identity.thy ===== *)
theory Gateway_Identity
  imports Py_Text Security
begin

text \<open>
  What the app tells the LLM gateway about each call (\<open>app/core/gateway.py\<close>): the end-user id of one
  person, its inverse, and the keyword arguments of a call. A Python string is here a list of code
  points, because the id is percent-encoded UTF-8; the standard library's \<open>quote\<close> and \<open>unquote\<close> are
  modelled byte for byte.
\<close>

section \<open>UTF-8\<close>

type_synonym utext = "nat list"

definition surrogate :: "nat \<Rightarrow> bool" where
  "surrogate c \<longleftrightarrow> 0xD800 \<le> c \<and> c \<le> 0xDFFF"

definition encodable :: "nat \<Rightarrow> bool" where
  "encodable c \<longleftrightarrow> c < 0x110000 \<and> \<not> surrogate c"

definition utf8_char :: "nat \<Rightarrow> nat list" where
  "utf8_char c =
     (if c < 0x80 then [c]
      else if c < 0x800 then [0xC0 + c div 64, 0x80 + c mod 64]
      else if c < 0x10000 then [0xE0 + c div 4096, 0x80 + c div 64 mod 64, 0x80 + c mod 64]
      else [0xF0 + c div 262144, 0x80 + c div 4096 mod 64, 0x80 + c div 64 mod 64, 0x80 + c mod 64])"

text \<open>\<open>str.encode('utf-8')\<close>: a surrogate cannot be encoded.\<close>

definition utf8_encode :: "utext \<Rightarrow> str + nat list" where
  "utf8_encode t = (if list_all encodable t then Inr (concat (map utf8_char t)) else Inl ''UnicodeEncodeError'')"

text \<open>\<open>bytes.decode('utf-8', 'replace')\<close>: one character and the bytes it took; a malformed sequence is one
  U+FFFD for its longest well-formed beginning.\<close>

definition cont :: "nat \<Rightarrow> bool" where
  "cont b \<longleftrightarrow> 0x80 \<le> b \<and> b \<le> 0xBF"

definition second_ok :: "nat \<Rightarrow> nat \<Rightarrow> bool" where
  "second_ok b b2 \<longleftrightarrow> cont b2 \<and> (b = 0xE0 \<longrightarrow> 0xA0 \<le> b2) \<and> (b = 0xED \<longrightarrow> b2 \<le> 0x9F)
     \<and> (b = 0xF0 \<longrightarrow> 0x90 \<le> b2) \<and> (b = 0xF4 \<longrightarrow> b2 \<le> 0x8F)"

definition REPLACEMENT :: nat where
  "REPLACEMENT = 0xFFFD"

fun decode_char :: "nat list \<Rightarrow> nat \<times> nat" where
  "decode_char [] = (REPLACEMENT, 1)"
| "decode_char (b # bs) =
     (if b < 0x80 then (b, 1)
      else if b < 0xC2 \<or> 0xF4 < b then (REPLACEMENT, 1)
      else (case bs of
          [] \<Rightarrow> (REPLACEMENT, 1)
        | b2 # bs2 \<Rightarrow>
            if \<not> second_ok b b2 then (REPLACEMENT, 1)
            else if b < 0xE0 then ((b - 0xC0) * 64 + (b2 - 0x80), 2)
            else (case bs2 of
                [] \<Rightarrow> (REPLACEMENT, 2)
              | b3 # bs3 \<Rightarrow>
                  if \<not> cont b3 then (REPLACEMENT, 2)
                  else if b < 0xF0 then ((b - 0xE0) * 4096 + (b2 - 0x80) * 64 + (b3 - 0x80), 3)
                  else (case bs3 of
                      [] \<Rightarrow> (REPLACEMENT, 3)
                    | b4 # _ \<Rightarrow>
                        if \<not> cont b4 then (REPLACEMENT, 3)
                        else ((b - 0xF0) * 262144 + (b2 - 0x80) * 4096 + (b3 - 0x80) * 64 + (b4 - 0x80), 4)))))"

lemma decode_char_progress: "(c, n) = decode_char bs \<Longrightarrow> 0 < n"
  by (cases bs) (auto split: list.splits if_splits)

function utf8_decode :: "nat list \<Rightarrow> utext" where
  "utf8_decode bs = (if bs = [] then [] else (case decode_char bs of (c, n) \<Rightarrow> c # utf8_decode (drop n bs)))"
  by pat_completeness auto
termination
  by (relation "measure length") (auto dest: decode_char_progress)

declare utf8_decode.simps [simp del]

section \<open>Percent encoding\<close>

definition ascii :: "string \<Rightarrow> utext" where
  "ascii s = map of_char s"

text \<open>What \<open>quote(safe='')\<close> leaves alone: letters, digits and \<open>_.-~\<close>.\<close>

definition unreserved :: "nat \<Rightarrow> bool" where
  "unreserved b \<longleftrightarrow> 48 \<le> b \<and> b \<le> 57 \<or> 65 \<le> b \<and> b \<le> 90 \<or> 97 \<le> b \<and> b \<le> 122 \<or> b = 95 \<or> b = 46 \<or> b = 45 \<or> b = 126"

definition pct_hex_digit :: "nat \<Rightarrow> nat" where
  "pct_hex_digit n = (if n < 10 then 48 + n else 55 + n)"

definition quote_byte :: "nat \<Rightarrow> utext" where
  "quote_byte b = (if unreserved b then [b] else [37, pct_hex_digit (b div 16), pct_hex_digit (b mod 16)])"

definition quote :: "utext \<Rightarrow> str + utext" where
  "quote t = map_sum id (\<lambda>bs. concat (map quote_byte bs)) (utf8_encode t)"

text \<open>\<open>unquote\<close> on ASCII text. Both cases of a hex digit are read; a percent sign not followed by two of them
  stands for itself.\<close>

definition hex_value :: "nat \<Rightarrow> nat option" where
  "hex_value c = (if 48 \<le> c \<and> c \<le> 57 then Some (c - 48)
     else if 65 \<le> c \<and> c \<le> 70 then Some (c - 55)
     else if 97 \<le> c \<and> c \<le> 102 then Some (c - 87) else None)"

fun unquote_to_bytes :: "utext \<Rightarrow> nat list" where
  "unquote_to_bytes (c # d # e # s) =
     (if c = 37 then
        (case (hex_value d, hex_value e) of
           (Some x, Some y) \<Rightarrow> (16 * x + y) # unquote_to_bytes s
         | _ \<Rightarrow> 37 # unquote_to_bytes (d # e # s))
      else c # unquote_to_bytes (d # e # s))"
| "unquote_to_bytes (c # s) = c # unquote_to_bytes s"
| "unquote_to_bytes [] = []"

definition unquote :: "utext \<Rightarrow> utext" where
  "unquote s = utf8_decode (unquote_to_bytes s)"

section \<open>The end user of a call\<close>

definition end_user_id :: "utext \<Rightarrow> utext \<Rightarrow> str + utext" where
  "end_user_id t p = (case quote t of Inl e \<Rightarrow> Inl e | Inr qt \<Rightarrow>
     (case quote p of Inl e \<Rightarrow> Inl e | Inr qp \<Rightarrow> Inr (ascii ''tenant:'' @ qt @ ascii ''/user:'' @ qp)))"

text \<open>The pattern's character class; neither colon nor slash is in it, so a match splits in one way.\<close>

definition id_char :: "nat \<Rightarrow> bool" where
  "id_char c \<longleftrightarrow> unreserved c \<or> c = 37"

definition match_end_user :: "utext \<Rightarrow> (utext \<times> utext) option" where
  "match_end_user s =
     (if \<not> prefix (ascii ''tenant:'') s then None
      else
        let r = drop (length (ascii ''tenant:'')) s; a = takeWhile id_char r; r' = dropWhile id_char r
        in if \<not> prefix (ascii ''/user:'') r' then None
           else let b = drop (length (ascii ''/user:'')) r' in if list_all id_char b then Some (a, b) else None)"

definition parse_end_user_id :: "utext \<Rightarrow> (utext \<times> utext) option" where
  "parse_end_user_id s = (case match_end_user s of
       None \<Rightarrow> None
     | Some (a, b) \<Rightarrow> if end_user_id (unquote a) (unquote b) = Inr s then Some (unquote a, unquote b) else None)"

section \<open>The keywords of a call\<close>

text \<open>The code points of a Windows-1252 text.\<close>

definition cp1252_high :: "nat list" where
  "cp1252_high = [0x20AC, 0x81, 0x201A, 0x0192, 0x201E, 0x2026, 0x2020, 0x2021, 0x02C6, 0x2030, 0x0160, 0x2039, 0x0152, 0x8D, 0x017D, 0x8F,
     0x90, 0x2018, 0x2019, 0x201C, 0x201D, 0x2022, 0x2013, 0x2014, 0x02DC, 0x2122, 0x0161, 0x203A, 0x0153, 0x9D, 0x017E, 0x0178]"

definition code_point :: "char \<Rightarrow> nat" where
  "code_point c = (let n = ccode c in if 0x80 \<le> n \<and> n < 0xA0 then cp1252_high ! (n - 0x80) else n)"

definition unicode :: "str \<Rightarrow> utext" where
  "unicode s = map code_point s"

record call_kwargs =
  kw_user :: utext
  kw_tenant :: str
  kw_principal :: str
  kw_tags :: "str list"
  kw_session_id :: "str option"

definition call_identity :: "security_ctx option \<Rightarrow> str option \<Rightarrow> str + call_kwargs option" where
  "call_identity c session_id =
     (if \<not> valid_ctx c then Inr None
      else (case end_user_id (unicode (tenant (the c))) (unicode (principal (the c))) of
          Inl e \<Rightarrow> Inl e
        | Inr u \<Rightarrow> Inr (Some \<lparr>kw_user = u, kw_tenant = tenant (the c), kw_principal = principal (the c),
            kw_tags = [''tenant:'' @ tenant (the c)], kw_session_id = (if session_id = Some [] then None else session_id)\<rparr>)))"

section \<open>Facts of UTF-8\<close>

lemma mod_64_le: "(n::nat) mod 64 \<le> 63"
  by (simp flip: less_Suc_eq_le)

lemma utf8_char_bytes: "b \<in> set (utf8_char c) \<Longrightarrow> c < 0x110000 \<Longrightarrow> b < 256"
  by (auto simp: utf8_char_def split: if_splits)

lemma decode_utf8_char:
  assumes "encodable c"
  shows "decode_char (utf8_char c @ bs) = (c, length (utf8_char c))"
proof -
  have c: "c < 0x110000" "c < 0xD800 \<or> 0xDFFF < c" using assms by (auto simp: encodable_def surrogate_def)
  have d: "c div 4096 = c div 64 div 64" "c div 262144 = c div 64 div 64 div 64" by (simp_all add: div_mult2_eq [symmetric])
  define x y z where "x = c div 64" and "y = x div 64" and "z = y div 64"
  have e: "c = 64 * x + c mod 64" "x = 64 * y + x mod 64" "y = 64 * z + y mod 64" by (simp_all add: x_def y_def z_def)
  have m: "c mod 64 < 64" "x mod 64 < 64" "y mod 64 < 64" by simp_all
  consider "c < 0x80" | "0x80 \<le> c" "c < 0x800" | "0x800 \<le> c" "c < 0x10000" | "0x10000 \<le> c" by linarith
  then show ?thesis
  proof cases
    case 1
    then show ?thesis by (simp add: utf8_char_def)
  next
    case 2
    then have "2 \<le> x" "x < 32" using e m by linarith+
    then show ?thesis using 2 e(1) m by (simp add: utf8_char_def second_ok_def cont_def mod_64_le flip: x_def)
  next
    case 3
    then have "y < 16" "y = 0 \<longrightarrow> 32 \<le> x" "y = 13 \<longrightarrow> x mod 64 \<le> 31" using e m c by linarith+
    then show ?thesis using 3 e(1,2) m
      by (simp add: utf8_char_def second_ok_def cont_def d mod_64_le flip: x_def y_def)
        (rule disjI2, use 3 e(1) m(1) in linarith)
  next
    case 4
    then have "z < 5" "z = 0 \<longrightarrow> 16 \<le> y" "z = 4 \<longrightarrow> y mod 64 \<le> 15" using e m c by linarith+
    then show ?thesis using 4 e m
      by (simp add: utf8_char_def second_ok_def cont_def d mod_64_le flip: x_def y_def z_def)
        (rule disjI2, use 4 e(1,2) m(1,2) in linarith)
  qed
qed

lemma utf8_char_Nil [simp]: "utf8_char c \<noteq> []"
  by (simp add: utf8_char_def)

lemma utf8_decode_encode: "list_all encodable t \<Longrightarrow> utf8_decode (concat (map utf8_char t)) = t"
proof (induction t)
  case (Cons c t)
  have "utf8_decode (utf8_char c @ bs) = c # utf8_decode bs" for bs
    using decode_utf8_char [of c bs] Cons.prems by (subst utf8_decode.simps) simp
  then show ?case using Cons by simp
qed (simp add: utf8_decode.simps)

section \<open>Facts of percent encoding\<close>

lemma pct_hex_value: "n < 16 \<Longrightarrow> hex_value (pct_hex_digit n) = Some n"
  by (simp add: hex_value_def pct_hex_digit_def)

lemma unquote_plain: "c \<noteq> 37 \<Longrightarrow> unquote_to_bytes (c # s) = c # unquote_to_bytes s"
  by (cases s rule: unquote_to_bytes.cases) simp_all

lemma unquote_quote_byte: "b < 256 \<Longrightarrow> unquote_to_bytes (quote_byte b @ s) = b # unquote_to_bytes s"
proof -
  assume b: "b < 256"
  then have "b div 16 < 16" by simp
  show ?thesis
  proof (cases "unreserved b")
    case True
    then have "b \<noteq> 37" by (auto simp: unreserved_def)
    then show ?thesis using True by (simp add: quote_byte_def unquote_plain)
  next
    case False
    then show ?thesis using \<open>b div 16 < 16\<close> by (simp add: quote_byte_def pct_hex_value)
  qed
qed

lemma unquote_quote_bytes: "list_all (\<lambda>b. b < 256) bs \<Longrightarrow> unquote_to_bytes (concat (map quote_byte bs)) = bs"
  by (induction bs) (simp_all add: unquote_quote_byte)

lemma hex_unreserved: "n < 16 \<Longrightarrow> unreserved (pct_hex_digit n)"
  by (simp add: unreserved_def pct_hex_digit_def)

lemma quote_id_char: "b < 256 \<Longrightarrow> list_all id_char (quote_byte b)"
  using hex_unreserved [of "b div 16"] hex_unreserved [of "b mod 16"] by (simp add: quote_byte_def id_char_def)

lemma quote_InrD:
  assumes "quote t = Inr q"
  shows "unquote q = t \<and> list_all id_char q \<and> list_all encodable t"
proof -
  have t: "list_all encodable t" and q: "q = concat (map quote_byte (concat (map utf8_char t)))"
    using assms by (auto simp: quote_def utf8_encode_def split: if_splits)
  have b: "list_all (\<lambda>b. b < 256) (concat (map utf8_char t))"
    using t by (auto simp: list_all_iff encodable_def dest: utf8_char_bytes)
  then have "list_all id_char q" unfolding q using quote_id_char by (fastforce simp: list_all_iff)
  then show ?thesis using unquote_quote_bytes [OF b] utf8_decode_encode [OF t] t q by (simp add: unquote_def)
qed

lemma quote_total: "(\<exists>q. quote t = Inr q) \<longleftrightarrow> list_all encodable t"
  by (auto simp: quote_def utf8_encode_def)

lemma match_end_user_id:
  assumes "list_all id_char a" "list_all id_char b"
  shows "match_end_user (ascii ''tenant:'' @ a @ ascii ''/user:'' @ b) = Some (a, b)"
proof -
  have slash: "ascii ''/user:'' = 47 # ascii ''user:''" "\<not> id_char 47"
    by (simp_all add: ascii_def id_char_def unreserved_def)
  then have "takeWhile id_char (a @ ascii ''/user:'' @ b) = a" "dropWhile id_char (a @ ascii ''/user:'' @ b) = ascii ''/user:'' @ b"
    using assms(1) by (simp_all add: list_all_iff)
  then show ?thesis using assms(2) by (simp add: match_end_user_def Let_def)
qed

lemma parse_end_user_iff: "parse_end_user_id s = Some (t, p) \<longleftrightarrow> end_user_id t p = Inr s"
proof
  assume "parse_end_user_id s = Some (t, p)"
  then show "end_user_id t p = Inr s" by (auto simp: parse_end_user_id_def split: option.splits if_splits)
next
  assume e: "end_user_id t p = Inr s"
  then obtain qt qp where q: "quote t = Inr qt" "quote p = Inr qp" "s = ascii ''tenant:'' @ qt @ ascii ''/user:'' @ qp"
    by (auto simp: end_user_id_def split: sum.splits)
  then have "match_end_user s = Some (qt, qp)" using match_end_user_id [of qt qp] quote_InrD by simp
  then show "parse_end_user_id s = Some (t, p)"
    using e quote_InrD [OF q(1)] quote_InrD [OF q(2)] by (simp add: parse_end_user_id_def)
qed

lemma cp1252_high_facts:
  "length cp1252_high = 32" "distinct cp1252_high" "list_all encodable cp1252_high"
  "list_all (\<lambda>x. 256 \<le> x \<or> 0x80 \<le> x \<and> x < 0xA0) cp1252_high"
  by (simp_all add: cp1252_high_def encodable_def surrogate_def)

lemma code_point_cases:
  obtains (plain) "code_point c = ccode c" "ccode c < 0x80 \<or> 0xA0 \<le> ccode c" "ccode c < 256"
  | (high) i where "ccode c = 0x80 + i" "i < 32" "code_point c = cp1252_high ! i"
proof (cases "0x80 \<le> ccode c \<and> ccode c < 0xA0")
  case True
  then have "ccode c = 0x80 + (ccode c - 0x80)" "ccode c - 0x80 < 32" by auto
  then show thesis using high [of "ccode c - 0x80"] True by (simp add: code_point_def)
next
  case False
  then show thesis using plain by (auto simp: code_point_def ccode_def Let_def)
qed

lemma code_point_encodable: "encodable (code_point c)"
proof (cases c rule: code_point_cases)
  case plain
  then show ?thesis by (auto simp: encodable_def surrogate_def)
next
  case (high i)
  then show ?thesis using cp1252_high_facts(1,3) by (simp add: list_all_length)
qed

lemma code_point_inj: "code_point c = code_point d \<longleftrightarrow> c = d"
proof -
  have r: "256 \<le> cp1252_high ! i \<or> 0x80 \<le> cp1252_high ! i \<and> cp1252_high ! i < 0xA0" if "i < 32" for i
    using that cp1252_high_facts(1,4) by (simp add: list_all_length)
  have "ccode c = ccode d" if e: "code_point c = code_point d"
  proof (cases c rule: code_point_cases)
    case plain
    then show ?thesis using e r by (cases d rule: code_point_cases) fastforce+
  next
    case (high i)
    show ?thesis
    proof (cases d rule: code_point_cases)
      case plain
      then show ?thesis using high e r [of i] by auto
    next
      case (high j)
      then show ?thesis using \<open>ccode c = 0x80 + i\<close> \<open>i < 32\<close> \<open>code_point c = cp1252_high ! i\<close> e cp1252_high_facts(1,2)
        by (simp add: nth_eq_iff_index_eq)
    qed
  qed
  then show ?thesis by (auto simp: ccode_def)
qed

lemma unicode_inj: "unicode s = unicode t \<longleftrightarrow> s = t"
  unfolding unicode_def by (rule inj_map_eq_map) (simp add: inj_def code_point_inj)

section \<open>Properties\<close>

text \<open>C31. The end-user id round trips. A person's id can be made exactly when neither part holds a
  surrogate, and reading an id back gives a tenant and a principal exactly when it is the id made of
  them: no other text, and no id of another application, is read as one of ours.\<close>

theorem end_user_roundtrip:
  "((\<exists>s. end_user_id t p = Inr s) \<longleftrightarrow> list_all encodable (t @ p))
   \<and> (parse_end_user_id s = Some (t, p) \<longleftrightarrow> end_user_id t p = Inr s)"
  using parse_end_user_iff quote_total [of t] quote_total [of p]
  by (auto simp: end_user_id_def split: sum.splits)

text \<open>The gateway can tell people apart. Every call of a valid context carries an end user, and the calls
  of two valid contexts carry the same one exactly when they are the same person of the same tenant;
  a call without a valid context carries none.\<close>

theorem end_user_names_one_person:
  "(valid_ctx (Some c) \<and> valid_ctx (Some d) \<longrightarrow>
     (\<exists>k l. call_identity (Some c) s = Inr (Some k) \<and> call_identity (Some d) s' = Inr (Some l)
       \<and> (kw_user k = kw_user l \<longleftrightarrow> tenant c = tenant d \<and> principal c = principal d)))
   \<and> (\<not> valid_ctx (Some c) \<longrightarrow> call_identity (Some c) s = Inr None)"
proof -
  have ok: "list_all encodable (unicode x)" for x by (simp add: unicode_def list_all_iff code_point_encodable)
  have ex: "\<exists>u. end_user_id (unicode x) (unicode y) = Inr u" for x y
  proof -
    obtain q q' where "quote (unicode x) = Inr q" "quote (unicode y) = Inr q'" using quote_total ok by meson
    then show ?thesis by (simp add: end_user_id_def)
  qed
  have inj: "end_user_id (unicode x) (unicode y) = Inr u \<Longrightarrow> end_user_id (unicode x') (unicode y') = Inr u \<Longrightarrow> x = x' \<and> y = y'"
    for x y x' y' u
    by (metis parse_end_user_iff option.inject prod.inject unicode_inj)
  obtain u v where uv: "end_user_id (unicode (tenant c)) (unicode (principal c)) = Inr u"
      "end_user_id (unicode (tenant d)) (unicode (principal d)) = Inr v" using ex by meson
  then have "u = v \<longleftrightarrow> tenant c = tenant d \<and> principal c = principal d" using inj by auto
  then show ?thesis using uv by (simp add: call_identity_def)
qed

theorem end_user_names_one_person_witness:
  "\<exists>k l. call_identity (Some \<lparr>tenant = ''a'', principal = ''b/user:c'', claims = []\<rparr>) None = Inr (Some k)
     \<and> call_identity (Some \<lparr>tenant = ''a/user:b'', principal = ''c'', claims = []\<rparr>) None = Inr (Some l) \<and> kw_user k \<noteq> kw_user l"
  using end_user_names_one_person [of "\<lparr>tenant = ''a'', principal = ''b/user:c'', claims = []\<rparr>"
      "\<lparr>tenant = ''a/user:b'', principal = ''c'', claims = []\<rparr>" None None]
  by (simp add: valid_ctx_def)

end
