(* ===== verification/Metering.thy ===== *)
theory Metering
  imports Pricing_Claims Gateway_Identity Usage_Claims
begin

text \<open>
  The agent's meter: one event per model call (\<open>app/agent/cost/usage_events.py\<close>), the table behind it and
  the hand-over to billing in the same transaction (\<open>app/adapters/postgres/usage_events.py\<close>,
  \<open>postgres-init/19-usage-events.sql\<close>), the spend the caps read (\<open>app/agent/cost/spend.py\<close>), the one place
  a model call is made (\<open>app/agent/cost/metering.py\<close>) and the retention of events
  (\<open>app/agent/cost/usage_events_retention.py\<close>). \<open>uuid5\<close> is the hash of the standard library, an argument;
  so are the model's answer, the model the catalogue resolves an alias to, and the faults of the database.
\<close>

section \<open>The table\<close>

record call_event =
  ce_event_id :: str
  ce_tenant :: str
  ce_principal :: str
  ce_thread_id :: str
  ce_kind :: str
  ce_model_alias :: str
  ce_resolved_model :: "str option"
  ce_input_tokens :: int
  ce_output_tokens :: int
  ce_cached_input_tokens :: int
  ce_total_tokens :: int
  ce_cost_usd :: "rat option"
  ce_price_input :: "rat option"
  ce_price_output :: "rat option"
  ce_occurred_at :: int

text \<open>The appdata database: the agent's events and the billing package's tables.\<close>

record agent_db =
  call_events :: "call_event list"
  ag_meter :: meter

definition CALL_KINDS :: "str list" where
  "CALL_KINDS = [''chat'', ''followups'', ''compaction'', ''subagent'', ''embedding'', ''cron'']"

definition event_row_ok :: "call_event \<Rightarrow> bool" where
  "event_row_ok e \<longleftrightarrow> ce_kind e \<in> set CALL_KINDS
     \<and> list_all (\<lambda>n. 0 \<le> n \<and> n < 2 ^ 31) [ce_input_tokens e, ce_output_tokens e, ce_cached_input_tokens e, ce_total_tokens e]
     \<and> opt_all (\<lambda>x. fits_numeric 12 x \<and> 0 \<le> half_up 12 x) (ce_cost_usd e)
     \<and> opt_all (fits_numeric 12) (ce_price_input e) \<and> opt_all (fits_numeric 12) (ce_price_output e)"

text \<open>The columns keep twelve decimal places.\<close>

definition stored_event :: "call_event \<Rightarrow> call_event" where
  "stored_event e = e\<lparr>ce_cost_usd := map_option (half_up 12) (ce_cost_usd e),
     ce_price_input := map_option (half_up 12) (ce_price_input e), ce_price_output := map_option (half_up 12) (ce_price_output e)\<rparr>"

definition has_event :: "str \<Rightarrow> agent_db \<Rightarrow> bool" where
  "has_event i db \<longleftrightarrow> i \<in> set (map ce_event_id (call_events db))"

section \<open>Writing one event\<close>

datatype insert_error = UsageTableMissing | WriteFailed

record insert_faults =
  table_missing :: bool
  write_lost :: bool
  billing_faults :: usage_faults

definition billed_usage :: "call_event \<Rightarrow> usage" where
  "billed_usage e = \<lparr>u_tenant = ce_tenant e, u_event_id = ce_event_id e, u_kind = ce_kind e,
     u_cost_usd = map_option Finite (ce_cost_usd e),
     u_model = Some (case ce_resolved_model e of Some m \<Rightarrow> if m = [] then ce_model_alias e else m | None \<Rightarrow> ce_model_alias e),
     u_tokens = Some (ce_total_tokens e)\<rparr>"

text \<open>One transaction: the event, and for a new one the hand-over to billing. A raise rolls both back.\<close>

definition insert_event ::
  "usage_settings \<Rightarrow> wallet_env \<Rightarrow> insert_faults \<Rightarrow> call_event \<Rightarrow> agent_db \<Rightarrow> (insert_error + bool) \<times> agent_db" where
  "insert_event cfg env flt e db =
     (if table_missing flt then (Inl UsageTableMissing, db)
      else if write_lost flt \<or> \<not> event_row_ok e then (Inl WriteFailed, db)
      else if has_event (ce_event_id e) db then (Inr False, db)
      else (case record_usage_in cfg env (billing_faults flt) (billed_usage e) (ag_meter db) of
          (Inl _, _) \<Rightarrow> (Inl WriteFailed, db)
        | (Inr _, m) \<Rightarrow> (Inr True, db\<lparr>call_events := call_events db @ [stored_event e], ag_meter := m\<rparr>)))"

definition event_id_for :: "(str \<Rightarrow> str) \<Rightarrow> str \<Rightarrow> str \<Rightarrow> str" where
  "event_id_for uuid5 t message_id = uuid5 (t @ ''|'' @ message_id)"

datatype degradation = D_usage_event_write | D_usage_missing | D_usage_event_identity | D_usage_event_table_missing

record call_context =
  cc_uuid5 :: "str \<Rightarrow> str"
  cc_random_id :: str
  cc_resolve :: "str \<Rightarrow> str option"
  cc_settings :: usage_settings
  cc_env :: wallet_env
  cc_faults :: insert_faults

definition call_row :: "call_context \<Rightarrow> security_ctx \<Rightarrow> str \<Rightarrow> str \<Rightarrow> str \<Rightarrow> str \<Rightarrow> priced_call \<Rightarrow> call_event" where
  "call_row w c thread_id message_id kind a priced = \<lparr>ce_event_id = event_id_for (cc_uuid5 w) (tenant c) message_id,
     ce_tenant = tenant c, ce_principal = principal c, ce_thread_id = thread_id, ce_kind = kind, ce_model_alias = a,
     ce_resolved_model = cc_resolve w a, ce_input_tokens = pc_input_tokens priced, ce_output_tokens = pc_output_tokens priced,
     ce_cached_input_tokens = pc_cached_input_tokens priced, ce_total_tokens = pc_total_tokens priced,
     ce_cost_usd = pc_cost_usd priced, ce_price_input = map_option input_per_token (pc_price priced),
     ce_price_output = map_option output_per_token (pc_price priced), ce_occurred_at = db_now (cc_env w)\<rparr>"

text \<open>\<open>record_call\<close>: what is counted as degraded, and the database afterwards. It never raises.\<close>

definition record_call ::
  "call_context \<Rightarrow> security_ctx option \<Rightarrow> str \<Rightarrow> str option \<Rightarrow> str \<Rightarrow> str \<Rightarrow> priced_call \<Rightarrow> agent_db \<Rightarrow> degradation list \<times> agent_db" where
  "record_call w c thread_id message_id kind a priced db =
     (if \<not> valid_ctx c then ([], db)
      else if kind \<notin> set CALL_KINDS then ([D_usage_event_write], db)
      else if \<not> spent_tokens priced then ([D_usage_missing], db)
      else
        let unnamed = message_id = None \<or> message_id = Some [];
            mid = (if unnamed then cc_random_id w else the message_id);
            noted = (if unnamed then [D_usage_event_identity] else [])
        in case insert_event (cc_settings w) (cc_env w) (cc_faults w) (call_row w (the c) thread_id mid kind a priced) db of
             (Inl UsageTableMissing, db') \<Rightarrow> (noted @ [D_usage_event_table_missing], db')
           | (Inl WriteFailed, db') \<Rightarrow> (noted @ [D_usage_event_write], db')
           | (Inr _, db') \<Rightarrow> (noted, db'))"

section \<open>Making a call\<close>

record model_reply =
  mr_id :: "str option"
  mr_usage :: "usage_report option"

record node_config =
  nc_ctx :: "security_ctx option"
  nc_thread_id :: "str option"

definition no_usage :: usage_report where
  "no_usage = \<lparr>ur_input_tokens = None, ur_output_tokens = None, ur_total_tokens = None, ur_cache_read = None\<rparr>"

record price_call_io =
  io_refresh :: rat
  io_now :: rat
  io_later :: rat
  io_answer :: "str + info_val list"

text \<open>\<open>metered_invoke\<close>: the model's client answers to the model override and the identity of the call; an
  exception it raises is passed on and nothing is metered.\<close>

definition metered_invoke ::
  "(str option \<Rightarrow> call_kwargs option \<Rightarrow> str + model_reply) \<Rightarrow> call_context \<Rightarrow> price_call_io \<Rightarrow> node_config option \<Rightarrow>
   str \<Rightarrow> str \<Rightarrow> str option \<Rightarrow> price_state \<times> agent_db \<Rightarrow> (str + (model_reply \<times> rat \<times> priced_call)) \<times> price_state \<times> agent_db" where
  "metered_invoke llm w pio config kind model_alias invoke_model st =
     (let c = (case config of None \<Rightarrow> None | Some g \<Rightarrow> nc_ctx g);
          thread = (case config of None \<Rightarrow> None | Some g \<Rightarrow> nc_thread_id g);
          thread_id = (case thread of None \<Rightarrow> ''unknown'' | Some t \<Rightarrow> if t = [] then ''unknown'' else t)
      in case call_identity c thread of Inl e \<Rightarrow> (Inl e, st) | Inr ident \<Rightarrow>
         (case llm invoke_model ident of
            Inl e \<Rightarrow> (Inl e, st)
          | Inr reply \<Rightarrow>
              let u = (case mr_usage reply of None \<Rightarrow> no_usage | Some u \<Rightarrow> u);
                  (priced, prices') = price_call (io_refresh pio) (io_now pio) (io_later pio) (io_answer pio) model_alias u (fst st);
                  db' = snd (record_call w c thread_id (mr_id reply) kind model_alias priced (snd st))
              in (Inr (reply, case pc_cost_usd priced of None \<Rightarrow> 0 | Some x \<Rightarrow> x, priced), prices', db')))"

section \<open>What has been spent\<close>

record usage_totals =
  tot_tokens :: int
  tot_cost_usd :: rat

text \<open>\<open>if principal\<close>: an empty name does not narrow the sum.\<close>

definition counted :: "str \<Rightarrow> str option \<Rightarrow> int option \<Rightarrow> call_event \<Rightarrow> bool" where
  "counted t p since e \<longleftrightarrow> ce_tenant e = t \<and> (p = None \<or> p = Some [] \<or> p = Some (ce_principal e))
     \<and> opt_all (\<lambda>s. s \<le> ce_occurred_at e) since"

definition usage_summary :: "str \<Rightarrow> str option \<Rightarrow> int option \<Rightarrow> agent_db \<Rightarrow> usage_totals" where
  "usage_summary t p since db = (let es = filter (counted t p since) (call_events db) in
     \<lparr>tot_tokens = sum_list (map ce_total_tokens es),
      tot_cost_usd = sum_list (map (\<lambda>e. case ce_cost_usd e of None \<Rightarrow> 0 | Some x \<Rightarrow> x) es)\<rparr>)"

section \<open>Retention\<close>

definition USAGE_EVENT_MIN_RETENTION_DAYS :: int where
  "USAGE_EVENT_MIN_RETENTION_DAYS = 35"

definition delete_older_than :: "int \<Rightarrow> int \<Rightarrow> nat \<Rightarrow> agent_db \<Rightarrow> nat \<times> agent_db" where
  "delete_older_than now days n db =
     (case delete_first n (\<lambda>e. ce_occurred_at e < now - days * day_us) (call_events db) of
        (gone, es) \<Rightarrow> (gone, db\<lparr>call_events := es\<rparr>))"

fun event_sweep_loop :: "(nat \<Rightarrow> int) \<Rightarrow> int \<Rightarrow> nat \<Rightarrow> nat \<Rightarrow> nat \<Rightarrow> agent_db \<Rightarrow> (nat \<times> bool) \<times> agent_db" where
  "event_sweep_loop nows days n 0 deleted db = ((deleted, False), db)"
| "event_sweep_loop nows days n (Suc k) deleted db =
     (case delete_older_than (nows 0) days n db of
        (gone, db') \<Rightarrow>
          if gone < n then ((deleted + gone, True), db')
          else event_sweep_loop (\<lambda>i. nows (Suc i)) days n k (deleted + gone) db')"

definition sweep_call_events :: "(nat \<Rightarrow> int) \<Rightarrow> int \<Rightarrow> nat \<Rightarrow> nat \<Rightarrow> agent_db \<Rightarrow> (wallet_error + (nat \<times> bool)) \<times> agent_db" where
  "sweep_call_events nows older_than_days batch_size max_batches db =
     (if older_than_days < USAGE_EVENT_MIN_RETENTION_DAYS then (Inl (BadArgument ''older_than_days''), db)
      else (case event_sweep_loop nows older_than_days batch_size max_batches 0 db of (r, db') \<Rightarrow> (Inr r, db')))"

end
