(* ===== verification/Metering_Claims.thy ===== *)
theory Metering_Claims
  imports Metering
begin

text \<open>
  Facts of the agent's meter and its properties: a call is metered and handed to billing once, and what
  the retention deletes lies before every window a cap reads.
\<close>

section \<open>One event\<close>

lemma event_id_simps [simp]:
  "ce_event_id (stored_event e) = ce_event_id e"
  "ce_event_id (call_row w c th mid kind a priced) = event_id_for (cc_uuid5 w) (tenant c) mid"
  by (simp_all add: stored_event_def call_row_def)

lemma insert_event_cases:
  assumes "insert_event cfg env flt e db = (r, db')"
  obtains (lost) err where "r = Inl err" "db' = db"
  | (replay) "r = Inr False" "db' = db" "has_event (ce_event_id e) db"
  | (new) "r = Inr True" "\<not> has_event (ce_event_id e) db" "call_events db' = call_events db @ [stored_event e]"
      "ag_meter db' = snd (record_usage_in cfg env (billing_faults flt) (billed_usage e) (ag_meter db))"
proof (cases "r = Inr True")
  case True
  then show thesis using assms new by (auto simp: insert_event_def split: if_splits sum.splits prod.splits)
next
  case False
  then show thesis using assms lost replay by (auto simp: insert_event_def split: if_splits sum.splits prod.splits)
qed

lemma insert_event_replay: "has_event (ce_event_id e) db \<Longrightarrow> snd (insert_event cfg env flt e db) = db"
  by (simp add: insert_event_def)

lemma record_call_named:
  assumes "record_call w (Some c) th (Some mid) kind a priced db = (ds, db')" "mid \<noteq> []"
  obtains (skipped) "db' = db" "\<not> valid_ctx (Some c) \<or> ds \<noteq> []"
  | (tried) r where "insert_event (cc_settings w) (cc_env w) (cc_faults w) (call_row w c th mid kind a priced) db = (r, db')"
      "ds = (case r of Inl UsageTableMissing \<Rightarrow> [D_usage_event_table_missing] | Inl WriteFailed \<Rightarrow> [D_usage_event_write] | Inr _ \<Rightarrow> [])"
proof (cases "valid_ctx (Some c) \<and> kind \<in> set CALL_KINDS \<and> spent_tokens priced")
  case True
  obtain r d where r: "insert_event (cc_settings w) (cc_env w) (cc_faults w) (call_row w c th mid kind a priced) db = (r, d)" by force
  then have "(ds, db') = (case r of Inl UsageTableMissing \<Rightarrow> [D_usage_event_table_missing] | Inl WriteFailed \<Rightarrow> [D_usage_event_write] | Inr _ \<Rightarrow> [], d)"
    using assms True by (auto simp: record_call_def Let_def split: sum.splits insert_error.splits)
  then show thesis using tried r by simp
next
  case False
  then show thesis using assms skipped by (auto simp: record_call_def split: if_splits)
qed

lemma record_call_replay:
  assumes "has_event (event_id_for (cc_uuid5 w) (tenant c) mid) db" "mid \<noteq> []"
  shows "snd (record_call w (Some c) th (Some mid) kind a priced db) = db"
proof -
  obtain ds db' where r: "record_call w (Some c) th (Some mid) kind a priced db = (ds, db')" by force
  from r assms(2) show ?thesis
  proof (cases rule: record_call_named)
    case (tried x)
    then show ?thesis using insert_event_replay [of "call_row w c th mid kind a priced" db "cc_settings w" "cc_env w" "cc_faults w"] assms(1) r
      by simp
  qed (simp add: r)
qed

definition event_cost :: "call_event \<Rightarrow> rat" where
  "event_cost e = (case ce_cost_usd e of None \<Rightarrow> 0 | Some x \<Rightarrow> x)"

lemma usage_summary_cost: "tot_cost_usd (usage_summary t p since db) = sum_list (map event_cost (filter (counted t p since) (call_events db)))"
  by (simp add: usage_summary_def Let_def event_cost_def [abs_def])

lemma usage_summary_snoc:
  "call_events db' = call_events db @ [e] \<Longrightarrow>
   tot_cost_usd (usage_summary t p since db') = tot_cost_usd (usage_summary t p since db) + (if counted t p since e then event_cost e else 0)"
  by (simp add: usage_summary_cost)

lemma event_cost_nonneg: "event_row_ok e \<Longrightarrow> 0 \<le> event_cost (stored_event e)"
  by (auto simp: event_cost_def stored_event_def event_row_ok_def opt_all_def split: option.splits)

section \<open>Retention\<close>

lemma filter_filter_keep: "(\<And>x. q x \<Longrightarrow> p x) \<Longrightarrow> filter q (filter p xs) = filter q xs"
  by (induction xs) auto

lemma delete_older_than_keeps:
  assumes "delete_older_than now days n db = (gone, db')"
  shows "filter (\<lambda>e. now - days * day_us \<le> ce_occurred_at e) (call_events db') = filter (\<lambda>e. now - days * day_us \<le> ce_occurred_at e) (call_events db)"
    "ag_meter db' = ag_meter db"
proof -
  obtain es where es: "delete_first n (\<lambda>e. ce_occurred_at e < now - days * day_us) (call_events db) = (gone, es)" "db' = db\<lparr>call_events := es\<rparr>"
    using assms by (auto simp: delete_older_than_def split: prod.splits)
  then show "filter (\<lambda>e. now - days * day_us \<le> ce_occurred_at e) (call_events db') = filter (\<lambda>e. now - days * day_us \<le> ce_occurred_at e) (call_events db)"
    using delete_first_keeps [OF es(1)] es(2) by (simp add: not_less)
  show "ag_meter db' = ag_meter db" using es(2) by simp
qed

lemma event_sweep_keeps:
  assumes "event_sweep_loop nows days n k deleted db = (r, db')" "\<And>i. nows i \<le> now"
  shows "filter (\<lambda>e. now - days * day_us \<le> ce_occurred_at e) (call_events db') = filter (\<lambda>e. now - days * day_us \<le> ce_occurred_at e) (call_events db)
    \<and> ag_meter db' = ag_meter db"
  using assms
proof (induction nows days n k deleted db arbitrary: r db' rule: event_sweep_loop.induct)
  case (2 nows days n k deleted db)
  obtain gone db1 where d: "delete_older_than (nows 0) days n db = (gone, db1)" by force
  have "filter (\<lambda>e. now - days * day_us \<le> ce_occurred_at e) (filter (\<lambda>e. nows 0 - days * day_us \<le> ce_occurred_at e) xs)
      = filter (\<lambda>e. now - days * day_us \<le> ce_occurred_at e) xs" for xs
    using "2.prems"(2) [of 0] by (intro filter_filter_keep) linarith
  then have s: "filter (\<lambda>e. now - days * day_us \<le> ce_occurred_at e) (call_events db1) = filter (\<lambda>e. now - days * day_us \<le> ce_occurred_at e) (call_events db)"
    using delete_older_than_keeps [OF d] by metis
  show ?case
  proof (cases "gone < n")
    case True
    then show ?thesis using "2.prems"(1) d s delete_older_than_keeps(2) [OF d] by auto
  next
    case False
    then have "event_sweep_loop (\<lambda>i. nows (Suc i)) days n k (deleted + gone) db1 = (r, db')" using "2.prems"(1) d by simp
    from "2.IH" [OF d [symmetric] False this] show ?thesis using s delete_older_than_keeps(2) [OF d] "2.prems"(2) by simp
  qed
qed simp

lemma usage_summary_since:
  assumes "filter (\<lambda>e. x \<le> ce_occurred_at e) (call_events db') = filter (\<lambda>e. x \<le> ce_occurred_at e) (call_events db)" "x \<le> since"
  shows "usage_summary t p (Some since) db' = usage_summary t p (Some since) db"
proof -
  have "filter (counted t p (Some since)) (filter (\<lambda>e. x \<le> ce_occurred_at e) es) = filter (counted t p (Some since)) es" for es
    by (intro filter_filter_keep) (use assms(2) in \<open>auto simp: counted_def opt_all_def\<close>)
  then have "filter (counted t p (Some since)) (call_events db') = filter (counted t p (Some since)) (call_events db)"
    using assms(1) by metis
  then show ?thesis by (simp add: usage_summary_def)
qed

lemma sweep_keeps_summary:
  assumes "sweep_call_events nows days n k db = (r, db')" "\<And>i. nows i \<le> now" "now - USAGE_EVENT_MIN_RETENTION_DAYS * day_us \<le> since"
  shows "usage_summary t p (Some since) db' = usage_summary t p (Some since) db"
proof (cases "days < USAGE_EVENT_MIN_RETENTION_DAYS")
  case True
  then show ?thesis using assms(1) by (simp add: sweep_call_events_def)
next
  case False
  then obtain q where q: "event_sweep_loop nows days n k 0 db = (q, db')"
    using assms(1) by (auto simp: sweep_call_events_def split: prod.splits)
  have "USAGE_EVENT_MIN_RETENTION_DAYS * day_us \<le> days * day_us" using False by (simp add: day_us_def)
  then show ?thesis using event_sweep_keeps [OF q assms(2)] assms(3) by (intro usage_summary_since [of "now - days * day_us"]) auto
qed

section \<open>Properties\<close>


definition sample_call_context :: call_context where
  "sample_call_context = \<lparr>cc_uuid5 = (\<lambda>s. s), cc_random_id = ''r'', cc_resolve = (\<lambda>_. None), cc_settings = sample_usage_cfg,
     cc_env = sample_env 500 ''5'', cc_faults = \<lparr>table_missing = False, write_lost = False, billing_faults = sample_faults False\<rparr>\<rparr>"

definition sample_caller :: security_ctx where
  "sample_caller = \<lparr>tenant = ''acme'', principal = ''ann'', claims = []\<rparr>"

definition sample_priced :: priced_call where
  "sample_priced = \<lparr>pc_input_tokens = 100, pc_output_tokens = 10, pc_cached_input_tokens = 0, pc_total_tokens = 110,
     pc_cost_usd = Some (1/100), pc_price = None\<rparr>"

definition sample_db :: agent_db where
  "sample_db = \<lparr>call_events = [], ag_meter = sample_meter\<rparr>"

definition sample_metered_db :: agent_db where
  "sample_metered_db = snd (record_call sample_call_context (Some sample_caller) ''t'' (Some ''run-1'') ''chat'' ''chat'' sample_priced sample_db)"


end
