(* ===== verification/Budgets.thy ===== *)
theory Budgets
  imports Metering_Claims "HOL-Library.AList"
begin

text \<open>
  The spend allowance: may this caller start another turn (\<open>app/agent/cost/budgets.py\<close>)? With the holds of
  running turns (\<open>app/agent/cost/budget_holds.py\<close>, \<open>app/adapters/postgres/budget_holds.py\<close>), the operator's
  overrides and their cache (\<open>app/agent/cost/budget_policies.py\<close>,
  \<open>app/adapters/postgres/budget_policies.py\<close>) and the questions an entry point asks
  (\<open>app/agent/runtime/core.py\<close>). A failing read is an argument of the operation that makes it; logging, the
  warning thresholds and metrics are left out, since no answer depends on them.
\<close>

section \<open>Civil time\<close>

text \<open>A UTC \<open>datetime\<close>: year, month, day and the microsecond of the day.\<close>

record civil =
  year :: int
  month :: nat
  day :: nat
  micros :: int

definition leap :: "int \<Rightarrow> bool" where
  "leap y \<longleftrightarrow> y mod 4 = 0 \<and> (y mod 100 \<noteq> 0 \<or> y mod 400 = 0)"

definition days_in_month :: "int \<Rightarrow> nat \<Rightarrow> nat" where
  "days_in_month y m = (if m = 2 then (if leap y then 29 else 28) else if m \<in> {4, 6, 9, 11} then 30 else 31)"

definition days_before_year :: "int \<Rightarrow> int" where
  "days_before_year y = (y - 1) * 365 + (y - 1) div 4 - (y - 1) div 100 + (y - 1) div 400"

definition days_before_month :: "int \<Rightarrow> nat \<Rightarrow> int" where
  "days_before_month y m = (\<Sum>k\<leftarrow>[1..<m]. int (days_in_month y k))"

definition valid_civil :: "civil \<Rightarrow> bool" where
  "valid_civil c \<longleftrightarrow> 1 \<le> year c \<and> year c \<le> 9999 \<and> 1 \<le> month c \<and> month c \<le> 12
     \<and> 1 \<le> day c \<and> day c \<le> days_in_month (year c) (month c) \<and> 0 \<le> micros c \<and> micros c < day_us"

text \<open>Microseconds since the epoch, on the proleptic Gregorian ordinal of \<open>date.toordinal\<close>.\<close>

definition instant :: "civil \<Rightarrow> int" where
  "instant c = (days_before_year (year c) + days_before_month (year c) (month c) + int (day c) - 719163) * day_us + micros c"

section \<open>Windows\<close>

datatype budget_scope = Tenant_scope | Principal_scope
datatype budget_window = Day_window | Month_window

definition DAILY_WINDOW :: int where
  "DAILY_WINDOW = 24 * hour_us"

definition month_first :: "civil \<Rightarrow> civil" where
  "month_first now = now\<lparr>day := 1, micros := 0\<rparr>"

definition window_start :: "budget_window \<Rightarrow> civil \<Rightarrow> int" where
  "window_start w now = (case w of Day_window \<Rightarrow> instant now - DAILY_WINDOW | Month_window \<Rightarrow> instant (month_first now))"

text \<open>The first of the next month; \<open>replace\<close> refuses the year 10000.\<close>

definition window_resets_at :: "budget_window \<Rightarrow> civil \<Rightarrow> str + civil option" where
  "window_resets_at w now = (case w of
       Day_window \<Rightarrow> Inr None
     | Month_window \<Rightarrow>
         let first = month_first now
         in if month first = 12 then
              (if year first + 1 > 9999 then Inl ''ValueError'' else Inr (Some (first\<lparr>year := year first + 1, month := 1\<rparr>)))
            else Inr (Some (first\<lparr>month := month first + 1\<rparr>)))"

section \<open>Overrides\<close>

record override =
  ov_subject :: str
  ov_period :: str
  ov_limit :: "rat option"

definition TENANT_SUBJECT :: str where "TENANT_SUBJECT = []"
definition ALL_PRINCIPALS :: str where "ALL_PRINCIPALS = ''*''"
definition PERIODS :: "str list" where "PERIODS = [''day'', ''month'']"

record policy_row =
  pol_tenant :: str
  pol_subject :: str
  pol_period :: str
  pol_limit :: "rat option"
  pol_updated_by :: str

definition row_override :: "policy_row \<Rightarrow> override" where
  "row_override r = \<lparr>ov_subject = pol_subject r, ov_period = pol_period r, ov_limit = pol_limit r\<rparr>"

definition for_person :: "str \<Rightarrow> str \<Rightarrow> policy_row list \<Rightarrow> override list" where
  "for_person t p rows = map row_override (filter (\<lambda>r. pol_tenant r = t \<and> pol_subject r \<in> {TENANT_SUBJECT, ALL_PRINCIPALS, p}) rows)"

definition list_overrides :: "str \<Rightarrow> policy_row list \<Rightarrow> override list" where
  "list_overrides t rows = map row_override (sort_key (\<lambda>r. (pol_subject r, pol_period r)) (filter (\<lambda>r. pol_tenant r = t) rows))"

definition same_policy :: "str \<Rightarrow> str \<Rightarrow> str \<Rightarrow> policy_row \<Rightarrow> bool" where
  "same_policy t s period r \<longleftrightarrow> pol_tenant r = t \<and> pol_subject r = s \<and> pol_period r = period"

text \<open>\<open>NUMERIC(12, 6)\<close>.\<close>

definition fits_usd :: "rat \<Rightarrow> bool" where
  "fits_usd x \<longleftrightarrow> \<bar>half_up 6 x\<bar> < 10 ^ 6"

definition upsert_policy :: "policy_row \<Rightarrow> policy_row list \<Rightarrow> (str + unit) \<times> policy_row list" where
  "upsert_policy r rows =
     (if \<not> opt_all fits_usd (pol_limit r) then (Inl ''NumericValueOutOfRange'', rows)
      else
        let r' = r\<lparr>pol_limit := map_option (half_up 6) (pol_limit r)\<rparr>
        in if (\<exists>q\<in>set rows. same_policy (pol_tenant r) (pol_subject r) (pol_period r) q)
           then (Inr (), map (\<lambda>q. if same_policy (pol_tenant r) (pol_subject r) (pol_period r) q then r' else q) rows)
           else (Inr (), rows @ [r']))"

text \<open>The process's cache: who, when fetched (monotonic seconds), the rows.\<close>

type_synonym policy_cache = "((str \<times> str) \<times> rat \<times> override list) list"

definition CACHE_MAX :: nat where "CACHE_MAX = 10000"

datatype policy_read = Policy_rows "policy_row list" | Policy_table_missing | Policy_fault str

definition overrides_for ::
  "rat \<Rightarrow> rat \<Rightarrow> policy_read \<Rightarrow> str \<Rightarrow> str \<Rightarrow> policy_cache \<Rightarrow> (str + override list) \<times> policy_cache" where
  "overrides_for refresh now table t p cache =
     (case (case map_of cache (t, p) of Some (fetched, rows) \<Rightarrow> if now - fetched < refresh then Some rows else None | None \<Rightarrow> None) of
        Some rows \<Rightarrow> (Inr rows, cache)
      | None \<Rightarrow>
          (case table of
             Policy_fault e \<Rightarrow> (Inl e, cache)
           | Policy_table_missing \<Rightarrow> (Inr [], cache)
           | Policy_rows db \<Rightarrow>
               let rows = for_person t p db; kept = (if CACHE_MAX \<le> length cache then [] else cache)
               in (Inr rows, AList.update (t, p) (now, rows) kept)))"

text \<open>The operator's writes; both forget the cache.\<close>

definition set_override ::
  "str \<Rightarrow> str \<Rightarrow> str \<Rightarrow> rat option \<Rightarrow> str \<Rightarrow> policy_row list \<times> policy_cache \<Rightarrow> (str + unit) \<times> policy_row list \<times> policy_cache" where
  "set_override t s period l updated_by st =
     (if period \<notin> set PERIODS then (Inl ''ValueError'', st)
      else if opt_all (\<lambda>x. x < 0) l \<and> l \<noteq> None then (Inl ''ValueError'', st)
      else if t = [] \<or> updated_by = [] then (Inl ''ValueError'', st)
      else (case upsert_policy \<lparr>pol_tenant = t, pol_subject = s, pol_period = period, pol_limit = l, pol_updated_by = updated_by\<rparr> (fst st) of
          (Inl e, rows) \<Rightarrow> (Inl e, rows, snd st)
        | (Inr _, rows) \<Rightarrow> (Inr (), rows, [])))"

definition clear_override :: "str \<Rightarrow> str \<Rightarrow> str \<Rightarrow> policy_row list \<times> policy_cache \<Rightarrow> bool \<times> policy_row list \<times> policy_cache" where
  "clear_override t s period st =
     (\<exists>r\<in>set (fst st). same_policy t s period r, filter (\<lambda>r. \<not> same_policy t s period r) (fst st), [])"

section \<open>Limits\<close>

record budget_limit =
  bl_scope :: budget_scope
  bl_window :: budget_window
  bl_limit :: rat

record budget_defaults =
  def_tenant_day :: rat
  def_tenant_month :: rat
  def_principal_day :: rat
  def_principal_month :: rat

definition window_period :: "budget_window \<Rightarrow> str" where
  "window_period w = (case w of Day_window \<Rightarrow> ''day'' | Month_window \<Rightarrow> ''month'')"

text \<open>\<open>by_key\<close>: of two rows with one key the later counts.\<close>

definition override_of :: "override list \<Rightarrow> str \<Rightarrow> budget_window \<Rightarrow> override option" where
  "override_of ovs s w = List.find (\<lambda>o'. ov_subject o' = s \<and> ov_period o' = window_period w) (rev ovs)"

fun first_override :: "override list \<Rightarrow> budget_window \<Rightarrow> str list \<Rightarrow> override option" where
  "first_override ovs w [] = None"
| "first_override ovs w (s # ss) = (case override_of ovs s w of Some r \<Rightarrow> Some r | None \<Rightarrow> first_override ovs w ss)"

definition limit_value :: "override list \<Rightarrow> budget_window \<Rightarrow> str list \<Rightarrow> rat \<Rightarrow> bool \<Rightarrow> rat option" where
  "limit_value ovs w subjects dflt always = (case first_override ovs w subjects of
       Some r \<Rightarrow> ov_limit r
     | None \<Rightarrow> if always \<or> 0 < dflt then Some dflt else None)"

definition resolve_limits :: "budget_defaults \<Rightarrow> override list \<Rightarrow> str \<Rightarrow> budget_limit list" where
  "resolve_limits d ovs p = List.map_filter
     (\<lambda>(sc, w, subjects, dflt, always). map_option (\<lambda>v. \<lparr>bl_scope = sc, bl_window = w, bl_limit = v\<rparr>) (limit_value ovs w subjects dflt always))
     [(Tenant_scope, Day_window, [TENANT_SUBJECT], def_tenant_day d, True),
      (Tenant_scope, Month_window, [TENANT_SUBJECT], def_tenant_month d, False),
      (Principal_scope, Day_window, [p, ALL_PRINCIPALS], def_principal_day d, False),
      (Principal_scope, Month_window, [p, ALL_PRINCIPALS], def_principal_month d, False)]"

definition configured_limits :: "budget_defaults \<Rightarrow> budget_limit list" where
  "configured_limits d = resolve_limits d [] []"

section \<open>Holds\<close>

record budget_hold =
  bh_id :: str
  bh_tenant :: str
  bh_amount :: rat
  bh_created_at :: int

definition RESERVATION_STALE_AFTER_MINUTES :: int where
  "RESERVATION_STALE_AFTER_MINUTES = 5"

definition stale_before :: "int \<Rightarrow> int" where
  "stale_before now = now - RESERVATION_STALE_AFTER_MINUTES * 60 * 1000000"

text \<open>One transaction: the sweep of the tenant's stale holds and the insert; a row the table refuses undoes both.\<close>

definition pg_reserve :: "int \<Rightarrow> str \<Rightarrow> str \<Rightarrow> rat \<Rightarrow> budget_hold list \<Rightarrow> (str + unit) \<times> budget_hold list" where
  "pg_reserve now t i amount hs =
     (let kept = filter (\<lambda>h. \<not> (bh_tenant h = t \<and> bh_created_at h \<le> stale_before now)) hs
      in if \<not> fits_usd amount then (Inl ''NumericValueOutOfRange'', hs)
         else if half_up 6 amount \<le> 0 then (Inl ''CheckViolation'', hs)
         else if i \<in> set (map bh_id kept) then (Inl ''UniqueViolation'', hs)
         else (Inr (), kept @ [\<lparr>bh_id = i, bh_tenant = t, bh_amount = half_up 6 amount, bh_created_at = now\<rparr>]))"

definition pg_release :: "str \<Rightarrow> str \<Rightarrow> budget_hold list \<Rightarrow> budget_hold list" where
  "pg_release t i hs = filter (\<lambda>h. \<not> (bh_id h = i \<and> bh_tenant h = t)) hs"

definition pg_in_flight :: "int \<Rightarrow> str \<Rightarrow> budget_hold list \<Rightarrow> rat" where
  "pg_in_flight now t hs = sum_list (map bh_amount (filter (\<lambda>h. bh_tenant h = t \<and> stale_before now < bh_created_at h) hs))"

definition reserve_budget ::
  "int \<Rightarrow> str \<Rightarrow> bool \<Rightarrow> security_ctx option \<Rightarrow> rat \<Rightarrow> budget_hold list \<Rightarrow> str option \<times> budget_hold list" where
  "reserve_budget now new_id fault c amount hs =
     (if \<not> valid_ctx c \<or> amount \<le> 0 then (None, hs)
      else if fault then (None, hs)
      else (case pg_reserve now (tenant (the c)) new_id amount hs of
          (Inl _, hs') \<Rightarrow> (None, hs')
        | (Inr _, hs') \<Rightarrow> (Some new_id, hs')))"

definition release_budget_reservation :: "bool \<Rightarrow> security_ctx option \<Rightarrow> str option \<Rightarrow> budget_hold list \<Rightarrow> budget_hold list" where
  "release_budget_reservation fault c hold hs =
     (if \<not> valid_ctx c \<or> hold = None \<or> hold = Some [] then hs
      else if fault then hs else pg_release (tenant (the c)) (the hold) hs)"

definition in_flight_reservation :: "int \<Rightarrow> bool \<Rightarrow> str \<Rightarrow> budget_hold list \<Rightarrow> rat" where
  "in_flight_reservation now fault t hs = (if fault then 0 else pg_in_flight now t hs)"

section \<open>The check\<close>

datatype allowance_status = AL_ok | AL_exceeded | AL_unavailable | AL_insufficient_credits

record allowance =
  al_status :: allowance_status
  al_scope :: budget_scope
  al_window :: budget_window
  al_spent :: rat
  al_reserved :: rat
  al_limit :: rat
  al_resets_at :: "civil option"
  al_degraded :: bool
  al_available_credits :: "rat option"
  al_reserved_credits :: "rat option"

definition Allowance :: "allowance_status \<Rightarrow> allowance" where
  "Allowance st = \<lparr>al_status = st, al_scope = Tenant_scope, al_window = Day_window, al_spent = 0, al_reserved = 0, al_limit = 0,
     al_resets_at = None, al_degraded = False, al_available_credits = None, al_reserved_credits = None\<rparr>"

definition al_refused :: "allowance \<Rightarrow> bool" where
  "al_refused a \<longleftrightarrow> al_status a \<noteq> AL_ok"

text \<open>What a check reads: the clocks, the tables, and which of its reads fail.\<close>

record budget_reads =
  br_now :: civil
  br_db_now :: int
  br_db :: agent_db
  br_holds :: "budget_hold list"
  br_spend_fault :: "budget_limit \<Rightarrow> str option"
  br_hold_fault :: bool
  br_wallet_fault :: bool
  br_billing :: usage_settings
  br_fail_policy :: str

definition spend_of :: "budget_reads \<Rightarrow> security_ctx \<Rightarrow> budget_limit \<Rightarrow> str + (rat \<times> rat)" where
  "spend_of r c l = (case br_spend_fault r l of
       Some e \<Rightarrow> Inl e
     | None \<Rightarrow> Inr
         (tot_cost_usd (usage_summary (tenant c) (if bl_scope l = Principal_scope then Some (principal c) else None)
            (Some (window_start (bl_window l) (br_now r))) (br_db r)),
          if bl_scope l = Tenant_scope then in_flight_reservation (br_db_now r) (br_hold_fault r) (tenant c) (br_holds r) else 0))"

definition limit_allowance :: "allowance_status \<Rightarrow> civil \<Rightarrow> budget_limit \<Rightarrow> rat \<times> rat \<Rightarrow> str + allowance" where
  "limit_allowance st now l sr = (case window_resets_at (bl_window l) now of
       Inl e \<Rightarrow> Inl e
     | Inr reset \<Rightarrow> Inr ((Allowance st)\<lparr>al_scope := bl_scope l, al_window := bl_window l, al_spent := fst sr, al_reserved := snd sr,
         al_limit := bl_limit l, al_resets_at := reset\<rparr>))"

fun first_exceeded :: "(budget_limit \<times> rat \<times> rat) list \<Rightarrow> (budget_limit \<times> rat \<times> rat) option" where
  "first_exceeded [] = None"
| "first_exceeded ((l, spent, reserved) # rest) =
     (if bl_limit l \<le> spent + reserved then Some (l, spent, reserved) else first_exceeded rest)"

text \<open>The limit closest to its cap: the first of the largest fractions.\<close>

definition limit_fraction :: "budget_limit \<times> rat \<times> rat \<Rightarrow> rat" where
  "limit_fraction x = (case x of (l, spent, reserved) \<Rightarrow> if 0 < bl_limit l then (spent + reserved) / bl_limit l else 0)"

fun closest_loop :: "civil \<Rightarrow> (budget_limit \<times> rat \<times> rat) list \<Rightarrow> rat \<Rightarrow> allowance option \<Rightarrow> str + allowance option" where
  "closest_loop now [] best acc = Inr acc"
| "closest_loop now (x # xs) best acc =
     (if best < limit_fraction x then
        (case limit_allowance AL_ok now (fst x) (snd x) of Inl e \<Rightarrow> Inl e | Inr a \<Rightarrow> closest_loop now xs (limit_fraction x) (Some a))
      else closest_loop now xs best acc)"

text \<open>\<open>_credit_check\<close>: a refusal or no objection, and whether the wallet went unread.\<close>

definition wallet_read :: "budget_reads \<Rightarrow> str \<Rightarrow> (balance option) option" where
  "wallet_read r t = (if br_wallet_fault r then None
     else Some (account_balance_in (br_db_now r) t (wal (mt_billing (ag_meter (br_db r))))))"

definition credit_check :: "budget_reads \<Rightarrow> security_ctx \<Rightarrow> str + (allowance option \<times> bool)" where
  "credit_check r c = (case admit (br_billing r) (wallet_read r (tenant c))
         (Finite (in_flight_reservation (br_db_now r) (br_hold_fault r) (tenant c) (br_holds r))) of
       Inl e \<Rightarrow> Inl (error_class e)
     | Inr ad \<Rightarrow> Inr (case ad_status ad of
           AD_exhausted \<Rightarrow> (Some ((Allowance AL_insufficient_credits)\<lparr>al_available_credits := ad_available ad, al_reserved_credits := ad_reserved ad\<rparr>), False)
         | AD_unavailable \<Rightarrow> (Some (Allowance AL_unavailable), False)
         | AD_degraded \<Rightarrow> (None, True)
         | AD_allowed \<Rightarrow> (None, False)))"

definition check_allowance :: "budget_reads \<Rightarrow> security_ctx option \<Rightarrow> budget_limit list \<Rightarrow> str + allowance" where
  "check_allowance r ctx limits =
     (if \<not> valid_ctx ctx then Inr (Allowance AL_ok)
      else (case sequence_res (map (spend_of r (the ctx)) limits) of
          Inl _ \<Rightarrow> Inr (if br_fail_policy r = ''closed'' then Allowance AL_unavailable else (Allowance AL_ok)\<lparr>al_degraded := True\<rparr>)
        | Inr spends \<Rightarrow>
            (case first_exceeded (zip limits spends) of
               Some (l, sr) \<Rightarrow> limit_allowance AL_exceeded (br_now r) l sr
             | None \<Rightarrow>
                 (case credit_check r (the ctx) of
                    Inl e \<Rightarrow> Inl e
                  | Inr (Some refusal, _) \<Rightarrow> Inr refusal
                  | Inr (None, unread) \<Rightarrow>
                      (case closest_loop (br_now r) (zip limits spends) (- 1) None of
                         Inl e \<Rightarrow> Inl e
                       | Inr closest \<Rightarrow>
                           let a = (case closest of None \<Rightarrow> Allowance AL_ok | Some a \<Rightarrow> a)
                           in Inr (if unread then a\<lparr>al_degraded := True\<rparr> else a))))))"

definition check_budget ::
  "rat \<Rightarrow> rat \<Rightarrow> policy_read \<Rightarrow> budget_reads \<Rightarrow> security_ctx option \<Rightarrow> budget_defaults \<Rightarrow> policy_cache \<Rightarrow> (str + allowance) \<times> policy_cache" where
  "check_budget refresh now table r ctx d cache =
     (if \<not> valid_ctx ctx then (Inr (Allowance AL_ok), cache)
      else (case overrides_for refresh now table (tenant (the ctx)) (principal (the ctx)) cache of
          (Inl e, cache') \<Rightarrow>
            if br_fail_policy r = ''closed'' then (Inr (Allowance AL_unavailable), cache')
            else (map_sum id (\<lambda>a. if al_refused a then a else a\<lparr>al_degraded := True\<rparr>)
                    (check_allowance r ctx (resolve_limits d [] (principal (the ctx)))), cache')
        | (Inr ovs, cache') \<Rightarrow> (check_allowance r ctx (resolve_limits d ovs (principal (the ctx))), cache')))"

section \<open>What a caller sees\<close>

record limit_status =
  ls_limit :: budget_limit
  ls_spent :: rat
  ls_reserved :: rat
  ls_resets_at :: "civil option"

definition remaining_usd :: "limit_status \<Rightarrow> rat" where
  "remaining_usd s = max (bl_limit (ls_limit s) - ls_spent s - ls_reserved s) 0"

definition status_of :: "budget_reads \<Rightarrow> security_ctx \<Rightarrow> budget_limit \<Rightarrow> str + limit_status" where
  "status_of r c l = (case spend_of r c l of Inl e \<Rightarrow> Inl e | Inr sr \<Rightarrow>
     (case window_resets_at (bl_window l) (br_now r) of Inl e \<Rightarrow> Inl e | Inr reset \<Rightarrow>
        Inr \<lparr>ls_limit = l, ls_spent = fst sr, ls_reserved = snd sr, ls_resets_at = reset\<rparr>))"

definition usage_status ::
  "rat \<Rightarrow> rat \<Rightarrow> policy_read \<Rightarrow> budget_reads \<Rightarrow> security_ctx \<Rightarrow> budget_defaults \<Rightarrow> policy_cache \<Rightarrow> (str + limit_status list) \<times> policy_cache" where
  "usage_status refresh now table r c d cache =
     (case overrides_for refresh now table (tenant c) (principal c) cache of
        (Inl e, cache') \<Rightarrow> (Inl e, cache')
      | (Inr ovs, cache') \<Rightarrow> (sequence_res (map (status_of r c) (resolve_limits d ovs (principal c))), cache'))"

datatype budget_error_code = TENANT_BUDGET_EXCEEDED | PERSONAL_BUDGET_EXCEEDED | BUDGET_CHECK_UNAVAILABLE | INSUFFICIENT_CREDITS

record error_envelope =
  ee_code :: budget_error_code
  ee_message :: str
  ee_scope :: "budget_scope option"
  ee_window :: "budget_window option"
  ee_resets_at :: "civil option"

definition window_word :: "budget_window \<Rightarrow> str" where
  "window_word w = (case w of Day_window \<Rightarrow> ''daily'' | Month_window \<Rightarrow> ''monthly'')"

definition refusal_envelope :: "allowance \<Rightarrow> error_envelope" where
  "refusal_envelope a = (case al_status a of
       AL_unavailable \<Rightarrow> \<lparr>ee_code = BUDGET_CHECK_UNAVAILABLE,
         ee_message = ''Usage could not be verified right now, so this request was not started. Please try again shortly.'',
         ee_scope = None, ee_window = None, ee_resets_at = None\<rparr>
     | AL_insufficient_credits \<Rightarrow> \<lparr>ee_code = INSUFFICIENT_CREDITS,
         ee_message = ''This organisation has no credits left, so this request was not started. Credits need to be added before it can continue.'',
         ee_scope = Some Tenant_scope, ee_window = None, ee_resets_at = None\<rparr>
     | _ \<Rightarrow>
         if al_scope a = Principal_scope then \<lparr>ee_code = PERSONAL_BUDGET_EXCEEDED,
           ee_message = ''You have reached your personal '' @ window_word (al_window a) @ '' usage budget. Please try again later.'',
           ee_scope = Some (al_scope a), ee_window = Some (al_window a), ee_resets_at = al_resets_at a\<rparr>
         else \<lparr>ee_code = TENANT_BUDGET_EXCEEDED,
           ee_message = ''This tenant'' @ [CHR 0x27] @ ''s '' @ window_word (al_window a) @ '' usage budget has been reached. Please try again later.'',
           ee_scope = Some (al_scope a), ee_window = Some (al_window a), ee_resets_at = al_resets_at a\<rparr>)"

text \<open>\<open>allowance_refusal\<close>: the error to answer instead of starting a turn.\<close>

definition allowance_refusal ::
  "rat \<Rightarrow> rat \<Rightarrow> policy_read \<Rightarrow> budget_reads \<Rightarrow> security_ctx option \<Rightarrow> budget_defaults \<Rightarrow> policy_cache \<Rightarrow> (str + error_envelope option) \<times> policy_cache" where
  "allowance_refusal refresh now table r ctx d cache =
     (case check_budget refresh now table r ctx d cache of
        (Inl e, cache') \<Rightarrow> (Inl e, cache')
      | (Inr a, cache') \<Rightarrow> (Inr (if al_refused a then Some (refusal_envelope a) else None), cache'))"

end
