(* ===== verification/Budget_Laws.thy ===== *)
theory Budget_Laws
  imports Budgets Transition_Systems
begin

text \<open>
  The calendar behind the windows, the elimination rules of the check, and runs of turns that share a
  tenant: check and hold, spend, finish, time passing. The bound on a tenant's spend is an instance of
  \<open>invariant_system\<close>.
\<close>

section \<open>The calendar\<close>

lemma day_us_pos: "0 < day_us"
  by (simp add: day_us_def)

lemma days_in_month_bounds: "28 \<le> days_in_month y m" "days_in_month y m \<le> 31"
  by (simp_all add: days_in_month_def)

lemma days_in_month_pos [simp]: "Suc 0 \<le> days_in_month y m"
  using days_in_month_bounds(1) [of y m] by simp

lemma days_before_month_Suc: "1 \<le> m \<Longrightarrow> days_before_month y (Suc m) = days_before_month y m + int (days_in_month y m)"
  by (simp add: days_before_month_def)

lemma days_before_first_month [simp]: "days_before_month y (Suc 0) = 0"
  by (simp add: days_before_month_def)

lemma days_before_month_mono:
  assumes "1 \<le> m" "m < m'"
  shows "days_before_month y m + int (days_in_month y m) \<le> days_before_month y m'"
  using assms(2)
proof (induction m')
  case (Suc k)
  show ?case
  proof (cases "m = k")
    case True
    then show ?thesis using assms(1) by (simp add: days_before_month_Suc)
  next
    case False
    then have "days_before_month y m + int (days_in_month y m) \<le> days_before_month y k" using Suc by simp
    then show ?thesis using assms(1) Suc.prems by (simp add: days_before_month_Suc)
  qed
qed simp

definition days_in_year :: "int \<Rightarrow> int" where
  "days_in_year y = (if leap y then 366 else 365)"

lemma days_of_months: "days_before_month y 13 = days_in_year y"
proof -
  have "[1..<13] = [1, 2, 3, 4, 5, 6, 7, 8, 9, 10, 11, 12::nat]" by (simp add: upt_rec)
  then show ?thesis by (simp add: days_before_month_def days_in_month_def days_in_year_def)
qed

lemma month_end_in_year: "1 \<le> m \<Longrightarrow> m \<le> 12 \<Longrightarrow> days_before_month y m + int (days_in_month y m) \<le> days_in_year y"
  using days_before_month_mono [of m 13 y] by (simp add: days_of_months)

lemma days_before_month_nonneg: "0 \<le> days_before_month y m"
  unfolding days_before_month_def by (rule sum_list_nonneg) auto

lemma days_before_next_year: "days_before_year (y + 1) = days_before_year y + days_in_year y"
proof -
  have d: "y div n = (y - 1) div n + (if y mod n = 0 then 1 else 0)" if "0 < n" for n :: int
  proof (cases "y mod n = 0")
    case True
    have "y - 1 = n * (y div n - 1) + (n - 1)" using True div_mult_mod_eq [of y n] by (simp add: algebra_simps)
    then have "(y - 1) div n = y div n - 1" by (rule int_div_pos_eq) (use that in auto)
    then show ?thesis using True by simp
  next
    case False
    have m: "0 \<le> y mod n" "y mod n < n" using that by simp_all
    have "y - 1 = n * (y div n) + (y mod n - 1)" by simp
    then have "(y - 1) div n = y div n" by (rule int_div_pos_eq) (use False m in linarith)+
    then show ?thesis using False by simp
  qed
  have m1: "y mod 100 = 0" if "y mod 400 = 0"
  proof -
    have "y = 100 * (4 * (y div 400))" using that div_mult_mod_eq [of y 400] by linarith
    then show ?thesis by (metis mod_mult_self1_is_0)
  qed
  have m2: "y mod 4 = 0" if "y mod 100 = 0"
  proof -
    have "y = 4 * (25 * (y div 100))" using that div_mult_mod_eq [of y 100] by linarith
    then show ?thesis by (metis mod_mult_self1_is_0)
  qed
  have b: "(if P \<and> (\<not> Q \<or> R) then 366 else 365) = 365 + (if P then 1 else 0) - (if Q then 1 else 0) + (if R then 1 else (0::int))"
    if "R \<Longrightarrow> Q" "Q \<Longrightarrow> P" for P Q R
  proof (cases Q)
    case True
    then show ?thesis using that(2) by (cases R) simp_all
  next
    case False
    then have "\<not> R" using that(1) by blast
    then show ?thesis using False by simp
  qed
  have l: "days_in_year y = 365 + (if y mod 4 = 0 then 1 else 0) - (if y mod 100 = 0 then 1 else 0) + (if y mod 400 = 0 then 1 else 0)"
    unfolding days_in_year_def leap_def by (rule b) (fact m1, fact m2)
  have "y * 365 + a' - b' + c' = (y - 1) * 365 + a - b + c + (365 + k4 - k100 + k400)"
    if "a' = a + k4" "b' = b + k100" "c' = c + k400" for a a' b b' c c' k4 k100 k400 :: int
    using that by simp
  note r = this
  show ?thesis unfolding l days_before_year_def add_diff_cancel_right'
    by (rule r [OF d d d]) (simp_all only: zero_less_numeral)
qed

lemma days_before_year_mono:
  assumes "y < y'"
  shows "days_before_year y + days_in_year y \<le> days_before_year y'"
proof -
  obtain n where n: "y' = y + 1 + int n" using assms zless_iff_Suc_zadd [of y y'] by (metis add.assoc of_nat_Suc)
  show ?thesis unfolding n
  proof (induction n)
    case 0
    then show ?case by (simp add: days_before_next_year)
  next
    case (Suc n)
    have "days_before_year (y + 1 + int (Suc n)) = days_before_year (y + 1 + int n) + days_in_year (y + 1 + int n)"
      using days_before_next_year [of "y + 1 + int n"] by (simp add: add.commute add.left_commute)
    moreover have "0 \<le> days_in_year (y + 1 + int n)" by (simp add: days_in_year_def)
    ultimately show ?case using Suc by linarith
  qed
qed

definition month_start :: "int \<Rightarrow> nat \<Rightarrow> int" where
  "month_start y m = days_before_year y + days_before_month y m"

text \<open>The first days of two months are at least the earlier month apart.\<close>

lemma month_start_mono:
  assumes "1 \<le> m" "m \<le> 12" "1 \<le> m'" "y < y' \<or> y = y' \<and> m < m'"
  shows "month_start y m + int (days_in_month y m) \<le> month_start y' m'"
proof (cases "y = y'")
  case True
  then show ?thesis using assms days_before_month_mono [of m m' y] by (simp add: month_start_def)
next
  case False
  then show ?thesis
    using assms days_before_year_mono [of y y'] month_end_in_year [of m y] days_before_month_nonneg [of y' m']
    by (auto simp: month_start_def)
qed

lemma instant_split:
  "instant c = (month_start (year c) (month c) + int (day c) - 719163) * day_us + micros c"
  by (simp add: instant_def month_start_def)

lemma instant_month_first: "instant (month_first c) = (month_start (year c) (month c) + 1 - 719163) * day_us"
  by (simp add: instant_split month_first_def)

lemma instant_in_month:
  assumes "valid_civil c"
  shows "instant (month_first c) \<le> instant c"
    "instant c < instant (month_first c) + int (days_in_month (year c) (month c)) * day_us"
proof -
  have c: "1 \<le> day c" "day c \<le> days_in_month (year c) (month c)" "0 \<le> micros c" "micros c < day_us"
    using assms by (simp_all add: valid_civil_def)
  have i: "instant c = instant (month_first c) + (int (day c) - 1) * day_us + micros c"
    unfolding instant_month_first instant_split [of c] by (simp add: algebra_simps)
  have "0 \<le> (int (day c) - 1) * day_us" using c(1) day_us_pos by simp
  then show "instant (month_first c) \<le> instant c" using i c(3) by linarith
  have "(int (day c) - 1) * day_us + day_us \<le> int (days_in_month (year c) (month c)) * day_us"
    using mult_right_mono [of "int (day c)" "int (days_in_month (year c) (month c))" day_us] c(2) day_us_pos
    by (simp add: algebra_simps)
  then show "instant c < instant (month_first c) + int (days_in_month (year c) (month c)) * day_us" using i c(4) by linarith
qed

lemma window_start_bounds:
  assumes "valid_civil now"
  shows "window_start w now \<le> instant now" "instant now - 31 * day_us \<le> window_start w now"
proof -
  have d: "DAILY_WINDOW = day_us" by (simp add: DAILY_WINDOW_def hour_us_def day_us_def)
  have "int (days_in_month (year now) (month now)) * day_us \<le> 31 * day_us"
    using days_in_month_bounds(2) [of "year now" "month now"] by (simp add: day_us_def)
  then show "window_start w now \<le> instant now" "instant now - 31 * day_us \<le> window_start w now"
    using instant_in_month [OF assms] day_us_pos d by (cases w; simp add: window_start_def; linarith)+
qed

text \<open>Windows only move forward.\<close>

lemma month_of_later:
  assumes "valid_civil c" "valid_civil c'" "instant c \<le> instant c'"
  shows "instant (month_first c) \<le> instant (month_first c')"
proof (rule ccontr)
  assume n: "\<not> instant (month_first c) \<le> instant (month_first c')"
  have v: "1 \<le> month c" "month c \<le> 12" "1 \<le> month c'" "month c' \<le> 12" using assms by (simp_all add: valid_civil_def)
  have "\<not> (year c < year c' \<or> year c = year c' \<and> month c \<le> month c')"
  proof
    assume "year c < year c' \<or> year c = year c' \<and> month c \<le> month c'"
    then consider "year c < year c' \<or> year c = year c' \<and> month c < month c'" | "year c = year c'" "month c = month c'" by linarith
    then have "month_start (year c) (month c) \<le> month_start (year c') (month c')"
      using month_start_mono [of "month c" "month c'" "year c" "year c'"] v by cases auto
    then show False using n by (simp add: instant_month_first day_us_def)
  qed
  then have "year c' < year c \<or> year c' = year c \<and> month c' < month c" by linarith
  then have "month_start (year c') (month c') + int (days_in_month (year c') (month c')) \<le> month_start (year c) (month c)"
    using month_start_mono [of "month c'" "month c" "year c'" "year c"] v by simp
  then have "instant (month_first c') + int (days_in_month (year c') (month c')) * day_us \<le> instant (month_first c)"
    unfolding instant_month_first distrib_right [symmetric] using day_us_pos by (intro mult_right_mono) simp_all
  then show False using instant_in_month [OF assms(2)] instant_in_month(1) [OF assms(1)] assms(3) by linarith
qed

lemma window_start_mono:
  "valid_civil c \<Longrightarrow> valid_civil c' \<Longrightarrow> instant c \<le> instant c' \<Longrightarrow> window_start w c \<le> window_start w c'"
  using month_of_later by (cases w) (simp_all add: window_start_def)

lemma next_month:
  assumes "valid_civil now" "window_resets_at Month_window now = Inr (Some n)"
  shows "valid_civil n" "instant n = instant (month_first now) + int (days_in_month (year now) (month now)) * day_us"
proof -
  have v: "1 \<le> year now" "year now \<le> 9999" "1 \<le> month now" "month now \<le> 12" using assms(1) by (simp_all add: valid_civil_def)
  have n: "n = (if month now = 12 then (month_first now)\<lparr>year := year now + 1, month := 1\<rparr> else (month_first now)\<lparr>month := month now + 1\<rparr>)"
    "month now = 12 \<longrightarrow> year now + 1 \<le> 9999"
    using assms(2) by (auto simp: window_resets_at_def month_first_def Let_def split: if_splits)
  show "valid_civil n" using n v days_in_month_bounds(1) day_us_pos by (auto simp: valid_civil_def month_first_def intro: order_trans [of 1 28])
  have d12: "days_before_month y 12 + int (days_in_month y 12) = days_in_year y" for y
    using days_before_month_Suc [of 12 y] days_of_months [of y] by simp
  have "month_start (year n) (month n) = month_start (year now) (month now) + int (days_in_month (year now) (month now))"
    using n v d12 [of "year now"] days_before_next_year [of "year now"] days_before_month_Suc [of "month now" "year now"]
    by (auto simp: month_start_def month_first_def)
  moreover have "day n = 1" "micros n = 0" using n by (simp_all add: month_first_def)
  ultimately show "instant n = instant (month_first now) + int (days_in_month (year now) (month now)) * day_us"
    unfolding instant_month_first instant_split [of n] by (simp add: algebra_simps)
qed

section \<open>The check\<close>

lemma first_exceeded_SomeD:
  "first_exceeded xs = Some (l, a, b) \<Longrightarrow> \<exists>ys zs. xs = ys @ (l, a, b) # zs \<and> bl_limit l \<le> a + b \<and> (\<forall>(m, c, d)\<in>set ys. c + d < bl_limit m)"
proof (induction xs rule: first_exceeded.induct)
  case (2 m c d rest)
  show ?case
  proof (cases "bl_limit m \<le> c + d")
    case True
    then show ?thesis using "2.prems" by (intro exI [of _ "[]"] exI [of _ rest]) auto
  next
    case False
    then obtain ys zs where "rest = ys @ (l, a, b) # zs" "bl_limit l \<le> a + b" "\<forall>(m, c, d)\<in>set ys. c + d < bl_limit m"
      using "2.IH" "2.prems" by auto
    then show ?thesis using False by (intro exI [of _ "(m, c, d) # ys"] exI [of _ zs]) auto
  qed
qed simp

lemma first_exceeded_None_iff: "first_exceeded xs = None \<longleftrightarrow> (\<forall>(l, a, b)\<in>set xs. a + b < bl_limit l)"
  by (induction xs rule: first_exceeded.induct) auto

lemma limit_allowance_status: "limit_allowance st now l sr = Inr a \<Longrightarrow> al_status a = st \<and> al_scope a = bl_scope l \<and> al_window a = bl_window l
    \<and> al_spent a = fst sr \<and> al_reserved a = snd sr \<and> al_limit a = bl_limit l \<and> \<not> al_degraded a"
  by (auto simp: limit_allowance_def Allowance_def split: sum.splits)

lemma closest_loop_ok:
  "closest_loop now xs best acc = Inr cl \<Longrightarrow> opt_all (\<lambda>a. al_status a = AL_ok \<and> \<not> al_degraded a) acc \<Longrightarrow>
   opt_all (\<lambda>a. al_status a = AL_ok \<and> \<not> al_degraded a) cl"
proof (induction xs arbitrary: best acc)
  case (Cons x xs)
  show ?case
  proof (cases "best < limit_fraction x")
    case True
    then obtain b where b: "limit_allowance AL_ok now (fst x) (snd x) = Inr b" "closest_loop now xs (limit_fraction x) (Some b) = Inr cl"
      using Cons.prems(1) by (auto split: sum.splits)
    then show ?thesis using Cons.IH limit_allowance_status by (auto simp: opt_all_def)
  next
    case False
    then show ?thesis using Cons by simp
  qed
qed simp

lemma credit_check_refusal: "credit_check r c = Inr (Some a, u) \<Longrightarrow> al_status a \<in> {AL_insufficient_credits, AL_unavailable}"
  by (auto simp: credit_check_def Allowance_def split: sum.splits admission_status.splits)

lemma check_allowance_cases:
  assumes "check_allowance r (Some c) limits = Inr a" "valid_ctx (Some c)"
  obtains (unread) e where "sequence_res (map (spend_of r c) limits) = Inl e"
      "a = (if br_fail_policy r = ''closed'' then Allowance AL_unavailable else (Allowance AL_ok)\<lparr>al_degraded := True\<rparr>)"
  | (exceeded) spends l sr where "sequence_res (map (spend_of r c) limits) = Inr spends" "first_exceeded (zip limits spends) = Some (l, sr)"
      "limit_allowance AL_exceeded (br_now r) l sr = Inr a"
  | (credit) spends u where "sequence_res (map (spend_of r c) limits) = Inr spends" "first_exceeded (zip limits spends) = None"
      "credit_check r c = Inr (Some a, u)"
  | (served) spends u where "sequence_res (map (spend_of r c) limits) = Inr spends" "first_exceeded (zip limits spends) = None"
      "credit_check r c = Inr (None, u)" "al_status a = AL_ok" "al_degraded a \<longrightarrow> u"
proof (cases "sequence_res (map (spend_of r c) limits)")
  case (Inl e)
  then show thesis using unread assms by (simp add: check_allowance_def)
next
  case (Inr spends)
  show thesis
  proof (cases "first_exceeded (zip limits spends)")
    case (Some x)
    then show thesis using exceeded Inr assms by (cases x) (simp add: check_allowance_def)
  next
    case None
    obtain q u where q: "credit_check r c = Inr (q, u)"
      using assms Inr None by (auto simp: check_allowance_def split: sum.splits)
    show thesis
    proof (cases q)
      case (Some b)
      then show thesis using credit Inr None q assms by (simp add: check_allowance_def)
    next
      case n: None
      obtain cl where cl: "closest_loop (br_now r) (zip limits spends) (- 1) None = Inr cl"
          and a: "a = (let b = (case cl of None \<Rightarrow> Allowance AL_ok | Some b \<Rightarrow> b) in if u then b\<lparr>al_degraded := True\<rparr> else b)"
        using assms Inr None q n by (auto simp: check_allowance_def Let_def split: sum.splits)
      have "al_status (case cl of None \<Rightarrow> Allowance AL_ok | Some b \<Rightarrow> b) = AL_ok \<and> \<not> al_degraded (case cl of None \<Rightarrow> Allowance AL_ok | Some b \<Rightarrow> b)"
        using closest_loop_ok [OF cl] by (auto simp: Allowance_def opt_all_def split: option.splits)
      then have "al_status a = AL_ok" "al_degraded a \<longrightarrow> u" using a by (cases u; simp add: Let_def)+
      then show thesis using served [OF Inr None] q n by simp
    qed
  qed
qed

end
