(* ===== verification/Budget_Claims.thy ===== *)
theory Budget_Claims
  imports Budget_Laws
begin

text \<open>
  The properties of the spend allowance, and the turns, limits and tables on which their witnesses are
  evaluated.
\<close>

section \<open>Turns that share a tenant\<close>

record turn_state =
  ts_clock :: civil
  ts_db :: agent_db
  ts_holds :: "budget_hold list"
  ts_running :: "(str \<times> rat) list"

text \<open>The hold of a turn that is still counted.\<close>

definition fresh_hold :: "int \<Rightarrow> str \<Rightarrow> budget_hold \<Rightarrow> bool" where
  "fresh_hold now t h \<longleftrightarrow> bh_tenant h = t \<and> stale_before now < bh_created_at h"

definition holds_fresh :: "str \<Rightarrow> rat \<Rightarrow> turn_state \<Rightarrow> bool" where
  "holds_fresh t hold s \<longleftrightarrow> (\<forall>(i, x)\<in>set (ts_running s). \<exists>h\<in>set (ts_holds s). bh_id h = i \<and> bh_amount h = hold \<and> fresh_hold (instant (ts_clock s)) t h)"

definition reads_state :: "turn_state \<Rightarrow> budget_reads \<Rightarrow> bool" where
  "reads_state s r \<longleftrightarrow> br_now r = ts_clock s \<and> br_db_now r = instant (ts_clock s) \<and> br_db r = ts_db s \<and> br_holds r = ts_holds s
     \<and> br_spend_fault r = (\<lambda>_. None) \<and> \<not> br_hold_fault r"

text \<open>A turn starts by being checked and taking its hold; it spends, up to the turn's own ceiling; it ends by
  releasing the hold; other tenants spend; time passes, no running turn outliving its hold.\<close>

inductive turn_step :: "str \<Rightarrow> rat \<Rightarrow> budget_limit \<Rightarrow> turn_state \<Rightarrow> turn_state \<Rightarrow> bool" for t hold l where
  start: "reads_state s r \<Longrightarrow> valid_ctx (Some c) \<Longrightarrow> tenant c = t \<Longrightarrow> l \<in> set limits \<Longrightarrow>
     check_allowance r (Some c) limits = Inr a \<Longrightarrow> \<not> al_refused a \<Longrightarrow>
     reserve_budget (instant (ts_clock s)) i False (Some c) hold (ts_holds s) = (Some i, hs) \<Longrightarrow>
     turn_step t hold l s (s\<lparr>ts_holds := hs, ts_running := (i, 0) # ts_running s\<rparr>)"
| spend: "ts_running s = xs @ (i, x) # ys \<Longrightarrow> 0 \<le> event_cost e \<Longrightarrow> x + event_cost e \<le> hold \<Longrightarrow>
     call_events db' = call_events (ts_db s) @ [e] \<Longrightarrow>
     turn_step t hold l s (s\<lparr>ts_db := db', ts_running := xs @ (i, x + event_cost e) # ys\<rparr>)"
| other: "ce_tenant e \<noteq> t \<Longrightarrow> 0 \<le> event_cost e \<Longrightarrow> call_events db' = call_events (ts_db s) @ [e] \<Longrightarrow> turn_step t hold l s (s\<lparr>ts_db := db'\<rparr>)"
| finish: "ts_running s = xs @ (i, x) # ys \<Longrightarrow>
     turn_step t hold l s (s\<lparr>ts_holds := pg_release t i (ts_holds s), ts_running := xs @ ys\<rparr>)"
| tick: "valid_civil now \<Longrightarrow> instant (ts_clock s) \<le> instant now \<Longrightarrow> holds_fresh t hold (s\<lparr>ts_clock := now\<rparr>) \<Longrightarrow>
     turn_step t hold l s (s\<lparr>ts_clock := now\<rparr>)"

inductive_cases turn_stepE: "turn_step t hold l s s'"

definition tenant_spent :: "str \<Rightarrow> budget_limit \<Rightarrow> turn_state \<Rightarrow> rat" where
  "tenant_spent t l s = tot_cost_usd (usage_summary t None (Some (window_start (bl_window l) (ts_clock s))) (ts_db s))"

definition unspent_holds :: "rat \<Rightarrow> turn_state \<Rightarrow> rat" where
  "unspent_holds hold s = sum_list (map (\<lambda>(i, x). hold - x) (ts_running s))"

definition spend_inv :: "str \<Rightarrow> rat \<Rightarrow> budget_limit \<Rightarrow> turn_state \<Rightarrow> bool" where
  "spend_inv t hold l s \<longleftrightarrow> bl_scope l = Tenant_scope \<and> half_up 6 hold = hold \<and> valid_civil (ts_clock s)
     \<and> distinct (map fst (ts_running s)) \<and> distinct (map bh_id (ts_holds s))
     \<and> (\<forall>(i, x)\<in>set (ts_running s). 0 \<le> x \<and> x \<le> hold)
     \<and> (\<forall>h\<in>set (ts_holds s). 0 \<le> bh_amount h) \<and> (\<forall>e\<in>set (call_events (ts_db s)). 0 \<le> event_cost e)
     \<and> holds_fresh t hold s \<and> tenant_spent t l s + unspent_holds hold s < bl_limit l + hold"

section \<open>The invariant of a tenant's spend\<close>

lemma holds_cover_running:
  assumes "distinct ids" "\<forall>h\<in>set hs. 0 \<le> bh_amount h" "\<forall>i\<in>set ids. \<exists>h\<in>set hs. bh_id h = i \<and> bh_amount h = hold \<and> P h"
  shows "of_nat (length ids) * hold \<le> sum_list (map bh_amount (filter P hs))"
  using assms
proof (induction ids arbitrary: hs)
  case Nil
  then show ?case by (auto intro!: sum_list_nonneg)
next
  case (Cons i ids)
  then obtain h where h: "h \<in> set hs" "bh_id h = i" "bh_amount h = hold" "P h" by auto
  then obtain as bs where hs: "hs = as @ h # bs" by (meson split_list)
  have "\<forall>j\<in>set ids. \<exists>g\<in>set (as @ bs). bh_id g = j \<and> bh_amount g = hold \<and> P g"
  proof
    fix j assume j: "j \<in> set ids"
    then obtain g where g: "g \<in> set hs" "bh_id g = j \<and> bh_amount g = hold \<and> P g" using Cons.prems(3) by auto
    moreover have "g \<noteq> h" using g h j Cons.prems(1) by auto
    ultimately show "\<exists>g\<in>set (as @ bs). bh_id g = j \<and> bh_amount g = hold \<and> P g" unfolding hs by auto
  qed
  then have "of_nat (length ids) * hold \<le> sum_list (map bh_amount (filter P (as @ bs)))"
    using Cons.IH [of "as @ bs"] Cons.prems unfolding hs by auto
  then show ?case using h(3,4) unfolding hs by (simp add: distrib_right)
qed

lemma sum_list_filter_mono:
  fixes f :: "'a \<Rightarrow> rat"
  shows "(\<And>x. x \<in> set xs \<Longrightarrow> 0 \<le> f x) \<Longrightarrow> (\<And>x. p x \<Longrightarrow> q x) \<Longrightarrow> sum_list (map f (filter p xs)) \<le> sum_list (map f (filter q xs))"
  by (induction xs) (auto simp: add_increasing)

lemma unspent_holds_le: "\<forall>(i, x)\<in>set (ts_running s). 0 \<le> x \<Longrightarrow> unspent_holds hold s \<le> of_nat (length (ts_running s)) * hold"
proof -
  have "sum_list (map (\<lambda>(i, x). hold - x) xs) \<le> of_nat (length xs) * hold" if "\<forall>(i, x)\<in>set xs. 0 \<le> x" for xs :: "(str \<times> rat) list"
    using that by (induction xs) (auto simp: distrib_right)
  then show "\<forall>(i, x)\<in>set (ts_running s). 0 \<le> x \<Longrightarrow> ?thesis" by (simp add: unspent_holds_def)
qed

lemma check_reads_holds:
  assumes r: "reads_state s r" and c: "valid_ctx (Some c)" "tenant c = t" and l: "l \<in> set limits" "bl_scope l = Tenant_scope"
    and a: "check_allowance r (Some c) limits = Inr a" "\<not> al_refused a"
  shows "tenant_spent t l s + pg_in_flight (instant (ts_clock s)) t (ts_holds s) < bl_limit l"
proof -
  have sp: "spend_of r c m = Inr (tot_cost_usd (usage_summary t (if bl_scope m = Principal_scope then Some (principal c) else None)
            (Some (window_start (bl_window m) (ts_clock s))) (ts_db s)),
          if bl_scope m = Tenant_scope then pg_in_flight (instant (ts_clock s)) t (ts_holds s) else 0)" for m
    using r c(2) by (simp add: spend_of_def reads_state_def in_flight_reservation_def)
  from a(1) c(1) show ?thesis
  proof (cases rule: check_allowance_cases)
    case (unread e)
    have "map (spend_of r c) limits = map Inr (map (\<lambda>m. projr (spend_of r c m)) limits)" using sp by simp
    then have "sequence_res (map (spend_of r c) limits) = Inr (map (\<lambda>m. projr (spend_of r c m)) limits)" by (simp only: sequence_res_Inr)
    then show ?thesis using unread(1) by simp
  next
    case (exceeded spends m sr)
    then show ?thesis using a(2) limit_allowance_status [OF exceeded(3)] by (simp add: al_refused_def)
  next
    case (credit spends u)
    then show ?thesis using a(2) credit_check_refusal [OF credit(3)] by (auto simp: al_refused_def)
  next
    case (served spends u)
    have "map (spend_of r c) limits = map Inr spends" using served(1) by (simp add: sequence_res_Inr)
    then have "\<forall>k<length limits. spend_of r c (limits ! k) = Inr (spends ! k)" "length spends = length limits"
      by (metis length_map nth_map, metis length_map)
    moreover obtain k where k: "k < length limits" "limits ! k = l" using l(1) by (auto simp: in_set_conv_nth)
    ultimately have "(l, spends ! k) \<in> set (zip limits spends)" "spend_of r c l = Inr (spends ! k)" by (auto simp: set_zip)
    then show ?thesis using served(2) l(2) sp [of l] by (auto simp: first_exceeded_None_iff tenant_spent_def)
  qed
qed

lemma reserve_budget_SomeD:
  assumes "reserve_budget now i False (Some c) hold hs = (Some j, hs')" "half_up 6 hold = hold"
  shows "j = i \<and> 0 < hold \<and> hs' = filter (\<lambda>h. \<not> (bh_tenant h = tenant c \<and> bh_created_at h \<le> stale_before now)) hs
      @ [\<lparr>bh_id = i, bh_tenant = tenant c, bh_amount = hold, bh_created_at = now\<rparr>]
    \<and> i \<notin> set (map bh_id (filter (\<lambda>h. \<not> (bh_tenant h = tenant c \<and> bh_created_at h \<le> stale_before now)) hs))"
  using assms by (auto simp: reserve_budget_def pg_reserve_def Let_def split: if_splits)

lemma stale_before_mono: "n \<le> n' \<Longrightarrow> stale_before n \<le> stale_before n'"
  by (simp add: stale_before_def)

lemma tenant_spent_event:
  "call_events db' = call_events (ts_db s) @ [e] \<Longrightarrow>
   tenant_spent t l (s\<lparr>ts_db := db', ts_running := rs\<rparr>) = tenant_spent t l s
     + (if counted t None (Some (window_start (bl_window l) (ts_clock s))) e then event_cost e else 0)"
  using usage_summary_snoc [of db' "ts_db s" e] by (simp add: tenant_spent_def)

lemma spend_inv_start:
  assumes inv: "spend_inv t hold l s" and r: "reads_state s r" "valid_ctx (Some c)" "tenant c = t" "l \<in> set limits"
    and a: "check_allowance r (Some c) limits = Inr a" "\<not> al_refused a"
    and h: "reserve_budget (instant (ts_clock s)) i False (Some c) hold (ts_holds s) = (Some i, hs)"
  shows "spend_inv t hold l (s\<lparr>ts_holds := hs, ts_running := (i, 0) # ts_running s\<rparr>)"
proof -
  let ?now = "instant (ts_clock s)"
  let ?kept = "filter (\<lambda>h. \<not> (bh_tenant h = t \<and> bh_created_at h \<le> stale_before ?now)) (ts_holds s)"
  note inv' = inv [unfolded spend_inv_def]
  from reserve_budget_SomeD [OF h] inv' r(3)
  have hs: "0 < hold" "hs = ?kept @ [\<lparr>bh_id = i, bh_tenant = t, bh_amount = hold, bh_created_at = ?now\<rparr>]" "i \<notin> set (map bh_id ?kept)" by auto
  have new: "fresh_hold ?now t \<lparr>bh_id = i, bh_tenant = t, bh_amount = hold, bh_created_at = ?now\<rparr>"
    by (simp add: fresh_hold_def stale_before_def RESERVATION_STALE_AFTER_MINUTES_def)
  have kept: "\<exists>h\<in>set ?kept. bh_id h = j \<and> bh_amount h = hold \<and> fresh_hold ?now t h" if "(j, x) \<in> set (ts_running s)" for j x
    using that inv' by (fastforce simp: holds_fresh_def fresh_hold_def)
  then have i: "i \<notin> fst ` set (ts_running s)" using hs(3) by fastforce
  have "of_nat (length (map fst (ts_running s))) * hold \<le> sum_list (map bh_amount (filter (fresh_hold ?now t) (ts_holds s)))"
    by (rule holds_cover_running) (use inv' in \<open>fastforce simp: holds_fresh_def\<close>)+
  moreover have "pg_in_flight ?now t (ts_holds s) = sum_list (map bh_amount (filter (fresh_hold ?now t) (ts_holds s)))"
    by (simp add: pg_in_flight_def fresh_hold_def [abs_def])
  moreover have "unspent_holds hold s \<le> of_nat (length (ts_running s)) * hold" using inv' by (intro unspent_holds_le) auto
  moreover have "tenant_spent t l s + pg_in_flight ?now t (ts_holds s) < bl_limit l"
    using check_reads_holds [OF r(1,2,3,4) _ a] inv' by simp
  ultimately have "tenant_spent t l s + (unspent_holds hold s + hold) < bl_limit l + hold" by simp
  moreover have "tenant_spent t l (s\<lparr>ts_holds := hs, ts_running := rs\<rparr>) = tenant_spent t l s" for rs by (simp add: tenant_spent_def)
  ultimately have bound: "tenant_spent t l (s\<lparr>ts_holds := hs, ts_running := (i, 0) # ts_running s\<rparr>)
      + unspent_holds hold (s\<lparr>ts_holds := hs, ts_running := (i, 0) # ts_running s\<rparr>) < bl_limit l + hold"
    by (simp add: unspent_holds_def)
  have "holds_fresh t hold (s\<lparr>ts_holds := hs, ts_running := (i, 0) # ts_running s\<rparr>)"
    unfolding holds_fresh_def using kept new hs(2) by fastforce
  moreover have "distinct (map bh_id hs)" using hs inv' by (simp add: distinct_map_filter)
  ultimately show ?thesis using bound inv' hs(1,2) i by (auto simp: spend_inv_def)
qed

lemma spend_inv_finish:
  assumes inv: "spend_inv t hold l s" and rs: "ts_running s = xs @ (i, x) # ys"
  shows "spend_inv t hold l (s\<lparr>ts_holds := pg_release t i (ts_holds s), ts_running := xs @ ys\<rparr>)"
proof -
  note inv' = inv [unfolded spend_inv_def]
  have "\<exists>h\<in>set (pg_release t i (ts_holds s)). bh_id h = j \<and> bh_amount h = hold \<and> fresh_hold (instant (ts_clock s)) t h"
    if j: "(j, y) \<in> set (xs @ ys)" for j y
  proof -
    have "distinct (map fst (xs @ (i, x) # ys))" using inv' rs by simp
    then have "j \<noteq> i" using j by (force simp: image_iff)
    moreover have "(j, y) \<in> set (ts_running s)" using j rs by auto
    then obtain h where "h \<in> set (ts_holds s)" "bh_id h = j" "bh_amount h = hold" "fresh_hold (instant (ts_clock s)) t h"
      using inv' unfolding holds_fresh_def by blast
    ultimately show ?thesis by (intro bexI [of _ h]) (simp_all add: pg_release_def)
  qed
  then have "holds_fresh t hold (s\<lparr>ts_holds := pg_release t i (ts_holds s), ts_running := xs @ ys\<rparr>)"
    by (auto simp: holds_fresh_def)
  moreover have "x \<le> hold" using inv' rs by auto
  then have "unspent_holds hold (s\<lparr>ts_holds := pg_release t i (ts_holds s), ts_running := xs @ ys\<rparr>) \<le> unspent_holds hold s"
    by (simp add: unspent_holds_def rs)
  moreover have "tenant_spent t l (s\<lparr>ts_holds := pg_release t i (ts_holds s), ts_running := xs @ ys\<rparr>) = tenant_spent t l s"
    by (simp add: tenant_spent_def)
  moreover have "distinct (map bh_id (pg_release t i (ts_holds s)))" using inv' by (simp add: pg_release_def distinct_map_filter)
  ultimately show ?thesis using inv' rs by (auto simp: spend_inv_def pg_release_def)
qed

lemma spend_inv_spend:
  assumes inv: "spend_inv t hold l s" and rs: "ts_running s = xs @ (i, x) # ys"
    and e: "0 \<le> event_cost e" "x + event_cost e \<le> hold" "call_events db' = call_events (ts_db s) @ [e]"
  shows "spend_inv t hold l (s\<lparr>ts_db := db', ts_running := xs @ (i, x + event_cost e) # ys\<rparr>)"
proof -
  note inv' = inv [unfolded spend_inv_def]
  have "tenant_spent t l (s\<lparr>ts_db := db', ts_running := xs @ (i, x + event_cost e) # ys\<rparr>) \<le> tenant_spent t l s + event_cost e"
    using tenant_spent_event [OF e(3)] e(1) by simp
  moreover have "unspent_holds hold (s\<lparr>ts_db := db', ts_running := xs @ (i, x + event_cost e) # ys\<rparr>) = unspent_holds hold s - event_cost e"
    by (simp add: unspent_holds_def rs)
  moreover have "holds_fresh t hold (s\<lparr>ts_db := db', ts_running := xs @ (i, x + event_cost e) # ys\<rparr>)"
    using inv' rs by (auto simp: holds_fresh_def)
  ultimately show ?thesis using inv' rs e by (auto simp: spend_inv_def)
qed

lemma spend_inv_tick:
  assumes inv: "spend_inv t hold l s" and n: "valid_civil now" "instant (ts_clock s) \<le> instant now" "holds_fresh t hold (s\<lparr>ts_clock := now\<rparr>)"
  shows "spend_inv t hold l (s\<lparr>ts_clock := now\<rparr>)"
proof -
  note inv' = inv [unfolded spend_inv_def]
  have "window_start (bl_window l) (ts_clock s) \<le> window_start (bl_window l) now"
    using window_start_mono n(1,2) inv' by blast
  then have "tenant_spent t l (s\<lparr>ts_clock := now\<rparr>) \<le> tenant_spent t l s"
    unfolding tenant_spent_def usage_summary_cost
    by (simp, intro sum_list_filter_mono) (use inv' in \<open>auto simp: counted_def opt_all_def\<close>)
  then show ?thesis using inv' n by (auto simp: spend_inv_def unspent_holds_def)
qed

interpretation turns: invariant_system "turn_step t hold l" "spend_inv t hold l" for t hold l
proof
  fix s s' assume inv: "spend_inv t hold l s" and "turn_step t hold l s s'"
  from this(2) show "spend_inv t hold l s'"
  proof cases
    case (start r c limits a i hs)
    then show ?thesis using spend_inv_start [OF inv] by blast
  next
    case (spend xs i x ys e db')
    then show ?thesis using spend_inv_spend [OF inv] by blast
  next
    case (other e db')
    then have "tenant_spent t l (s\<lparr>ts_db := db'\<rparr>) = tenant_spent t l s"
      using tenant_spent_event [of db' s e t l "ts_running s"] by (simp add: counted_def)
    then show ?thesis using inv other by (auto simp: spend_inv_def holds_fresh_def unspent_holds_def)
  next
    case (finish xs i x ys)
    then show ?thesis using spend_inv_finish [OF inv] by blast
  next
    case (tick now)
    then show ?thesis using spend_inv_tick [OF inv] by blast
  qed
qed

section \<open>Overrides\<close>

lemma half_up_0 [simp]: "half_up n 0 = 0"
  using half_up_of_int [of n 0] by simp

lemma find_all: "(\<And>x. x \<in> set xs \<Longrightarrow> p x \<Longrightarrow> q x) \<Longrightarrow> (\<exists>x\<in>set xs. p x) \<Longrightarrow> \<exists>x. List.find p xs = Some x \<and> q x"
  by (induction xs) auto

lemma upsert_policy_rows:
  assumes "upsert_policy r rows = (Inr (), rows')"
  shows "\<forall>q\<in>set rows'. same_policy (pol_tenant r) (pol_subject r) (pol_period r) q \<longrightarrow> pol_limit q = map_option (half_up 6) (pol_limit r)"
    "\<exists>q\<in>set rows'. same_policy (pol_tenant r) (pol_subject r) (pol_period r) q"
proof -
  let ?p = "same_policy (pol_tenant r) (pol_subject r) (pol_period r)" and ?r = "r\<lparr>pol_limit := map_option (half_up 6) (pol_limit r)\<rparr>"
  have p: "?p ?r" by (simp add: same_policy_def)
  have rows: "rows' = (if \<exists>q\<in>set rows. ?p q then map (\<lambda>q. if ?p q then ?r else q) rows else rows @ [?r])"
    using assms by (auto simp: upsert_policy_def Let_def split: if_splits)
  show "\<forall>q\<in>set rows'. ?p q \<longrightarrow> pol_limit q = map_option (half_up 6) (pol_limit r)" using p unfolding rows by auto
  show "\<exists>q\<in>set rows'. ?p q" using p unfolding rows by auto
qed

lemma override_after_upsert:
  assumes "upsert_policy r rows = (Inr (), rows')" "pol_subject r \<in> {TENANT_SUBJECT, ALL_PRINCIPALS, p}" "pol_period r = window_period w"
  shows "\<exists>v. override_of (for_person (pol_tenant r) p rows') (pol_subject r) w = Some v \<and> ov_limit v = map_option (half_up 6) (pol_limit r)"
  unfolding override_of_def
proof (rule find_all)
  fix x assume "x \<in> set (rev (for_person (pol_tenant r) p rows'))" "ov_subject x = pol_subject r \<and> ov_period x = window_period w"
  then show "ov_limit x = map_option (half_up 6) (pol_limit r)"
    using upsert_policy_rows(1) [OF assms(1)] assms(3) by (auto simp: for_person_def row_override_def same_policy_def)
next
  show "\<exists>x\<in>set (rev (for_person (pol_tenant r) p rows')). ov_subject x = pol_subject r \<and> ov_period x = window_period w"
    using upsert_policy_rows(2) [OF assms(1)] assms(2,3) by (auto simp: for_person_def row_override_def same_policy_def)
qed

lemma resolve_limits_tenant:
  "override_of ovs TENANT_SUBJECT w = Some v \<Longrightarrow> ov_limit v = Some x \<Longrightarrow>
   \<lparr>bl_scope = Tenant_scope, bl_window = w, bl_limit = x\<rparr> \<in> set (resolve_limits d ovs p)"
  unfolding resolve_limits_def set_map_filter
  by (rule bexI [of _ "(Tenant_scope, w, [TENANT_SUBJECT], case w of Day_window \<Rightarrow> def_tenant_day d | Month_window \<Rightarrow> def_tenant_month d, w = Day_window)"])
    (cases w; simp add: limit_value_def)+

lemma resolve_limits_person:
  "override_of ovs p w = Some v \<Longrightarrow> ov_limit v = Some x \<Longrightarrow>
   \<lparr>bl_scope = Principal_scope, bl_window = w, bl_limit = x\<rparr> \<in> set (resolve_limits d ovs p)"
  unfolding resolve_limits_def set_map_filter
  by (rule bexI [of _ "(Principal_scope, w, [p, ALL_PRINCIPALS], case w of Day_window \<Rightarrow> def_principal_day d | Month_window \<Rightarrow> def_principal_month d, False)"])
    (cases w; simp add: limit_value_def)+

lemma usage_summary_nonneg: "\<forall>e\<in>set (call_events db). 0 \<le> event_cost e \<Longrightarrow> 0 \<le> tot_cost_usd (usage_summary t p since db)"
  unfolding usage_summary_cost by (auto intro!: sum_list_nonneg)

lemma spend_nonneg:
  assumes "spend_of r c l = Inr (x, y)" "\<forall>e\<in>set (call_events (br_db r)). 0 \<le> event_cost e" "\<forall>h\<in>set (br_holds r). 0 \<le> bh_amount h"
  shows "0 \<le> x + y"
proof -
  have "0 \<le> pg_in_flight n t (br_holds r)" for n t unfolding pg_in_flight_def using assms(3) by (auto intro!: sum_list_nonneg)
  then show ?thesis
    using assms(1) usage_summary_nonneg [OF assms(2)] by (auto simp: spend_of_def in_flight_reservation_def split: option.splits if_splits)
qed

lemma exceeded_limit_refuses:
  assumes a: "check_allowance r (Some c) limits = Inr a" "valid_ctx (Some c)" and l: "l \<in> set limits"
    and r: "br_spend_fault r = (\<lambda>_. None)" and x: "\<And>sp. spend_of r c l = Inr sp \<Longrightarrow> bl_limit l \<le> fst sp + snd sp"
  shows "al_refused a"
  using a
proof (cases rule: check_allowance_cases)
  case (unread e)
  have "map (spend_of r c) limits = map Inr (map (\<lambda>m. projr (spend_of r c m)) limits)" using r by (simp add: spend_of_def)
  then have "sequence_res (map (spend_of r c) limits) = Inr (map (\<lambda>m. projr (spend_of r c m)) limits)" by (simp only: sequence_res_Inr)
  then show ?thesis using unread(1) by simp
next
  case (exceeded spends m sr)
  then show ?thesis using limit_allowance_status [OF exceeded(3)] by (simp add: al_refused_def)
next
  case (credit spends u)
  then show ?thesis using credit_check_refusal [OF credit(3)] by (auto simp: al_refused_def)
next
  case (served spends u)
  have m: "map (spend_of r c) limits = map Inr spends" using served(1) by (simp add: sequence_res_Inr)
  obtain k where k: "k < length limits" "limits ! k = l" using l by (auto simp: in_set_conv_nth)
  then have "spend_of r c l = Inr (spends ! k)" "k < length spends" using m by (metis length_map nth_map)+
  moreover from this k have "(l, spends ! k) \<in> set (zip limits spends)" by (auto simp: set_zip)
  ultimately show ?thesis using served(2) x [of "spends ! k"] by (cases "spends ! k") (force simp: first_exceeded_None_iff)
qed

section \<open>Properties\<close>


definition sample_now :: civil where
  "sample_now = \<lparr>year = 2026, month = 2, day = 28, micros = 5\<rparr>"

definition sample_limit :: budget_limit where
  "sample_limit = \<lparr>bl_scope = Tenant_scope, bl_window = Day_window, bl_limit = 1\<rparr>"

definition sample_turns :: turn_state where
  "sample_turns = \<lparr>ts_clock = sample_now, ts_db = \<lparr>call_events = [], ag_meter = sample_meter\<rparr>, ts_holds = [], ts_running = []\<rparr>"

definition sample_reads :: budget_reads where
  "sample_reads = \<lparr>br_now = sample_now, br_db_now = instant sample_now, br_db = ts_db sample_turns, br_holds = [],
     br_spend_fault = (\<lambda>_. None), br_hold_fault = False, br_wallet_fault = False,
     br_billing = sample_usage_cfg\<lparr>us_enforcement := False\<rparr>, br_fail_policy = ''open''\<rparr>"

definition sample_held :: "budget_hold list" where
  "sample_held = [\<lparr>bh_id = ''h'', bh_tenant = ''acme'', bh_amount = 1 / 2, bh_created_at = instant sample_now\<rparr>]"


text \<open>The allowance is exact. When every spend can be read, a caller is told a limit is exceeded exactly
  when what was spent in some limit's window and what is held reach it, and the answer names the first such
  limit, in the order tenant before person.\<close>

theorem allowance_exact:
  assumes "check_allowance r (Some c) limits = Inr a" and "valid_ctx (Some c)" and "map (spend_of r c) limits = map Inr spends"
  shows "(al_status a = AL_exceeded \<longleftrightarrow> (\<exists>(l, x, y)\<in>set (zip limits spends). bl_limit l \<le> x + y))
    \<and> (al_status a = AL_exceeded \<longrightarrow>
        (\<exists>ys l x y zs. zip limits spends = ys @ (l, x, y) # zs \<and> (\<forall>(m, u, v)\<in>set ys. u + v < bl_limit m) \<and> bl_limit l \<le> x + y
          \<and> al_scope a = bl_scope l \<and> al_window a = bl_window l \<and> al_limit a = bl_limit l \<and> al_spent a = x \<and> al_reserved a = y))"
proof -
  have sq: "sequence_res (map (spend_of r c) limits) = Inr spends" using assms(3) by (simp add: sequence_res_Inr)
  from assms(1,2) show ?thesis
  proof (cases rule: check_allowance_cases)
    case (exceeded sp l sr)
    obtain x y where "sr = (x, y)" by force
    then obtain ys zs where z: "zip limits spends = ys @ (l, x, y) # zs" "bl_limit l \<le> x + y" "\<forall>(m, u, v)\<in>set ys. u + v < bl_limit m"
      using first_exceeded_SomeD [of "zip limits spends" l x y] exceeded(1,2) sq by auto
    then show ?thesis using limit_allowance_status [OF exceeded(3)] \<open>sr = (x, y)\<close> by fastforce
  next
    case (credit sp u)
    then show ?thesis using sq credit_check_refusal [OF credit(3)] by (fastforce simp: first_exceeded_None_iff)
  next
    case (served sp u)
    then show ?thesis using sq by (fastforce simp: first_exceeded_None_iff)
  qed (use sq in simp)
qed

theorem allowance_exact_witness:
  "\<exists>a. check_allowance (sample_reads\<lparr>br_holds := sample_held\<rparr>) (Some sample_caller) [sample_limit\<lparr>bl_limit := 1 / 2\<rparr>] = Inr a
     \<and> al_status a = AL_exceeded"
proof -
  let ?r = "sample_reads\<lparr>br_holds := sample_held\<rparr>" and ?l = "sample_limit\<lparr>bl_limit := 1 / 2\<rparr>"
  have sp: "map (spend_of ?r sample_caller) [?l] = map Inr [(0, 1 / 2)]" by code_simp
  obtain a where a: "check_allowance ?r (Some sample_caller) [?l] = Inr a"
  proof -
    have "\<not> isl (check_allowance ?r (Some sample_caller) [?l])" by code_simp
    then show thesis using that by (metis isl_def sum.exhaust_sel)
  qed
  have "valid_ctx (Some sample_caller)" by (simp add: sample_caller_def valid_ctx_def)
  then show ?thesis using allowance_exact [OF a _ sp] a by simp
qed

text \<open>Suspension takes effect with the write. Once an operator has set a limit of zero for a tenant or for a
  person, every check by that process whose reads succeed refuses the tenant's, or the person's, turns.\<close>

theorem suspension_refuses:
  assumes "set_override (tenant c) subject (window_period w) (Some 0) by_whom st = (Inr (), rows, cache)"
    and "valid_ctx (Some c)" and "subject = TENANT_SUBJECT \<or> subject = principal c"
    and "br_spend_fault r = (\<lambda>_. None)" and "\<forall>e\<in>set (call_events (br_db r)). 0 \<le> event_cost e" and "\<forall>h\<in>set (br_holds r). 0 \<le> bh_amount h"
    and "fst (check_budget refresh now (Policy_rows rows) r (Some c) d cache) = Inr a"
  shows "al_refused a"
proof -
  let ?row = "\<lparr>pol_tenant = tenant c, pol_subject = subject, pol_period = window_period w, pol_limit = Some 0, pol_updated_by = by_whom\<rparr>"
  let ?ovs = "for_person (tenant c) (principal c) rows"
  have u: "upsert_policy ?row (fst st) = (Inr (), rows)" "cache = []"
    using assms(1) by (auto simp: set_override_def split: if_splits sum.splits prod.splits)
  then have a: "check_allowance r (Some c) (resolve_limits d ?ovs (principal c)) = Inr a"
    using assms(2,7) by (simp add: check_budget_def overrides_for_def Let_def)
  obtain v where v: "override_of ?ovs subject w = Some v" "ov_limit v = Some 0"
    using override_after_upsert [OF u(1), of "principal c" w] assms(3) by auto
  have "\<exists>l\<in>set (resolve_limits d ?ovs (principal c)). bl_limit l = 0"
    using assms(3) resolve_limits_tenant [OF _ v(2)] resolve_limits_person [OF _ v(2)] v(1) by (metis budget_limit.select_convs(3))
  then obtain l where l: "l \<in> set (resolve_limits d ?ovs (principal c))" "bl_limit l = 0" by blast
  have "bl_limit l \<le> fst sp + snd sp" if "spend_of r c l = Inr sp" for sp
    using spend_nonneg [OF _ assms(5,6), of c l "fst sp" "snd sp"] that l(2) by simp
  then show ?thesis by (rule exceeded_limit_refuses [OF a assms(2) l(1) assms(4)])
qed

theorem suspension_refuses_witness:
  "\<exists>rows cache a. set_override ''acme'' [] ''day'' (Some 0) ''ops'' ([], [((''acme'', ''ann''), 0, [])]) = (Inr (), rows, cache)
     \<and> fst (check_budget 30 1 (Policy_rows rows) sample_reads (Some sample_caller) \<lparr>def_tenant_day = 100, def_tenant_month = 0, def_principal_day = 0, def_principal_month = 0\<rparr> cache) = Inr a
     \<and> al_refused a"
proof -
  let ?rows = "[\<lparr>pol_tenant = ''acme'', pol_subject = [], pol_period = ''day'', pol_limit = Some 0, pol_updated_by = ''ops''\<rparr>]"
  let ?d = "\<lparr>def_tenant_day = 100, def_tenant_month = 0, def_principal_day = 0, def_principal_month = 0\<rparr>"
  let ?r = "fst (check_budget 30 1 (Policy_rows ?rows) sample_reads (Some sample_caller) ?d [])"
  have s: "set_override ''acme'' [] ''day'' (Some 0) ''ops'' ([], [((''acme'', ''ann''), 0, [])]) = (Inr (), ?rows, [])" by code_simp
  have c: "tenant sample_caller = ''acme''" "valid_ctx (Some sample_caller)" by (simp_all add: sample_caller_def valid_ctx_def)
  have "\<not> isl ?r" by code_simp
  then obtain a where a: "?r = Inr a" by (metis isl_def sum.exhaust_sel)
  have "al_refused a"
    by (rule suspension_refuses [of sample_caller "[]" Day_window "''ops''" "([], [((''acme'', ''ann''), 0, [])])" ?rows "[]"])
      (use s a c in \<open>simp_all add: window_period_def TENANT_SUBJECT_def sample_reads_def sample_turns_def\<close>)
  then show ?thesis using s a by blast
qed

text \<open>Retention never lowers a cap. Deleting old usage events, by a clock not ahead of the check's, leaves what
  any limit reads as spent exactly as it was: the floor of the sweep lies before the start of every window.\<close>

theorem sweep_never_lowers_a_cap:
  assumes "sweep_call_events nows days n k db = (res, db')" and "\<And>i. nows i \<le> instant (br_now r)" and "valid_civil (br_now r)"
  shows "spend_of (r\<lparr>br_db := db'\<rparr>) c l = spend_of (r\<lparr>br_db := db\<rparr>) c l"
proof -
  have "instant (br_now r) - USAGE_EVENT_MIN_RETENTION_DAYS * day_us \<le> window_start (bl_window l) (br_now r)"
    using window_start_bounds(2) [OF assms(3), of "bl_window l"] day_us_pos by (simp add: USAGE_EVENT_MIN_RETENTION_DAYS_def)
  then have "usage_summary t p (Some (window_start (bl_window l) (br_now r))) db' = usage_summary t p (Some (window_start (bl_window l) (br_now r))) db" for t p
    using sweep_keeps_summary [OF assms(1,2)] by blast
  then show ?thesis by (simp add: spend_of_def split: option.splits)
qed

theorem sweep_never_lowers_a_cap_witness:
  "\<exists>res db'. sweep_call_events (\<lambda>_. 0) 40 5 5 sample_metered_db = (res, db') \<and> spend_of (sample_reads\<lparr>br_db := db'\<rparr>) sample_caller sample_limit =
     spend_of (sample_reads\<lparr>br_db := sample_metered_db\<rparr>) sample_caller sample_limit"
proof -
  obtain res db' where s: "sweep_call_events (\<lambda>_. 0) 40 5 5 sample_metered_db = (res, db')" by force
  have "0 \<le> instant (br_now sample_reads)" "valid_civil (br_now sample_reads)" by code_simp+
  then show ?thesis using sweep_never_lowers_a_cap [OF s] s by blast
qed

text \<open>A monthly limit counts the calendar month. An instant lies between the start of the month window and the
  moment the limit is announced to reset exactly when it falls in the same year and month as the check.\<close>

theorem month_window_exact:
  assumes "valid_civil now" and "valid_civil e" and "window_resets_at Month_window now = Inr (Some n)"
  shows "window_start Month_window now \<le> instant e \<and> instant e < instant n \<longleftrightarrow> year e = year now \<and> month e = month now"
proof -
  have v: "1 \<le> month now" "month now \<le> 12" "1 \<le> month e" "month e \<le> 12" using assms by (simp_all add: valid_civil_def)
  have sep: "instant (month_first c) + int (days_in_month (year c) (month c)) * day_us \<le> instant (month_first c')"
    if "year c < year c' \<or> year c = year c' \<and> month c < month c'" "1 \<le> month c" "month c \<le> 12" "1 \<le> month c'" for c c'
    unfolding instant_month_first distrib_right [symmetric] using month_start_mono [OF that(2-4,1)] day_us_pos by (intro mult_right_mono) simp_all
  note ie = instant_in_month [OF assms(2)] and nx = next_month(2) [OF assms(1,3)]
  consider "year e = year now \<and> month e = month now" | "year e < year now \<or> year e = year now \<and> month e < month now"
    | "year now < year e \<or> year now = year e \<and> month now < month e" by linarith
  then show ?thesis
  proof cases
    case 1
    then have "instant (month_first e) = instant (month_first now)" by (simp add: instant_month_first)
    then show ?thesis using 1 ie nx by (simp add: window_start_def)
  next
    case 2
    then have "instant e < window_start Month_window now" using sep [of e now] v ie(2) by (simp add: window_start_def)
    then show ?thesis using 2 by auto
  next
    case 3
    then have "instant n \<le> instant e" using sep [of now e] v ie(1) nx by linarith
    then show ?thesis using 3 by auto
  qed
qed

theorem month_window_exact_witness:
  "\<exists>n. window_resets_at Month_window sample_now = Inr (Some n) \<and> instant n = instant \<lparr>year = 2026, month = 3, day = 1, micros = 0\<rparr>
     \<and> \<not> instant \<lparr>year = 2026, month = 3, day = 1, micros = 0\<rparr> < instant n"
proof -
  let ?e = "\<lparr>year = 2026, month = 3, day = 1, micros = 0\<rparr>"
  have v: "valid_civil sample_now" "valid_civil ?e" "window_resets_at Month_window sample_now = Inr (Some ?e)"
    "window_start Month_window sample_now \<le> instant ?e" by code_simp+
  have "month ?e \<noteq> month sample_now" by (simp add: sample_now_def)
  then have "\<not> instant ?e < instant ?e" using month_window_exact [OF v(1,2,3)] v(4) by blast
  then show ?thesis using v(3) by blast
qed

text \<open>Two turns that are both checked before either takes its hold are both served, however little of the limit is
  left: the check and the hold are two statements.\<close>

lemma checks_before_holds_overshoot:
  "check_allowance sample_reads (Some sample_caller) [sample_limit\<lparr>bl_limit := 1 / 100\<rparr>] = Inr ((Allowance AL_ok)\<lparr>al_limit := 1 / 100\<rparr>)
   \<and> al_refused (projr (check_allowance (sample_reads\<lparr>br_holds := sample_held\<rparr>) (Some sample_caller) [sample_limit\<lparr>bl_limit := 1 / 100\<rparr>]))"
  by (intro conjI) code_simp+

end
