(* ===== verification/Identity.thy ===== *)
theory Identity
  imports Py_Text Security
begin

text \<open>
  Who is calling: the check of the front door's signed identity (\<open>app/core/internal_identity.py\<close>), what the
  API makes of it (\<open>app/api/identity.py\<close>, \<open>app/api/deps.py\<close>) and the identity of a published MCP server
  (\<open>app/mcp/identity.py\<close>). PyJWT and the HTTP client are code outside the repository: the record \<open>jwt_lib\<close>
  holds the two functions of PyJWT the verifier calls, and what a fetch of the keys brings is an argument.
\<close>

section \<open>The token library\<close>

text \<open>A claim or header value: text, or JSON of another type.\<close>

datatype claim_val = CText str | COther

type_synonym claim_map = "(str \<times> claim_val) list"

text \<open>The exception classes the module tells apart; \<open>JForeign\<close> is one that is not PyJWT's.\<close>

datatype jwt_error =
    ExpiredSignatureError
  | ImmatureSignatureError
  | InvalidSignatureError
  | InvalidIssuerError
  | InvalidAudienceError
  | MissingRequiredClaimError
  | InvalidSubjectError
  | InvalidIssuedAtError
  | InvalidJTIError
  | InvalidAlgorithmError
  | OtherPyJWTError
  | JForeign str

record decode_options =
  do_algorithms :: "str list"
  do_audience :: str
  do_issuer :: str
  do_leeway :: rat
  do_require :: "str list"

record 'k jwt_lib =
  get_unverified_header :: "str \<Rightarrow> jwt_error + claim_map"
  jwt_decode :: "str \<Rightarrow> 'k \<Rightarrow> decode_options \<Rightarrow> jwt_error + claim_map"

section \<open>Constants\<close>

definition IDENTITY_TYP :: str where "IDENTITY_TYP = ''authlimit-identity+jwt''"
definition ISSUER :: str where "ISSUER = ''urn:agent-core:authlimit''"
definition AUDIENCE :: str where "AUDIENCE = ''agent-core-api''"
definition ALGORITHM :: str where "ALGORITHM = ''EdDSA''"
definition LEEWAY_SECONDS :: rat where "LEEWAY_SECONDS = 5"
definition MAX_TOKEN_CHARS :: nat where "MAX_TOKEN_CHARS = 4096"

definition OUTCOMES :: "str list" where
  "OUTCOMES = [''ok'', ''missing'', ''malformed'', ''algorithm'', ''type'', ''unknown_kid'', ''signature'', ''expired'', ''not_yet_valid'',
     ''issuer'', ''audience'', ''claims'', ''unexpected'', ''keys_unavailable'']"

section \<open>The public keys\<close>

record key_settings =
  ks_ttl :: rat
  ks_grace :: rat
  ks_min_refresh :: rat

record 'k key_store =
  ky_keys :: "(str \<times> 'k) list"
  ky_fetched_at :: "rat option"
  ky_last_attempt :: "rat option"

definition no_keys :: "'k key_store" where
  "no_keys = \<lparr>ky_keys = [], ky_fetched_at = None, ky_last_attempt = None\<rparr>"

definition age_below :: "'k key_store \<Rightarrow> rat \<Rightarrow> rat \<Rightarrow> bool" where
  "age_below s now bound \<longleftrightarrow> (case ky_fetched_at s of None \<Rightarrow> False | Some f \<Rightarrow> now - f < bound)"

definition fresh :: "key_settings \<Rightarrow> 'k key_store \<Rightarrow> rat \<Rightarrow> bool" where
  "fresh c s now = age_below s now (ks_ttl c)"

definition usable :: "key_settings \<Rightarrow> 'k key_store \<Rightarrow> rat \<Rightarrow> bool" where
  "usable c s now = age_below s now (ks_ttl c + ks_grace c)"

text \<open>What a fetch brings: the entries of the key set, each a usable key under its \<open>kid\<close> or one to skip; a
  failure the module handles; an exception it does not.\<close>

datatype 'k key_answer = Key_set "(str \<times> 'k) option list" | Fetch_failed | Fetch_raised str

text \<open>\<open>later\<close> is the clock when the answer has been read. A later entry with the same \<open>kid\<close> replaces an earlier one.\<close>

definition refresh_keys :: "rat \<Rightarrow> rat \<Rightarrow> 'k key_answer \<Rightarrow> 'k key_store \<Rightarrow> (str + unit) \<times> 'k key_store" where
  "refresh_keys now later answer s =
     (let s1 = s\<lparr>ky_last_attempt := Some now\<rparr>
      in case answer of
           Fetch_raised e \<Rightarrow> (Inl e, s1)
         | Fetch_failed \<Rightarrow> (Inr (), s1)
         | Key_set es \<Rightarrow>
             let found = List.map_filter id es
             in if found = [] then (Inr (), s1)
                else (Inr (), s1\<lparr>ky_keys := rev found, ky_fetched_at := Some later\<rparr>))"

datatype key_error = KeysUnavailable | KeyRaised str

text \<open>One look-up reads the clock up to four times: before the lock, under it, when a fetch has been answered,
  and for the last check.\<close>

record lookup_clock =
  ck_before :: rat
  ck_locked :: rat
  ck_later :: rat
  ck_last :: rat

definition attempts_refresh :: "key_settings \<Rightarrow> 'k key_store \<Rightarrow> rat \<Rightarrow> bool" where
  "attempts_refresh c s now \<longleftrightarrow> (case ky_last_attempt s of None \<Rightarrow> True | Some t \<Rightarrow> ks_min_refresh c \<le> now - t)"

definition key_for ::
  "key_settings \<Rightarrow> lookup_clock \<Rightarrow> 'k key_answer \<Rightarrow> str \<Rightarrow> 'k key_store \<Rightarrow> (key_error + 'k option) \<times> 'k key_store" where
  "key_for c ck answer kid s =
     (if fresh c s (ck_before ck) \<and> map_of (ky_keys s) kid \<noteq> None then (Inr (map_of (ky_keys s) kid), s)
      else if fresh c s (ck_locked ck) \<and> map_of (ky_keys s) kid \<noteq> None then (Inr (map_of (ky_keys s) kid), s)
      else
        let (r, s') = (if attempts_refresh c s (ck_locked ck) then refresh_keys (ck_locked ck) (ck_later ck) answer s else (Inr (), s))
        in case r of
             Inl e \<Rightarrow> (Inl (KeyRaised e), s')
           | Inr _ \<Rightarrow>
               if \<not> usable c s' (ck_last ck) then (Inl KeysUnavailable, s')
               else (Inr (map_of (ky_keys s') kid), s'))"

section \<open>The verifier\<close>

record identity =
  id_tenant :: str
  id_principal :: str

record refusal =
  rf_outcome :: str
  rf_unavailable :: bool

definition refuse :: "str \<Rightarrow> refusal" where
  "refuse out = \<lparr>rf_outcome = out, rf_unavailable = False\<rparr>"

fun decode_outcome :: "jwt_error \<Rightarrow> str" where
  "decode_outcome ExpiredSignatureError = ''expired''"
| "decode_outcome ImmatureSignatureError = ''not_yet_valid''"
| "decode_outcome InvalidSignatureError = ''signature''"
| "decode_outcome InvalidIssuerError = ''issuer''"
| "decode_outcome InvalidAudienceError = ''audience''"
| "decode_outcome MissingRequiredClaimError = ''claims''"
| "decode_outcome InvalidSubjectError = ''claims''"
| "decode_outcome InvalidIssuedAtError = ''claims''"
| "decode_outcome InvalidJTIError = ''claims''"
| "decode_outcome InvalidAlgorithmError = ''algorithm''"
| "decode_outcome OtherPyJWTError = ''malformed''"
| "decode_outcome (JForeign _) = ''unexpected''"

fun foreign :: "jwt_error \<Rightarrow> bool" where
  "foreign (JForeign _) = True"
| "foreign _ = False"

definition identity_options :: decode_options where
  "identity_options = \<lparr>do_algorithms = [ALGORITHM], do_audience = AUDIENCE, do_issuer = ISSUER, do_leeway = LEEWAY_SECONDS,
     do_require = [''exp'', ''nbf'', ''iss'', ''aud'', ''sub'']\<rparr>"

definition usable_text :: "claim_val option \<Rightarrow> str option" where
  "usable_text v = (case v of Some (CText s) \<Rightarrow> if strip s \<noteq> [] then Some s else None | _ \<Rightarrow> None)"

definition identity_of_claims :: "claim_map \<Rightarrow> refusal + identity" where
  "identity_of_claims cl = (case (usable_text (map_of cl ''tenant''), usable_text (map_of cl ''sub'')) of
       (Some t, Some p) \<Rightarrow> Inr \<lparr>id_tenant = t, id_principal = p\<rparr>
     | _ \<Rightarrow> Inl (refuse ''claims''))"

text \<open>\<open>_verify\<close> inside \<open>verify\<close>: an exception that is not handled where it arises is the refusal \<open>unexpected\<close>.\<close>

definition verify ::
  "'k jwt_lib \<Rightarrow> key_settings \<Rightarrow> lookup_clock \<Rightarrow> 'k key_answer \<Rightarrow> str option \<Rightarrow> 'k key_store \<Rightarrow> (refusal + identity) \<times> 'k key_store" where
  "verify lib c ck answer token s =
     (case token of
        None \<Rightarrow> (Inl (refuse ''missing''), s)
      | Some tok \<Rightarrow>
          if tok = [] then (Inl (refuse ''missing''), s)
          else if MAX_TOKEN_CHARS < length tok then (Inl (refuse ''malformed''), s)
          else (case get_unverified_header lib tok of
              Inl e \<Rightarrow> (Inl (refuse (if foreign e then ''unexpected'' else ''malformed'')), s)
            | Inr header \<Rightarrow>
                if map_of header ''alg'' \<noteq> Some (CText ALGORITHM) then (Inl (refuse ''algorithm''), s)
                else if map_of header ''typ'' \<noteq> Some (CText IDENTITY_TYP) then (Inl (refuse ''type''), s)
                else (case map_of header ''kid'' of
                    Some (CText kid) \<Rightarrow>
                      if kid = [] then (Inl (refuse ''unknown_kid''), s)
                      else (case key_for c ck answer kid s of
                          (Inl KeysUnavailable, s') \<Rightarrow> (Inl \<lparr>rf_outcome = ''keys_unavailable'', rf_unavailable = True\<rparr>, s')
                        | (Inl (KeyRaised _), s') \<Rightarrow> (Inl (refuse ''unexpected''), s')
                        | (Inr None, s') \<Rightarrow> (Inl (refuse ''unknown_kid''), s')
                        | (Inr (Some k), s') \<Rightarrow>
                            (case jwt_decode lib tok k identity_options of
                               Inl e \<Rightarrow> (Inl (refuse (decode_outcome e)), s')
                             | Inr cl \<Rightarrow> (identity_of_claims cl, s')))
                  | _ \<Rightarrow> (Inl (refuse ''unknown_kid''), s))))"

section \<open>The request's context\<close>

datatype api_refusal = UNAUTHENTICATED | AUTH_UNAVAILABLE | RequestValidationError "str list"

definition refusal_for :: "refusal \<Rightarrow> api_refusal" where
  "refusal_for r = (if rf_unavailable r then AUTH_UNAVAILABLE else UNAUTHENTICATED)"

text \<open>The status and the one header of the answer to a refusal; the handler asserts it is one of its two.\<close>

definition auth_refused_answer :: "api_refusal \<Rightarrow> (nat \<times> str \<times> str) option" where
  "auth_refused_answer r = (case r of
       UNAUTHENTICATED \<Rightarrow> Some (401, ''WWW-Authenticate'', ''Bearer realm='' @ [CHR 0x22] @ ''agent-core-api'' @ [CHR 0x22])
     | AUTH_UNAVAILABLE \<Rightarrow> Some (503, ''Retry-After'', ''30'')
     | RequestValidationError _ \<Rightarrow> None)"

definition header_text :: "str option \<Rightarrow> str" where
  "header_text v = (case v of None \<Rightarrow> [] | Some s \<Rightarrow> s)"

definition get_ctx ::
  "str \<Rightarrow> 'k jwt_lib \<Rightarrow> key_settings \<Rightarrow> lookup_clock \<Rightarrow> 'k key_answer \<Rightarrow> str option \<Rightarrow> str option \<Rightarrow> str option \<Rightarrow> 'k key_store \<Rightarrow>
   (api_refusal + security_ctx) \<times> 'k key_store" where
  "get_ctx auth_mode lib c ck answer x_tenant_id x_principal_id x_internal_identity s =
     (if auth_mode = ''headers'' then
        (let absent = map fst (filter (\<lambda>(n, v). v = None) [(''x-tenant-id'', x_tenant_id), (''x-principal-id'', x_principal_id)])
         in if absent \<noteq> [] then (Inl (RequestValidationError absent), s)
            else (Inr \<lparr>tenant = header_text x_tenant_id, principal = header_text x_principal_id, claims = []\<rparr>, s))
      else (case verify lib c ck answer x_internal_identity s of
          (Inl r, s') \<Rightarrow> (Inl (refusal_for r), s')
        | (Inr i, s') \<Rightarrow> (Inr \<lparr>tenant = id_tenant i, principal = id_principal i, claims = []\<rparr>, s')))"

section \<open>The startup check\<close>

text \<open>The parts \<open>urlsplit\<close> reads off the keys' address, and whether its host is an IP address of the loopback.\<close>

record url_parts =
  up_url :: str
  up_scheme :: str
  up_hostname :: "str option"
  up_userinfo :: bool
  up_query_or_fragment :: bool
  up_loopback_ip :: bool

definition is_loopback :: "url_parts \<Rightarrow> bool" where
  "is_loopback u = (case up_hostname u of
       None \<Rightarrow> False
     | Some h \<Rightarrow> h = ''localhost'' \<or> suffix ''.localhost'' h \<or> up_loopback_ip u)"

definition check_settings :: "str \<Rightarrow> url_parts \<Rightarrow> str option" where
  "check_settings auth_mode u =
     (if auth_mode \<noteq> ''identity'' then None
      else if up_url u = [] \<or> up_scheme u \<notin> {''http'', ''https''} \<or> up_hostname u = None \<or> up_hostname u = Some [] then Some ''absolute http(s) URL''
      else if up_userinfo u then Some ''credentials''
      else if up_query_or_fragment u then Some ''query or fragment''
      else if up_scheme u = ''http'' \<and> \<not> (is_loopback u \<or> CHR ''.'' \<notin> set (the (up_hostname u))) then Some ''https''
      else None)"

section \<open>The identity of an MCP call\<close>

datatype identity_missing = LauncherIdentityMissing | TokenIdentityMissing

definition launcher_ctx :: "str \<Rightarrow> str \<Rightarrow> str option \<Rightarrow> identity_missing + security_ctx" where
  "launcher_ctx mcp_tenant mcp_principal fixed =
     (let ctx = \<lparr>tenant = strip (case fixed of None \<Rightarrow> mcp_tenant | Some t \<Rightarrow> t), principal = strip mcp_principal, claims = []\<rparr>
      in if valid_ctx (Some ctx) then Inr ctx else Inl LauncherIdentityMissing)"

definition claim_text :: "claim_map \<Rightarrow> str \<Rightarrow> str" where
  "claim_text cl n = (case map_of cl n of Some (CText s) \<Rightarrow> strip s | _ \<Rightarrow> [])"

text \<open>\<open>token\<close>: the claims of the request's verified access token, if it carries one.\<close>

definition token_source :: "str \<Rightarrow> str \<Rightarrow> claim_map option \<Rightarrow> identity_missing + security_ctx" where
  "token_source tenant_claim principal_claim token = (case token of
       None \<Rightarrow> Inl TokenIdentityMissing
     | Some cl \<Rightarrow>
         let ctx = \<lparr>tenant = claim_text cl tenant_claim, principal = claim_text cl principal_claim, claims = []\<rparr>
         in if valid_ctx (Some ctx) then Inr ctx else Inl TokenIdentityMissing)"

end
