(* ===== verification/Identity_Claims.thy ===== *)
theory Identity_Claims
  imports Identity
begin

text \<open>
  Facts of the key store and the properties of the identity check: its answers are of a closed kind, a
  context it grants is the one the front door signed, and made-up key ids cannot make it fetch often.
\<close>

section \<open>The key store\<close>

text \<open>\<open>published f kid k\<close>: at time \<open>f\<close> the front door published \<open>k\<close> under \<open>kid\<close>.\<close>

definition keys_published :: "(rat \<Rightarrow> str \<Rightarrow> 'k \<Rightarrow> bool) \<Rightarrow> 'k key_store \<Rightarrow> bool" where
  "keys_published published s \<longleftrightarrow> (\<forall>(kid, k)\<in>set (ky_keys s). \<exists>f. ky_fetched_at s = Some f \<and> published f kid k)"

definition answer_honest :: "(rat \<Rightarrow> str \<Rightarrow> 'k \<Rightarrow> bool) \<Rightarrow> rat \<Rightarrow> 'k key_answer \<Rightarrow> bool" where
  "answer_honest published later answer \<longleftrightarrow> (\<forall>es kid k. answer = Key_set es \<and> Some (kid, k) \<in> set es \<longrightarrow> published later kid k)"

lemma refresh_keys_published:
  assumes "keys_published published s" "answer_honest published later answer"
  shows "keys_published published (snd (refresh_keys now later answer s))"
proof (cases answer)
  case (Key_set es)
  have "published later kid k" if "(kid, k) \<in> set (List.map_filter id es)" for kid k
    using that assms(2) Key_set by (force simp: answer_honest_def List.map_filter_def)
  then show ?thesis using assms(1) Key_set by (auto simp: keys_published_def refresh_keys_def Let_def)
qed (use assms in \<open>simp_all add: keys_published_def refresh_keys_def Let_def\<close>)

definition clock_ok :: "lookup_clock \<Rightarrow> bool" where
  "clock_ok ck \<longleftrightarrow> ck_before ck \<le> ck_locked ck \<and> ck_locked ck \<le> ck_last ck"

lemma age_below_mono: "age_below s now b \<Longrightarrow> now' \<le> now \<Longrightarrow> b \<le> b' \<Longrightarrow> age_below s now' b'"
  by (auto simp: age_below_def split: option.splits)

lemma key_for_published:
  assumes p: "keys_published published s" "answer_honest published (ck_later ck) answer"
    and k: "key_for c ck answer kid s = (r, s')" and ck: "clock_ok ck" "0 \<le> ks_grace c"
  shows "keys_published published s'
    \<and> (\<forall>x. r = Inr (Some x) \<longrightarrow> (\<exists>f. published f kid x \<and> ck_before ck - f < ks_ttl c + ks_grace c))"
proof -
  have found: "\<exists>f. published f kid x \<and> ck_before ck - f < ks_ttl c + ks_grace c"
    if "keys_published published t" "map_of (ky_keys t) kid = Some x" "age_below t (ck_before ck) (ks_ttl c + ks_grace c)" for t x
  proof -
    have "(kid, x) \<in> set (ky_keys t)" using that(2) by (rule map_of_SomeD)
    from bspec [OF that(1) [unfolded keys_published_def] this]
    obtain f where "ky_fetched_at t = Some f" "published f kid x" by auto
    then show ?thesis using that(3) by (auto simp: age_below_def)
  qed
  let ?known = "map_of (ky_keys s) kid \<noteq> None"
  show ?thesis
  proof (cases "(fresh c s (ck_before ck) \<or> fresh c s (ck_locked ck)) \<and> ?known")
    case True
    then have "key_for c ck answer kid s = (Inr (map_of (ky_keys s) kid), s)" unfolding key_for_def by presburger
    then have "r = Inr (map_of (ky_keys s) kid)" "s' = s" using k by simp_all
    moreover have "age_below s (ck_before ck) (ks_ttl c + ks_grace c)"
      using True ck by (auto simp: fresh_def clock_ok_def intro: age_below_mono)
    ultimately show ?thesis using p(1) found by auto
  next
    case False
    then have no: "\<not> (fresh c s (ck_before ck) \<and> ?known)" "\<not> (fresh c s (ck_locked ck) \<and> ?known)" by auto
    define q where "q = (if attempts_refresh c s (ck_locked ck) then refresh_keys (ck_locked ck) (ck_later ck) answer s else (Inr (), s))"
    have pub: "keys_published published (snd q)" using refresh_keys_published [OF p] p(1) by (simp add: q_def)
    have "(r, s') = (case fst q of Inl e \<Rightarrow> (Inl (KeyRaised e), snd q) | Inr _ \<Rightarrow>
        if \<not> usable c (snd q) (ck_last ck) then (Inl KeysUnavailable, snd q) else (Inr (map_of (ky_keys (snd q)) kid), snd q))"
      unfolding k [symmetric] key_for_def if_not_P [OF no(1)] if_not_P [OF no(2)] q_def [symmetric] by (simp add: Let_def split_beta)
    then have "s' = snd q" "\<forall>x. r = Inr (Some x) \<longrightarrow> usable c (snd q) (ck_last ck) \<and> map_of (ky_keys (snd q)) kid = Some x"
      by (auto split: sum.splits if_splits)
    moreover have "age_below (snd q) (ck_before ck) (ks_ttl c + ks_grace c)" if "usable c (snd q) (ck_last ck)"
      using that ck by (auto simp: usable_def clock_ok_def intro: age_below_mono)
    ultimately show ?thesis using pub found by auto
  qed
qed

section \<open>How often the keys are fetched\<close>

definition fetches :: "key_settings \<Rightarrow> lookup_clock \<Rightarrow> str \<Rightarrow> 'k key_store \<Rightarrow> bool" where
  "fetches c ck kid s \<longleftrightarrow> \<not> ((fresh c s (ck_before ck) \<or> fresh c s (ck_locked ck)) \<and> map_of (ky_keys s) kid \<noteq> None)
     \<and> attempts_refresh c s (ck_locked ck)"

fun fetch_count :: "key_settings \<Rightarrow> (lookup_clock \<times> 'k key_answer \<times> str) list \<Rightarrow> 'k key_store \<Rightarrow> nat" where
  "fetch_count c [] s = 0"
| "fetch_count c ((ck, answer, kid) # reqs) s = (if fetches c ck kid s then 1 else 0) + fetch_count c reqs (snd (key_for c ck answer kid s))"

lemma refresh_keys_attempt: "ky_last_attempt (snd (refresh_keys now later answer s)) = Some now"
  by (simp add: refresh_keys_def Let_def split: key_answer.splits)

lemma key_for_attempt:
  "ky_last_attempt (snd (key_for c ck answer kid s)) = (if fetches c ck kid s then Some (ck_locked ck) else ky_last_attempt s)"
  using refresh_keys_attempt [of "ck_locked ck" "ck_later ck" answer s]
  by (auto simp: key_for_def fetches_def Let_def split_beta split: sum.splits)

lemma fetch_count_after:
  assumes "\<forall>(ck, _)\<in>set reqs. ck_locked ck \<le> b" "ky_last_attempt s = Some t" "t \<le> b" "0 \<le> ks_min_refresh c"
  shows "of_nat (fetch_count c reqs s) * ks_min_refresh c \<le> b - t"
  using assms(1-3)
proof (induction reqs arbitrary: s t)
  case (Cons req reqs)
  obtain ck answer kid where req: "req = (ck, answer, kid)" by (metis prod_cases3)
  let ?s = "snd (key_for c ck answer kid s)"
  show ?case
  proof (cases "fetches c ck kid s")
    case True
    then have "ks_min_refresh c \<le> ck_locked ck - t" using Cons.prems(2) by (simp add: fetches_def attempts_refresh_def)
    moreover have "of_nat (fetch_count c reqs ?s) * ks_min_refresh c \<le> b - ck_locked ck"
      using Cons.IH [of ?s "ck_locked ck"] Cons.prems(1) True req by (simp add: key_for_attempt)
    ultimately show ?thesis using True req by (simp add: distrib_right)
  next
    case False
    then show ?thesis using Cons.IH [of ?s t] Cons.prems req by (simp add: key_for_attempt)
  qed
qed simp

lemma fetch_count_bounded:
  assumes "\<forall>(ck, _)\<in>set reqs. a \<le> ck_locked ck \<and> ck_locked ck \<le> b" "a \<le> b" "0 \<le> ks_min_refresh c"
  shows "of_nat (fetch_count c reqs s) * ks_min_refresh c \<le> b - a + ks_min_refresh c"
  using assms(1)
proof (induction reqs arbitrary: s)
  case Nil
  then show ?case using assms by simp
next
  case (Cons req reqs)
  obtain ck answer kid where req: "req = (ck, answer, kid)" by (metis prod_cases3)
  let ?s = "snd (key_for c ck answer kid s)"
  have b: "a \<le> ck_locked ck" "ck_locked ck \<le> b" "\<forall>(ck, _)\<in>set reqs. ck_locked ck \<le> b" using Cons.prems req by auto
  show ?case
  proof (cases "fetches c ck kid s")
    case True
    then have "of_nat (fetch_count c reqs ?s) * ks_min_refresh c \<le> b - ck_locked ck"
      using fetch_count_after [OF b(3) _ b(2) assms(3), of ?s] by (simp add: key_for_attempt)
    then show ?thesis using True req b(1) by (simp add: distrib_right)
  next
    case False
    then show ?thesis using Cons.IH [of ?s] Cons.prems req by simp
  qed
qed

section \<open>The kinds of answer\<close>

definition answer_ok :: "refusal + identity \<Rightarrow> bool" where
  "answer_ok a \<longleftrightarrow> (case a of
       Inr i \<Rightarrow> strip (id_tenant i) \<noteq> [] \<and> strip (id_principal i) \<noteq> []
     | Inl r \<Rightarrow> rf_outcome r \<in> set OUTCOMES \<and> rf_outcome r \<noteq> ''ok'' \<and> (rf_unavailable r \<longleftrightarrow> rf_outcome r = ''keys_unavailable''))"

lemma answer_ok_refuse: "out \<in> set OUTCOMES - {''ok'', ''keys_unavailable''} \<Longrightarrow> answer_ok (Inl (refuse out))"
  by (simp add: answer_ok_def refuse_def)

lemma answer_ok_refusals:
  "answer_ok (Inl (refuse ''missing''))" "answer_ok (Inl (refuse ''malformed''))" "answer_ok (Inl (refuse ''algorithm''))"
  "answer_ok (Inl (refuse ''type''))" "answer_ok (Inl (refuse ''unknown_kid''))" "answer_ok (Inl (refuse ''unexpected''))"
  "answer_ok (Inl (refuse ''claims''))" "answer_ok (Inl (refuse (decode_outcome e)))"
  "answer_ok (Inl \<lparr>rf_outcome = ''keys_unavailable'', rf_unavailable = True\<rparr>)"
  subgoal by (rule answer_ok_refuse) (simp add: OUTCOMES_def)
  subgoal by (rule answer_ok_refuse) (simp add: OUTCOMES_def)
  subgoal by (rule answer_ok_refuse) (simp add: OUTCOMES_def)
  subgoal by (rule answer_ok_refuse) (simp add: OUTCOMES_def)
  subgoal by (rule answer_ok_refuse) (simp add: OUTCOMES_def)
  subgoal by (rule answer_ok_refuse) (simp add: OUTCOMES_def)
  subgoal by (rule answer_ok_refuse) (simp add: OUTCOMES_def)
  subgoal by (rule answer_ok_refuse) (cases e; simp add: OUTCOMES_def)
  subgoal by (simp add: answer_ok_def OUTCOMES_def)
  done

lemma answer_ok_claims: "answer_ok (identity_of_claims cl)"
proof (cases "usable_text (map_of cl ''tenant'') = None \<or> usable_text (map_of cl ''sub'') = None")
  case True
  then have "identity_of_claims cl = Inl (refuse ''claims'')" by (auto simp: identity_of_claims_def split: option.splits)
  then show ?thesis by (simp add: answer_ok_refusals)
next
  case False
  then obtain t p where tp: "usable_text (map_of cl ''tenant'') = Some t" "usable_text (map_of cl ''sub'') = Some p" by auto
  then have "strip t \<noteq> []" "strip p \<noteq> []" by (auto simp: usable_text_def split: option.splits claim_val.splits if_splits)
  then show ?thesis using tp by (simp add: identity_of_claims_def answer_ok_def)
qed

lemma verify_answer_ok: "answer_ok (fst (verify lib c ck answer token s))"
  unfolding verify_def
  by (simp add: answer_ok_refusals answer_ok_claims
      split: option.splits sum.splits claim_val.splits prod.splits key_error.splits)

section \<open>Properties\<close>

text \<open>C32. The verifier's answers are of a closed kind. Whatever the token, the library, the keys and the clock, the
  check returns: either an identity whose tenant and principal are text that is not blank, or a refusal
  whose reason is one of the counted ones, marked as the API's own fault exactly when the keys could not be
  confirmed current.\<close>

theorem verify_answers_closed:
  "case fst (verify lib c ck answer token s) of
     Inr i \<Rightarrow> strip (id_tenant i) \<noteq> [] \<and> strip (id_principal i) \<noteq> []
   | Inl r \<Rightarrow> rf_outcome r \<in> set OUTCOMES \<and> rf_outcome r \<noteq> ''ok'' \<and> (rf_unavailable r \<longleftrightarrow> rf_outcome r = ''keys_unavailable'')"
  using verify_answer_ok [of lib c ck answer token s] by (simp add: answer_ok_def)

text \<open>What the code relies on PyJWT for: a token decodes under a key only if it is signed with it, carries every
  claim that was required, and names the issuer that was asked for.\<close>

definition jwt_sound :: "'k jwt_lib \<Rightarrow> (str \<Rightarrow> 'k \<Rightarrow> claim_map \<Rightarrow> bool) \<Rightarrow> bool" where
  "jwt_sound lib signed \<longleftrightarrow> (\<forall>tok k opts cl. jwt_decode lib tok k opts = Inr cl \<longrightarrow>
     signed tok k cl \<and> map_of cl ''iss'' = Some (CText (do_issuer opts)) \<and> (\<forall>n\<in>set (do_require opts). map_of cl n \<noteq> None))"

text \<open>C29. The context of a request is the one the front door signed. In identity mode a request is given a context
  only if it carries a token signed, for this issuer, by a key the front door published no longer ago than
  the keys' lifetime plus the grace; the tenant and the principal are those of the token's claims, never of
  the headers a client can set; and the context is a valid one.\<close>

theorem request_ctx_is_signed:
  assumes "get_ctx auth_mode lib c ck answer xt xp token s = (Inr ctx, s')" and "auth_mode \<noteq> ''headers''"
    and "jwt_sound lib signed" and "keys_published published s" and "answer_honest published (ck_later ck) answer"
    and "clock_ok ck" and "0 \<le> ks_grace c"
  shows "valid_ctx (Some ctx) \<and> keys_published published s'
    \<and> (\<exists>tok kid k cl f. token = Some tok \<and> signed tok k cl \<and> published f kid k \<and> ck_before ck - f < ks_ttl c + ks_grace c
         \<and> map_of cl ''iss'' = Some (CText ISSUER)
         \<and> map_of cl ''tenant'' = Some (CText (tenant ctx)) \<and> map_of cl ''sub'' = Some (CText (principal ctx)))
    \<and> get_ctx auth_mode lib c ck answer xt' xp' token s = (Inr ctx, s')"
proof -
  obtain i where i: "verify lib c ck answer token s = (Inr i, s')" "ctx = \<lparr>tenant = id_tenant i, principal = id_principal i, claims = []\<rparr>"
    using assms(1,2) by (auto simp: get_ctx_def split: sum.splits prod.splits)
  from i(1) obtain tok kid k cl where t: "token = Some tok" "key_for c ck answer kid s = (Inr (Some k), s')"
      "jwt_decode lib tok k identity_options = Inr cl" "identity_of_claims cl = Inr i"
    by (auto simp: verify_def split: option.splits sum.splits claim_val.splits prod.splits key_error.splits if_splits)
  note key = key_for_published [OF assms(4,5) t(2) assms(6,7)]
  have cl: "map_of cl ''tenant'' = Some (CText (id_tenant i))" "map_of cl ''sub'' = Some (CText (id_principal i))"
      "strip (id_tenant i) \<noteq> []" "strip (id_principal i) \<noteq> []"
    using t(4) by (auto simp: identity_of_claims_def usable_text_def split: option.splits claim_val.splits if_splits)
  then have "id_tenant i \<noteq> []" "id_principal i \<noteq> []" by (auto simp: strip_Nil_iff)
  then have "valid_ctx (Some ctx)" using i(2) by (simp add: valid_ctx_def)
  moreover have "signed tok k cl" "map_of cl ''iss'' = Some (CText ISSUER)"
    using assms(3) t(3) by (auto simp: jwt_sound_def identity_options_def)
  moreover have "get_ctx auth_mode lib c ck answer xt' xp' token s = (Inr ctx, s')" using assms(1,2) by (simp add: get_ctx_def)
  ultimately show ?thesis using key t(1) cl(1,2) i(2) by auto
qed

definition sample_jwt :: "nat jwt_lib" where
  "sample_jwt = \<lparr>get_unverified_header = (\<lambda>_. Inr [(''alg'', CText ALGORITHM), (''typ'', CText IDENTITY_TYP), (''kid'', CText ''k1'')]),
     jwt_decode = (\<lambda>tok k opts. if tok = ''good'' \<and> k = 7 \<and> do_issuer opts = ISSUER \<and> do_require opts = [''exp'', ''nbf'', ''iss'', ''aud'', ''sub'']
       then Inr [(''iss'', CText ISSUER), (''tenant'', CText ''acme''), (''sub'', CText ''ann''), (''exp'', COther), (''nbf'', COther), (''aud'', COther)]
       else Inl InvalidSignatureError)\<rparr>"

theorem request_ctx_is_signed_witness:
  "\<exists>ctx s'. get_ctx ''identity'' sample_jwt \<lparr>ks_ttl = 300, ks_grace = 600, ks_min_refresh = 10\<rparr>
      \<lparr>ck_before = 1, ck_locked = 2, ck_later = 3, ck_last = 4\<rparr> (Key_set [Some (''k1'', 7)]) (Some ''evil'') (Some ''eve'') (Some ''good'') no_keys = (Inr ctx, s')
    \<and> tenant ctx = ''acme'' \<and> valid_ctx (Some ctx)"
proof -
  let ?c = "\<lparr>ks_ttl = 300, ks_grace = 600, ks_min_refresh = 10\<rparr>" and ?ck = "\<lparr>ck_before = 1, ck_locked = 2, ck_later = 3, ck_last = 4\<rparr>"
  let ?g = "get_ctx ''identity'' sample_jwt ?c ?ck (Key_set [Some (''k1'', 7)]) (Some ''evil'') (Some ''eve'') (Some ''good'') no_keys"
  have "fst ?g = Inr \<lparr>tenant = ''acme'', principal = ''ann'', claims = []\<rparr>" by code_simp
  then have g: "?g = (Inr \<lparr>tenant = ''acme'', principal = ''ann'', claims = []\<rparr>, snd ?g)" by (metis prod.collapse)
  have sound: "jwt_sound sample_jwt (\<lambda>tok k cl. tok = ''good'' \<and> k = 7)"
    by (auto simp: jwt_sound_def sample_jwt_def split: if_splits)
  have "valid_ctx (Some \<lparr>tenant = ''acme'', principal = ''ann'', claims = []\<rparr>)"
    using request_ctx_is_signed [OF g _ sound, of "\<lambda>f kid k. f = 3 \<and> kid = ''k1'' \<and> k = 7"]
    by (simp add: keys_published_def no_keys_def answer_honest_def clock_ok_def)
  then show ?thesis using g by (metis security_ctx.select_convs(1))
qed

text \<open>Made-up key ids are not load on the front door. However many look-ups are made in a stretch of time, with
  whatever ids and answers, the keys are fetched at most once per refresh interval, plus once.\<close>

theorem key_fetches_bounded:
  assumes "\<forall>(ck, _)\<in>set reqs. a \<le> ck_locked ck \<and> ck_locked ck \<le> b" and "a \<le> b" and "0 < ks_min_refresh c"
  shows "of_nat (fetch_count c reqs s) \<le> (b - a) / ks_min_refresh c + 1"
  using fetch_count_bounded [OF assms(1,2), of c s] assms(3) by (simp add: field_simps)

theorem key_fetches_bounded_witness:
  "of_nat (fetch_count \<lparr>ks_ttl = 300, ks_grace = 600, ks_min_refresh = 10\<rparr>
      (replicate 50 (\<lparr>ck_before = 1, ck_locked = 2, ck_later = 3, ck_last = 4\<rparr>, Fetch_failed, ''made-up'')) (no_keys :: nat key_store)) \<le> (9 - 2) / 10 + (1::rat)"
  using key_fetches_bounded [of "replicate 50 (\<lparr>ck_before = 1, ck_locked = 2, ck_later = 3, ck_last = 4\<rparr>, Fetch_failed, ''made-up'')" 2 9
      "\<lparr>ks_ttl = 300, ks_grace = 600, ks_min_refresh = 10\<rparr>" "no_keys :: nat key_store"] by simp

end
