(* ===== verification/Turn_Stream.thy ===== *)
theory Turn_Stream
  imports Hitl Budgets
begin

text \<open>
  A turn as its caller sees it (\<open>app/agent/runtime/stream.py\<close>, \<open>app/agent/runtime/cancelled_turn.py\<close>): the
  events of the graph translated into typed events, the one terminal event, the entry points that start,
  resume, continue and cancel a run, and what a stopped turn leaves in its thread. What LangGraph streams,
  when, and what its checkpoint reads as afterwards are arguments (\<open>feed\<close>), as are the faults of the stores.
  Traces and log lines are left out; of the metrics only the outcome a turn is counted under is kept.
\<close>

section \<open>Events\<close>

text \<open>What \<open>astream_events\<close> yields, as far as it is read: the node or tool, the name of the subagent a nested run
  was tagged with, the chunk's content, the messages a finished node returned.\<close>

datatype raw_event =
    Chat_model_stream "str option" "str option" content
  | Tool_started str json "str option"
  | Tool_ended str "str option"
  | Chain_ended str "str option" "message list"
  | Other_event

datatype error_code =
    EC_timeout
  | EC_cancelled
  | EC_thread_busy
  | EC_checkpoint_incompatible
  | EC_pending_approval "(str \<times> json) list"
  | EC_provider_budget
  | EC_model_unpriced
  | EC_worker_lost
  | EC_budget budget_error_code
  | EC_internal str

text \<open>The typed events. An error without a code is the plain text a refused resume answers with.\<close>

datatype event =
    Ev_token str
  | Ev_tool_start str json "str option"
  | Ev_tool_end str "str option"
  | Ev_retry
  | Ev_compacted
  | Ev_citations "citation list" nat
  | Ev_followups "str list"
  | Ev_system_note str
  | Ev_approval_required "(str \<times> json) list"
  | Ev_error "error_code option" str
  | Ev_done

text \<open>\<open>queue.TERMINAL_EVENT_TYPES\<close>.\<close>

fun terminal_event :: "event \<Rightarrow> bool" where
  "terminal_event (Ev_approval_required _) = True"
| "terminal_event (Ev_error _ _) = True"
| "terminal_event Ev_done = True"
| "terminal_event _ = False"

text \<open>An exception: its class, whether it is a \<open>TimeoutError\<close>, whether the gateway's budget stop.\<close>

record failure =
  fl_class :: str
  fl_timeout :: bool
  fl_budget :: bool

definition INTERNAL_ERROR_MESSAGE :: str where
  "INTERNAL_ERROR_MESSAGE = ''Something went wrong on our side while handling this request. Please try again; if it keeps happening, contact support.''"

definition internal_error_envelope :: "failure \<Rightarrow> event" where
  "internal_error_envelope f = Ev_error (Some (EC_internal (fl_class f))) INTERNAL_ERROR_MESSAGE"

definition budget_envelope :: event where
  "budget_envelope = Ev_error (Some EC_provider_budget)
     ''This service has reached its spending limit with its AI provider and cannot take new requests until the limit is raised or resets. This is on our side, not yours.''"

definition refusal_event :: "error_envelope \<Rightarrow> event" where
  "refusal_event e = Ev_error (Some (EC_budget (ee_code e))) (ee_message e)"

section \<open>Reading the graph under a deadline\<close>

text \<open>One round of the loop: the clock before it, what the cancel check answers, what comes next and when.\<close>

datatype next_item = Next_event raw_event | Next_stop | Next_raised failure | Next_task_cancelled

record poll =
  po_now :: rat
  po_cancel :: "failure + bool"
  po_next :: next_item
  po_at :: rat

datatype stream_end = Ran_out | Turn_cancelled | Task_cancelled | Stream_failed failure

definition timeout_failure :: failure where
  "timeout_failure = \<lparr>fl_class = ''TimeoutError'', fl_timeout = True, fl_budget = False\<rparr>"

text \<open>\<open>wait_for\<close> gives up at the deadline; a stream that says no more has stopped.\<close>

fun iterate_with_timeout :: "rat \<Rightarrow> poll list \<Rightarrow> raw_event list \<times> stream_end" where
  "iterate_with_timeout deadline [] = ([], Ran_out)"
| "iterate_with_timeout deadline (p # ps) =
     (if deadline \<le> po_now p then ([], Stream_failed timeout_failure)
      else (case po_cancel p of
          Inl f \<Rightarrow> ([], Stream_failed f)
        | Inr True \<Rightarrow> ([], Turn_cancelled)
        | Inr False \<Rightarrow>
            if deadline \<le> po_at p then ([], Stream_failed timeout_failure)
            else (case po_next p of
                Next_stop \<Rightarrow> ([], Ran_out)
              | Next_raised f \<Rightarrow> ([], Stream_failed f)
              | Next_task_cancelled \<Rightarrow> ([], Task_cancelled)
              | Next_event e \<Rightarrow> (case iterate_with_timeout deadline ps of (es, z) \<Rightarrow> (e # es, z)))))"

section \<open>Translating events\<close>

definition text_content :: "content \<Rightarrow> str" where
  "text_content c = (case c of
       Text t \<Rightarrow> t
     | Parts ps \<Rightarrow> concat (map (\<lambda>p. case p of TextPart t \<Rightarrow> t | StrPart t \<Rightarrow> t | ImagePart _ \<Rightarrow> [] | OtherPart \<Rightarrow> []) ps))"

definition truthy_name :: "str option \<Rightarrow> str option" where
  "truthy_name n = (case n of None \<Rightarrow> None | Some s \<Rightarrow> if s = [] then None else Some s)"

text \<open>A node that replaced the last message: what was streamed is withdrawn and the new text sent.\<close>

definition replacement :: "message list \<Rightarrow> str list \<Rightarrow> str list \<times> event list" where
  "replacement ms answer =
     (if ms = [] then (answer, [])
      else (case content (last ms) of
          Text t \<Rightarrow> if t = [] then ([], [Ev_retry]) else ([t], [Ev_retry, Ev_token t])
        | Parts _ \<Rightarrow> ([], [Ev_retry])))"

text \<open>One event: the pieces of the answer so far, and what is yielded.\<close>

fun translate :: "raw_event \<Rightarrow> str list \<Rightarrow> str list \<times> event list" where
  "translate (Chat_model_stream node sub c) answer =
     (if node = Some ''agent'' \<and> truthy_name sub = None then
        (let t = text_content c in if t = [] then (answer, []) else (answer @ [t], [Ev_token t]))
      else (answer, []))"
| "translate (Tool_started tool args sub) answer = (answer, [Ev_tool_start tool args (truthy_name sub)])"
| "translate (Tool_ended tool sub) answer = (answer, [Ev_tool_end tool (truthy_name sub)])"
| "translate (Chain_ended name sub ms) answer =
     (if truthy_name sub \<noteq> None then (answer, [])
      else if name = ''retry_output'' then ([], [Ev_retry])
      else if name = ''check_output'' \<or> name = ''retry_exhausted'' then replacement ms answer
      else if name = ''compact_history'' then (answer, if ms \<noteq> [] then [Ev_compacted] else [])
      else (answer, []))"
| "translate Other_event answer = (answer, [])"

fun translate_all :: "raw_event list \<Rightarrow> str list \<Rightarrow> str list \<times> event list" where
  "translate_all [] answer = (answer, [])"
| "translate_all (e # es) answer =
     (case translate e answer of (answer', out) \<Rightarrow> (case translate_all es answer' of (final, outs) \<Rightarrow> (final, out @ outs)))"

section \<open>One run of the graph\<close>

text \<open>A thread's checkpoint: what the resume checks read of it, and its values.\<close>

record thread_view =
  tv_snap :: snapshot
  tv_values :: state

record feed =
  fd_start :: rat
  fd_polls :: "poll list"
  fd_final :: "failure + thread_view"

text \<open>What a run yields; the answer as recorded; the outcome it is counted under; whether the stopped turn is
  discarded; the exception that leaves it.\<close>

record stream_run =
  sr_events :: "event list"
  sr_answer :: str
  sr_outcome :: "str option"
  sr_discards :: bool
  sr_raised :: "failure option"

definition turn_outcome :: "state \<Rightarrow> str" where
  "turn_outcome s = (if cache_hit s then ''success'' else if iterations s = 0 then ''rejected'' else ''success'')"

definition flat_interrupts :: "snapshot \<Rightarrow> (str \<times> json) list list" where
  "flat_interrupts sn = (if snap_next sn \<noteq> [] then concat (snap_tasks sn) else [])"

definition THREAD_BUSY_MESSAGE :: str where
  "THREAD_BUSY_MESSAGE = ''Another turn is already in progress on this conversation. Please wait for it to finish.''"

definition last_is_answer :: "state \<Rightarrow> bool" where
  "last_is_answer s \<longleftrightarrow> messages s \<noteq> [] \<and> mtype (last (messages s)) = AI"

definition stored_answer :: "state \<Rightarrow> str" where
  "stored_answer s = (case content (last (messages s)) of Text t \<Rightarrow> t | Parts _ \<Rightarrow> [])"

text \<open>The \<open>else\<close> branch: the stream ran out, and the checkpoint says why.\<close>

definition closing :: "thread_view \<Rightarrow> str list \<Rightarrow> event list \<Rightarrow> stream_run" where
  "closing v answer out =
     (let s = tv_values v; interrupts = flat_interrupts (tv_snap v)
      in if interrupts \<noteq> [] then
           \<lparr>sr_events = out @ [Ev_approval_required (hd interrupts)], sr_answer = concat answer, sr_outcome = None, sr_discards = False, sr_raised = None\<rparr>
         else if snap_next (tv_snap v) \<noteq> [] then
           \<lparr>sr_events = out @ [Ev_error (Some EC_thread_busy) THREAD_BUSY_MESSAGE], sr_answer = concat answer, sr_outcome = Some ''error'',
            sr_discards = False, sr_raised = None\<rparr>
         else if answer = [] \<and> \<not> last_is_answer s then
           \<lparr>sr_events = out @ [Ev_error (Some EC_checkpoint_incompatible)
               (''This conversation'' @ [CHR 0x27] @ ''s saved progress can no longer be continued. Please send your message again.'')],
            sr_answer = [], sr_outcome = Some ''error'', sr_discards = False, sr_raised = None\<rparr>
         else
           (let synthetic = (if answer = [] then stored_answer s else [])
            in \<lparr>sr_events = out @ (if synthetic \<noteq> [] then [Ev_token synthetic] else [])
                  @ (if used_citations s \<noteq> [] \<or> ungrounded_claims_count s \<noteq> 0 then [Ev_citations (used_citations s) (ungrounded_claims_count s)] else [])
                  @ (if followups s \<noteq> [] then [Ev_followups (followups s)] else []) @ [Ev_done],
                sr_answer = concat answer @ synthetic, sr_outcome = Some (turn_outcome s), sr_discards = False, sr_raised = None\<rparr>))"

definition failure_event :: "int \<Rightarrow> failure \<Rightarrow> event" where
  "failure_event timeout f =
     (if fl_timeout f then Ev_error (Some EC_timeout) (''Request exceeded '' @ dec_int timeout @ ''s timeout'')
      else if fl_budget f then budget_envelope
      else internal_error_envelope f)"

definition task_cancelled_failure :: failure where
  "task_cancelled_failure = \<lparr>fl_class = ''CancelledError'', fl_timeout = False, fl_budget = False\<rparr>"

text \<open>\<open>_run_graph_stream\<close>, with \<open>timeout\<close> the \<open>REQUEST_TIMEOUT_SECONDS\<close> of the deployment.\<close>

definition run_graph_stream :: "int \<Rightarrow> feed \<Rightarrow> stream_run" where
  "run_graph_stream timeout fd =
     (case iterate_with_timeout (fd_start fd + of_int timeout) (fd_polls fd) of
        (raw, z) \<Rightarrow>
          (case translate_all raw [] of
             (answer, out) \<Rightarrow>
               (case z of
                  Turn_cancelled \<Rightarrow> \<lparr>sr_events = out @ [Ev_error (Some EC_cancelled) ''Cancelled by user.''], sr_answer = concat answer,
                    sr_outcome = Some ''cancelled'', sr_discards = True, sr_raised = None\<rparr>
                | Task_cancelled \<Rightarrow> \<lparr>sr_events = out, sr_answer = concat answer, sr_outcome = Some ''cancelled'', sr_discards = False,
                    sr_raised = Some task_cancelled_failure\<rparr>
                | Stream_failed f \<Rightarrow> \<lparr>sr_events = out @ [failure_event timeout f], sr_answer = concat answer,
                    sr_outcome = Some (if fl_timeout f then ''timeout'' else ''error''), sr_discards = False, sr_raised = None\<rparr>
                | Ran_out \<Rightarrow>
                    (case fd_final fd of
                       Inl f \<Rightarrow> \<lparr>sr_events = out, sr_answer = concat answer, sr_outcome = None, sr_discards = False, sr_raised = Some f\<rparr>
                     | Inr v \<Rightarrow> closing v answer out))))"

section \<open>A stopped turn\<close>

definition STOPPED_TURN_MESSAGE :: str where
  "STOPPED_TURN_MESSAGE = ''[The person stopped this request before it finished.]''"

definition open_turn :: "message list \<Rightarrow> bool" where
  "open_turn ms \<longleftrightarrow> current_turn_messages ms \<noteq> [] \<and> is_user_message (hd (current_turn_messages ms))"

text \<open>The update of the thread, if there is one to make.\<close>

definition stopped_turn_update :: "message list \<Rightarrow> str \<times> message list" where
  "stopped_turn_update ms =
     (let turn = current_turn_messages ms
      in if \<not> open_turn ms then (''nothing'', [])
         else if list_ex (\<lambda>m. mtype m = Tool) turn then (''closed'', [AIMessage STOPPED_TURN_MESSAGE])
         else (''dropped'', map RemoveMessage (filter (\<lambda>i. i \<noteq> []) (List.map_filter msg_id turn))))"

text \<open>\<open>am\<close> is LangGraph's reducer of messages; reading or writing the checkpoint may fail or be too slow.\<close>

definition discard_cancelled_turn :: "reducer \<Rightarrow> bool \<Rightarrow> bool \<Rightarrow> message list \<Rightarrow> str \<times> message list" where
  "discard_cancelled_turn am read_fails write_fails ms =
     (if read_fails then (''failed'', ms)
      else (case stopped_turn_update ms of
          (outcome, upd) \<Rightarrow>
            if upd = [] then (outcome, ms)
            else if write_fails then (''failed'', ms)
            else (outcome, am ms upd)))"

section \<open>Starting, resuming, continuing\<close>

definition build_human_content :: "str \<Rightarrow> str list \<Rightarrow> content" where
  "build_human_content t images = (if images = [] then Text t else Parts (TextPart t # map ImagePart images))"

text \<open>What the graph is given: a new message, a decision for a pause, or nothing (a crashed run goes on).\<close>

datatype graph_input = New_turn content bool | Resume_run decision_value | Continue_run

text \<open>What an entry point meets: the answers of the cost checks, of the checkpointer and of the hold table.\<close>

record turn_io =
  ti_unpriced :: bool
  ti_refusal :: "failure + error_envelope option"
  ti_now :: int
  ti_hold_id :: str
  ti_hold_fault :: bool
  ti_release_fault :: bool
  ti_graph :: "failure option"
  ti_probe :: "failure + snapshot"
  ti_feed :: "graph_input \<Rightarrow> feed"

record turn_limits =
  tl_timeout :: int
  tl_turn_cost :: rat

type_synonym turn_result = "(event list \<times> failure option) \<times> budget_hold list"

text \<open>The hold of a turn spans its body and is released on every way out.\<close>

definition held :: "turn_limits \<Rightarrow> turn_io \<Rightarrow> security_ctx option \<Rightarrow> event list \<times> failure option \<Rightarrow> budget_hold list \<Rightarrow> turn_result" where
  "held tlim io who body hs =
     (case reserve_budget (ti_now io) (ti_hold_id io) (ti_hold_fault io) who (tl_turn_cost tlim) hs of
        (hold, hs') \<Rightarrow> (body, release_budget_reservation (ti_release_fault io) who hold hs'))"

definition streamed :: "turn_limits \<Rightarrow> turn_io \<Rightarrow> graph_input \<Rightarrow> event list \<times> failure option" where
  "streamed tlim io i = (let r = run_graph_stream (tl_timeout tlim) (ti_feed io i) in (sr_events r, sr_raised r))"

definition model_unpriced_envelope :: event where
  "model_unpriced_envelope = Ev_error (Some EC_model_unpriced)
     (''This deployment cannot meter the configured model'' @ [CHR 0x27] @ ''s cost, so it is not serving requests. This is a configuration problem on our side.'')"

definition turn_body :: "turn_limits \<Rightarrow> turn_io \<Rightarrow> graph_input \<Rightarrow> event list \<times> failure option" where
  "turn_body tlim io i = (case ti_graph io of
       Some f \<Rightarrow> ([], Some f)
     | None \<Rightarrow>
         (case ti_probe io of
            Inl f \<Rightarrow> ([], Some f)
          | Inr sn \<Rightarrow>
              (case paused_approval sn of
                 None \<Rightarrow> streamed tlim io i
               | Some pa \<Rightarrow>
                   if pa_resumable pa then
                     ([Ev_error (Some (EC_pending_approval (pa_tool_calls pa)))
                        (''This conversation has a pending approval '' @ em_dash @ '' approve, reject, or cancel it before sending a new message.'')], None)
                   else
                     (case streamed tlim io i of (es, r) \<Rightarrow>
                        (Ev_system_note ''A previous pending approval on this conversation could not be resumed after an app update; starting a new request.'' # es, r)))))"

definition astream_events_turn ::
  "turn_limits \<Rightarrow> turn_io \<Rightarrow> str \<Rightarrow> str list \<Rightarrow> bool \<Rightarrow> security_ctx option \<Rightarrow> budget_hold list \<Rightarrow> turn_result" where
  "astream_events_turn tlim io question images approval who hs =
     (if ti_unpriced io then (([model_unpriced_envelope], None), hs)
      else (case ti_refusal io of
          Inl f \<Rightarrow> (([], Some f), hs)
        | Inr (Some env) \<Rightarrow> (([refusal_event env], None), hs)
        | Inr None \<Rightarrow> held tlim io who (turn_body tlim io (New_turn (build_human_content question images) approval)) hs))"

definition resume_body :: "turn_limits \<Rightarrow> turn_io \<Rightarrow> bool \<Rightarrow> event list \<times> failure option" where
  "resume_body tlim io approve = (case ti_graph io of
       Some f \<Rightarrow> ([], Some f)
     | None \<Rightarrow>
         (case ti_probe io of
            Inl f \<Rightarrow> ([], Some f)
          | Inr sn \<Rightarrow>
              (case resumability_error_from_state sn of
                 Some e \<Rightarrow> ([Ev_error None e, Ev_done], None)
               | None \<Rightarrow> streamed tlim io (Resume_run (DBool approve)))))"

definition astream_events_resume :: "turn_limits \<Rightarrow> turn_io \<Rightarrow> bool \<Rightarrow> bool \<Rightarrow> security_ctx option \<Rightarrow> budget_hold list \<Rightarrow> turn_result" where
  "astream_events_resume tlim io approve admitted who hs =
     (case (if admitted then Inr None else ti_refusal io) of
        Inl f \<Rightarrow> (([], Some f), hs)
      | Inr (Some env) \<Rightarrow> (([refusal_event env], None), hs)
      | Inr None \<Rightarrow> held tlim io who (resume_body tlim io approve) hs)"

definition continue_body :: "turn_limits \<Rightarrow> turn_io \<Rightarrow> event list \<times> failure option" where
  "continue_body tlim io = (case ti_graph io of
       Some f \<Rightarrow> ([], Some f)
     | None \<Rightarrow>
         (case ti_probe io of
            Inl f \<Rightarrow> ([], Some f)
          | Inr sn \<Rightarrow>
              if is_paused sn then
                ([Ev_error (Some (EC_pending_approval []))
                   (''This turn paused for approval right before a worker crash '' @ em_dash @ '' resume or cancel it instead of retrying.'')], None)
              else streamed tlim io Continue_run))"

definition astream_events_continue_turn :: "turn_limits \<Rightarrow> turn_io \<Rightarrow> security_ctx option \<Rightarrow> budget_hold list \<Rightarrow> turn_result" where
  "astream_events_continue_turn tlim io who hs = held tlim io who (continue_body tlim io) hs"

text \<open>\<open>cancel_run\<close>: was there a paused run to cancel? \<open>invoke\<close> is what running the graph on an input raises.\<close>

definition cancel_run :: "failure option \<Rightarrow> failure + snapshot \<Rightarrow> (graph_input \<Rightarrow> failure option) \<Rightarrow> failure + bool" where
  "cancel_run graph probe invoke = (case graph of
       Some f \<Rightarrow> Inl f
     | None \<Rightarrow>
         (case probe of
            Inl f \<Rightarrow> Inl f
          | Inr sn \<Rightarrow>
              if resumability_error_from_state sn \<noteq> None then Inr False
              else (case invoke (Resume_run (DStr CANCEL_SENTINEL)) of Some f \<Rightarrow> Inl f | None \<Rightarrow> Inr True)))"

section \<open>Unattended turns\<close>

definition UNATTENDED_MAX_DECLINE_ROUNDS :: nat where
  "UNATTENDED_MAX_DECLINE_ROUNDS = 3"

text \<open>\<open>_drain\<close>: every event but a pause; was there one, and for which tools.\<close>

definition drain_events :: "event list \<Rightarrow> event list" where
  "drain_events es = filter (\<lambda>e. case e of Ev_approval_required _ \<Rightarrow> False | _ \<Rightarrow> True) es"

definition drain_paused :: "event list \<Rightarrow> bool" where
  "drain_paused es = list_ex (\<lambda>e. case e of Ev_approval_required _ \<Rightarrow> True | _ \<Rightarrow> False) es"

definition drain_tools :: "event list \<Rightarrow> str list" where
  "drain_tools es = concat (map (\<lambda>e. case e of Ev_approval_required calls \<Rightarrow> map fst calls | _ \<Rightarrow> []) es)"

definition ceiling_text :: "str list \<Rightarrow> str" where
  "ceiling_text tools =
     (let names = join '', '' (sort (remdups tools))
      in ''That needs a person'' @ [CHR 0x27] @ ''s approval ('' @ (if names = [] then ''an action'' else names) @ ''), which this channel can'' @ [CHR 0x27]
         @ ''t provide '' @ em_dash @ '' so it wasn'' @ [CHR 0x27] @ ''t done.'')"

text \<open>The loop after a run that yielded \<open>es\<close>: \<open>resume k\<close> is the \<open>k\<close>-th decline, \<open>cancel\<close> the run's cancellation.\<close>

function decline_loop ::
  "(nat \<Rightarrow> budget_hold list \<Rightarrow> turn_result) \<Rightarrow> failure + bool \<Rightarrow> nat \<Rightarrow> event list \<Rightarrow> failure option \<Rightarrow> budget_hold list \<Rightarrow> turn_result" where
  "decline_loop resume cancel declines es raised hs =
     (if raised \<noteq> None \<or> \<not> drain_paused es then ((drain_events es, raised), hs)
      else if UNATTENDED_MAX_DECLINE_ROUNDS \<le> declines then
        (case cancel of
           Inl f \<Rightarrow> ((drain_events es, Some f), hs)
         | Inr _ \<Rightarrow> ((drain_events es @ [Ev_token (ceiling_text (drain_tools es)), Ev_done], None), hs))
      else
        (case resume declines hs of
           ((es', raised'), hs') \<Rightarrow>
             (case decline_loop resume cancel (Suc declines) es' raised' hs' of
                ((out, r), hs'') \<Rightarrow> ((drain_events es @ out, r), hs''))))"
  by pat_completeness auto
termination
  by (relation "measure (\<lambda>(_, _, declines, _). Suc UNATTENDED_MAX_DECLINE_ROUNDS - declines)") auto

declare decline_loop.simps [simp del]

definition decline_every_pause ::
  "(nat \<Rightarrow> budget_hold list \<Rightarrow> turn_result) \<Rightarrow> failure + bool \<Rightarrow> turn_result \<Rightarrow> turn_result" where
  "decline_every_pause resume cancel first = (case first of ((es, raised), hs) \<Rightarrow> decline_loop resume cancel 0 es raised hs)"

text \<open>The io of the first run, of each decline, and of the final cancellation.\<close>

record unattended_io =
  ui_first :: turn_io
  ui_resume :: "nat \<Rightarrow> turn_io"
  ui_cancel :: "failure + bool"

definition astream_events_turn_unattended ::
  "turn_limits \<Rightarrow> unattended_io \<Rightarrow> str \<Rightarrow> str list \<Rightarrow> bool \<Rightarrow> security_ctx option \<Rightarrow> budget_hold list \<Rightarrow> turn_result" where
  "astream_events_turn_unattended tlim u question images approval who hs =
     decline_every_pause (\<lambda>k. astream_events_resume tlim (ui_resume u k) False True who) (ui_cancel u) (astream_events_turn tlim (ui_first u) question images approval who hs)"

definition astream_events_continue_turn_unattended :: "turn_limits \<Rightarrow> unattended_io \<Rightarrow> security_ctx option \<Rightarrow> budget_hold list \<Rightarrow> turn_result" where
  "astream_events_continue_turn_unattended tlim u who hs =
     decline_every_pause (\<lambda>k. astream_events_resume tlim (ui_resume u k) False True who) (ui_cancel u) (astream_events_continue_turn tlim (ui_first u) who hs)"

section \<open>Reading a conversation back\<close>

definition transcript_role :: "message \<Rightarrow> str option" where
  "transcript_role m = (case mtype m of
       Human \<Rightarrow> Some ''user''
     | AI \<Rightarrow> Some ''assistant''
     | System \<Rightarrow> if is_compaction_marker m then Some ''system'' else None
     | _ \<Rightarrow> None)"

definition get_session_messages :: "message list \<Rightarrow> (str \<times> str) list" where
  "get_session_messages stored =
     (let legacy = legacy_retry_artifact_ids stored
      in List.map_filter (\<lambda>m.
           if is_retry_artifact m \<or> (case msg_id m of None \<Rightarrow> False | Some i \<Rightarrow> i \<in> set legacy) then None
           else (case transcript_role m of
               None \<Rightarrow> None
             | Some role \<Rightarrow> if text_content (content m) = [] then None else Some (role, text_content (content m)))) stored)"

end
