(* ===== verification/Job_Queue.thy ===== *)
theory Job_Queue
  imports Turn_Stream
begin

text \<open>
  The queue between the front doors and the workers (\<open>app/job_queue/queue.py\<close>, \<open>app/job_queue/producer.py\<close>).
  Redis is a service: a program here makes calls, and \<open>redis\<close> answers each one, given the calls before it, with
  the time it was served and a reply or a failure. What the code relies on Redis for is stated on histories of
  calls (\<open>redis_log_honest\<close>), where the theorems need it.
\<close>

section \<open>Jobs\<close>

text \<open>A job's payload; a key the JSON object lacks is \<open>None\<close>.\<close>

record job =
  jb_kind :: "str option"
  jb_request_id :: "str option"
  jb_thread_id :: "str option"
  jb_text :: "str option"
  jb_ctx :: "security_ctx option"
  jb_approved :: "bool option"
  jb_require_approval :: bool
  jb_images :: "str list"
  jb_unattended :: bool
  jb_attempts :: nat

definition job_kind :: "job \<Rightarrow> str" where
  "job_kind j = (case jb_kind j of None \<Rightarrow> ''turn'' | Some k \<Rightarrow> k)"

section \<open>Calls\<close>

text \<open>\<open>Call_release\<close> is the compare-and-delete script; a stream's entries are the payloads added to it.\<close>

datatype redis_call =
    Call_set_nx str str int
  | Call_set str str int
  | Call_get str
  | Call_del str
  | Call_release str str
  | Call_add_request str job
  | Call_add_result str event
  | Call_expire str int
  | Call_add_dead str str "job option" str
  | Call_ack str

datatype redis_reply = Rep_ok | Rep_bool bool | Rep_value "str option"

type_synonym redis_history = "(rat \<times> redis_call \<times> (failure + redis_reply)) list"
type_synonym redis = "redis_history \<Rightarrow> redis_call \<Rightarrow> rat \<times> (failure + redis_reply)"

text \<open>A program: the calls made so far in, its value or exception and the calls made out.\<close>

type_synonym 'a prog = "redis_history \<Rightarrow> (failure + 'a) \<times> redis_history"

definition ask :: "redis \<Rightarrow> redis_call \<Rightarrow> redis_reply prog" where
  "ask R c h = (case R h c of (t, r) \<Rightarrow> (r, h @ [(t, c, r)]))"

definition ret :: "'a \<Rightarrow> 'a prog" where
  "ret x h = (Inr x, h)"

definition raise_failure :: "failure \<Rightarrow> 'a prog" where
  "raise_failure f h = (Inl f, h)"

definition andthen :: "'a prog \<Rightarrow> ('a \<Rightarrow> 'b prog) \<Rightarrow> 'b prog" where
  "andthen p q h = (case p h of (Inl f, h') \<Rightarrow> (Inl f, h') | (Inr x, h') \<Rightarrow> q x h')"

text \<open>\<open>try: p finally: q\<close>: what \<open>q\<close> raises replaces what \<open>p\<close> did. \<open>except Exception\<close> leaves a task's cancellation alone.\<close>

definition finally_do :: "'a prog \<Rightarrow> 'b prog \<Rightarrow> 'a prog" where
  "finally_do p q h = (case p h of (r, h') \<Rightarrow> (case q h' of (Inl f, h'') \<Rightarrow> (Inl f, h'') | (Inr _, h'') \<Rightarrow> (r, h'')))"

definition is_exception :: "failure \<Rightarrow> bool" where
  "is_exception f \<longleftrightarrow> fl_class f \<noteq> ''CancelledError''"

definition except_do :: "'a prog \<Rightarrow> (failure \<Rightarrow> 'a prog) \<Rightarrow> 'a prog" where
  "except_do p q h = (case p h of (Inl f, h') \<Rightarrow> if is_exception f then q f h' else (Inl f, h') | (Inr x, h') \<Rightarrow> (Inr x, h'))"

section \<open>Keys and lifetimes\<close>

definition CONSUMER_GROUP :: str where "CONSUMER_GROUP = ''agent-workers''"
definition RESULTS_STREAM_TTL_SECONDS :: int where "RESULTS_STREAM_TTL_SECONDS = 300"
definition CANCEL_FLAG_TTL_SECONDS :: int where "CANCEL_FLAG_TTL_SECONDS = 60"

definition THREAD_LOCK_TTL_SECONDS :: "int \<Rightarrow> int" where
  "THREAD_LOCK_TTL_SECONDS request_timeout = request_timeout * 2"

definition results_stream_key :: "str \<Rightarrow> str" where "results_stream_key request_id = ''agent:results:'' @ request_id"
definition requests_stream_key :: "str \<Rightarrow> str" where "requests_stream_key domain = ''agent:requests:'' @ domain"
definition cancel_flag_key :: "str \<Rightarrow> str" where "cancel_flag_key thread_id = ''agent:cancel:'' @ thread_id"
definition thread_lock_key :: "str \<Rightarrow> str" where "thread_lock_key thread_id = ''agent:lock:'' @ thread_id"
definition submission_dedup_key :: "str \<Rightarrow> str \<Rightarrow> str" where
  "submission_dedup_key thread_id digest = ''chat:submit_dedup:'' @ thread_id @ '':'' @ digest"
definition dead_letter_stream_key :: "str \<Rightarrow> str" where "dead_letter_stream_key requests_stream = requests_stream @ '':dead''"

section \<open>Operations\<close>

definition publish_request :: "redis \<Rightarrow> str \<Rightarrow> str \<Rightarrow> str \<Rightarrow> security_ctx \<Rightarrow> str \<Rightarrow> bool \<Rightarrow> str list \<Rightarrow> bool \<Rightarrow> unit prog" where
  "publish_request R request_id t thread_id c domain approval images unattended =
     andthen (ask R (Call_add_request (requests_stream_key domain)
       \<lparr>jb_kind = Some ''turn'', jb_request_id = Some request_id, jb_thread_id = Some thread_id, jb_text = Some t, jb_ctx = Some c,
        jb_approved = None, jb_require_approval = approval, jb_images = images, jb_unattended = unattended, jb_attempts = 0\<rparr>)) (\<lambda>_. ret ())"

definition publish_resume_request :: "redis \<Rightarrow> str \<Rightarrow> str \<Rightarrow> bool \<Rightarrow> security_ctx \<Rightarrow> str \<Rightarrow> unit prog" where
  "publish_resume_request R request_id thread_id approve c domain =
     andthen (ask R (Call_add_request (requests_stream_key domain)
       \<lparr>jb_kind = Some ''resume'', jb_request_id = Some request_id, jb_thread_id = Some thread_id, jb_text = None, jb_ctx = Some c,
        jb_approved = Some approve, jb_require_approval = False, jb_images = [], jb_unattended = False, jb_attempts = 0\<rparr>)) (\<lambda>_. ret ())"

definition publish_cancel_request :: "redis \<Rightarrow> str \<Rightarrow> str \<Rightarrow> security_ctx \<Rightarrow> str \<Rightarrow> unit prog" where
  "publish_cancel_request R request_id thread_id c domain =
     andthen (ask R (Call_add_request (requests_stream_key domain)
       \<lparr>jb_kind = Some ''cancel'', jb_request_id = Some request_id, jb_thread_id = Some thread_id, jb_text = None, jb_ctx = Some c,
        jb_approved = None, jb_require_approval = False, jb_images = [], jb_unattended = False, jb_attempts = 0\<rparr>)) (\<lambda>_. ret ())"

definition set_cancel_flag :: "redis \<Rightarrow> str \<Rightarrow> unit prog" where
  "set_cancel_flag R thread_id = andthen (ask R (Call_set (cancel_flag_key thread_id) ''1'' CANCEL_FLAG_TTL_SECONDS)) (\<lambda>_. ret ())"

definition is_cancelled :: "redis \<Rightarrow> str \<Rightarrow> bool prog" where
  "is_cancelled R thread_id = andthen (ask R (Call_get (cancel_flag_key thread_id)))
     (\<lambda>r. ret (case r of Rep_value (Some v) \<Rightarrow> v \<noteq> [] | _ \<Rightarrow> False))"

definition clear_cancel_flag :: "redis \<Rightarrow> str \<Rightarrow> unit prog" where
  "clear_cancel_flag R thread_id = andthen (ask R (Call_del (cancel_flag_key thread_id))) (\<lambda>_. ret ())"

definition acquire_thread_lock :: "redis \<Rightarrow> int \<Rightarrow> str \<Rightarrow> str \<Rightarrow> bool prog" where
  "acquire_thread_lock R timeout thread_id token =
     andthen (ask R (Call_set_nx (thread_lock_key thread_id) token (THREAD_LOCK_TTL_SECONDS timeout))) (\<lambda>r. ret (r = Rep_bool True))"

definition release_thread_lock :: "redis \<Rightarrow> str \<Rightarrow> str \<Rightarrow> unit prog" where
  "release_thread_lock R thread_id token = andthen (ask R (Call_release (thread_lock_key thread_id) token)) (\<lambda>_. ret ())"

text \<open>The request id to use, and whether it is a new submission.\<close>

definition claim_or_get_existing_submission :: "redis \<Rightarrow> str \<Rightarrow> str \<Rightarrow> str \<Rightarrow> int \<Rightarrow> (str \<times> bool) prog" where
  "claim_or_get_existing_submission R thread_id digest request_id ttl =
     (let key = submission_dedup_key thread_id digest
      in andthen (ask R (Call_set_nx key request_id ttl)) (\<lambda>claimed.
           if claimed = Rep_bool True then ret (request_id, True)
           else andthen (ask R (Call_get key)) (\<lambda>existing.
             case existing of
               Rep_value (Some e) \<Rightarrow> ret (e, False)
             | _ \<Rightarrow> andthen (ask R (Call_set key request_id ttl)) (\<lambda>_. ret (request_id, True)))))"

definition release_submission_claim :: "redis \<Rightarrow> str \<Rightarrow> str \<Rightarrow> unit prog" where
  "release_submission_claim R thread_id digest =
     except_do (andthen (ask R (Call_del (submission_dedup_key thread_id digest))) (\<lambda>_. ret ())) (\<lambda>_. ret ())"

definition publish_result :: "redis \<Rightarrow> str \<Rightarrow> event \<Rightarrow> unit prog" where
  "publish_result R request_id e =
     andthen (ask R (Call_add_result (results_stream_key request_id) e)) (\<lambda>_.
       andthen (ask R (Call_expire (results_stream_key request_id) RESULTS_STREAM_TTL_SECONDS)) (\<lambda>_. ret ()))"

definition delete_results_stream :: "redis \<Rightarrow> str \<Rightarrow> unit prog" where
  "delete_results_stream R request_id =
     except_do (andthen (ask R (Call_del (results_stream_key request_id))) (\<lambda>_. ret ())) (\<lambda>_. ret ())"

definition DEAD_LETTER_MAXLEN :: nat where "DEAD_LETTER_MAXLEN = 1000"

definition publish_dead_letter :: "redis \<Rightarrow> str \<Rightarrow> str \<Rightarrow> job option \<Rightarrow> str \<Rightarrow> unit prog" where
  "publish_dead_letter R requests_stream entry_id payload reason =
     andthen (ask R (Call_add_dead (dead_letter_stream_key requests_stream) entry_id payload reason)) (\<lambda>_. ret ())"

definition republish_job :: "redis \<Rightarrow> str \<Rightarrow> job \<Rightarrow> unit prog" where
  "republish_job R requests_stream j =
     andthen (ask R (Call_add_request requests_stream (j\<lparr>jb_attempts := jb_attempts j + 1\<rparr>))) (\<lambda>_. ret ())"

section \<open>Reading results\<close>

text \<open>One round of \<open>read_results\<close>: the clock before it, and the entries the blocking read brings.\<close>

record read_round =
  rr_now :: rat
  rr_entries :: "event list"

fun until_terminal :: "event list \<Rightarrow> event list \<times> bool" where
  "until_terminal [] = ([], False)"
| "until_terminal (e # es) = (if terminal_event e then ([e], True) else (case until_terminal es of (out, done) \<Rightarrow> (e # out, done)))"

text \<open>\<open>:.0f\<close> of a whole number of seconds; a request id is hexadecimal, so its \<open>repr\<close> is the quoted id.\<close>

definition no_worker_event :: "str \<Rightarrow> int \<Rightarrow> event" where
  "no_worker_event request_id seconds = Ev_error None
     (''No response for '' @ [CHR 0x27] @ request_id @ [CHR 0x27] @ '' after '' @ dec_int seconds @ ''s '' @ em_dash @ '' is an agent-worker running for this domain?'')"

text \<open>What the reader yields, and whether it returned; rounds that have not come yet leave it waiting. The deadline
  comes with the seconds it was made from.\<close>

definition first_deadline :: "rat \<Rightarrow> int \<Rightarrow> int \<times> rat" where
  "first_deadline start seconds = (seconds, start + of_int seconds)"

fun read_results :: "str \<Rightarrow> (int \<times> rat) option \<Rightarrow> read_round list \<Rightarrow> event list \<times> bool" where
  "read_results request_id deadline [] = ([], False)"
| "read_results request_id deadline (r # rs) =
     (case (case deadline of Some (seconds, d) \<Rightarrow> if d \<le> rr_now r then Some seconds else None | None \<Rightarrow> None) of
        Some seconds \<Rightarrow> ([no_worker_event request_id seconds], True)
      | None \<Rightarrow>
          if rr_entries r = [] then read_results request_id deadline rs
          else (case until_terminal (rr_entries r) of
              (out, True) \<Rightarrow> (out, True)
            | (out, False) \<Rightarrow> (case read_results request_id None rs of (outs, done) \<Rightarrow> (out @ outs, done))))"

section \<open>Front doors\<close>

text \<open>\<open>stream_turn\<close> up to the job's results: the request id whose results are read. \<open>sha\<close> is the standard library's hash.\<close>

definition stream_turn ::
  "redis \<Rightarrow> (str \<Rightarrow> str) \<Rightarrow> str \<Rightarrow> str \<Rightarrow> str \<Rightarrow> security_ctx \<Rightarrow> str \<Rightarrow> bool \<Rightarrow> bool \<Rightarrow> str option \<Rightarrow> str prog" where
  "stream_turn R sha new_id t thread_id c domain approval unattended dedup_key =
     (let digest = map_option sha dedup_key;
          claim = (case digest of
              None \<Rightarrow> ret (new_id, True)
            | Some d \<Rightarrow> claim_or_get_existing_submission R thread_id d new_id RESULTS_STREAM_TTL_SECONDS)
      in andthen claim (\<lambda>(request_id, is_new).
           if is_new then
             andthen (except_do (publish_request R request_id t thread_id c domain approval [] unattended)
                 (\<lambda>f. case digest of
                     None \<Rightarrow> raise_failure f
                   | Some d \<Rightarrow> andthen (release_submission_claim R thread_id d) (\<lambda>_. raise_failure f)))
               (\<lambda>_. ret request_id)
           else ret request_id))"

definition stream_resume :: "redis \<Rightarrow> str \<Rightarrow> str \<Rightarrow> bool \<Rightarrow> security_ctx \<Rightarrow> str \<Rightarrow> str prog" where
  "stream_resume R new_id thread_id approve c domain = andthen (publish_resume_request R new_id thread_id approve c domain) (\<lambda>_. ret new_id)"

definition cancel_turn :: "redis \<Rightarrow> str \<Rightarrow> str \<Rightarrow> security_ctx \<Rightarrow> str \<Rightarrow> unit prog" where
  "cancel_turn R new_id thread_id c domain =
     andthen (set_cancel_flag R thread_id) (\<lambda>_. publish_cancel_request R new_id thread_id c domain)"

section \<open>What Redis promises of keys\<close>

text \<open>What the server executed, in its order: when, what and its reply. The value of a key and when it lapses after
  that; \<open>live_value\<close> is what it reads as at a time.\<close>

type_synonym redis_log = "(rat \<times> redis_call \<times> redis_reply) list"

definition key_step :: "str \<Rightarrow> rat \<times> redis_call \<times> redis_reply \<Rightarrow> (str \<times> rat) option \<Rightarrow> (str \<times> rat) option" where
  "key_step k x v = (case x of (t, c, r) \<Rightarrow>
     (case c of
        Call_set_nx k' w ttl \<Rightarrow> if k' = k \<and> r = Rep_bool True then Some (w, t + of_int ttl) else v
      | Call_set k' w ttl \<Rightarrow> if k' = k then Some (w, t + of_int ttl) else v
      | Call_del k' \<Rightarrow> if k' = k then None else v
      | Call_release k' w \<Rightarrow> if k' = k \<and> r = Rep_bool True then None else v
      | _ \<Rightarrow> v))"

definition key_state :: "str \<Rightarrow> redis_log \<Rightarrow> (str \<times> rat) option" where
  "key_state k h = fold (key_step k) h None"

definition live_value :: "rat \<Rightarrow> (str \<times> rat) option \<Rightarrow> str option" where
  "live_value t v = (case v of None \<Rightarrow> None | Some (w, lapse) \<Rightarrow> if t < lapse then Some w else None)"

text \<open>\<open>SET NX\<close> lands exactly when the key holds no live value, the script deletes exactly the value it is given, \<open>GET\<close> reads
  the live value.\<close>

fun documented_reply :: "redis_log \<Rightarrow> rat \<Rightarrow> redis_call \<Rightarrow> redis_reply" where
  "documented_reply h t (Call_set_nx k w ttl) = Rep_bool (live_value t (key_state k h) = None)"
| "documented_reply h t (Call_get k) = Rep_value (live_value t (key_state k h))"
| "documented_reply h t (Call_release k w) = Rep_bool (live_value t (key_state k h) = Some w)"
| "documented_reply h t _ = Rep_ok"

definition redis_log_honest :: "redis_log \<Rightarrow> bool" where
  "redis_log_honest h \<longleftrightarrow> sorted (map fst h) \<and> (\<forall>i<length h. snd (snd (h ! i)) = documented_reply (take i h) (fst (h ! i)) (fst (snd (h ! i))))"

text \<open>A server that does just that, with the clock of its \<open>n\<close>-th call.\<close>

definition served :: "redis_history \<Rightarrow> redis_log" where
  "served h = List.map_filter (\<lambda>(t, c, r). case r of Inl _ \<Rightarrow> None | Inr x \<Rightarrow> Some (t, c, x)) h"

definition documented_redis :: "(nat \<Rightarrow> rat) \<Rightarrow> redis" where
  "documented_redis clock h c = (clock (length h), Inr (documented_reply (served h) (clock (length h)) c))"

text \<open>The calls this module makes on keys; only a thread's own operations name its lock.\<close>

fun queue_call :: "int \<Rightarrow> redis_call \<Rightarrow> bool" where
  "queue_call timeout (Call_set_nx k w ttl) \<longleftrightarrow>
     (\<exists>th. k = thread_lock_key th \<and> ttl = THREAD_LOCK_TTL_SECONDS timeout) \<or> (\<exists>th d. k = submission_dedup_key th d)"
| "queue_call timeout (Call_set k w ttl) \<longleftrightarrow> (\<exists>th. k = cancel_flag_key th) \<or> (\<exists>th d. k = submission_dedup_key th d)"
| "queue_call timeout (Call_del k) \<longleftrightarrow> (\<exists>th. k = cancel_flag_key th) \<or> (\<exists>th d. k = submission_dedup_key th d) \<or> (\<exists>r. k = results_stream_key r)"
| "queue_call timeout (Call_release k w) \<longleftrightarrow> (\<exists>th. k = thread_lock_key th)"
| "queue_call timeout _ \<longleftrightarrow> True"

end
