(* ===== verification/Agent_Worker.thy ===== *)
theory Agent_Worker
  imports Job_Queue
begin

text \<open>
  The worker (\<open>app/job_queue/agent_worker.py\<close>): one job under its thread's lock, acknowledged on every way out,
  and the recovery of jobs whose worker died. The turns a job drives are those of \<open>Turn_Stream\<close>; the cancel
  checks they make while they stream are part of their feed. The process's own loop, signals and semaphore
  are left out: a worker is a sequence of jobs and reclaims.
\<close>

section \<open>Driving a job\<close>

text \<open>What the worker meets: Redis, the stream, a fresh token, and what each kind of run does.\<close>

record worker_env =
  we_redis :: redis
  we_domain :: str
  we_limits :: turn_limits
  we_token :: str
  we_io :: turn_io
  we_unattended :: unattended_io
  we_cancel :: "failure + bool"
  we_holds :: "budget_hold list"

definition missing_key :: failure where
  "missing_key = \<lparr>fl_class = ''KeyError'', fl_timeout = False, fl_budget = False\<rparr>"

definition value_error :: failure where
  "value_error = \<lparr>fl_class = ''ValueError'', fl_timeout = False, fl_budget = False\<rparr>"

definition decode_error :: failure where
  "decode_error = \<lparr>fl_class = ''JSONDecodeError'', fl_timeout = False, fl_budget = False\<rparr>"

text \<open>The lock's release, once: the flag of the closure goes in and out with the calls.\<close>

definition release_lock :: "worker_env \<Rightarrow> str \<Rightarrow> bool \<Rightarrow> unit prog" where
  "release_lock w thread_id released = (if released then ret () else release_thread_lock (we_redis w) thread_id (we_token w))"

text \<open>\<open>_publish_events\<close> on what a stream yields; the result says whether the lock was released on the way.\<close>

fun publish_events :: "worker_env \<Rightarrow> str \<Rightarrow> str \<Rightarrow> event list \<Rightarrow> failure option \<Rightarrow> bool \<Rightarrow> redis_history \<Rightarrow> ((failure + unit) \<times> bool) \<times> redis_history" where
  "publish_events w request_id thread_id [] raised released h =
     (((case raised of None \<Rightarrow> Inr () | Some f \<Rightarrow> Inl f), released), h)"
| "publish_events w request_id thread_id (e # es) raised released h =
     (let rel = terminal_event e in
      case (if rel then release_lock w thread_id released h else (Inr (), h)) of
        (Inl f, h1) \<Rightarrow> ((Inl f, True), h1)
      | (Inr _, h1) \<Rightarrow>
          (case publish_result (we_redis w) request_id e h1 of
             (Inl f, h2) \<Rightarrow> ((Inl f, released \<or> rel), h2)
           | (Inr _, h2) \<Rightarrow> publish_events w request_id thread_id es raised (released \<or> rel) h2))"

text \<open>The stream a job's handler drives; a key the payload lacks is a \<open>KeyError\<close>.\<close>

definition turn_events :: "worker_env \<Rightarrow> job \<Rightarrow> event list \<times> failure option" where
  "turn_events w j = (case (jb_text j, jb_ctx j) of
       (Some t, Some c) \<Rightarrow>
         if jb_unattended j then fst (astream_events_turn_unattended (we_limits w) (we_unattended w) t (jb_images j) (jb_require_approval j) (Some c) (we_holds w))
         else fst (astream_events_turn (we_limits w) (we_io w) t (jb_images j) (jb_require_approval j) (Some c) (we_holds w))
     | _ \<Rightarrow> ([], Some missing_key))"

definition turn_continue_events :: "worker_env \<Rightarrow> job \<Rightarrow> event list \<times> failure option" where
  "turn_continue_events w j = (case jb_ctx j of
       Some c \<Rightarrow>
         if jb_unattended j then fst (astream_events_continue_turn_unattended (we_limits w) (we_unattended w) (Some c) (we_holds w))
         else fst (astream_events_continue_turn (we_limits w) (we_io w) (Some c) (we_holds w))
     | None \<Rightarrow> ([], Some missing_key))"

definition resume_events :: "worker_env \<Rightarrow> job \<Rightarrow> event list \<times> failure option" where
  "resume_events w j = (case (jb_approved j, jb_ctx j) of
       (Some a, Some c) \<Rightarrow> fst (astream_events_resume (we_limits w) (we_io w) a False (Some c) (we_holds w))
     | _ \<Rightarrow> ([], Some missing_key))"

text \<open>\<open>_process_turn\<close>, \<open>_process_turn_continue\<close>, \<open>_process_resume\<close>: the stale cancel flag goes first.\<close>

definition process_stream ::
  "worker_env \<Rightarrow> str \<Rightarrow> str \<Rightarrow> event list \<times> failure option \<Rightarrow> redis_history \<Rightarrow> ((failure + unit) \<times> bool) \<times> redis_history" where
  "process_stream w request_id thread_id run h =
     (case clear_cancel_flag (we_redis w) thread_id h of
        (Inl f, h1) \<Rightarrow> ((Inl f, False), h1)
      | (Inr _, h1) \<Rightarrow> publish_events w request_id thread_id (fst run) (snd run) False h1)"

definition cancel_event :: "bool \<Rightarrow> event" where
  "cancel_event was_paused = (if was_paused then Ev_error (Some EC_cancelled) ''Cancelled by user.'' else Ev_done)"

definition process_cancel :: "worker_env \<Rightarrow> str \<Rightarrow> str \<Rightarrow> job \<Rightarrow> redis_history \<Rightarrow> ((failure + unit) \<times> bool) \<times> redis_history" where
  "process_cancel w request_id thread_id j h =
     (case jb_ctx j of
        None \<Rightarrow> ((Inl missing_key, False), h)
      | Some _ \<Rightarrow>
          (case we_cancel w of
             Inl f \<Rightarrow> ((Inl f, False), h)
           | Inr b \<Rightarrow> publish_events w request_id thread_id [cancel_event b] None False h))"

text \<open>\<open>_DISPATCH\<close>.\<close>

definition handler :: "worker_env \<Rightarrow> str \<Rightarrow> (str \<Rightarrow> str \<Rightarrow> job \<Rightarrow> redis_history \<Rightarrow> ((failure + unit) \<times> bool) \<times> redis_history) option" where
  "handler w kind =
     (if kind = ''turn'' then Some (\<lambda>rid th j. process_stream w rid th (turn_events w j))
      else if kind = ''turn_continue'' then Some (\<lambda>rid th j. process_stream w rid th (turn_continue_events w j))
      else if kind = ''resume'' then Some (\<lambda>rid th j. process_stream w rid th (resume_events w j))
      else if kind = ''cancel'' then Some (process_cancel w)
      else None)"

definition busy_event :: event where
  "busy_event = Ev_error (Some EC_thread_busy) THREAD_BUSY_MESSAGE"

text \<open>The handler under the lock, with the release in its \<open>finally\<close>.\<close>

definition locked_work ::
  "worker_env \<Rightarrow> (redis_history \<Rightarrow> ((failure + unit) \<times> bool) \<times> redis_history) \<Rightarrow> str \<Rightarrow> unit prog" where
  "locked_work w work thread_id h =
     (case work h of
        ((r, released), h1) \<Rightarrow>
          (case release_lock w thread_id released h1 of (Inl f, h2) \<Rightarrow> (Inl f, h2) | (Inr _, h2) \<Rightarrow> (r, h2)))"

definition process_body :: "worker_env \<Rightarrow> str \<Rightarrow> job \<Rightarrow> unit prog" where
  "process_body w request_id j = (case jb_thread_id j of
       None \<Rightarrow> raise_failure missing_key
     | Some thread_id \<Rightarrow>
         (case handler w (job_kind j) of
            None \<Rightarrow> raise_failure value_error
          | Some work \<Rightarrow>
              andthen (acquire_thread_lock (we_redis w) (tl_timeout (we_limits w)) thread_id (we_token w)) (\<lambda>got.
                if \<not> got then publish_result (we_redis w) request_id busy_event
                else locked_work w (work request_id thread_id j) thread_id)))"

text \<open>\<open>process_request\<close> on an entry: \<open>None\<close> is a payload that is missing or not JSON.\<close>

definition process_request :: "worker_env \<Rightarrow> str \<Rightarrow> job option \<Rightarrow> unit prog" where
  "process_request w entry_id payload = (case payload of
       None \<Rightarrow> raise_failure decode_error
     | Some j \<Rightarrow>
         (case jb_request_id j of
            None \<Rightarrow> raise_failure missing_key
          | Some request_id \<Rightarrow>
              finally_do
                (except_do (process_body w request_id j) (\<lambda>f. publish_result (we_redis w) request_id (internal_error_envelope f)))
                (ask (we_redis w) (Call_ack entry_id))))"

section \<open>Recovering a job\<close>

definition turn_already_completed :: "message list \<Rightarrow> bool" where
  "turn_already_completed turn \<longleftrightarrow> turn \<noteq> [] \<and> mtype (last turn) = AI \<and> tool_calls (last turn) = [] \<and> \<not> is_retry_artifact (last turn)"

datatype reclaim_action = Dead_letter | Retry_fresh | Retry_continue

text \<open>\<open>_classify_reclaimed_turn\<close> on the thread's checkpoint, or on the failure to read it.\<close>

definition classify_reclaimed_turn :: "failure + thread_view \<Rightarrow> reclaim_action" where
  "classify_reclaimed_turn checkpoint = (case checkpoint of
       Inl _ \<Rightarrow> Dead_letter
     | Inr v \<Rightarrow>
         let ms = messages (tv_values v); sn = tv_snap v
         in case last_index is_user_message ms of
              None \<Rightarrow> Retry_fresh
            | Some i \<Rightarrow>
                if turn_already_completed (drop (Suc i) ms) then Dead_letter
                else if is_paused sn then Dead_letter
                else if snap_next sn = [] then Dead_letter
                else Retry_continue)"

definition MAX_AUTO_RECLAIM_RETRIES :: nat where "MAX_AUTO_RECLAIM_RETRIES = 1"

text \<open>Whether a reclaimed job may run again, and the kind it is republished as.\<close>

definition reclaim_retry :: "job \<Rightarrow> (str \<Rightarrow> failure + thread_view) \<Rightarrow> job option" where
  "reclaim_retry j checkpoint =
     (if job_kind j \<in> {''cancel'', ''resume''} then Some j
      else if job_kind j \<in> {''turn'', ''turn_continue''} then
        (case jb_thread_id j of
           None \<Rightarrow> None
         | Some th \<Rightarrow>
             (case classify_reclaimed_turn (checkpoint th) of
                Dead_letter \<Rightarrow> None
              | Retry_fresh \<Rightarrow> Some (j\<lparr>jb_kind := Some ''turn''\<rparr>)
              | Retry_continue \<Rightarrow> Some (j\<lparr>jb_kind := Some ''turn_continue''\<rparr>)))
      else None)"

definition dead_letter_reclaimed :: "worker_env \<Rightarrow> str \<Rightarrow> job option \<Rightarrow> str \<Rightarrow> unit prog" where
  "dead_letter_reclaimed w entry_id payload reason =
     andthen (publish_dead_letter (we_redis w) (requests_stream_key (we_domain w)) entry_id payload reason)
       (\<lambda>_. andthen (ask (we_redis w) (Call_ack entry_id)) (\<lambda>_. ret ()))"

definition worker_lost_event :: event where
  "worker_lost_event = Ev_error (Some EC_worker_lost)
     ''The worker handling this request stopped responding before it finished. Please try again.''"

text \<open>The decision is stamped on the payload before the retries are counted, so an archived job carries it too.\<close>

definition stamped :: "job \<Rightarrow> job option \<Rightarrow> job" where
  "stamped j retry = (case retry of Some j' \<Rightarrow> j' | None \<Rightarrow> j)"

definition handle_reclaimed_job :: "worker_env \<Rightarrow> (str \<Rightarrow> failure + thread_view) \<Rightarrow> str \<Rightarrow> job option \<Rightarrow> unit prog" where
  "handle_reclaimed_job w checkpoint entry_id payload = (case payload of
       None \<Rightarrow> dead_letter_reclaimed w entry_id None ''unreadable_payload''
     | Some j \<Rightarrow>
         let retry = reclaim_retry j checkpoint; j' = stamped j retry
         in if retry \<noteq> None \<and> jb_attempts j < MAX_AUTO_RECLAIM_RETRIES then
              andthen (republish_job (we_redis w) (requests_stream_key (we_domain w)) j')
                (\<lambda>_. andthen (ask (we_redis w) (Call_ack entry_id)) (\<lambda>_. ret ()))
            else
              andthen (case jb_request_id j of
                  None \<Rightarrow> ret ()
                | Some rid \<Rightarrow> if rid = [] then ret () else publish_result (we_redis w) rid worker_lost_event)
                (\<lambda>_. dead_letter_reclaimed w entry_id (Some j') ''worker_lost''))"

text \<open>One pass of \<open>_reclaim_loop\<close> over the entries the claim brought: a failure ends the pass, not the loop.\<close>

fun reclaim_pass :: "worker_env \<Rightarrow> (str \<Rightarrow> failure + thread_view) \<Rightarrow> (str \<times> job option) list \<Rightarrow> unit prog" where
  "reclaim_pass w checkpoint [] h = (Inr (), h)"
| "reclaim_pass w checkpoint ((i, payload) # es) h =
     (case handle_reclaimed_job w checkpoint i payload h of
        (Inl f, h') \<Rightarrow> ((if is_exception f then Inr () else Inl f), h')
      | (Inr _, h') \<Rightarrow> reclaim_pass w checkpoint es h')"

text \<open>\<open>reclaim_stale_entries\<close>: the pages \<open>XAUTOCLAIM\<close> returns until its cursor is back at the start.\<close>

fun reclaim_stale_entries :: "(bool \<times> (str \<times> job option) list) list \<Rightarrow> (str \<times> job option) list" where
  "reclaim_stale_entries [] = []"
| "reclaim_stale_entries ((drained, es) # pages) = es @ (if drained then [] else reclaim_stale_entries pages)"

end
