(* ===== verification/Turn_Stream_Claims.thy ===== *)
theory Turn_Stream_Claims
  imports Turn_Stream
begin

text \<open>
  Facts and properties of a turn's stream: it ends once, what a caller shows is what was recorded and never a
  nested run's words, an unattended turn never stops at a pause, no turn leaves a hold behind, and a stopped
  turn leaves no open question in its thread.
\<close>

section \<open>Shapes of event lists\<close>

definition quiet :: "event list \<Rightarrow> bool" where
  "quiet es \<longleftrightarrow> (\<forall>e\<in>set es. \<not> terminal_event e)"

definition ends_once :: "event list \<Rightarrow> bool" where
  "ends_once es \<longleftrightarrow> (\<exists>body e. es = body @ [e] \<and> quiet body \<and> terminal_event e)"

lemma quiet_simps [simp]: "quiet []" "quiet (e # es) \<longleftrightarrow> \<not> terminal_event e \<and> quiet es" "quiet (es @ fs) \<longleftrightarrow> quiet es \<and> quiet fs"
  by (auto simp: quiet_def)

lemma ends_onceI: "quiet body \<Longrightarrow> terminal_event e \<Longrightarrow> ends_once (body @ [e])"
  by (auto simp: ends_once_def)

lemma ends_once_single [simp]: "ends_once [e] \<longleftrightarrow> terminal_event e"
  by (auto simp: ends_once_def append_eq_Cons_conv)

lemma ends_once_prepend: "quiet pre \<Longrightarrow> ends_once es \<Longrightarrow> ends_once (pre @ es)"
  unfolding ends_once_def by (metis append.assoc quiet_simps(3))

section \<open>The answer shown\<close>

text \<open>What a caller that appends tokens and starts again at a retry shows.\<close>

fun shown :: "event list \<Rightarrow> str \<Rightarrow> str" where
  "shown [] t = t"
| "shown (Ev_token s # es) t = shown es (t @ s)"
| "shown (Ev_retry # es) t = shown es []"
| "shown (_ # es) t = shown es t"

lemma shown_append [simp]: "shown (es @ fs) t = shown fs (shown es t)"
  by (induction es t rule: shown.induct) simp_all

lemma terminal_shown: "terminal_event e \<Longrightarrow> shown [e] t = t"
  by (cases e) simp_all

lemma replacement_shape:
  assumes "replacement ms a = (a', out)"
  shows "quiet out \<and> shown out (concat a) = concat a'"
  using assms by (auto simp: replacement_def split: if_splits content.splits)

lemma translate_shape:
  assumes "translate e a = (a', out)"
  shows "quiet out \<and> shown out (concat a) = concat a'"
proof (cases e)
  case (Chain_ended name sub ms)
  then show ?thesis using assms replacement_shape [of ms a a' out] by (auto split: if_splits)
qed (use assms in \<open>auto simp: Let_def split: if_splits\<close>)

lemma translate_all_shape:
  "translate_all es a = (a', out) \<Longrightarrow> quiet out \<and> shown out (concat a) = concat a'"
proof (induction es arbitrary: a a' out)
  case (Cons e es)
  obtain a1 o1 where one: "translate e a = (a1, o1)" by force
  obtain a2 o2 where rest: "translate_all es a1 = (a2, o2)" by force
  then show ?case using Cons.IH [OF rest] translate_shape [OF one] Cons.prems one by auto
qed simp

lemma closing_shape:
  assumes "quiet out" and "shown out [] = concat answer"
  shows "ends_once (sr_events (closing v answer out)) \<and> sr_raised (closing v answer out) = None
    \<and> shown (sr_events (closing v answer out)) [] = sr_answer (closing v answer out)"
  using assms unfolding closing_def Let_def
  by (auto intro!: ends_onceI ends_once_prepend simp del: append_assoc simp: append_assoc [symmetric])

text \<open>The shape of every run, by how the stream ended.\<close>

lemma run_graph_stream_shape:
  assumes r: "r = run_graph_stream timeout fd"
    and z: "z = snd (iterate_with_timeout (fd_start fd + of_int timeout) (fd_polls fd))"
  shows "shown (sr_events r) [] = sr_answer r
    \<and> (sr_raised r = None \<longrightarrow> ends_once (sr_events r))
    \<and> (sr_raised r \<noteq> None \<longleftrightarrow> z = Task_cancelled \<or> z = Ran_out \<and> (\<exists>f. fd_final fd = Inl f))
    \<and> (sr_raised r \<noteq> None \<longrightarrow> quiet (sr_events r))
    \<and> (sr_discards r \<longleftrightarrow> z = Turn_cancelled)"
proof -
  obtain raw where it: "iterate_with_timeout (fd_start fd + of_int timeout) (fd_polls fd) = (raw, z)" using z by (metis prod.collapse)
  obtain a out where tr: "translate_all raw [] = (a, out)" by force
  have sh: "quiet out" "shown out [] = concat a" using translate_all_shape [OF tr] by auto
  have fe: "terminal_event (failure_event timeout f)" for f
    by (simp add: failure_event_def budget_envelope_def internal_error_envelope_def)
  show ?thesis
  proof (cases z)
    case Ran_out
    then show ?thesis using sh closing_shape [OF sh] r it tr
      by (cases "fd_final fd") (auto simp: run_graph_stream_def closing_def Let_def)
  qed (use sh fe terminal_shown [OF fe] r it tr in \<open>auto simp: run_graph_stream_def intro!: ends_onceI\<close>)
qed

section \<open>Nested runs\<close>

fun nested_text :: "raw_event \<Rightarrow> bool" where
  "nested_text (Chat_model_stream node sub c) \<longleftrightarrow> truthy_name sub \<noteq> None"
| "nested_text (Chain_ended name sub ms) \<longleftrightarrow> truthy_name sub \<noteq> None"
| "nested_text _ \<longleftrightarrow> False"

lemma translate_nested: "nested_text e \<Longrightarrow> translate e a = (a, [])"
  by (cases e) auto

definition same_but_nested :: "raw_event \<Rightarrow> raw_event \<Rightarrow> bool" where
  "same_but_nested e f \<longleftrightarrow> e = f \<or> nested_text e \<and> nested_text f"

lemma translate_all_nested: "list_all2 same_but_nested es fs \<Longrightarrow> translate_all es a = translate_all fs a"
proof (induction es fs arbitrary: a rule: list_all2_induct)
  case (Cons e es f fs)
  then show ?case using translate_nested [of e a] translate_nested [of f a] by (auto simp: same_but_nested_def)
qed simp

text \<open>Two streams that differ only in what nested runs say.\<close>

fun same_next :: "next_item \<Rightarrow> next_item \<Rightarrow> bool" where
  "same_next (Next_event e) (Next_event f) \<longleftrightarrow> same_but_nested e f"
| "same_next x y \<longleftrightarrow> x = y"

definition same_poll :: "poll \<Rightarrow> poll \<Rightarrow> bool" where
  "same_poll p q \<longleftrightarrow> po_now p = po_now q \<and> po_cancel p = po_cancel q \<and> po_at p = po_at q \<and> same_next (po_next p) (po_next q)"

lemma same_nextE:
  assumes "same_next x y"
  obtains e f where "x = Next_event e" "y = Next_event f" "same_but_nested e f" | "x = y" "\<nexists>e. x = Next_event e"
  using assms by (cases x; cases y) auto

lemma iterate_nested:
  "list_all2 same_poll ps qs \<Longrightarrow> list_all2 same_but_nested (fst (iterate_with_timeout d ps)) (fst (iterate_with_timeout d qs))
     \<and> snd (iterate_with_timeout d ps) = snd (iterate_with_timeout d qs)"
proof (induction ps qs rule: list_all2_induct)
  case (Cons p ps q qs)
  then have pq: "po_now p = po_now q" "po_cancel p = po_cancel q" "po_at p = po_at q" "same_next (po_next p) (po_next q)"
    by (auto simp: same_poll_def)
  from pq(4) show ?case
  proof (cases rule: same_nextE)
    case (1 e f)
    then show ?thesis using pq(1-3) Cons.IH by (auto simp: split_beta split: sum.splits bool.splits)
  next
    case 2
    then show ?thesis using pq(1-3) by (auto split: sum.splits bool.splits next_item.splits)
  qed
qed simp

section \<open>Declining pauses\<close>

lemma drain_quiet: "quiet es \<Longrightarrow> drain_events es = es \<and> \<not> drain_paused es"
  by (induction es) (auto simp: drain_events_def drain_paused_def split: event.splits)

lemma drain_no_pause: "\<forall>calls. Ev_approval_required calls \<notin> set (drain_events es)"
  by (auto simp: drain_events_def)

lemma drain_ends_once:
  assumes "ends_once es"
  shows "if drain_paused es then quiet (drain_events es) else ends_once (drain_events es)"
proof -
  from assms obtain body e where es: "es = body @ [e]" and q: "quiet body" and e: "terminal_event e" by (auto simp: ends_once_def)
  then show ?thesis using drain_quiet [OF q]
    by (cases e) (auto simp: drain_events_def drain_paused_def intro: ends_onceI)
qed

lemma decline_loop_no_pause:
  "Ev_approval_required calls \<notin> set (fst (fst (decline_loop resume cancel k es raised hs)))"
proof (induction resume cancel k es raised hs rule: decline_loop.induct)
  case (1 resume cancel k es raised hs)
  show ?case
  proof (cases "raised \<noteq> None \<or> \<not> drain_paused es \<or> UNATTENDED_MAX_DECLINE_ROUNDS \<le> k")
    case True
    then show ?thesis using drain_no_pause [of es]
      by (subst decline_loop.simps) (auto split: sum.splits)
  next
    case False
    obtain es' raised' hs' where r: "resume k hs = ((es', raised'), hs')" by (metis prod.exhaust)
    then show ?thesis using "1.IH" [OF _ _ r [symmetric]] False drain_no_pause [of es]
      by (subst decline_loop.simps) (auto simp: split_beta)
  qed
qed

lemma decline_loop_ends_once:
  assumes "\<And>k hs es hs'. resume k hs = ((es, None), hs') \<Longrightarrow> ends_once es"
  shows "(raised = None \<longrightarrow> ends_once es) \<Longrightarrow> decline_loop resume cancel k es raised hs = ((out, None), hs') \<Longrightarrow> ends_once out"
  using assms
proof (induction resume cancel k es raised hs arbitrary: out hs' rule: decline_loop.induct)
  case (1 resume cancel k es raised hs)
  consider (stop) "raised \<noteq> None \<or> \<not> drain_paused es" | (ceiling) "raised = None" "drain_paused es" "UNATTENDED_MAX_DECLINE_ROUNDS \<le> k"
    | (decline) "raised = None" "drain_paused es" "\<not> UNATTENDED_MAX_DECLINE_ROUNDS \<le> k" by blast
  then show ?case
  proof cases
    case stop
    then show ?thesis using "1.prems"(1,2) drain_ends_once [of es] by (subst (asm) decline_loop.simps) (auto split: if_splits)
  next
    case ceiling
    then have "quiet (drain_events es)" using "1.prems"(1) drain_ends_once [of es] by simp
    then have "ends_once (drain_events es @ [Ev_token (ceiling_text (drain_tools es)), Ev_done])"
      using ends_onceI [of "drain_events es @ [Ev_token (ceiling_text (drain_tools es))]" Ev_done] by simp
    then show ?thesis using ceiling "1.prems"(2) by (subst (asm) decline_loop.simps) (auto split: sum.splits)
  next
    case decline
    obtain es' raised' hs1 where r: "resume k hs = ((es', raised'), hs1)" by (metis prod.exhaust)
    obtain out' raised2 hs2 where d: "decline_loop resume cancel (Suc k) es' raised' hs1 = ((out', raised2), hs2)" by (metis prod.exhaust)
    have e: "out = drain_events es @ out'" "raised2 = None"
      using "1.prems"(2) decline r d by (subst (asm) (1) decline_loop.simps, simp)+
    have "raised' = None \<longrightarrow> ends_once es'" using r "1.prems"(3) by blast
    then have "ends_once out'"
      using "1.IH" [OF _ _ r [symmetric] refl] decline d e(2) "1.prems"(3) by blast
    moreover have "quiet (drain_events es)" using decline "1.prems"(1) drain_ends_once [of es] by simp
    ultimately show ?thesis using e ends_once_prepend by simp
  qed
qed

lemma decline_loop_cong:
  assumes "\<And>k hs. k < UNATTENDED_MAX_DECLINE_ROUNDS \<Longrightarrow> resume' k hs = resume k hs"
  shows "decline_loop resume' cancel k es raised hs = decline_loop resume cancel k es raised hs"
  using assms
proof (induction resume cancel k es raised hs rule: decline_loop.induct)
  case (1 resume cancel k es raised hs)
  show ?case
  proof (cases "raised \<noteq> None \<or> \<not> drain_paused es \<or> UNATTENDED_MAX_DECLINE_ROUNDS \<le> k")
    case True
    then show ?thesis by (auto simp: decline_loop.simps [of resume'] decline_loop.simps [of resume])
  next
    case False
    obtain es' raised' hs1 where r: "resume k hs = ((es', raised'), hs1)" by (metis prod.exhaust)
    have "decline_loop resume' cancel (Suc k) es' raised' hs1 = decline_loop resume cancel (Suc k) es' raised' hs1"
      using "1.IH" [OF _ _ r [symmetric] refl] False "1.prems" by blast
    moreover have "resume' k hs = resume k hs" using "1.prems" False by simp
    ultimately show ?thesis using False r
      by (simp add: decline_loop.simps [of resume' cancel k es] decline_loop.simps [of resume cancel k es])
  qed
qed

section \<open>The entry points\<close>

lemma streamed_ends_once: "streamed tlim io i = (es, None) \<Longrightarrow> ends_once es"
  using run_graph_stream_shape [OF refl refl, of "tl_timeout tlim" "ti_feed io i"] by (auto simp: streamed_def Let_def)

lemma held_result: "fst (held tlim io who body hs) = body"
  by (simp add: held_def split_beta)

lemma turn_ends_once:
  assumes "fst (astream_events_turn tlim io question images approval who hs) = (es, None)"
  shows "ends_once es"
proof -
  have body: "ends_once es" if "turn_body tlim io i = (es, None)" for i
    using that streamed_ends_once [of tlim io i] ends_once_prepend [of "[Ev_system_note n]" for n]
    by (auto simp: turn_body_def split: option.splits sum.splits if_splits prod.splits)
  show ?thesis using assms body
    by (auto simp: astream_events_turn_def held_result model_unpriced_envelope_def refusal_event_def split: if_splits sum.splits option.splits)
qed

lemma resume_ends_once:
  assumes "fst (astream_events_resume tlim io approve admitted who hs) = (es, None)"
    and "\<forall>sn. ti_probe io = Inr sn \<longrightarrow> resumability_error_from_state sn = None"
  shows "ends_once es"
  using assms streamed_ends_once [of tlim io "Resume_run (DBool approve)"]
  by (auto simp: astream_events_resume_def held_result resume_body_def refusal_event_def split: if_splits sum.splits option.splits)

lemma resume_reads_its_input:
  assumes "h (Resume_run (DBool approve)) = ti_feed io (Resume_run (DBool approve))"
  shows "astream_events_resume tlim (io\<lparr>ti_feed := h\<rparr>) approve True who hs = astream_events_resume tlim io approve True who hs"
  using assms by (simp add: astream_events_resume_def held_def resume_body_def streamed_def Let_def split: option.split sum.split)

lemma continue_ends_once:
  assumes "fst (astream_events_continue_turn tlim io who hs) = (es, None)"
  shows "ends_once es"
  using assms streamed_ends_once [of tlim io Continue_run]
  by (auto simp: astream_events_continue_turn_def held_result continue_body_def split: if_splits sum.splits option.splits)

text \<open>A resume that finds nothing to resume answers with two terminal events.\<close>

lemma refused_resume_ends_twice:
  assumes "ti_graph io = None" "ti_probe io = Inr sn" "resumability_error_from_state sn = Some e"
  shows "fst (astream_events_resume tlim io approve True who hs) = ([Ev_error None e, Ev_done], None)"
  using assms by (simp add: astream_events_resume_def held_result resume_body_def)

lemma held_leaves_no_hold:
  assumes "\<not> ti_release_fault io" "ti_hold_id io \<noteq> []"
  shows "set (snd (held tlim io who body hs)) \<subseteq> set hs"
proof -
  obtain hold hs' where r: "reserve_budget (ti_now io) (ti_hold_id io) (ti_hold_fault io) who (tl_turn_cost tlim) hs = (hold, hs')" by force
  have "(hold = None \<and> hs' = hs) \<or> (hold = Some (ti_hold_id io) \<and> valid_ctx who
      \<and> (\<forall>h\<in>set hs'. h \<in> set hs \<or> bh_id h = ti_hold_id io \<and> bh_tenant h = tenant (the who)))"
    using r by (auto simp: reserve_budget_def pg_reserve_def Let_def split: if_splits sum.splits prod.splits)
  then show ?thesis using assms r
    by (auto simp: held_def release_budget_reservation_def pg_release_def)
qed

text \<open>What a resume takes, it gives back; and so down the loop of declines.\<close>

lemma resume_leaves_no_hold:
  assumes "\<not> ti_release_fault io" "ti_hold_id io \<noteq> []"
  shows "set (snd (astream_events_resume tlim io approve admitted who hs)) \<subseteq> set hs"
  using held_leaves_no_hold [OF assms] by (auto simp: astream_events_resume_def split: sum.splits option.splits)

lemma decline_loop_leaves_no_hold:
  assumes "\<And>k hs. set (snd (resume k hs)) \<subseteq> set hs"
  shows "set (snd (decline_loop resume cancel k es raised hs)) \<subseteq> set hs"
  using assms
proof (induction resume cancel k es raised hs rule: decline_loop.induct)
  case (1 resume cancel k es raised hs)
  show ?case
  proof (cases "raised \<noteq> None \<or> \<not> drain_paused es \<or> UNATTENDED_MAX_DECLINE_ROUNDS \<le> k")
    case True
    then show ?thesis by (auto simp: decline_loop.simps [of resume] split: sum.splits)
  next
    case False
    obtain es' raised' hs1 where r: "resume k hs = ((es', raised'), hs1)" by (metis prod.exhaust)
    have "set (snd (decline_loop resume cancel (Suc k) es' raised' hs1)) \<subseteq> set hs1"
      using "1.IH" [OF _ _ r [symmetric] refl] False "1.prems" by blast
    moreover have "set hs1 \<subseteq> set hs" using "1.prems" [of k hs] r by simp
    ultimately show ?thesis using False r by (auto simp: decline_loop.simps [of resume cancel k es] split_beta)
  qed
qed

section \<open>Properties\<close>

text \<open>C18. A turn's stream ends once, and says what it recorded. However the graph's events come, when they come and
  how they end, a run either yields exactly one terminal event, as its last, or raises, having yielded none;
  it raises only when its task was cancelled or the checkpoint could not be read. What a caller shows that
  appends tokens and starts again at a retry is the answer the run recorded, and nothing a nested run says
  changes anything the caller gets.\<close>

theorem stream_ends_once:
  assumes "r = run_graph_stream timeout fd"
  shows "(sr_raised r = None \<longrightarrow> ends_once (sr_events r))
    \<and> (sr_raised r \<noteq> None \<longrightarrow> quiet (sr_events r)
         \<and> (snd (iterate_with_timeout (fd_start fd + of_int timeout) (fd_polls fd)) = Task_cancelled \<or> (\<exists>f. fd_final fd = Inl f)))
    \<and> shown (sr_events r) [] = sr_answer r
    \<and> (\<forall>polls. list_all2 same_poll (fd_polls fd) polls \<longrightarrow> run_graph_stream timeout (fd\<lparr>fd_polls := polls\<rparr>) = r)"
proof -
  have "run_graph_stream timeout (fd\<lparr>fd_polls := polls\<rparr>) = r" if "list_all2 same_poll (fd_polls fd) polls" for polls
  proof -
    note it = iterate_nested [OF that, of "fd_start fd + of_int timeout"]
    note tr = translate_all_nested [OF conjunct1 [OF it], of "[]"]
    obtain raw z raw' where raw: "iterate_with_timeout (fd_start fd + of_int timeout) (fd_polls fd) = (raw, z)"
        "iterate_with_timeout (fd_start fd + of_int timeout) polls = (raw', z)" using it by (metis prod.collapse)
    obtain a out where t: "translate_all raw [] = (a, out)" by force
    moreover from t have "translate_all raw' [] = (a, out)" using tr raw by simp
    ultimately show ?thesis using raw unfolding assms run_graph_stream_def by (cases z) simp_all
  qed
  then show ?thesis using run_graph_stream_shape [OF assms refl] by blast
qed

definition sample_view :: thread_view where
  "sample_view = \<lparr>tv_snap = \<lparr>snap_next = [], snap_tasks = [], snap_schema = Some STATE_SCHEMA_VERSION\<rparr>,
     tv_values = fresh_state\<lparr>messages := [HumanMessage ''q'', AIMessage ''hello''], iterations := 1\<rparr>\<rparr>"

definition sample_poll :: "raw_event \<Rightarrow> poll" where
  "sample_poll e = \<lparr>po_now = 1, po_cancel = Inr False, po_next = Next_event e, po_at = 2\<rparr>"

definition sample_feed :: feed where
  "sample_feed = \<lparr>fd_start = 0, fd_polls = map sample_poll [Chat_model_stream (Some ''agent'') None (Text ''draft''),
     Chain_ended ''retry_output'' None [], Chat_model_stream (Some ''agent'') None (Text ''hello''),
     Chat_model_stream (Some ''agent'') (Some ''helper'') (Text ''secret'')], fd_final = Inr sample_view\<rparr>"

theorem stream_ends_once_witness:
  "ends_once (sr_events (run_graph_stream 60 sample_feed)) \<and> shown (sr_events (run_graph_stream 60 sample_feed)) [] = ''hello''"
proof -
  have r: "sr_raised (run_graph_stream 60 sample_feed) = None" "sr_answer (run_graph_stream 60 sample_feed) = ''hello''" by code_simp+
  show ?thesis using stream_ends_once [OF refl, of 60 sample_feed] r by simp
qed

text \<open>C24. An unattended turn never stops at a pause. Nobody can answer an approval there: whatever the model asks
  for, the events hold no approval request; the runs it resumes are resumed with a refusal and never with an
  approval, and at most three of them; and unless something raises, if every pause it declines can be
  resumed, exactly one terminal event comes, last.\<close>

theorem unattended_turn_never_pauses:
  assumes "astream_events_turn_unattended tlim u question images approval who hs = ((es, raised), hs')"
  shows "(\<forall>calls. Ev_approval_required calls \<notin> set es)
    \<and> (raised = None \<and> (\<forall>k sn. ti_probe (ui_resume u k) = Inr sn \<longrightarrow> resumability_error_from_state sn = None) \<longrightarrow> ends_once es)
    \<and> (\<forall>g g' v. v = u\<lparr>ui_resume := \<lambda>k. if k < 3 then (ui_resume u k)\<lparr>ti_feed := \<lambda>i. if i = Resume_run (DBool False) then ti_feed (ui_resume u k) i else g i\<rparr>
               else g' k\<rparr> \<longrightarrow>
         astream_events_turn_unattended tlim v question images approval who hs = ((es, raised), hs'))"
proof -
  obtain es0 raised0 hs0 where first: "astream_events_turn tlim (ui_first u) question images approval who hs = ((es0, raised0), hs0)" by (metis prod.exhaust)
  let ?resume = "\<lambda>u k. astream_events_resume tlim (ui_resume u k) False True who"
  have d: "decline_loop (?resume u) (ui_cancel u) 0 es0 raised0 hs0 = ((es, raised), hs')"
    using assms first by (simp add: astream_events_turn_unattended_def decline_every_pause_def)
  have "Ev_approval_required calls \<notin> set es" for calls
    using decline_loop_no_pause [of calls "?resume u" "ui_cancel u" 0 es0 raised0 hs0] d by simp
  moreover have "ends_once es"
    if ok: "raised = None" "\<forall>k sn. ti_probe (ui_resume u k) = Inr sn \<longrightarrow> resumability_error_from_state sn = None"
  proof (rule decline_loop_ends_once)
    show "ends_once es'" if "?resume u k hs1 = ((es', None), hs2)" for k hs1 es' hs2
      using resume_ends_once [of tlim "ui_resume u k" False True who hs1 es'] that ok(2) by simp
    show "raised0 = None \<longrightarrow> ends_once es0" using turn_ends_once [of tlim "ui_first u" question images approval who hs es0] first by simp
    show "decline_loop (?resume u) (ui_cancel u) 0 es0 raised0 hs0 = ((es, None), hs')" using d ok(1) by simp
  qed
  moreover have "astream_events_turn_unattended tlim v question images approval who hs = ((es, raised), hs')"
    if v: "v = u\<lparr>ui_resume := \<lambda>k. if k < 3 then (ui_resume u k)\<lparr>ti_feed := \<lambda>i. if i = Resume_run (DBool False) then ti_feed (ui_resume u k) i else g i\<rparr>
               else g' k\<rparr>" for g g' v
  proof -
    have "?resume v k hs1 = ?resume u k hs1" if "k < UNATTENDED_MAX_DECLINE_ROUNDS" for k hs1
      using that v resume_reads_its_input by (simp add: UNATTENDED_MAX_DECLINE_ROUNDS_def)
    then have "decline_loop (?resume v) (ui_cancel u) 0 es0 raised0 hs0 = ((es, raised), hs')"
      using decline_loop_cong [of "?resume v" "?resume u"] d by simp
    then show ?thesis using first v by (simp add: astream_events_turn_unattended_def decline_every_pause_def)
  qed
  ultimately show ?thesis by blast
qed

definition sample_pause :: snapshot where
  "sample_pause = \<lparr>snap_next = [''human_approval''], snap_tasks = [[[(''send'', JNull)]]], snap_schema = Some STATE_SCHEMA_VERSION\<rparr>"

definition sample_turn_io :: "snapshot \<Rightarrow> snapshot \<Rightarrow> turn_io" where
  "sample_turn_io before after = \<lparr>ti_unpriced = False, ti_refusal = Inr None, ti_now = 0, ti_hold_id = ''h'', ti_hold_fault = False, ti_release_fault = False,
     ti_graph = None, ti_probe = Inr before, ti_feed = (\<lambda>_. \<lparr>fd_start = 0, fd_polls = [], fd_final = Inr (sample_view\<lparr>tv_snap := after\<rparr>)\<rparr>)\<rparr>"

definition sample_unattended :: unattended_io where
  "sample_unattended = \<lparr>ui_first = sample_turn_io (tv_snap sample_view) sample_pause,
     ui_resume = (\<lambda>_. sample_turn_io sample_pause sample_pause), ui_cancel = Inr True\<rparr>"

definition sample_tlim :: turn_limits where
  "sample_tlim = \<lparr>tl_timeout = 60, tl_turn_cost = 1\<rparr>"

theorem unattended_turn_never_pauses_witness:
  "\<exists>es hs'. astream_events_turn_unattended sample_tlim sample_unattended ''q'' [] False None [] = ((es, None), hs') \<and> ends_once es \<and> Ev_done \<in> set es"
proof -
  let ?r = "astream_events_turn_unattended sample_tlim sample_unattended ''q'' [] False None []"
  have r: "snd (fst ?r) = None" "Ev_done \<in> set (fst (fst ?r))" by code_simp+
  obtain es hs' where e: "?r = ((es, None), hs')" using r(1) by (metis prod.collapse)
  have "resumability_error_from_state sample_pause = None" by code_simp
  then have "ends_once es" using unattended_turn_never_pauses [OF e] by (simp add: sample_unattended_def sample_turn_io_def)
  then show ?thesis using e r(2) by auto
qed



text \<open>What the code relies on LangGraph's reducer for: removing by id, and appending a message that has none yet.\<close>

definition reducer_laws :: "reducer \<Rightarrow> bool" where
  "reducer_laws am \<longleftrightarrow>
     (\<forall>ms ids. set ids \<subseteq> set (List.map_filter msg_id ms) \<longrightarrow>
        am ms (map RemoveMessage ids) = filter (\<lambda>m. case msg_id m of None \<Rightarrow> True | Some i \<Rightarrow> i \<notin> set ids) ms)
   \<and> (\<forall>ms m. msg_id m = None \<and> mtype m \<noteq> Remove \<longrightarrow> (\<exists>i. am ms [m] = ms @ [m\<lparr>msg_id := Some i\<rparr>]))"

definition ids_ok :: "message list \<Rightarrow> bool" where
  "ids_ok ms \<longleftrightarrow> (\<forall>m\<in>set ms. msg_id m \<noteq> None \<and> msg_id m \<noteq> Some []) \<and> distinct (map msg_id ms)"

lemma drop_turn:
  assumes "ids_ok (ms @ turn)" and "reducer_laws am"
  shows "am (ms @ turn) (map RemoveMessage (filter (\<lambda>i. i \<noteq> []) (List.map_filter msg_id turn))) = ms"
proof -
  let ?ids = "filter (\<lambda>i. i \<noteq> []) (List.map_filter msg_id turn)"
  have ids: "set ?ids = {i. Some i \<in> msg_id ` set turn}"
    using assms(1) by (force simp: ids_ok_def List.map_filter_def)
  have "set (List.map_filter msg_id turn) \<subseteq> set (List.map_filter msg_id (ms @ turn))" by (auto simp: List.map_filter_def)
  then have "set ?ids \<subseteq> set (List.map_filter msg_id (ms @ turn))" by auto
  then have am: "am (ms @ turn) (map RemoveMessage ?ids) = filter (\<lambda>m. case msg_id m of None \<Rightarrow> True | Some i \<Rightarrow> i \<notin> set ?ids) (ms @ turn)"
    using assms(2) unfolding reducer_laws_def by blast
  have apart: "msg_id ` set ms \<inter> msg_id ` set turn = {}" using assms(1) by (simp add: ids_ok_def)
  have keep: "case msg_id m of None \<Rightarrow> True | Some i \<Rightarrow> i \<notin> set ?ids" if "m \<in> set ms" for m
  proof (cases "msg_id m")
    case (Some i)
    then have "Some i \<in> msg_id ` set ms" using that by (metis image_eqI)
    then show ?thesis unfolding ids using Some apart by auto
  qed simp
  have gone: "\<not> (case msg_id m of None \<Rightarrow> True | Some i \<Rightarrow> i \<notin> set ?ids)" if t: "m \<in> set turn" for m
  proof -
    have "msg_id m \<noteq> None" using t assms(1) by (simp add: ids_ok_def)
    then obtain i where i: "msg_id m = Some i" by blast
    then have "Some i \<in> msg_id ` set turn" using t by (metis image_eqI)
    then show ?thesis unfolding ids using i by simp
  qed
  show ?thesis unfolding am filter_append using keep gone by (simp add: filter_id_conv filter_empty_conv)
qed

text \<open>C26. A stopped turn leaves no open question. When the person stopped a turn and the thread can be read and
  written: if no tool had run the thread is exactly what it was before the turn; if one had, nothing is lost
  and the thread ends with an answer saying it was stopped; with no question in it, it is unchanged.\<close>

theorem stopped_turn_leaves_no_question:
  assumes "discard_cancelled_turn am False False ms = (outcome, ms')" and "reducer_laws am" and "ids_ok ms"
  shows "(\<exists>i. last_index is_user_message ms = Some i \<and> \<not> list_ex (\<lambda>m. mtype m = Tool) (drop i ms) \<and> outcome = ''dropped'' \<and> ms' = take i ms)
    \<or> (\<exists>i k. last_index is_user_message ms = Some i \<and> list_ex (\<lambda>m. mtype m = Tool) (drop i ms) \<and> outcome = ''closed''
         \<and> ms' = ms @ [(AIMessage STOPPED_TURN_MESSAGE)\<lparr>msg_id := Some k\<rparr>])
    \<or> (last_index is_user_message ms = None \<and> outcome = ''nothing'' \<and> ms' = ms)"
proof (cases "last_index is_user_message ms")
  case None
  then have "current_turn_messages ms = ms" by (simp add: current_turn_messages_def)
  moreover have "\<forall>m\<in>set ms. \<not> is_user_message m" using None by (simp add: last_index_None_iff)
  ultimately have "\<not> open_turn ms" by (auto simp: open_turn_def dest: hd_in_set)
  then show ?thesis using assms(1) None by (simp add: discard_cancelled_turn_def stopped_turn_update_def)
next
  case (Some i)
  then have i: "i < length ms" "is_user_message (ms ! i)" by (auto dest: last_index_SomeD)
  then have turn: "open_turn ms" "current_turn_messages ms = drop i ms"
    using Some by (auto simp: open_turn_def current_turn_messages_def hd_drop_conv_nth)
  show ?thesis
  proof (cases "list_ex (\<lambda>m. mtype m = Tool) (drop i ms)")
    case True
    have "msg_id (AIMessage STOPPED_TURN_MESSAGE) = None \<and> mtype (AIMessage STOPPED_TURN_MESSAGE) \<noteq> Remove" by (simp add: AIMessage_def base_message_def)
    then obtain k where "am ms [AIMessage STOPPED_TURN_MESSAGE] = ms @ [(AIMessage STOPPED_TURN_MESSAGE)\<lparr>msg_id := Some k\<rparr>]"
      using assms(2) unfolding reducer_laws_def by blast
    moreover have "outcome = ''closed''" "ms' = am ms [AIMessage STOPPED_TURN_MESSAGE]"
      using assms(1) turn True by (simp_all add: discard_cancelled_turn_def stopped_turn_update_def Let_def)
    ultimately show ?thesis using Some True by metis
  next
    case False
    have "msg_id (ms ! i) \<noteq> None" "msg_id (ms ! i) \<noteq> Some []" using assms(3) i(1) by (simp_all add: ids_ok_def)
    then have "filter (\<lambda>i. i \<noteq> []) (List.map_filter msg_id (drop i ms)) \<noteq> []"
      using i(1) by (auto simp: List.map_filter_def Cons_nth_drop_Suc [symmetric])
    moreover have "am ms (map RemoveMessage (filter (\<lambda>i. i \<noteq> []) (List.map_filter msg_id (drop i ms)))) = take i ms"
      using drop_turn [of "take i ms" "drop i ms" am] assms(2,3) by simp
    ultimately show ?thesis using assms(1) Some turn False by (simp add: discard_cancelled_turn_def stopped_turn_update_def Let_def)
  qed
qed

definition append_or_remove :: reducer where
  "append_or_remove ms upd = filter (\<lambda>m. case msg_id m of None \<Rightarrow> True | Some i \<Rightarrow> i \<notin> set (List.map_filter msg_id (filter (\<lambda>r. mtype r = Remove) upd))) ms
     @ map (\<lambda>m. m\<lparr>msg_id := Some ''new''\<rparr>) (filter (\<lambda>r. mtype r \<noteq> Remove) upd)"

theorem stopped_turn_leaves_no_question_witness:
  "snd (discard_cancelled_turn append_or_remove False False
      [(HumanMessage ''a'')\<lparr>msg_id := Some ''1''\<rparr>, (AIMessage ''b'')\<lparr>msg_id := Some ''2''\<rparr>, (HumanMessage ''c'')\<lparr>msg_id := Some ''3''\<rparr>])
   = [(HumanMessage ''a'')\<lparr>msg_id := Some ''1''\<rparr>, (AIMessage ''b'')\<lparr>msg_id := Some ''2''\<rparr>]"
proof -
  let ?ms = "[(HumanMessage ''a'')\<lparr>msg_id := Some ''1''\<rparr>, (AIMessage ''b'')\<lparr>msg_id := Some ''2''\<rparr>, (HumanMessage ''c'')\<lparr>msg_id := Some ''3''\<rparr>]"
  have rm: "filter (\<lambda>r. mtype r = Remove) (map RemoveMessage ids) = map RemoveMessage ids"
      "filter (\<lambda>r. mtype r \<noteq> Remove) (map RemoveMessage ids) = []" "List.map_filter msg_id (map RemoveMessage ids) = ids" for ids
    by (induction ids) (simp_all add: RemoveMessage_def base_message_def List.map_filter_def)
  have "append_or_remove ms (map RemoveMessage ids) = filter (\<lambda>m. case msg_id m of None \<Rightarrow> True | Some i \<Rightarrow> i \<notin> set ids) ms" for ms ids
    unfolding append_or_remove_def rm by simp
  moreover have "append_or_remove ms [m] = ms @ [m\<lparr>msg_id := Some ''new''\<rparr>]" if "msg_id m = None" "mtype m \<noteq> Remove" for ms m
  proof -
    have "List.map_filter msg_id (filter (\<lambda>r. mtype r = Remove) [m]) = []" "filter (\<lambda>r. mtype r \<noteq> Remove) [m] = [m]"
      using that(2) by (simp_all add: List.map_filter_def)
    then show ?thesis unfolding append_or_remove_def by (simp add: filter_id_conv split: option.split)
  qed
  ultimately have laws: "reducer_laws append_or_remove" unfolding reducer_laws_def by blast
  have ids: "ids_ok ?ms" by (simp add: ids_ok_def HumanMessage_def AIMessage_def base_message_def)
  have i: "last_index is_user_message ?ms = Some 2" by code_simp
  have "discard_cancelled_turn append_or_remove False False ?ms = (''dropped'', snd (discard_cancelled_turn append_or_remove False False ?ms))"
    by code_simp
  from stopped_turn_leaves_no_question [OF this laws ids] i show ?thesis by simp
qed

end
