(* ===== verification/Queue_Laws.thy ===== *)
theory Queue_Laws
  imports Agent_Worker Turn_Stream_Claims
begin

text \<open>
  Facts about the queue and its worker: a thread's lock stands until it lapses or is given back; the calls a
  job makes keep an order (nothing streamed without the lock, nothing terminal while it is held, nothing
  acknowledged on the way); and against a Redis that answers, what a job's caller is sent is what its run yields.
\<close>

section \<open>The lock\<close>

lemma lock_key_apart:
  "thread_lock_key th \<noteq> cancel_flag_key x" "thread_lock_key th \<noteq> submission_dedup_key x d" "thread_lock_key th \<noteq> results_stream_key x"
  "thread_lock_key th = thread_lock_key th' \<longleftrightarrow> th = th'"
  by (simp_all add: thread_lock_key_def cancel_flag_key_def submission_dedup_key_def results_stream_key_def)

lemma key_state_snoc: "key_state k (h @ [x]) = key_step k x (key_state k h)"
  by (simp add: key_state_def)

text \<open>A successful acquire stands until it lapses or its own release.\<close>

lemma lock_stands:
  assumes "redis_log_honest h" and "\<forall>x\<in>set h. queue_call timeout (fst (snd x))" and "i < length h"
    and "h ! i = (t, Call_set_nx (thread_lock_key th) v ttl, Rep_bool True)"
  shows "i < m \<Longrightarrow> m \<le> length h \<Longrightarrow>
    (\<exists>n. i < n \<and> n < m \<and> (\<exists>t'. h ! n = (t', Call_release (thread_lock_key th) v, Rep_bool True)))
    \<or> (\<exists>n. i < n \<and> n < m \<and> t + of_int ttl \<le> fst (h ! n))
    \<or> key_state (thread_lock_key th) (take m h) = Some (v, t + of_int ttl)"
proof (induction m)
  case (Suc m)
  let ?k = "thread_lock_key th"
  have m: "m < length h" using Suc.prems by simp
  have step: "key_state ?k (take (Suc m) h) = key_step ?k (h ! m) (key_state ?k (take m h))"
    using m by (simp add: take_Suc_conv_app_nth key_state_snoc)
  show ?case
  proof (cases "i = m")
    case True
    then show ?thesis using step assms(4) by (simp add: key_step_def)
  next
    case False
    then have im: "i < m" using Suc.prems by simp
    obtain tm c r where x: "h ! m = (tm, c, r)" by (metis prod_cases3)
    have reply: "r = documented_reply (take m h) tm c" using assms(1) m x unfolding redis_log_honest_def by (metis fst_conv snd_conv)
    have call: "queue_call timeout c" using assms(2) m x by (metis fst_conv nth_mem snd_conv)
    from Suc.IH [OF im] m consider
        (gone) "\<exists>n. i < n \<and> n < m \<and> (\<exists>t'. h ! n = (t', Call_release ?k v, Rep_bool True))"
      | (late) "\<exists>n. i < n \<and> n < m \<and> t + of_int ttl \<le> fst (h ! n)"
      | (stands) "key_state ?k (take m h) = Some (v, t + of_int ttl)" by fastforce
    then show ?thesis
    proof cases
      case stands
      show ?thesis
      proof (cases "t + of_int ttl \<le> tm")
        case True
        then show ?thesis using im x by (metis fst_conv lessI)
      next
        case early: False
        show ?thesis
        proof (cases c)
          case (Call_release k w)
          show ?thesis
          proof (cases "k = ?k \<and> w = v")
            case True
            then have "r = Rep_bool True" using reply stands early Call_release by (simp add: live_value_def)
            then show ?thesis using True x im Call_release by (metis lessI)
          next
            case False
            then have "key_step ?k (h ! m) (key_state ?k (take m h)) = key_state ?k (take m h)"
              using stands early x reply Call_release by (auto simp: key_step_def live_value_def)
            then show ?thesis using step stands by simp
          qed
        qed (use stands early x reply call step lock_key_apart in \<open>auto simp: key_step_def live_value_def\<close>)
      qed
    qed (metis less_SucI)+
  qed
qed simp

section \<open>Programs\<close>

text \<open>The discipline of a worker's calls: nothing is streamed and no flag cleared without the lock, and a terminal event is added only
  when the lock is not held any more.\<close>

fun held_after :: "bool \<Rightarrow> rat \<times> redis_call \<times> (failure + redis_reply) \<Rightarrow> bool" where
  "held_after b (t, Call_set_nx k v ttl, r) = (b \<or> r = Inr (Rep_bool True))"
| "held_after b (t, Call_release k v, r) = False"
| "held_after b x = b"

fun call_allowed :: "bool \<Rightarrow> redis_call \<Rightarrow> bool" where
  "call_allowed b (Call_add_result k e) \<longleftrightarrow> (terminal_event e \<longleftrightarrow> \<not> b)"
| "call_allowed b (Call_del k) \<longleftrightarrow> b"
| "call_allowed b _ \<longleftrightarrow> True"

fun disciplined :: "bool \<Rightarrow> redis_history \<Rightarrow> bool" where
  "disciplined b [] \<longleftrightarrow> True"
| "disciplined b (x # xs) \<longleftrightarrow> call_allowed b (fst (snd x)) \<and> disciplined (held_after b x) xs"

definition held_end :: "bool \<Rightarrow> redis_history \<Rightarrow> bool" where
  "held_end b xs = fold (\<lambda>x c. held_after c x) xs b"

lemma disciplined_append [simp]: "disciplined b (xs @ ys) \<longleftrightarrow> disciplined b xs \<and> disciplined (held_end b xs) ys"
  by (induction xs arbitrary: b) (auto simp: held_end_def)

lemma held_end_simps [simp]: "held_end b [] = b" "held_end b (x # xs) = held_end (held_after b x) xs"
  "held_end b (xs @ ys) = held_end (held_end b xs) ys"
  by (simp_all add: held_end_def)

definition acks :: "redis_history \<Rightarrow> redis_call list" where
  "acks h = filter (\<lambda>c. \<exists>e. c = Call_ack e) (map (\<lambda>x. fst (snd x)) h)"

lemma acks_simps [simp]: "acks [] = []" "acks (xs @ ys) = acks xs @ acks ys" "acks (x # xs) = (if \<exists>e. fst (snd x) = Call_ack e then fst (snd x) # acks xs else acks xs)"
  by (simp_all add: acks_def)

text \<open>What a stretch of a program did: its new calls keep the discipline from one state of the lock to another and acknowledge nothing.\<close>

definition stretch :: "bool \<Rightarrow> bool \<Rightarrow> redis_history \<Rightarrow> redis_history \<Rightarrow> bool" where
  "stretch b b' h h' \<longleftrightarrow> (\<exists>cs. h' = h @ cs \<and> disciplined b cs \<and> held_end b cs = b' \<and> acks cs = [])"

lemma stretch_refl: "stretch b b h h"
  by (auto simp: stretch_def)

lemma stretch_trans:
  assumes "stretch b b1 h h1" "stretch b1 b2 h1 h2"
  shows "stretch b b2 h h2"
proof -
  obtain cs ds where "h1 = h @ cs" "disciplined b cs" "held_end b cs = b1" "acks cs = []"
    "h2 = h1 @ ds" "disciplined b1 ds" "held_end b1 ds = b2" "acks ds = []"
    using assms unfolding stretch_def by blast
  then have "h2 = h @ (cs @ ds) \<and> disciplined b (cs @ ds) \<and> held_end b (cs @ ds) = b2 \<and> acks (cs @ ds) = []" by simp
  then show ?thesis unfolding stretch_def by blast
qed

lemma stretch_ask: "ask R c h = (r, h') \<Longrightarrow> call_allowed b c \<Longrightarrow> \<nexists>e. c = Call_ack e \<Longrightarrow> stretch b (held_after b (fst (R h c), c, r)) h h'"
  by (auto simp: stretch_def ask_def split_beta)

lemma publish_result_stretch:
  assumes "publish_result R rid e h = (r, h')" and "terminal_event e \<longleftrightarrow> \<not> b"
  shows "stretch b b h h'"
  using assms by (auto simp: publish_result_def andthen_def ask_def ret_def stretch_def split: sum.splits prod.splits)

lemma release_thread_lock_stretch:
  assumes "release_thread_lock R th v h = (r, h')"
  shows "stretch b False h h'"
  using assms by (auto simp: release_thread_lock_def andthen_def ask_def ret_def stretch_def split: sum.splits prod.splits)


section \<open>The streams a job drives\<close>

text \<open>A stream that raised has ended nothing; one that returned ended with its terminal event, or with the two of a refused resume.\<close>

definition proper :: "event list \<times> failure option \<Rightarrow> bool" where
  "proper run \<longleftrightarrow> (case run of (es, raised) \<Rightarrow>
     if raised \<noteq> None then quiet es
     else ends_once es \<or> (\<exists>body x. quiet body \<and> es = body @ [Ev_error None x, Ev_done]))"

lemma proper_base: "proper ([], Some f)" "proper ([Ev_error c x], None)" "proper ([Ev_error None x, Ev_done], None)" "proper ([Ev_done], None)"
  by (auto simp: proper_def intro: exI [of _ "[]"])

lemma proper_prepend: "quiet pre \<Longrightarrow> proper (es, raised) \<Longrightarrow> proper (pre @ es, raised)"
  unfolding proper_def using ends_once_prepend by (auto split: if_splits)

lemma streamed_proper: "proper (streamed tlim io i)"
  using run_graph_stream_shape [OF refl refl, of "tl_timeout tlim" "ti_feed io i"] by (auto simp: streamed_def proper_def Let_def)

lemma resume_proper: "proper (fst (astream_events_resume tlim io approve admitted who hs))"
  by (simp add: astream_events_resume_def held_result resume_body_def refusal_event_def streamed_proper proper_base split: sum.split option.split)

lemma continue_proper: "proper (fst (astream_events_continue_turn tlim io who hs))"
  by (simp add: astream_events_continue_turn_def held_result continue_body_def streamed_proper proper_base split: sum.split option.split)

lemma turn_body_proper: "proper (turn_body tlim io i)"
proof -
  have note_first: "proper (Ev_system_note n # es, r)" if "streamed tlim io i = (es, r)" for n es r
    using proper_prepend [of "[Ev_system_note n]" es r] streamed_proper [of tlim io i] that by simp
  show ?thesis unfolding turn_body_def
    by (auto simp: proper_base streamed_proper note_first split: sum.split option.split prod.split)
qed

lemma turn_proper: "proper (fst (astream_events_turn tlim io question images approval who hs))"
  by (simp add: astream_events_turn_def held_result model_unpriced_envelope_def refusal_event_def turn_body_proper proper_base split: sum.split option.split)

lemma drain_proper:
  assumes "proper (es, raised)"
  shows "if raised = None \<and> drain_paused es then quiet (drain_events es) else proper (drain_events es, raised)"
proof -
  consider (raised) "raised \<noteq> None" "quiet es" | (once) "raised = None" "ends_once es"
    | (twice) body x where "raised = None" "quiet body" "es = body @ [Ev_error None x, Ev_done]"
    using assms by (auto simp: proper_def split: if_splits)
  then show ?thesis
  proof cases
    case raised
    then show ?thesis using drain_quiet by (simp add: proper_def)
  next
    case once
    then show ?thesis using drain_ends_once [of es] by (auto simp: proper_def)
  next
    case twice
    then have "drain_events es = es" "\<not> drain_paused es" using drain_quiet [of body] by (auto simp: drain_events_def drain_paused_def)
    then show ?thesis using assms by simp
  qed
qed

lemma decline_loop_proper:
  assumes "\<And>k hs. proper (fst (resume k hs))"
  shows "proper (es, raised) \<Longrightarrow> proper (fst (decline_loop resume cancel k es raised hs))"
  using assms
proof (induction resume cancel k es raised hs rule: decline_loop.induct)
  case (1 resume cancel k es raised hs)
  consider (stop) "raised \<noteq> None \<or> \<not> drain_paused es" | (ceiling) "raised = None" "drain_paused es" "UNATTENDED_MAX_DECLINE_ROUNDS \<le> k"
    | (decline) "raised = None" "drain_paused es" "\<not> UNATTENDED_MAX_DECLINE_ROUNDS \<le> k" by blast
  then show ?case
  proof cases
    case stop
    then show ?thesis using drain_proper [OF "1.prems"(1)] by (auto simp: decline_loop.simps [of resume])
  next
    case ceiling
    then have q: "quiet (drain_events es)" using drain_proper [OF "1.prems"(1)] by simp
    then have "ends_once (drain_events es @ [Ev_token (ceiling_text (drain_tools es)), Ev_done])"
      using ends_onceI [of "drain_events es @ [Ev_token (ceiling_text (drain_tools es))]" Ev_done] by simp
    then show ?thesis using ceiling q by (auto simp: decline_loop.simps [of resume] proper_def split: sum.split)
  next
    case decline
    obtain es' raised' hs1 where r: "resume k hs = ((es', raised'), hs1)" by (metis prod.exhaust)
    obtain out r2 hs2 where d: "decline_loop resume cancel (Suc k) es' raised' hs1 = ((out, r2), hs2)" by (metis prod.exhaust)
    have "proper (es', raised')" using "1.prems"(2) [of k hs] r by simp
    then have "proper (out, r2)" using "1.IH" [OF _ _ r [symmetric] refl] decline "1.prems"(2) d by simp
    moreover have "quiet (drain_events es)" using drain_proper [OF "1.prems"(1)] decline by simp
    ultimately show ?thesis using decline r d proper_prepend by (simp add: decline_loop.simps [of resume cancel k es])
  qed
qed

lemma unattended_proper:
  "proper (fst (astream_events_turn_unattended tlim u question images approval who hs))"
  "proper (fst (astream_events_continue_turn_unattended tlim u who hs))"
  using decline_loop_proper [OF resume_proper] turn_proper continue_proper
  by (simp_all add: astream_events_turn_unattended_def astream_events_continue_turn_unattended_def decline_every_pause_def split_beta)

lemma job_stream_proper: "proper (turn_events w j)" "proper (turn_continue_events w j)" "proper (resume_events w j)"
  using turn_proper continue_proper resume_proper unattended_proper
  by (simp_all add: turn_events_def turn_continue_events_def resume_events_def proper_base split: option.split)

section \<open>A job's calls\<close>

text \<open>Events up to the first terminal one, and only terminal ones after it.\<close>

fun closed :: "event list \<Rightarrow> bool" where
  "closed [] \<longleftrightarrow> True"
| "closed (e # es) \<longleftrightarrow> (if terminal_event e then list_all terminal_event es else closed es)"

lemma quiet_closed: "quiet es \<Longrightarrow> closed es"
  by (induction es) auto

lemma closed_append: "quiet es \<Longrightarrow> closed (es @ fs) \<longleftrightarrow> closed fs"
  by (induction es) auto

lemma proper_closed: "proper (es, raised) \<Longrightarrow> closed es"
  by (auto simp: proper_def ends_once_def closed_append quiet_closed split: if_splits)

lemma release_lock_stretch:
  assumes "release_lock w th released h = (r, h')"
  shows "stretch (\<not> released) False h h'"
  using assms release_thread_lock_stretch stretch_refl by (auto simp: release_lock_def ret_def split: if_splits)

lemma publish_events_stretch:
  "publish_events w rid th es raised released h = ((r, released'), h') \<Longrightarrow> (if released then list_all terminal_event es else closed es)
     \<Longrightarrow> stretch (\<not> released) (\<not> released') h h'"
proof (induction es arbitrary: released h)
  case Nil
  then show ?case by (auto simp: stretch_refl)
next
  case (Cons e es)
  show ?case
  proof (cases "terminal_event e")
    case True
    obtain r1 h1 where rel: "release_lock w th released h = (r1, h1)" by force
    note s1 = release_lock_stretch [OF rel]
    show ?thesis
    proof (cases r1)
      case (Inl f)
      then show ?thesis using Cons.prems(1) True rel s1 by simp
    next
      case (Inr u)
      obtain r2 h2 where pub: "publish_result (we_redis w) rid e h1 = (r2, h2)" by force
      have s2: "stretch False False h1 h2" using publish_result_stretch [OF pub, of False] True by simp
      show ?thesis
      proof (cases r2)
        case (Inl f)
        then show ?thesis using Cons.prems(1) True rel Inr pub stretch_trans [OF s1 s2] by simp
      next
        case r2: (Inr u')
        then have "publish_events w rid th es raised True h2 = ((r, released'), h')" using Cons.prems(1) True rel Inr pub by simp
        then have "stretch False (\<not> released') h2 h'" using Cons.IH [of True h2] Cons.prems(2) True by (auto split: if_splits)
        then show ?thesis using stretch_trans [OF stretch_trans [OF s1 s2]] by simp
      qed
    qed
  next
    case False
    then have open_lock: "\<not> released" "closed es" using Cons.prems(2) by (auto split: if_splits)
    obtain r2 h2 where pub: "publish_result (we_redis w) rid e h = (r2, h2)" by force
    have s2: "stretch True True h h2" using publish_result_stretch [OF pub, of True] False by simp
    show ?thesis
    proof (cases r2)
      case (Inl f)
      then show ?thesis using Cons.prems(1) False open_lock pub s2 by simp
    next
      case (Inr u')
      then have "publish_events w rid th es raised False h2 = ((r, released'), h')" using Cons.prems(1) False open_lock pub by simp
      then have "stretch True (\<not> released') h2 h'" using Cons.IH [of False h2] open_lock by simp
      then show ?thesis using stretch_trans [OF s2] open_lock by simp
    qed
  qed
qed

lemma process_stream_stretch:
  assumes "process_stream w rid th run h = ((r, released), h')" and "proper run"
  shows "stretch True (\<not> released) h h'"
proof -
  obtain r1 h1 where cl: "clear_cancel_flag (we_redis w) th h = (r1, h1)" by force
  have s1: "stretch True True h h1"
    using cl by (auto simp: clear_cancel_flag_def andthen_def ask_def ret_def stretch_def split: sum.splits prod.splits)
  show ?thesis
  proof (cases r1)
    case (Inl f)
    then show ?thesis using assms(1) cl s1 by (simp add: process_stream_def)
  next
    case (Inr u)
    then have "publish_events w rid th (fst run) (snd run) False h1 = ((r, released), h')" using assms(1) cl by (simp add: process_stream_def)
    then have "stretch True (\<not> released) h1 h'"
      using publish_events_stretch [of w rid th "fst run" "snd run" False h1 r released h'] proper_closed [of "fst run" "snd run"] assms(2) by simp
    then show ?thesis using stretch_trans [OF s1] by simp
  qed
qed

lemma handler_stretch:
  assumes "handler w kind = Some work" and "work rid th j h = ((r, released), h')"
  shows "stretch True (\<not> released) h h'"
proof -
  have "stretch True (\<not> released) h h'" if "process_cancel w rid th j h = ((r, released), h')"
  proof (cases "jb_ctx j")
    case (Some c)
    then show ?thesis
    proof (cases "we_cancel w")
      case (Inr b)
      then have "publish_events w rid th [cancel_event b] None False h = ((r, released), h')" using that Some by (simp add: process_cancel_def)
      then show ?thesis using publish_events_stretch [of w rid th "[cancel_event b]" None False h r released h'] by (simp add: cancel_event_def split: if_splits)
    qed (use that stretch_refl in \<open>auto simp: process_cancel_def\<close>)
  qed (use that stretch_refl in \<open>auto simp: process_cancel_def\<close>)
  then show ?thesis using assms
    by (auto simp: handler_def intro: process_stream_stretch [OF _ job_stream_proper(1)] process_stream_stretch [OF _ job_stream_proper(2)]
        process_stream_stretch [OF _ job_stream_proper(3)] split: if_splits)
qed

lemma locked_work_stretch:
  assumes "locked_work w work th h = (r, h')" and "\<And>r released h1. work h = ((r, released), h1) \<Longrightarrow> stretch True (\<not> released) h h1"
  shows "stretch True False h h'"
proof -
  obtain r1 released h1 where w: "work h = ((r1, released), h1)" by (metis prod.exhaust)
  obtain r2 h2 where rel: "release_lock w th released h1 = (r2, h2)" by force
  have "h2 = h'" using assms(1) w rel by (auto simp: locked_work_def split: sum.splits)
  then show ?thesis using stretch_trans [OF assms(2) [OF w] release_lock_stretch [OF rel]] by simp
qed

lemma acquire_stretch:
  assumes "acquire_thread_lock R timeout th tok h = (r, h')"
  shows "stretch False (r = Inr True) h h'"
  using assms by (auto simp: acquire_thread_lock_def andthen_def ask_def ret_def stretch_def split: sum.splits prod.splits)

lemma process_body_stretch:
  assumes "process_body w rid j h = (r, h')"
  shows "stretch False False h h'"
proof (cases "jb_thread_id j")
  case (Some th)
  show ?thesis
  proof (cases "handler w (job_kind j)")
    case work: (Some work)
    obtain r1 h1 where acq: "acquire_thread_lock (we_redis w) (tl_timeout (we_limits w)) th (we_token w) h = (r1, h1)" by force
    note s1 = acquire_stretch [OF acq]
    consider (fault) f where "r1 = Inl f" | (busy) "r1 = Inr False" | (got) "r1 = Inr True" by (metis (full_types) sum.exhaust)
    then show ?thesis
    proof cases
      case fault
      then show ?thesis using assms Some work acq s1 by (simp add: process_body_def andthen_def)
    next
      case busy
      then have "publish_result (we_redis w) rid busy_event h1 = (r, h')" using assms Some work acq by (simp add: process_body_def andthen_def)
      then show ?thesis using publish_result_stretch [of "we_redis w" rid busy_event h1 r h' False] s1 busy stretch_trans by (force simp: busy_event_def)
    next
      case got
      then have "locked_work w (work rid th j) th h1 = (r, h')" using assms Some work acq by (simp add: process_body_def andthen_def)
      then have "stretch True False h1 h'" by (rule locked_work_stretch) (rule handler_stretch [OF work])
      then show ?thesis using stretch_trans s1 got by simp
    qed
  qed (use assms Some stretch_refl in \<open>auto simp: process_body_def raise_failure_def\<close>)
qed (use assms stretch_refl in \<open>auto simp: process_body_def raise_failure_def\<close>)

lemma guarded_body_stretch:
  assumes "except_do (process_body w rid j) (\<lambda>f. publish_result (we_redis w) rid (internal_error_envelope f)) h = (r, h')"
  shows "stretch False False h h'"
proof -
  obtain r1 h1 where body: "process_body w rid j h = (r1, h1)" by force
  note s1 = process_body_stretch [OF body]
  have "stretch False False h1 h2" if "publish_result (we_redis w) rid (internal_error_envelope f) h1 = (r2, h2)" for f r2 h2
    using publish_result_stretch [OF that, of False] by (simp add: internal_error_envelope_def)
  then show ?thesis using assms body s1 stretch_trans [OF s1] by (auto simp: except_do_def split: sum.splits if_splits)
qed

section \<open>What the caller is sent\<close>

definition answers :: "redis \<Rightarrow> bool" where
  "answers R \<longleftrightarrow> (\<forall>h c. \<exists>v. snd (R h c) = Inr v)"

definition results_of :: "str \<Rightarrow> redis_history \<Rightarrow> event list" where
  "results_of rid h = concat (map (\<lambda>(t, c, r). case c of
       Call_add_result k e \<Rightarrow> if k = results_stream_key rid \<and> (\<exists>v. r = Inr v) then [e] else []
     | _ \<Rightarrow> []) h)"

lemma results_of_append [simp]: "results_of rid (xs @ ys) = results_of rid xs @ results_of rid ys"
  by (simp add: results_of_def)

definition run_outcome :: "failure option \<Rightarrow> failure + unit" where
  "run_outcome raised = (case raised of None \<Rightarrow> Inr () | Some f \<Rightarrow> Inl f)"

text \<open>The run a job's kind stands for.\<close>

definition job_run :: "worker_env \<Rightarrow> job \<Rightarrow> event list \<times> failure option" where
  "job_run w j =
     (if job_kind j = ''turn'' then turn_events w j
      else if job_kind j = ''turn_continue'' then turn_continue_events w j
      else if job_kind j = ''resume'' then resume_events w j
      else (case jb_ctx j of
          None \<Rightarrow> ([], Some missing_key)
        | Some _ \<Rightarrow> (case we_cancel w of Inl f \<Rightarrow> ([], Some f) | Inr b \<Rightarrow> ([cancel_event b], None))))"

lemma job_run_proper: "proper (job_run w j)"
  by (simp add: job_run_def job_stream_proper proper_base cancel_event_def split: option.split sum.split)

lemma ask_answers:
  assumes "answers R"
  obtains t v where "ask R c h = (Inr v, h @ [(t, c, Inr v)])" "R h c = (t, Inr v)"
proof -
  obtain v where "snd (R h c) = Inr v" using assms by (auto simp: answers_def)
  then obtain t where "R h c = (t, Inr v)" by (metis prod.collapse)
  then show ?thesis by (intro that [of v t]) (simp_all add: ask_def)
qed

lemma publish_result_answers:
  assumes "answers R"
  obtains h' where "publish_result R rid e h = (Inr (), h')" "results_of rid h' = results_of rid h @ [e]"
proof -
  obtain t v where a: "ask R (Call_add_result (results_stream_key rid) e) h = (Inr v, h @ [(t, Call_add_result (results_stream_key rid) e, Inr v)])"
    using ask_answers [OF assms] by metis
  obtain t' v' where b: "ask R (Call_expire (results_stream_key rid) RESULTS_STREAM_TTL_SECONDS) (h @ [(t, Call_add_result (results_stream_key rid) e, Inr v)])
      = (Inr v', (h @ [(t, Call_add_result (results_stream_key rid) e, Inr v)]) @ [(t', Call_expire (results_stream_key rid) RESULTS_STREAM_TTL_SECONDS, Inr v')])"
    using ask_answers [OF assms] by metis
  show ?thesis
    by (rule that, simp add: publish_result_def andthen_def a b ret_def) (simp add: results_of_def)
qed

lemma release_lock_answers:
  assumes "answers (we_redis w)"
  obtains h' where "release_lock w th released h = (Inr (), h')" "results_of rid h' = results_of rid h"
proof (cases released)
  case False
  obtain t v where a: "ask (we_redis w) (Call_release (thread_lock_key th) (we_token w)) h = (Inr v, h @ [(t, Call_release (thread_lock_key th) (we_token w), Inr v)])"
    using ask_answers [OF assms] by metis
  show ?thesis
    by (rule that, simp add: release_lock_def release_thread_lock_def andthen_def a ret_def False) (simp add: results_of_def)
qed (use that in \<open>simp add: release_lock_def ret_def\<close>)

lemma publish_events_answers:
  assumes "answers (we_redis w)"
  shows "\<exists>rl h'. publish_events w rid th es raised released h = ((run_outcome raised, rl), h') \<and> results_of rid h' = results_of rid h @ es"
proof (induction es arbitrary: released h)
  case Nil
  then show ?case by (simp add: run_outcome_def)
next
  case (Cons e es)
  obtain h1 where h1: "(if terminal_event e then release_lock w th released h else (Inr (), h)) = (Inr (), h1)" "results_of rid h1 = results_of rid h"
  proof (cases "terminal_event e")
    case True
    then show ?thesis using that release_lock_answers [OF assms] by metis
  qed (use that in simp)
  obtain h2 where h2: "publish_result (we_redis w) rid e h1 = (Inr (), h2)" "results_of rid h2 = results_of rid h1 @ [e]"
    using publish_result_answers [OF assms] by metis
  then show ?case using Cons.IH [of "released \<or> terminal_event e" h2] h1 by (simp add: Let_def)
qed

lemma handler_answers:
  assumes "answers (we_redis w)" and "handler w (job_kind j) = Some work"
  shows "\<exists>rl h'. work rid th j h = ((run_outcome (snd (job_run w j)), rl), h') \<and> results_of rid h' = results_of rid h @ fst (job_run w j)"
proof -
  have stream: "\<exists>rl h'. process_stream w rid th run h = ((run_outcome (snd run), rl), h') \<and> results_of rid h' = results_of rid h @ fst run" for run
  proof -
    obtain t v where a: "ask (we_redis w) (Call_del (cancel_flag_key th)) h = (Inr v, h @ [(t, Call_del (cancel_flag_key th), Inr v)])"
      using ask_answers [OF assms(1)] by metis
    have "results_of rid (h @ [(t, Call_del (cancel_flag_key th), Inr v)]) = results_of rid h" by (simp add: results_of_def)
    then show ?thesis using publish_events_answers [OF assms(1), of rid th "fst run" "snd run" False "h @ [(t, Call_del (cancel_flag_key th), Inr v)]"]
      by (simp add: process_stream_def clear_cancel_flag_def andthen_def a ret_def)
  qed
  have "\<exists>rl h'. process_cancel w rid th j h = ((run_outcome (snd (job_run w j)), rl), h') \<and> results_of rid h' = results_of rid h @ fst (job_run w j)"
    if "job_kind j = ''cancel''"
    using that publish_events_answers [OF assms(1), of rid th "[cancel_event b]" None False h for b]
    by (cases "jb_ctx j"; cases "we_cancel w") (auto simp: process_cancel_def job_run_def run_outcome_def simp del: publish_events.simps)
  then show ?thesis using assms(2) stream [of "turn_events w j"] stream [of "turn_continue_events w j"] stream [of "resume_events w j"]
    by (auto simp: handler_def job_run_def split: if_splits)
qed

text \<open>The job under a Redis that answers: refused, or its run's events with an envelope where the run raised.\<close>

definition sent :: "worker_env \<Rightarrow> job \<Rightarrow> bool \<Rightarrow> event list \<times> failure option" where
  "sent w j granted =
     (if jb_thread_id j = None then ([], Some missing_key)
      else if handler w (job_kind j) = None then ([], Some value_error)
      else if granted then job_run w j else ([busy_event], None))"

lemma sent_proper: "proper (sent w j granted)"
  by (simp add: sent_def job_run_proper proper_base busy_event_def)

definition lock_granted :: "worker_env \<Rightarrow> job \<Rightarrow> redis_history \<Rightarrow> bool" where
  "lock_granted w j h \<longleftrightarrow> (case jb_thread_id j of None \<Rightarrow> False | Some th \<Rightarrow>
     snd (we_redis w h (Call_set_nx (thread_lock_key th) (we_token w) (THREAD_LOCK_TTL_SECONDS (tl_timeout (we_limits w))))) = Inr (Rep_bool True))"

lemma process_body_answers:
  assumes "answers (we_redis w)" and g: "granted = lock_granted w j h"
  shows "\<exists>h'. process_body w rid j h = (run_outcome (snd (sent w j granted)), h') \<and> results_of rid h' = results_of rid h @ fst (sent w j granted)"
proof (cases "jb_thread_id j")
  case (Some th)
  show ?thesis
  proof (cases "handler w (job_kind j)")
    case work: (Some work)
    let ?acq = "Call_set_nx (thread_lock_key th) (we_token w) (THREAD_LOCK_TTL_SECONDS (tl_timeout (we_limits w)))"
    obtain t v where a: "ask (we_redis w) ?acq h = (Inr v, h @ [(t, ?acq, Inr v)])" "we_redis w h ?acq = (t, Inr v)" using ask_answers [OF assms(1)] by metis
    then have gr: "granted \<longleftrightarrow> v = Rep_bool True" using g Some by (simp add: lock_granted_def)
    have acq: "acquire_thread_lock (we_redis w) (tl_timeout (we_limits w)) th (we_token w) h = (Inr granted, h @ [(t, ?acq, Inr v)])"
      using a gr by (simp add: acquire_thread_lock_def andthen_def ret_def)
    have same: "results_of rid (h @ [(t, ?acq, Inr v)]) = results_of rid h" by (simp add: results_of_def)
    show ?thesis
    proof (cases granted)
      case True
      obtain rl h1 where run: "work rid th j (h @ [(t, ?acq, Inr v)]) = ((run_outcome (snd (job_run w j)), rl), h1)"
          "results_of rid h1 = results_of rid h @ fst (job_run w j)"
        using handler_answers [OF assms(1) work, of rid th "h @ [(t, ?acq, Inr v)]"] same by metis
      obtain h2 where rel: "release_lock w th rl h1 = (Inr (), h2)" "results_of rid h2 = results_of rid h1" using release_lock_answers [OF assms(1)] by metis
      have "process_body w rid j h = (run_outcome (snd (job_run w j)), h2)"
        using Some work acq True run(1) rel(1) by (simp add: process_body_def andthen_def locked_work_def)
      then show ?thesis using Some work True run(2) rel(2) by (simp add: sent_def)
    next
      case False
      obtain h1 where pub: "publish_result (we_redis w) rid busy_event (h @ [(t, ?acq, Inr v)]) = (Inr (), h1)" "results_of rid h1 = results_of rid h @ [busy_event]"
        using publish_result_answers [OF assms(1), of rid busy_event "h @ [(t, ?acq, Inr v)]"] same by metis
      have "process_body w rid j h = (Inr (), h1)" using Some work acq False pub(1) by (simp add: process_body_def andthen_def)
      then show ?thesis using Some work False pub(2) by (simp add: sent_def run_outcome_def)
    qed
  qed (use Some in \<open>simp add: process_body_def raise_failure_def sent_def run_outcome_def\<close>)
qed (simp add: process_body_def raise_failure_def sent_def run_outcome_def)

section \<open>Reading the results\<close>

lemma until_terminal_append:
  "until_terminal (xs @ ys) = (if snd (until_terminal xs) then until_terminal xs else (fst (until_terminal xs) @ fst (until_terminal ys), snd (until_terminal ys)))"
  by (induction xs) (auto simp: split_beta)

definition in_time :: "(int \<times> rat) option \<Rightarrow> read_round list \<Rightarrow> bool" where
  "in_time deadline rounds \<longleftrightarrow> (case deadline of None \<Rightarrow> True | Some (_, d) \<Rightarrow> \<forall>r\<in>set rounds. rr_now r < d)"

lemma read_results_groups:
  "in_time deadline rounds \<Longrightarrow> read_results rid deadline rounds = until_terminal (concat (map rr_entries rounds))"
proof (induction rid deadline rounds rule: read_results.induct)
  case (2 rid deadline r rs)
  then have now: "(case deadline of Some (seconds, d) \<Rightarrow> if d \<le> rr_now r then Some seconds else None | None \<Rightarrow> None) = None"
      "in_time deadline rs" "in_time None rs"
    by (auto simp: in_time_def split: option.splits)
  show ?case
  proof (cases "rr_entries r = []")
    case True
    then show ?thesis using "2.IH"(1) now by simp
  next
    case False
    obtain out ended where u: "until_terminal (rr_entries r) = (out, ended)" by force
    show ?thesis
    proof (cases ended)
      case True
      then show ?thesis using now(1) False u by (simp add: until_terminal_append)
    next
      case going: False
      then have "read_results rid None rs = until_terminal (concat (map rr_entries rs))" using "2.IH"(2) [OF now(1) False u [symmetric]] now(3) by simp
      then show ?thesis using now(1) False u going by (simp add: until_terminal_append split_beta)
    qed
  qed
qed simp

lemma until_terminal_once: "quiet body \<Longrightarrow> terminal_event e \<Longrightarrow> until_terminal (body @ e # rest) = (body @ [e], True)"
  by (induction body) auto

lemma proper_first_terminal:
  assumes "proper (es, raised)"
  obtains (told) body e rest where "raised = None" "es = body @ e # rest" "quiet body" "terminal_event e" "list_all terminal_event rest"
    | (raised) f where "raised = Some f" "quiet es"
  using assms by (cases raised) (auto simp: proper_def ends_once_def)

end
