(* ===== verification/Queue_Claims.thy ===== *)
theory Queue_Claims
  imports Queue_Laws
begin

text \<open>
  Properties of the queue and its worker: one job at a time holds a thread, an input replayed runs once, a job is
  acknowledged last and its lock is free before its caller is told, its caller is told once, and a lost job is
  retried within bounds or archived, never dropped.
\<close>

section \<open>Properties\<close>


definition sample_log :: redis_log where
  "sample_log = [(0, Call_set_nx (thread_lock_key ''c'') ''a'' 120, Rep_bool True), (1, Call_set_nx (thread_lock_key ''c'') ''b'' 120, Rep_bool False),
     (2, Call_release (thread_lock_key ''c'') ''b'', Rep_bool False), (3, Call_release (thread_lock_key ''c'') ''a'', Rep_bool True),
     (4, Call_set_nx (thread_lock_key ''c'') ''b'' 120, Rep_bool True)]"



definition sample_fault :: failure where
  "sample_fault = \<lparr>fl_class = ''ConnectionError'', fl_timeout = False, fl_budget = False\<rparr>"

definition granting :: redis where
  "granting h c = (case c of
       Call_set_nx _ _ _ \<Rightarrow> (0, Inr (Rep_bool True))
     | Call_release _ _ \<Rightarrow> (0, Inr (Rep_bool True))
     | _ \<Rightarrow> (0, Inr Rep_ok))"

definition sample_worker :: "redis \<Rightarrow> worker_env" where
  "sample_worker R = \<lparr>we_redis = R, we_domain = ''sales'', we_limits = sample_tlim, we_token = ''tok'',
     we_io = (sample_turn_io (tv_snap sample_view) (tv_snap sample_view))\<lparr>ti_feed := \<lambda>_. sample_feed\<rparr>,
     we_unattended = sample_unattended, we_cancel = Inr True, we_holds = []\<rparr>"

definition sample_job :: job where
  "sample_job = \<lparr>jb_kind = Some ''turn'', jb_request_id = Some ''r'', jb_thread_id = Some ''c'', jb_text = Some ''q'',
     jb_ctx = Some \<lparr>tenant = ''t'', principal = ''p'', claims = []\<rparr>, jb_approved = None, jb_require_approval = False,
     jb_images = [], jb_unattended = False, jb_attempts = 0\<rparr>"


text \<open>C19. A job's caller is told, once, and what it is sent is what the run yields. Against a Redis that answers, a
  job ends without an error unless its task is cancelled; a job that got its thread sends its run's events in
  order, with the generic envelope after them where the run raised, and one that did not sends the refusal. However the
  entries fall into reads, a reader gets the events up to the first terminal one and stops there.\<close>

theorem caller_told:
  assumes "process_request w entry_id (Some j) h = (r, h')" and "jb_request_id j = Some rid" and "answers (we_redis w)"
    and "results_of rid h = []"
    and "run = sent w j (lock_granted w j h)" and "\<forall>f. snd run = Some f \<longrightarrow> is_exception f"
  shows "r = Inr ()
    \<and> results_of rid h' = fst run @ (case snd run of None \<Rightarrow> [] | Some f \<Rightarrow> [internal_error_envelope f])
    \<and> (\<exists>body e rest. results_of rid h' = body @ e # rest \<and> quiet body \<and> terminal_event e
        \<and> (\<forall>rounds deadline. concat (map rr_entries rounds) = results_of rid h' \<and> in_time deadline rounds
              \<longrightarrow> read_results rid deadline rounds = (body @ [e], True)))"
proof -
  obtain es raised where run: "run = (es, raised)" by force
  let ?all = "es @ (case raised of None \<Rightarrow> [] | Some f \<Rightarrow> [internal_error_envelope f])"
  let ?body = "except_do (process_body w rid j) (\<lambda>f. publish_result (we_redis w) rid (internal_error_envelope f))"
  obtain h1 where h1: "process_body w rid j h = (run_outcome raised, h1)" "results_of rid h1 = es"
    using process_body_answers [OF assms(3) refl, where j = j and h = h and rid = rid] assms(4,5) run by (metis append_Nil fst_conv snd_conv)
  obtain h2 where h2: "?body h = (Inr (), h2)" "results_of rid h2 = ?all"
  proof (cases raised)
    case None
    then show ?thesis using that h1 by (simp add: except_do_def run_outcome_def)
  next
    case (Some f)
    obtain h2 where "publish_result (we_redis w) rid (internal_error_envelope f) h1 = (Inr (), h2)" "results_of rid h2 = results_of rid h1 @ [internal_error_envelope f]"
      using publish_result_answers [OF assms(3)] by metis
    then show ?thesis using that [of h2] Some h1 assms(6) run by (simp add: except_do_def run_outcome_def)
  qed
  obtain t v where "ask (we_redis w) (Call_ack entry_id) h2 = (Inr v, h2 @ [(t, Call_ack entry_id, Inr v)])" using ask_answers [OF assms(3)] by metis
  then have fin: "r = Inr ()" "h' = h2 @ [(t, Call_ack entry_id, Inr v)]" using assms(1,2) h2(1) by (simp_all add: process_request_def finally_do_def)
  then have res: "results_of rid h' = ?all" using h2(2) by (simp add: results_of_def)
  have "proper (es, raised)" using sent_proper [of w j] assms(5) run by metis
  then obtain body e rest where shape: "?all = body @ e # rest" "quiet body" "terminal_event e"
  proof (cases rule: proper_first_terminal)
    case (raised f)
    then show ?thesis using that [of es "internal_error_envelope f" "[]"] by (simp add: internal_error_envelope_def)
  qed (use that in auto)
  moreover have "read_results rid deadline rounds = (body @ [e], True)"
    if "concat (map rr_entries rounds) = results_of rid h' \<and> in_time deadline rounds" for rounds deadline
    using that read_results_groups [of deadline rounds rid] res shape until_terminal_once by simp
  ultimately show ?thesis using fin(1) res run by auto
qed

theorem caller_told_witness:
  "results_of ''r'' (snd (process_request (sample_worker granting) ''1-0'' (Some sample_job) [])) = fst (turn_events (sample_worker granting) sample_job)"
proof -
  let ?w = "sample_worker granting"
  obtain r h' where run: "process_request ?w ''1-0'' (Some sample_job) [] = (r, h')" by force
  have rid: "jb_request_id sample_job = Some ''r''" by (simp add: sample_job_def)
  have ans: "answers (we_redis ?w)" by (auto simp: answers_def sample_worker_def granting_def split: redis_call.split)
  have none: "results_of ''r'' [] = []" by (simp add: results_of_def)
  have sent: "turn_events ?w sample_job = sent ?w sample_job (lock_granted ?w sample_job [])"
    by (simp add: sent_def job_run_def job_kind_def handler_def lock_granted_def sample_job_def sample_worker_def granting_def)
  have ok: "snd (turn_events ?w sample_job) = None" by code_simp
  from caller_told [OF run rid ans none sent] ok show ?thesis using run by simp
qed

text \<open>What a checkpoint must show for a turn to run again, and as what.\<close>

definition may_rerun :: "thread_view \<Rightarrow> str \<Rightarrow> bool" where
  "may_rerun v kind \<longleftrightarrow> (case last_index is_user_message (messages (tv_values v)) of
       None \<Rightarrow> kind = ''turn''
     | Some i \<Rightarrow> kind = ''turn_continue'' \<and> \<not> turn_already_completed (drop (Suc i) (messages (tv_values v)))
         \<and> \<not> is_paused (tv_snap v) \<and> snap_next (tv_snap v) \<noteq> [])"

lemma classified_may_rerun:
  "classify_reclaimed_turn (Inr v) = Retry_fresh \<Longrightarrow> may_rerun v ''turn''"
  "classify_reclaimed_turn (Inr v) = Retry_continue \<Longrightarrow> may_rerun v ''turn_continue''"
  by (auto simp: classify_reclaimed_turn_def may_rerun_def Let_def split: option.splits if_splits)

lemma reclaim_retry_safe:
  assumes "reclaim_retry j checkpoint = Some j'"
  shows "job_kind j \<in> {''cancel'', ''resume''} \<and> j' = j
    \<or> (\<exists>th v. jb_thread_id j = Some th \<and> checkpoint th = Inr v \<and> may_rerun v (job_kind j') \<and> jb_attempts j' = jb_attempts j)"
proof (cases "job_kind j \<in> {''cancel'', ''resume''}")
  case False
  then obtain th where th: "jb_thread_id j = Some th" using assms by (auto simp: reclaim_retry_def split: if_splits option.splits)
  show ?thesis
  proof (cases "checkpoint th")
    case (Inl f)
    then show ?thesis using assms False th by (auto simp: reclaim_retry_def classify_reclaimed_turn_def split: if_splits)
  next
    case (Inr v)
    then show ?thesis using assms False th classified_may_rerun [of v]
      by (auto simp: reclaim_retry_def job_kind_def [of "j\<lparr>jb_kind := _\<rparr>"] split: if_splits reclaim_action.splits)
  qed
qed (use assms in \<open>simp add: reclaim_retry_def\<close>)

lemma republished_calls:
  assumes "andthen (republish_job R s j) (\<lambda>_. andthen (ask R (Call_ack i)) (\<lambda>_. ret ())) h = (r, h')"
  obtains (lost) t f where "h' = h @ [(t, Call_add_request s (j\<lparr>jb_attempts := jb_attempts j + 1\<rparr>), Inl f)]"
    | (kept) t v t2 a where "h' = h @ [(t, Call_add_request s (j\<lparr>jb_attempts := jb_attempts j + 1\<rparr>), Inr v), (t2, Call_ack i, a)]"
  using assms by (auto simp: republish_job_def andthen_def ask_def ret_def split: sum.splits prod.splits)

lemma archived_calls:
  assumes "dead_letter_reclaimed w i p reason h = (r, h')"
  obtains (lost) t f where "h' = h @ [(t, Call_add_dead (dead_letter_stream_key (requests_stream_key (we_domain w))) i p reason, Inl f)]"
    | (kept) t v t2 a where "h' = h @ [(t, Call_add_dead (dead_letter_stream_key (requests_stream_key (we_domain w))) i p reason, Inr v), (t2, Call_ack i, a)]"
  using assms by (auto simp: dead_letter_reclaimed_def publish_dead_letter_def andthen_def ask_def ret_def split: sum.splits prod.splits)

lemma published_calls:
  assumes "publish_result R rid e h = (r, h')"
  obtains cs where "h' = h @ cs" "acks cs = []" "\<forall>x\<in>set cs. \<forall>s j. fst (snd x) \<noteq> Call_add_request s j" "\<forall>x\<in>set cs. \<forall>s i p z. fst (snd x) \<noteq> Call_add_dead s i p z"
    "r = Inr () \<Longrightarrow> \<exists>t v. (t, Call_add_result (results_stream_key rid) e, Inr v) \<in> set cs"
  using assms by (auto simp: publish_result_def andthen_def ask_def ret_def split: sum.splits prod.splits)

lemma told_lost_calls:
  assumes "(case rq of None \<Rightarrow> ret () | Some rid \<Rightarrow> if rid = [] then ret () else publish_result R rid worker_lost_event) h = (r, h')"
  obtains cs where "h' = h @ cs" "acks cs = []" "\<forall>x\<in>set cs. \<forall>s j. fst (snd x) \<noteq> Call_add_request s j" "\<forall>x\<in>set cs. \<forall>s i p z. fst (snd x) \<noteq> Call_add_dead s i p z"
    "\<And>rid. r = Inr () \<Longrightarrow> rq = Some rid \<Longrightarrow> rid \<noteq> [] \<Longrightarrow> \<exists>t v. (t, Call_add_result (results_stream_key rid) worker_lost_event, Inr v) \<in> set cs"
proof (cases "\<exists>rid. rq = Some rid \<and> rid \<noteq> []")
  case True
  then obtain rid where rid: "rq = Some rid" "rid \<noteq> []" by blast
  then have "publish_result R rid worker_lost_event h = (r, h')" using assms by simp
  then show ?thesis by (rule published_calls) (use that rid in auto)
next
  case False
  then have "h' = h" using assms by (auto simp: ret_def split: option.splits if_splits)
  then show ?thesis using that [of "[]"] False by auto
qed

text \<open>What a reclaim does with a job: \<open>saves\<close> is the call that keeps it, made just before the acknowledgement.\<close>

definition saves :: "worker_env \<Rightarrow> str \<Rightarrow> redis_call \<Rightarrow> bool" where
  "saves w entry_id c \<longleftrightarrow> (\<exists>j. c = Call_add_request (requests_stream_key (we_domain w)) j)
     \<or> (\<exists>p z. c = Call_add_dead (dead_letter_stream_key (requests_stream_key (we_domain w))) entry_id p z)"

definition acked_saved :: "worker_env \<Rightarrow> str \<Rightarrow> redis_history \<Rightarrow> bool" where
  "acked_saved w entry_id cs \<longleftrightarrow> acks cs = []
     \<or> (\<exists>pre t c v t2 a. cs = pre @ [(t, c, Inr v), (t2, Call_ack entry_id, a)] \<and> acks pre = [] \<and> saves w entry_id c)"

lemma archived_saved:
  assumes "dead_letter_reclaimed w i p reason h = (r, h')"
  obtains cs where "h' = h @ cs" "acks pre = [] \<Longrightarrow> acked_saved w i (pre @ cs)" "\<forall>x\<in>set cs. \<forall>s j. fst (snd x) \<noteq> Call_add_request s j"
  using assms
proof (cases rule: archived_calls)
  case (lost t f)
  then show ?thesis using that by (simp add: acked_saved_def)
next
  case (kept t v t2 a)
  then have "acked_saved w i (pre @ [(t, Call_add_dead (dead_letter_stream_key (requests_stream_key (we_domain w))) i p reason, Inr v), (t2, Call_ack i, a)])"
    if "acks pre = []" using that unfolding acked_saved_def saves_def by blast
  then show ?thesis using that [OF kept] by simp
qed

lemma reclaim_cases:
  assumes "handle_reclaimed_job w checkpoint entry_id payload h = (r, h')"
  obtains (retried) j j' t x rest where "payload = Some j" "reclaim_retry j checkpoint = Some j'" "jb_attempts j < MAX_AUTO_RECLAIM_RETRIES"
      "h' = h @ (t, Call_add_request (requests_stream_key (we_domain w)) (j'\<lparr>jb_attempts := jb_attempts j' + 1\<rparr>), x) # rest"
      "rest = [] \<or> (\<exists>v t2 a. x = Inr v \<and> rest = [(t2, Call_ack entry_id, a)])"
    | (archived) cs where "h' = h @ cs" "acked_saved w entry_id cs" "\<forall>x\<in>set cs. \<forall>s j. fst (snd x) \<noteq> Call_add_request s j"
      "\<And>j rid t s i p z x. payload = Some j \<Longrightarrow> jb_request_id j = Some rid \<Longrightarrow> rid \<noteq> [] \<Longrightarrow> (t, Call_add_dead s i p z, x) \<in> set cs
         \<Longrightarrow> \<exists>t' v. (t', Call_add_result (results_stream_key rid) worker_lost_event, Inr v) \<in> set cs"
proof (cases payload)
  case None
  then have "dead_letter_reclaimed w entry_id None ''unreadable_payload'' h = (r, h')" using assms by (simp add: handle_reclaimed_job_def)
  then show ?thesis by (rule archived_saved [where pre = "[]"]) (use None archived in auto)
next
  case (Some j)
  let ?retry = "reclaim_retry j checkpoint"
  show ?thesis
  proof (cases "?retry \<noteq> None \<and> jb_attempts j < MAX_AUTO_RECLAIM_RETRIES")
    case True
    then obtain j' where j': "?retry = Some j'" by blast
    then have "andthen (republish_job (we_redis w) (requests_stream_key (we_domain w)) j')
        (\<lambda>_. andthen (ask (we_redis w) (Call_ack entry_id)) (\<lambda>_. ret ())) h = (r, h')"
      using assms Some True by (simp add: handle_reclaimed_job_def Let_def stamped_def)
    then show ?thesis by (rule republished_calls) (use retried [OF Some j'] True in auto)
  next
    case False
    let ?tell = "case jb_request_id j of None \<Rightarrow> ret () | Some rid \<Rightarrow> if rid = [] then ret () else publish_result (we_redis w) rid worker_lost_event"
    have hr: "handle_reclaimed_job w checkpoint entry_id payload = andthen ?tell (\<lambda>_. dead_letter_reclaimed w entry_id (Some (stamped j ?retry)) ''worker_lost'')"
      using Some False by (auto simp: handle_reclaimed_job_def Let_def)
    obtain r1 h1 where tell: "?tell h = (r1, h1)" by force
    obtain cs1 where cs1: "h1 = h @ cs1" "acks cs1 = []" "\<forall>x\<in>set cs1. \<forall>s j. fst (snd x) \<noteq> Call_add_request s j"
        "\<forall>x\<in>set cs1. \<forall>s i p z. fst (snd x) \<noteq> Call_add_dead s i p z"
        "\<And>rid. r1 = Inr () \<Longrightarrow> jb_request_id j = Some rid \<Longrightarrow> rid \<noteq> [] \<Longrightarrow> \<exists>t v. (t, Call_add_result (results_stream_key rid) worker_lost_event, Inr v) \<in> set cs1"
      using told_lost_calls [OF tell] by blast
    show ?thesis
    proof (cases r1)
      case (Inl f)
      then have "h' = h @ cs1" using assms hr tell cs1(1) by (simp add: andthen_def)
      then show ?thesis by (rule archived) (use cs1 in \<open>force simp: acked_saved_def\<close>)+
    next
      case (Inr u)
      then have "dead_letter_reclaimed w entry_id (Some (stamped j ?retry)) ''worker_lost'' h1 = (r, h')"
        using assms hr tell by (simp add: andthen_def)
      then obtain cs where cs: "h' = h1 @ cs" "acked_saved w entry_id (cs1 @ cs)" "\<forall>x\<in>set cs. \<forall>s j. fst (snd x) \<noteq> Call_add_request s j"
        by (rule archived_saved [where pre = cs1]) (use cs1(2) in blast)
      have told: "\<exists>t v. (t, Call_add_result (results_stream_key rid) worker_lost_event, Inr v) \<in> set (cs1 @ cs)"
        if "jb_request_id j = Some rid" "rid \<noteq> []" for rid using cs1(5) [OF _ that] Inr by auto
      show ?thesis by (rule archived [of "cs1 @ cs"]) (use cs cs1(1,3) told Some in auto)
    qed
  qed
qed

lemma republished_attempts:
  assumes "handle_reclaimed_job w checkpoint entry_id (Some j) h = (r, h @ cs)" and "(t, Call_add_request s j', x) \<in> set cs"
  shows "jb_attempts j < MAX_AUTO_RECLAIM_RETRIES \<and> jb_attempts j' = jb_attempts j + 1"
  using assms(1)
proof (cases rule: reclaim_cases)
  case (retried i i' t x rest)
  then show ?thesis using assms(2) reclaim_retry_safe [OF retried(2)] by auto
next
  case (archived cs')
  then show ?thesis using assms(2) by force
qed



text \<open>A job that a reclaim republished, from the one it took over.\<close>

definition republished_as :: "job \<Rightarrow> job \<Rightarrow> bool" where
  "republished_as j j' \<longleftrightarrow> (\<exists>w checkpoint entry_id h cs t s x. snd (handle_reclaimed_job w checkpoint entry_id (Some j) h) = h @ cs
     \<and> (t, Call_add_request s j', x) \<in> set cs)"

text \<open>Recovery gives up. However often the workers that run a job die, it is republished no more than the
  ceiling allows: a chain of reclaims that each put the job back counts its attempts and ends there, and a job
  submitted afresh is put back once at most.\<close>

theorem reclaim_chain_ends:
  assumes "(republished_as ^^ n) j j'"
  shows "jb_attempts j' = jb_attempts j + n \<and> (n = 0 \<or> jb_attempts j + n \<le> MAX_AUTO_RECLAIM_RETRIES)"
  using assms
proof (induction n arbitrary: j')
  case (Suc n)
  then obtain m where m: "(republished_as ^^ n) j m" "republished_as m j'" by auto
  have "jb_attempts m < MAX_AUTO_RECLAIM_RETRIES \<and> jb_attempts j' = jb_attempts m + 1"
    using m(2) republished_attempts unfolding republished_as_def by (metis prod.collapse)
  then show ?case using Suc.IH [OF m(1)] by auto
qed simp

theorem reclaim_chain_ends_witness:
  "(republished_as ^^ 1) sample_job (sample_job\<lparr>jb_attempts := 1\<rparr>) \<and> jb_attempts sample_job + 1 \<le> MAX_AUTO_RECLAIM_RETRIES"
proof -
  let ?w = "sample_worker granting" and ?cp = "\<lambda>_. Inr (sample_view\<lparr>tv_values := fresh_state\<rparr>)"
  let ?h = "snd (handle_reclaimed_job ?w ?cp ''1-0'' (Some sample_job) [])"
  have "fst (snd (hd ?h)) = Call_add_request (requests_stream_key ''sales'') (sample_job\<lparr>jb_attempts := 1\<rparr>)" "?h \<noteq> []" by code_simp+
  then have "\<exists>t x. (t, Call_add_request (requests_stream_key ''sales'') (sample_job\<lparr>jb_attempts := 1\<rparr>), x) \<in> set ?h"
    by (metis hd_in_set prod.collapse)
  moreover have "?h = [] @ ?h" by simp
  ultimately have "republished_as sample_job (sample_job\<lparr>jb_attempts := 1\<rparr>)" unfolding republished_as_def by blast
  then have "(republished_as ^^ 1) sample_job (sample_job\<lparr>jb_attempts := 1\<rparr>)" unfolding relpowp_1 .
  then show ?thesis using reclaim_chain_ends [of 1 sample_job] by auto
qed

text \<open>A call that leaves a key as it is.\<close>

fun spares :: "str \<Rightarrow> rat \<times> redis_call \<times> (failure + redis_reply) \<Rightarrow> bool" where
  "spares k (t, Call_set_nx k' v ttl, r) \<longleftrightarrow> k' \<noteq> k \<or> r \<noteq> Inr (Rep_bool True)"
| "spares k (t, Call_set k' v ttl, r) \<longleftrightarrow> k' \<noteq> k"
| "spares k (t, Call_del k', r) \<longleftrightarrow> k' \<noteq> k"
| "spares k (t, Call_release k' v, r) \<longleftrightarrow> k' \<noteq> k"
| "spares k x \<longleftrightarrow> True"

lemma served_append [simp]: "served (xs @ ys) = served xs @ served ys"
  by (simp add: served_def List.map_filter_def)

lemma served_Cons: "served ((t, c, Inl f) # xs) = served xs" "served ((t, c, Inr v) # xs) = (t, c, v) # served xs" "served [] = []"
  by (simp_all add: served_def List.map_filter_def)

lemma spared_key: "\<forall>x\<in>set ms. spares k x \<Longrightarrow> key_state k (served (h @ ms)) = key_state k (served h)"
proof (induction ms rule: rev_induct)
  case (snoc x ms)
  obtain t c r where x: "x = (t, c, r)" by (metis prod_cases3)
  have "key_state k (served ((h @ ms) @ [x])) = key_state k (served (h @ ms))"
  proof (cases r)
    case (Inr v)
    have "spares k (t, c, Inr v)" using snoc.prems x Inr by simp
    then have "key_step k (t, c, v) s = s" for s by (cases c) (auto simp: key_step_def)
    then show ?thesis using x Inr by (simp add: served_Cons key_state_snoc del: append_assoc)
  qed (use x in \<open>simp add: served_Cons\<close>)
  then show ?case using snoc.IH snoc.prems by simp
qed simp

lemma ask_documented:
  "ask (documented_redis clock) c h = (Inr (documented_reply (served h) (clock (length h)) c),
     h @ [(clock (length h), c, Inr (documented_reply (served h) (clock (length h)) c))])"
  by (simp add: ask_def documented_redis_def)

text \<open>C23. A submission replayed runs once. A front door's submission under a key queues one job under a fresh request
  id; while its claim stands, another submission of that thread and key, whatever its text and fresh id, queues nothing
  and reads the results of the first, whatever else was done in between that spares the claim.\<close>

theorem replayed_submission_runs_once:
  assumes "digest = sha dk" and "key = submission_dedup_key th digest"
    and "live_value (clock (length h)) (key_state key (served h)) = None"
    and "stream_turn (documented_redis clock) sha id1 t1 th c domain approval unattended (Some dk) h = (r1, h1)"
    and "\<forall>x\<in>set ms. spares key x" and "h2 = h1 @ ms"
    and "clock (length h2) < clock (length h) + of_int RESULTS_STREAM_TTL_SECONDS"
    and "clock (Suc (length h2)) < clock (length h) + of_int RESULTS_STREAM_TTL_SECONDS"
    and "stream_turn (documented_redis clock) sha id2 t2 th c2 domain2 approval2 unattended2 (Some dk) h2 = (r2, h3)"
  shows "r1 = Inr id1 \<and> r2 = Inr id1
    \<and> (\<exists>t x. filter (\<lambda>x. \<exists>s j. fst (snd x) = Call_add_request s j) (drop (length h) h1) = [(t, Call_add_request (requests_stream_key domain) x, Inr Rep_ok)]
         \<and> jb_request_id x = Some id1 \<and> jb_text x = Some t1 \<and> jb_attempts x = 0)
    \<and> filter (\<lambda>x. \<exists>s j. fst (snd x) = Call_add_request s j) (drop (length h2) h3) = []"
proof -
  let ?R = "documented_redis clock" and ?until = "clock (length h) + of_int RESULTS_STREAM_TTL_SECONDS"
  let ?set = "\<lambda>h i v. (clock (length h), Call_set_nx key i RESULTS_STREAM_TTL_SECONDS, Inr (Rep_bool v))"
  obtain x where x: "h1 = h @ [?set h id1 True, (clock (Suc (length h)), Call_add_request (requests_stream_key domain) x, Inr Rep_ok)]"
      "r1 = Inr id1" "jb_request_id x = Some id1" "jb_text x = Some t1" "jb_attempts x = 0"
    using assms(1-4)
    by (auto simp: stream_turn_def claim_or_get_existing_submission_def Let_def andthen_def except_do_def publish_request_def ask_documented ret_def)
  have key_after: "key_state key (served h1) = Some (id1, ?until)"
    using x(1) by (simp add: served_Cons key_state_def key_step_def)
  then have key: "key_state key (served h2) = Some (id1, ?until)" using spared_key [OF assms(5)] assms(6) by simp
  then have nx: "live_value (clock (length h2)) (key_state key (served h2)) = Some id1" using assms(7) by (simp add: live_value_def)
  have get: "live_value (clock (Suc (length h2))) (key_state key (served h2 @ served [?set h2 id2 False])) = Some id1"
    using key spared_key [of "[?set h2 id2 False]" key h2] assms(8) by (simp add: live_value_def)
  have "claim_or_get_existing_submission ?R th digest id2 RESULTS_STREAM_TTL_SECONDS h2
      = (Inr (id1, False), h2 @ [?set h2 id2 False, (clock (Suc (length h2)), Call_get key, Inr (Rep_value (Some id1)))])"
    using assms(2) nx get by (simp add: claim_or_get_existing_submission_def Let_def andthen_def ask_documented ret_def)
  then have "r2 = Inr id1" "h3 = h2 @ [?set h2 id2 False, (clock (Suc (length h2)), Call_get key, Inr (Rep_value (Some id1)))]"
    using assms(1,9) by (simp_all add: stream_turn_def Let_def andthen_def ret_def)
  then show ?thesis using x by simp
qed

theorem replayed_submission_runs_once_witness:
  "fst (stream_turn (documented_redis rat_of_nat) (\<lambda>k. k) ''r2'' ''again'' ''c'' \<lparr>tenant = ''t'', principal = ''p'', claims = []\<rparr> ''sales'' False False (Some ''k'')
     (snd (stream_turn (documented_redis rat_of_nat) (\<lambda>k. k) ''r1'' ''q'' ''c'' \<lparr>tenant = ''t'', principal = ''p'', claims = []\<rparr> ''sales'' False False (Some ''k'') [])))
   = Inr ''r1''"
proof -
  let ?c = "\<lparr>tenant = ''t'', principal = ''p'', claims = []\<rparr>"
  let ?first = "stream_turn (documented_redis rat_of_nat) (\<lambda>k. k) ''r1'' ''q'' ''c'' ?c ''sales'' False False (Some ''k'') []"
  obtain r1 h1 where first: "?first = (r1, h1)" by force
  obtain r2 h3 where second: "stream_turn (documented_redis rat_of_nat) (\<lambda>k. k) ''r2'' ''again'' ''c'' ?c ''sales'' False False (Some ''k'') h1 = (r2, h3)" by force
  have "length (snd ?first) = 2" by code_simp
  then have len: "length h1 = 2" using first by simp
  have none: "live_value (rat_of_nat (length [])) (key_state (submission_dedup_key ''c'' ''k'') (served [])) = None"
    by (simp add: served_Cons key_state_def live_value_def)
  have "r2 = Inr ''r1''"
    using replayed_submission_runs_once [OF refl refl none first, of "[]" h1 "''r2''" "''again''" ?c "''sales''" False False r2 h3] second len
    by (simp add: RESULTS_STREAM_TTL_SECONDS_def)
  then show ?thesis using first second by simp
qed

text \<open>An unattended turn may hold its thread through four runs, each as long as a turn may take; the lock lapses after two.\<close>

lemma unattended_outlives_its_lock:
  "0 < timeout \<Longrightarrow> THREAD_LOCK_TTL_SECONDS timeout < int (1 + UNATTENDED_MAX_DECLINE_ROUNDS) * timeout"
  by (simp add: THREAD_LOCK_TTL_SECONDS_def UNATTENDED_MAX_DECLINE_ROUNDS_def)

end
