(* ===== verification/Sessions.thy ===== *)
theory Sessions
  imports Security Prelude Py_Text
begin

text \<open>
  The directory of conversations (\<open>app/agent/runtime/sessions.py\<close>) over its table
  (\<open>app/adapters/postgres/sessions.py\<close>, \<open>postgres-init/06-chat-sessions.sql\<close>): who opened a thread, in which
  domain. A conversation's state is keyed by its thread id alone, so this table is what says whose it is.
\<close>

section \<open>The table\<close>

record session_row =
  se_thread :: str
  se_tenant :: str
  se_principal :: str
  se_title :: str
  se_domain :: str
  se_created :: int
  se_active :: int

type_synonym sessions = "session_row list"

definition session_of :: "str \<Rightarrow> sessions \<Rightarrow> session_row option" where
  "session_of thread_id ss = find (\<lambda>r. se_thread r = thread_id) ss"

definition new_session :: "int \<Rightarrow> str \<Rightarrow> str \<Rightarrow> str \<Rightarrow> str \<Rightarrow> str \<Rightarrow> session_row" where
  "new_session now t p thread_id title domain =
     \<lparr>se_thread = thread_id, se_tenant = t, se_principal = p, se_title = title, se_domain = domain, se_created = now, se_active = now\<rparr>"

text \<open>\<open>ON CONFLICT DO UPDATE\<close> refreshes the activity of a row that is there, \<open>DO NOTHING\<close> leaves it.\<close>

definition touch_session :: "int \<Rightarrow> str \<Rightarrow> str \<Rightarrow> str \<Rightarrow> str \<Rightarrow> str \<Rightarrow> sessions \<Rightarrow> sessions" where
  "touch_session now t p thread_id title domain ss =
     (if session_of thread_id ss = None then ss @ [new_session now t p thread_id title domain]
      else map (\<lambda>r. if se_thread r = thread_id then r\<lparr>se_active := now\<rparr> else r) ss)"

definition owns_session :: "str \<Rightarrow> str \<Rightarrow> str \<Rightarrow> str \<Rightarrow> sessions \<Rightarrow> bool" where
  "owns_session t p thread_id domain ss \<longleftrightarrow>
     list_ex (\<lambda>r. se_thread r = thread_id \<and> se_tenant r = t \<and> se_principal r = p \<and> se_domain r = domain) ss"

definition claim_row :: "int \<Rightarrow> str \<Rightarrow> str \<Rightarrow> str \<Rightarrow> str \<Rightarrow> str \<Rightarrow> sessions \<Rightarrow> bool \<times> sessions" where
  "claim_row now t p thread_id title domain ss =
     (let ss' = (if session_of thread_id ss = None then ss @ [new_session now t p thread_id title domain] else ss)
      in (owns_session t p thread_id domain ss', ss'))"

text \<open>\<open>ORDER BY last_active_at DESC\<close>; rows active at the same time come in the table's order.\<close>

definition sessions_for :: "str \<Rightarrow> str \<Rightarrow> str \<Rightarrow> sessions \<Rightarrow> session_row list" where
  "sessions_for t p domain ss =
     sort_key (\<lambda>r. - se_active r) (filter (\<lambda>r. se_tenant r = t \<and> se_principal r = p \<and> se_domain r = domain) ss)"

section \<open>The directory\<close>

definition TITLE_MAX_CHARS :: nat where "TITLE_MAX_CHARS = 60"

definition TELEGRAM_THREAD_PREFIX :: str where "TELEGRAM_THREAD_PREFIX = ''telegram:''"

definition ellipsis_char :: str where "ellipsis_char = [CHR 0x85]"

text \<open>The stored title; the ellipsis is one character.\<close>

definition display_title :: "str option \<Rightarrow> str" where
  "display_title title =
     (let given = (case title of None \<Rightarrow> ''New conversation'' | Some t \<Rightarrow> if t = [] then ''New conversation'' else t);
          shown = (if strip given = [] then ''New conversation'' else strip given)
      in if TITLE_MAX_CHARS < length shown then rstrip (take TITLE_MAX_CHARS shown) @ ellipsis_char else shown)"

text \<open>A write that fails is logged and forgotten; a claim that fails raises.\<close>

definition upsert_session :: "int \<Rightarrow> bool \<Rightarrow> security_ctx option \<Rightarrow> str \<Rightarrow> str option \<Rightarrow> str \<Rightarrow> sessions \<Rightarrow> sessions" where
  "upsert_session now write_fails who thread_id title domain ss =
     (case who of
        None \<Rightarrow> ss
      | Some c \<Rightarrow>
          if \<not> valid_ctx who \<or> thread_id = [] \<or> write_fails then ss
          else touch_session now (tenant c) (principal c) thread_id (display_title title) domain ss)"

definition claim_session :: "int \<Rightarrow> 'e option \<Rightarrow> security_ctx option \<Rightarrow> str \<Rightarrow> str option \<Rightarrow> str \<Rightarrow> sessions \<Rightarrow> ('e + bool) \<times> sessions" where
  "claim_session now fault who thread_id title domain ss =
     (case who of
        None \<Rightarrow> (Inr False, ss)
      | Some c \<Rightarrow>
          if \<not> valid_ctx who \<or> thread_id = [] then (Inr False, ss)
          else (case fault of
              Some e \<Rightarrow> (Inl e, ss)
            | None \<Rightarrow> (case claim_row now (tenant c) (principal c) thread_id (display_title title) domain ss of (b, ss') \<Rightarrow> (Inr b, ss'))))"

definition list_sessions :: "'e option \<Rightarrow> security_ctx option \<Rightarrow> str \<Rightarrow> sessions \<Rightarrow> 'e + session_row list" where
  "list_sessions fault who domain ss =
     (case who of
        None \<Rightarrow> Inr []
      | Some c \<Rightarrow>
          if \<not> valid_ctx who then Inr []
          else (case fault of Some e \<Rightarrow> Inl e | None \<Rightarrow> Inr (sessions_for (tenant c) (principal c) domain ss)))"

definition session_belongs_to :: "'e option \<Rightarrow> security_ctx option \<Rightarrow> str \<Rightarrow> str \<Rightarrow> sessions \<Rightarrow> 'e + bool" where
  "session_belongs_to fault who thread_id domain ss =
     (case who of
        None \<Rightarrow> Inr False
      | Some c \<Rightarrow>
          if \<not> valid_ctx who \<or> thread_id = [] then Inr False
          else (case fault of Some e \<Rightarrow> Inl e | None \<Rightarrow> Inr (owns_session (tenant c) (principal c) thread_id domain ss)))"

section \<open>Owners\<close>

text \<open>Whose a thread is. The interface the front door relies on: an owner, once there is one, stays.\<close>

definition owner_of :: "str \<Rightarrow> sessions \<Rightarrow> (str \<times> str \<times> str) option" where
  "owner_of thread_id ss = map_option (\<lambda>r. (se_tenant r, se_principal r, se_domain r)) (session_of thread_id ss)"

definition one_row_each :: "sessions \<Rightarrow> bool" where
  "one_row_each ss \<longleftrightarrow> distinct (map se_thread ss)"

lemma session_of_None_iff: "session_of th ss = None \<longleftrightarrow> th \<notin> se_thread ` set ss"
  by (auto simp: session_of_def find_None_iff)

lemma session_of_append: "session_of th (ss @ [r]) = (if session_of th ss = None then (if se_thread r = th then Some r else None) else session_of th ss)"
  by (induction ss) (auto simp: session_of_def)

lemma session_of_Some:
  assumes "one_row_each ss"
  shows "session_of th ss = Some r \<longleftrightarrow> r \<in> set ss \<and> se_thread r = th"
  using assms unfolding session_of_def one_row_each_def by (induction ss) (auto simp: rev_image_eqI)

lemma owner_of_None_iff: "owner_of th ss = None \<longleftrightarrow> th \<notin> se_thread ` set ss"
  by (simp add: owner_of_def session_of_None_iff)

lemma session_None_owner: "session_of th ss = None \<longleftrightarrow> owner_of th ss = None"
  by (simp add: owner_of_def)

lemma owns_iff_owner: "one_row_each ss \<Longrightarrow> owns_session t p th domain ss \<longleftrightarrow> owner_of th ss = Some (t, p, domain)"
  by (auto simp: owns_session_def list_ex_iff owner_of_def session_of_Some)

lemma owner_after_insert:
  "owner_of th (ss @ [new_session now t p th' title domain]) = (if owner_of th ss = None then (if th' = th then Some (t, p, domain) else None) else owner_of th ss)"
  by (simp add: owner_of_def session_of_append new_session_def)

lemma owner_after_refresh: "owner_of th (map (\<lambda>r. if se_thread r = th' then r\<lparr>se_active := now\<rparr> else r) ss) = owner_of th ss"
  unfolding owner_of_def session_of_def by (induction ss) auto

lemma touch_owner: "owner_of th (touch_session now t p th' title domain ss) = (if owner_of th ss = None \<and> th' = th then Some (t, p, domain) else owner_of th ss)"
  by (auto simp: touch_session_def owner_after_insert owner_after_refresh session_None_owner)

lemma touch_one_row: "one_row_each ss \<Longrightarrow> one_row_each (touch_session now t p th title domain ss)"
proof -
  have refresh: "map se_thread (map (\<lambda>r. if se_thread r = th then r\<lparr>se_active := now\<rparr> else r) ss) = map se_thread ss" by auto
  assume "one_row_each ss"
  then show ?thesis by (simp add: touch_session_def one_row_each_def new_session_def session_of_None_iff refresh del: map_map)
qed

lemma claim_row_owner:
  assumes "claim_row now t p th' title domain ss = (b, ss')" and "one_row_each ss"
  shows "owner_of th ss' = (if owner_of th ss = None \<and> th' = th then Some (t, p, domain) else owner_of th ss) \<and> one_row_each ss'
    \<and> (b \<longleftrightarrow> owner_of th' ss' = Some (t, p, domain))"
proof -
  have one: "one_row_each ss'"
    using assms by (auto simp: claim_row_def Let_def one_row_each_def new_session_def session_of_None_iff split: if_splits)
  moreover have "owner_of th ss' = (if owner_of th ss = None \<and> th' = th then Some (t, p, domain) else owner_of th ss)"
    using assms(1) by (auto simp: claim_row_def Let_def owner_after_insert session_None_owner split: if_splits)
  ultimately show ?thesis using assms(1) owns_iff_owner [OF one] by (auto simp: claim_row_def Let_def)
qed

end
