(* ===== verification/Chat_Api.thy ===== *)
theory Chat_Api
  imports Sessions Job_Queue Loop_Guards Hitl
begin

text \<open>
  The chat endpoints (\<open>app/api/routers/chat.py\<close>, \<open>app/api/deps.py\<close>): who may send into, resume, cancel or read a
  conversation, and what a request puts on the queue. A request sees the table of sessions and the calls made to
  Redis so far; a read of a conversation's checkpoint is an argument. The context is the one \<open>get_ctx\<close> established.
\<close>

section \<open>Requests and answers\<close>

datatype http_answer =
    Sse str
  | Http_error int str
  | Server_error failure
  | Sessions_body "session_row list"
  | Messages_body "(str \<times> str) list"
  | Pending_body "pending_approval option"

record api_world =
  aw_sessions :: sessions
  aw_history :: redis_history

text \<open>What a request comes with: the caller, the domain header, the clock, the table's fault, a fresh id.\<close>

record api_call =
  ac_ctx :: security_ctx
  ac_domain :: str
  ac_now :: int
  ac_fault :: "failure option"
  ac_id :: str

definition DOMAINS :: "str list" where
  "DOMAINS = [''ecorp'', ''support'', ''ops'', ''sales'']"

text \<open>\<open>get_domain\<close>: \<open>repr\<close> of the header is its quoted text.\<close>

definition get_domain :: "str option \<Rightarrow> http_answer + str" where
  "get_domain x_domain = (let d = (case x_domain of None \<Rightarrow> ''ecorp'' | Some d \<Rightarrow> d)
     in if d \<notin> set DOMAINS then
          Inl (Http_error 422 (''Unknown X-Domain '' @ [CHR 0x27] @ d @ [CHR 0x27] @ '' '' @ em_dash @ '' must be one of: '' @ join '', '' (sort DOMAINS)))
        else Inr d)"

section \<open>Whose conversation\<close>

definition not_found :: http_answer where
  "not_found = Http_error 404 ''session not found''"

definition require_conversation_owner :: "api_call \<Rightarrow> str \<Rightarrow> str option \<Rightarrow> sessions \<Rightarrow> http_answer option \<times> sessions" where
  "require_conversation_owner a thread_id claim_with ss =
     (case (if claim_with \<noteq> None \<and> \<not> prefix TELEGRAM_THREAD_PREFIX thread_id
            then claim_session (ac_now a) (ac_fault a) (Some (ac_ctx a)) thread_id claim_with (ac_domain a) ss
            else (session_belongs_to (ac_fault a) (Some (ac_ctx a)) thread_id (ac_domain a) ss, ss)) of
        (Inl f, ss') \<Rightarrow> (Some (Server_error f), ss')
      | (Inr allowed, ss') \<Rightarrow> ((if allowed then None else Some not_found), ss'))"

text \<open>A refusal ends the request; otherwise the rest runs against Redis, and what it raises is a server error.\<close>

definition guarded :: "http_answer option \<times> sessions \<Rightarrow> str prog \<Rightarrow> api_world \<Rightarrow> http_answer \<times> api_world" where
  "guarded check p w = (case check of
       (Some ans, ss') \<Rightarrow> (ans, w\<lparr>aw_sessions := ss'\<rparr>)
     | (None, ss') \<Rightarrow>
         (case p (aw_history w) of
            (Inl f, h') \<Rightarrow> (Server_error f, \<lparr>aw_sessions = ss', aw_history = h'\<rparr>)
          | (Inr request_id, h') \<Rightarrow> (Sse request_id, \<lparr>aw_sessions = ss', aw_history = h'\<rparr>)))"

section \<open>Endpoints\<close>

definition CHAT_SUBMIT_DEDUP_TTL_SECONDS :: int where "CHAT_SUBMIT_DEDUP_TTL_SECONDS = 10"

definition submission_digest :: "(str \<Rightarrow> str) \<Rightarrow> str \<Rightarrow> str list \<Rightarrow> str" where
  "submission_digest sha message images = sha (dumps (JList [JStr message, JList (map JStr images)]))"

definition queued_submission :: "redis \<Rightarrow> (str \<Rightarrow> str) \<Rightarrow> api_call \<Rightarrow> str \<Rightarrow> str \<Rightarrow> str list \<Rightarrow> str prog" where
  "queued_submission R sha a thread_id message images =
     (let digest = submission_digest sha message images
      in andthen (claim_or_get_existing_submission R thread_id digest (ac_id a) CHAT_SUBMIT_DEDUP_TTL_SECONDS) (\<lambda>(request_id, is_new).
           if is_new then
             andthen (except_do (publish_request R request_id message thread_id (ac_ctx a) (ac_domain a) False images False)
                 (\<lambda>f. andthen (release_submission_claim R thread_id digest) (\<lambda>_. raise_failure f)))
               (\<lambda>_. ret request_id)
           else ret request_id))"

definition chat_stream_queued :: "redis \<Rightarrow> (str \<Rightarrow> str) \<Rightarrow> api_call \<Rightarrow> str \<Rightarrow> str \<Rightarrow> str list \<Rightarrow> api_world \<Rightarrow> http_answer \<times> api_world" where
  "chat_stream_queued R sha a thread_id message images w =
     guarded (require_conversation_owner a thread_id (Some message) (aw_sessions w)) (queued_submission R sha a thread_id message images) w"

definition chat_resume :: "redis \<Rightarrow> api_call \<Rightarrow> str \<Rightarrow> bool \<Rightarrow> api_world \<Rightarrow> http_answer \<times> api_world" where
  "chat_resume R a thread_id approve w =
     guarded (require_conversation_owner a thread_id None (aw_sessions w))
       (andthen (publish_resume_request R (ac_id a) thread_id approve (ac_ctx a) (ac_domain a)) (\<lambda>_. ret (ac_id a))) w"

definition chat_cancel :: "redis \<Rightarrow> api_call \<Rightarrow> str \<Rightarrow> api_world \<Rightarrow> http_answer \<times> api_world" where
  "chat_cancel R a thread_id w =
     guarded (require_conversation_owner a thread_id None (aw_sessions w))
       (andthen (set_cancel_flag R thread_id) (\<lambda>_.
          andthen (publish_cancel_request R (ac_id a) thread_id (ac_ctx a) (ac_domain a)) (\<lambda>_. ret (ac_id a)))) w"

definition chat_sessions :: "api_call \<Rightarrow> api_world \<Rightarrow> http_answer \<times> api_world" where
  "chat_sessions a w =
     ((case list_sessions (ac_fault a) (Some (ac_ctx a)) (ac_domain a) (aw_sessions w) of Inl f \<Rightarrow> Server_error f | Inr rows \<Rightarrow> Sessions_body rows), w)"

text \<open>The two reads, given how the conversation's checkpoint reads.\<close>

definition session_read :: "api_call \<Rightarrow> str \<Rightarrow> (failure + thread_view) \<Rightarrow> (thread_view \<Rightarrow> http_answer) \<Rightarrow> api_world \<Rightarrow> http_answer \<times> api_world" where
  "session_read a thread_id checkpoint body w =
     ((case session_belongs_to (ac_fault a) (Some (ac_ctx a)) thread_id (ac_domain a) (aw_sessions w) of
         Inl f \<Rightarrow> Server_error f
       | Inr False \<Rightarrow> not_found
       | Inr True \<Rightarrow> (case checkpoint of Inl f \<Rightarrow> Server_error f | Inr v \<Rightarrow> body v)), w)"

definition chat_session_messages :: "api_call \<Rightarrow> str \<Rightarrow> (failure + thread_view) \<Rightarrow> api_world \<Rightarrow> http_answer \<times> api_world" where
  "chat_session_messages a thread_id checkpoint w = session_read a thread_id checkpoint (\<lambda>v. Messages_body (get_session_messages (messages (tv_values v)))) w"

definition chat_session_pending_approval :: "api_call \<Rightarrow> str \<Rightarrow> (failure + thread_view) \<Rightarrow> api_world \<Rightarrow> http_answer \<times> api_world" where
  "chat_session_pending_approval a thread_id checkpoint w = session_read a thread_id checkpoint (\<lambda>v. Pending_body (paused_approval (tv_snap v))) w"

section \<open>Everything that happens\<close>

datatype api_request =
    Req_send str str "str list"
  | Req_resume str bool
  | Req_cancel str
  | Req_sessions
  | Req_messages str "failure + thread_view"
  | Req_pending str "failure + thread_view"

fun serve :: "redis \<Rightarrow> (str \<Rightarrow> str) \<Rightarrow> api_call \<Rightarrow> api_request \<Rightarrow> api_world \<Rightarrow> http_answer \<times> api_world" where
  "serve R sha a (Req_send th message images) w = chat_stream_queued R sha a th message images w"
| "serve R sha a (Req_resume th approve) w = chat_resume R a th approve w"
| "serve R sha a (Req_cancel th) w = chat_cancel R a th w"
| "serve R sha a Req_sessions w = chat_sessions a w"
| "serve R sha a (Req_messages th checkpoint) w = chat_session_messages a th checkpoint w"
| "serve R sha a (Req_pending th checkpoint) w = chat_session_pending_approval a th checkpoint w"

text \<open>Beside requests: a worker recording a turn it starts (whoever asked for it), and Redis serving others.\<close>

datatype api_action =
    Http api_call api_request
  | Turn_recorded int bool "security_ctx option" str "str option" str
  | Redis_serves redis_history

definition perform :: "redis \<Rightarrow> (str \<Rightarrow> str) \<Rightarrow> api_action \<Rightarrow> api_world \<Rightarrow> http_answer option \<times> api_world" where
  "perform R sha act w = (case act of
       Http a q \<Rightarrow> (case serve R sha a q w of (ans, w') \<Rightarrow> (Some ans, w'))
     | Turn_recorded now fails who th title domain \<Rightarrow> (None, w\<lparr>aw_sessions := upsert_session now fails who th title domain (aw_sessions w)\<rparr>)
     | Redis_serves h \<Rightarrow> (None, w\<lparr>aw_history := aw_history w @ h\<rparr>))"

text \<open>What each action did: its answer and the calls it made.\<close>

fun trace :: "redis \<Rightarrow> (str \<Rightarrow> str) \<Rightarrow> api_action list \<Rightarrow> api_world \<Rightarrow> (api_action \<times> http_answer option \<times> redis_history) list" where
  "trace R sha [] w = []"
| "trace R sha (act # acts) w =
     (case perform R sha act w of (ans, w') \<Rightarrow> (act, ans, drop (length (aw_history w)) (aw_history w')) # trace R sha acts w')"

end
