(* ===== verification/Chat_Claims.thy ===== *)
theory Chat_Claims
  imports Chat_Api Queue_Laws
begin

text \<open>
  Whose requests reach a conversation. The directory keeps the first owner of a thread; every endpoint asks it
  before it touches Redis or a checkpoint, so all the requests that ever reach one conversation are its owner's.
\<close>

section \<open>The directory as an interface\<close>

text \<open>What the endpoints rely on: a directory of owners that never forgets one.\<close>

locale owner_directory =
  fixes owner :: "'id \<Rightarrow> 'db \<Rightarrow> 'who option" and good :: "'db \<Rightarrow> bool" and moves :: "'db \<Rightarrow> 'db \<Rightarrow> bool"
  assumes good_kept: "good d \<Longrightarrow> moves d d' \<Longrightarrow> good d'"
    and owner_kept: "good d \<Longrightarrow> moves d d' \<Longrightarrow> owner i d = Some who \<Longrightarrow> owner i d' = Some who"
begin

lemma run_good: "moves\<^sup>*\<^sup>* d d' \<Longrightarrow> good d \<Longrightarrow> good d'"
  by (induction rule: rtranclp_induct) (auto intro: good_kept)

lemma run_owner: "moves\<^sup>*\<^sup>* d d' \<Longrightarrow> good d \<Longrightarrow> owner i d = Some who \<Longrightarrow> owner i d' = Some who"
proof (induction rule: rtranclp_induct)
  case (step y z)
  then show ?case using run_good owner_kept by metis
qed simp

text \<open>Owners seen at two points of one run agree.\<close>

lemma owners_agree:
  assumes "good d" "owner i d = Some who" "moves\<^sup>*\<^sup>* d d'" "owner i d' = Some who'"
  shows "who = who'"
  using run_owner [OF assms(3,1,2)] assms(4) by simp

end

text \<open>The ways the table moves: a claim or a refresh.\<close>

inductive directory_move :: "sessions \<Rightarrow> sessions \<Rightarrow> bool" where
  claimed: "claim_row now t p th title domain ss = (b, ss') \<Longrightarrow> directory_move ss ss'"
| touched: "directory_move ss (touch_session now t p th title domain ss)"
| kept: "directory_move ss ss"

interpretation sd: owner_directory owner_of one_row_each directory_move
proof unfold_locales
  show "one_row_each d'" if "one_row_each d" "directory_move d d'" for d d'
    using that(2,1) by cases (auto dest: claim_row_owner intro: touch_one_row)
  show "owner_of i d' = Some who" if "one_row_each d" "directory_move d d'" "owner_of i d = Some who" for d d' i who
    using that(2,1,3)
  proof cases
    case (claimed now t p th title domain b)
    then show ?thesis using claim_row_owner [OF claimed that(1), of i] that(3) by simp
  qed (simp_all add: touch_owner)
qed

section \<open>What the endpoints ask\<close>

definition caller :: "api_call \<Rightarrow> str \<times> str \<times> str" where
  "caller a = (tenant (ac_ctx a), principal (ac_ctx a), ac_domain a)"

lemma claim_session_moves:
  assumes "claim_session now fault who th title domain ss = (r, ss')" and "one_row_each ss"
  shows "directory_move ss ss' \<and> (r = Inr True \<longrightarrow> (\<exists>c. who = Some c \<and> valid_ctx who \<and> owner_of th ss' = Some (tenant c, principal c, domain)))
    \<and> (\<forall>th'. th' \<noteq> th \<longrightarrow> owner_of th' ss' = owner_of th' ss)"
proof (cases "who = None \<or> \<not> valid_ctx who \<or> th = [] \<or> fault \<noteq> None")
  case True
  then show ?thesis using assms(1) by (auto simp: claim_session_def intro: directory_move.kept split: option.splits if_splits)
next
  case False
  then obtain c where who: "who = Some c" by auto
  obtain b ss1 where claim: "claim_row now (tenant c) (principal c) th (display_title title) domain ss = (b, ss1)" by force
  then have "r = Inr b" "ss' = ss1" using assms(1) who False by (auto simp: claim_session_def)
  then show ?thesis using claim_row_owner [OF claim assms(2)] directory_move.claimed [OF claim] who False by auto
qed

lemma belongs_owner:
  assumes "session_belongs_to fault who th domain ss = Inr True" and "one_row_each ss"
  shows "\<exists>c. who = Some c \<and> valid_ctx who \<and> owner_of th ss = Some (tenant c, principal c, domain)"
  using assms by (auto simp: session_belongs_to_def owns_iff_owner split: option.splits if_splits)

lemma require_owner_moves:
  assumes "require_conversation_owner a th claim_with ss = (r, ss')" and "one_row_each ss"
  shows "directory_move ss ss' \<and> (r = None \<longrightarrow> valid_ctx (Some (ac_ctx a)) \<and> owner_of th ss' = Some (caller a))
    \<and> (\<forall>th'. prefix TELEGRAM_THREAD_PREFIX th' \<longrightarrow> owner_of th' ss' = owner_of th' ss)"
proof (cases "claim_with \<noteq> None \<and> \<not> prefix TELEGRAM_THREAD_PREFIX th")
  case True
  obtain r1 ss1 where claim: "claim_session (ac_now a) (ac_fault a) (Some (ac_ctx a)) th claim_with (ac_domain a) ss = (r1, ss1)" by force
  show ?thesis using claim_session_moves [OF claim assms(2)] assms(1) True claim
    by (auto simp: require_conversation_owner_def caller_def split: sum.splits if_splits)
next
  case False
  then show ?thesis using belongs_owner [OF _ assms(2), of "ac_fault a" "Some (ac_ctx a)" th "ac_domain a"] assms(1)
    by (auto simp: require_conversation_owner_def caller_def intro: directory_move.kept split: sum.splits if_splits)
qed

section \<open>What a request reaches\<close>

text \<open>The calls that name a conversation, and the reads of one.\<close>

fun names_thread :: "(str \<Rightarrow> str) \<Rightarrow> redis_call \<Rightarrow> str \<Rightarrow> bool" where
  "names_thread sha (Call_set_nx k v ttl) th \<longleftrightarrow> (\<exists>x. k = submission_dedup_key th (sha x))"
| "names_thread sha (Call_set k v ttl) th \<longleftrightarrow> (\<exists>x. k = submission_dedup_key th (sha x)) \<or> k = cancel_flag_key th"
| "names_thread sha (Call_get k) th \<longleftrightarrow> (\<exists>x. k = submission_dedup_key th (sha x))"
| "names_thread sha (Call_del k) th \<longleftrightarrow> (\<exists>x. k = submission_dedup_key th (sha x))"
| "names_thread sha (Call_add_request s j) th \<longleftrightarrow> jb_thread_id j = Some th"
| "names_thread sha _ th \<longleftrightarrow> False"

fun reads_thread :: "api_request \<Rightarrow> http_answer \<Rightarrow> str \<Rightarrow> bool" where
  "reads_thread (Req_messages th' checkpoint) (Messages_body b) th \<longleftrightarrow> th' = th"
| "reads_thread (Req_pending th' checkpoint) (Pending_body b) th \<longleftrightarrow> th' = th"
| "reads_thread _ _ th \<longleftrightarrow> False"

definition reaches :: "(str \<Rightarrow> str) \<Rightarrow> api_request \<Rightarrow> http_answer \<Rightarrow> redis_history \<Rightarrow> str \<Rightarrow> bool" where
  "reaches sha q ans cs th \<longleftrightarrow> (\<exists>x\<in>set cs. names_thread sha (fst (snd x)) th) \<or> reads_thread q ans th"

definition hex_digest :: "(str \<Rightarrow> str) \<Rightarrow> bool" where
  "hex_digest sha \<longleftrightarrow> (\<forall>x. length (sha x) = 64)"

lemma dedup_key_thread:
  assumes "hex_digest sha" and "submission_dedup_key th (sha x) = submission_dedup_key th' (sha y)"
  shows "th = th'"
  using assms by (simp add: submission_dedup_key_def hex_digest_def)

lemma keys_apart: "submission_dedup_key th d \<noteq> cancel_flag_key th'"
  by (simp add: submission_dedup_key_def cancel_flag_key_def)

text \<open>A program that names only one thread, and queues only jobs of one caller.\<close>

definition only_for :: "(str \<Rightarrow> str) \<Rightarrow> api_call \<Rightarrow> str \<Rightarrow> redis_call \<Rightarrow> bool" where
  "only_for sha a th c \<longleftrightarrow> (\<forall>th'. names_thread sha c th' \<longrightarrow> th' = th)
     \<and> (\<forall>s j. c = Call_add_request s j \<longrightarrow> s = requests_stream_key (ac_domain a) \<and> jb_ctx j = Some (ac_ctx a))"

definition makes :: "(redis_call \<Rightarrow> bool) \<Rightarrow> 'a prog \<Rightarrow> bool" where
  "makes P p \<longleftrightarrow> (\<forall>h. \<exists>cs. snd (p h) = h @ cs \<and> (\<forall>x\<in>set cs. P (fst (snd x))))"

lemma makesE:
  assumes "makes P p" "p h = (r, h')"
  obtains cs where "h' = h @ cs" "\<forall>x\<in>set cs. P (fst (snd x))"
  using assms unfolding makes_def by (metis snd_conv)

lemma makes_ask [intro]: "P c \<Longrightarrow> makes P (ask R c)"
  by (auto simp: makes_def ask_def split_beta)

lemma makes_ret [intro]: "makes P (ret x)" "makes P (raise_failure f)"
  by (auto simp: makes_def ret_def raise_failure_def)

lemma makes_andthen [intro]:
  assumes "makes P p" "\<And>x. makes P (q x)"
  shows "makes P (andthen p q)"
  unfolding makes_def
proof
  fix h
  obtain r h1 where p: "p h = (r, h1)" by force
  obtain cs where cs: "h1 = h @ cs" "\<forall>x\<in>set cs. P (fst (snd x))" using makesE [OF assms(1) p] by blast
  show "\<exists>cs. snd (andthen p q h) = h @ cs \<and> (\<forall>x\<in>set cs. P (fst (snd x)))"
  proof (cases r)
    case (Inl f)
    then show ?thesis using p cs by (auto simp: andthen_def)
  next
    case (Inr x)
    obtain r2 h2 where q: "q x h1 = (r2, h2)" by force
    obtain cs2 where "h2 = h1 @ cs2" "\<forall>x\<in>set cs2. P (fst (snd x))" using makesE [OF assms(2) q] by blast
    then show ?thesis using p q cs Inr by (intro exI [of _ "cs @ cs2"]) (auto simp: andthen_def)
  qed
qed

lemma makes_except [intro]:
  assumes "makes P p" "\<And>f. makes P (q f)"
  shows "makes P (except_do p q)"
  unfolding makes_def
proof
  fix h
  obtain r h1 where p: "p h = (r, h1)" by force
  obtain cs where cs: "h1 = h @ cs" "\<forall>x\<in>set cs. P (fst (snd x))" using makesE [OF assms(1) p] by blast
  show "\<exists>cs. snd (except_do p q h) = h @ cs \<and> (\<forall>x\<in>set cs. P (fst (snd x)))"
  proof (cases "\<exists>f. r = Inl f \<and> is_exception f")
    case True
    then obtain f where f: "r = Inl f" "is_exception f" by blast
    obtain r2 h2 where q: "q f h1 = (r2, h2)" by force
    obtain cs2 where "h2 = h1 @ cs2" "\<forall>x\<in>set cs2. P (fst (snd x))" using makesE [OF assms(2) q] by blast
    then show ?thesis using p q cs f by (intro exI [of _ "cs @ cs2"]) (auto simp: except_do_def)
  next
    case False
    then show ?thesis using p cs by (intro exI [of _ cs]) (auto simp: except_do_def split: sum.splits)
  qed
qed

lemma only_for_calls:
  assumes "hex_digest sha"
  shows "only_for sha a th (Call_set_nx (submission_dedup_key th (sha x)) v ttl)" "only_for sha a th (Call_set (submission_dedup_key th (sha x)) v ttl)"
    "only_for sha a th (Call_get (submission_dedup_key th (sha x)))" "only_for sha a th (Call_del (submission_dedup_key th (sha x)))"
    "only_for sha a th (Call_set (cancel_flag_key th) v ttl)"
    "jb_thread_id j = Some th \<Longrightarrow> jb_ctx j = Some (ac_ctx a) \<Longrightarrow> only_for sha a th (Call_add_request (requests_stream_key (ac_domain a)) j)"
proof -
  have same: "th' = th" if "submission_dedup_key th (sha x) = submission_dedup_key th' (sha y)" for x y th'
    using dedup_key_thread [OF assms that] by simp
  have flag: "th' = th" if "cancel_flag_key th = cancel_flag_key th'" for th' using that by (simp add: cancel_flag_key_def)
  show "only_for sha a th (Call_set_nx (submission_dedup_key th (sha x)) v ttl)" "only_for sha a th (Call_get (submission_dedup_key th (sha x)))"
    "only_for sha a th (Call_del (submission_dedup_key th (sha x)))"
    unfolding only_for_def using same by simp_all blast+
  show "only_for sha a th (Call_set (submission_dedup_key th (sha x)) v ttl)" "only_for sha a th (Call_set (cancel_flag_key th) v ttl)"
    unfolding only_for_def using same flag keys_apart by simp_all (metis)+
  show "only_for sha a th (Call_add_request (requests_stream_key (ac_domain a)) j)" if "jb_thread_id j = Some th" "jb_ctx j = Some (ac_ctx a)"
    using that by (simp add: only_for_def)
qed

lemma submission_makes:
  assumes "hex_digest sha"
  shows "makes (only_for sha a th) (queued_submission R sha a th message images)"
proof -
  have job: "only_for sha a th (Call_add_request (requests_stream_key (ac_domain a)) j)" if "jb_thread_id j = Some th" "jb_ctx j = Some (ac_ctx a)" for j
    using only_for_calls(6) [OF assms] that by blast
  have calls: "makes (only_for sha a th) (claim_or_get_existing_submission R th (sha x) i ttl)" "makes (only_for sha a th) (release_submission_claim R th (sha x))" for x i ttl
    unfolding claim_or_get_existing_submission_def release_submission_claim_def Let_def
    by (auto intro!: makes_andthen makes_except makes_ask makes_ret only_for_calls [OF assms] split: redis_reply.split option.split)
  have pub: "makes (only_for sha a th) (publish_request R i m th (ac_ctx a) (ac_domain a) ap im un)" for i m ap im un
    unfolding publish_request_def by (intro makes_andthen makes_ask makes_ret job) simp_all
  show ?thesis unfolding queued_submission_def submission_digest_def Let_def
    by (auto intro!: makes_andthen makes_except makes_ret calls pub)
qed

lemma front_door_makes:
  assumes "hex_digest sha"
  shows "makes (only_for sha a th) (andthen (publish_resume_request R i th approve (ac_ctx a) (ac_domain a)) (\<lambda>_. ret i))"
    "makes (only_for sha a th) (andthen (set_cancel_flag R th) (\<lambda>_. andthen (publish_cancel_request R i th (ac_ctx a) (ac_domain a)) (\<lambda>_. ret i)))"
  unfolding publish_resume_request_def publish_cancel_request_def set_cancel_flag_def
  by (intro makes_andthen makes_ask makes_ret only_for_calls [OF assms]; simp)+

text \<open>One request: what it does to the directory, and whom it can reach.\<close>

definition owner_served :: "(str \<Rightarrow> str) \<Rightarrow> api_call \<Rightarrow> api_request \<Rightarrow> http_answer \<Rightarrow> redis_history \<Rightarrow> sessions \<Rightarrow> bool" where
  "owner_served sha a q ans cs ss \<longleftrightarrow>
     (\<forall>th. reaches sha q ans cs th \<longrightarrow> valid_ctx (Some (ac_ctx a)) \<and> owner_of th ss = Some (caller a))
   \<and> (\<forall>x\<in>set cs. \<forall>s j. fst (snd x) = Call_add_request s j \<longrightarrow> s = requests_stream_key (ac_domain a) \<and> jb_ctx j = Some (ac_ctx a))
   \<and> (ans = not_found \<longrightarrow> cs = [])"

lemma guarded_served:
  assumes "guarded (require_conversation_owner a th claim_with (aw_sessions w)) p w = (ans, w')" and "one_row_each (aw_sessions w)"
    and "makes (only_for sha a th) p" and "\<And>ans th. \<not> reads_thread q ans th"
  shows "directory_move (aw_sessions w) (aw_sessions w')
    \<and> (\<exists>cs. aw_history w' = aw_history w @ cs \<and> owner_served sha a q ans cs (aw_sessions w'))
    \<and> (\<forall>th'. prefix TELEGRAM_THREAD_PREFIX th' \<longrightarrow> owner_of th' (aw_sessions w') = owner_of th' (aw_sessions w))"
proof -
  obtain r ss' where chk: "require_conversation_owner a th claim_with (aw_sessions w) = (r, ss')" by force
  note moves = require_owner_moves [OF chk assms(2)]
  show ?thesis
  proof (cases r)
    case (Some x)
    then show ?thesis using assms(1,4) chk moves by (auto simp: guarded_def owner_served_def reaches_def)
  next
    case None
    obtain r2 h2 where p: "p (aw_history w) = (r2, h2)" by force
    obtain cs where cs: "h2 = aw_history w @ cs" "\<forall>x\<in>set cs. only_for sha a th (fst (snd x))" using makesE [OF assms(3) p] by blast
    have w': "aw_sessions w' = ss'" "aw_history w' = h2" "ans \<noteq> not_found"
      using assms(1) chk None p by (auto simp: guarded_def not_found_def split: sum.splits)
    have own: "valid_ctx (Some (ac_ctx a))" "owner_of th ss' = Some (caller a)" using moves None by auto
    have "owner_of th' ss' = Some (caller a)" if "reaches sha q ans cs th'" for th'
      using that assms(4) cs(2) own(2) by (auto simp: reaches_def only_for_def)
    moreover have "\<forall>x\<in>set cs. \<forall>s j. fst (snd x) = Call_add_request s j \<longrightarrow> s = requests_stream_key (ac_domain a) \<and> jb_ctx j = Some (ac_ctx a)"
      using cs(2) by (auto simp: only_for_def)
    ultimately have "owner_served sha a q ans cs ss'" using own(1) w'(3) by (auto simp: owner_served_def)
    then show ?thesis using w' cs(1) moves by auto
  qed
qed

lemma read_served:
  assumes "session_read a th checkpoint body w = (ans, w')" and "one_row_each (aw_sessions w)"
    and "\<And>th'. reads_thread q ans th' \<Longrightarrow> th' = th \<and> ans \<noteq> not_found \<and> (\<forall>f. ans \<noteq> Server_error f)"
  shows "w' = w \<and> owner_served sha a q ans [] (aw_sessions w)"
proof -
  have "w' = w" using assms(1) by (simp add: session_read_def)
  moreover have "valid_ctx (Some (ac_ctx a)) \<and> owner_of th' (aw_sessions w) = Some (caller a)" if r: "reads_thread q ans th'" for th'
  proof -
    have "session_belongs_to (ac_fault a) (Some (ac_ctx a)) th (ac_domain a) (aw_sessions w) = Inr True"
      using assms(3) [OF r] assms(1) by (auto simp: session_read_def split: sum.splits bool.splits)
    then show ?thesis using belongs_owner [OF _ assms(2)] assms(3) [OF r] by (fastforce simp: caller_def)
  qed
  ultimately show ?thesis by (auto simp: owner_served_def reaches_def)
qed

lemma serve_step:
  assumes "serve R sha a q w = (ans, w')" and "one_row_each (aw_sessions w)" and "hex_digest sha"
  shows "directory_move (aw_sessions w) (aw_sessions w') \<and> (\<exists>cs. aw_history w' = aw_history w @ cs \<and> owner_served sha a q ans cs (aw_sessions w'))
    \<and> (\<forall>th. prefix TELEGRAM_THREAD_PREFIX th \<longrightarrow> owner_of th (aw_sessions w') = owner_of th (aw_sessions w))"
proof (cases q)
  case (Req_send th message images)
  then have g: "guarded (require_conversation_owner a th (Some message) (aw_sessions w)) (queued_submission R sha a th message images) w = (ans, w')"
    using assms(1) by (simp add: chat_stream_queued_def)
  show ?thesis using guarded_served [OF g assms(2) submission_makes [OF assms(3)], of q] Req_send by simp
next
  case (Req_resume th approve)
  then have g: "guarded (require_conversation_owner a th None (aw_sessions w))
      (andthen (publish_resume_request R (ac_id a) th approve (ac_ctx a) (ac_domain a)) (\<lambda>_. ret (ac_id a))) w = (ans, w')"
    using assms(1) by (simp add: chat_resume_def)
  show ?thesis using guarded_served [OF g assms(2) front_door_makes(1) [OF assms(3)], of q] Req_resume by simp
next
  case (Req_cancel th)
  then have g: "guarded (require_conversation_owner a th None (aw_sessions w))
      (andthen (set_cancel_flag R th) (\<lambda>_. andthen (publish_cancel_request R (ac_id a) th (ac_ctx a) (ac_domain a)) (\<lambda>_. ret (ac_id a)))) w = (ans, w')"
    using assms(1) by (simp add: chat_cancel_def)
  show ?thesis using guarded_served [OF g assms(2) front_door_makes(2) [OF assms(3)], of q] Req_cancel by simp
next
  case Req_sessions
  then show ?thesis using assms(1) by (auto simp: chat_sessions_def owner_served_def reaches_def intro: directory_move.kept)
next
  case (Req_messages th checkpoint)
  then have r: "session_read a th checkpoint (\<lambda>v. Messages_body (get_session_messages (messages (tv_values v)))) w = (ans, w')"
    using assms(1) by (simp add: chat_session_messages_def)
  have "th' = th \<and> ans \<noteq> not_found \<and> (\<forall>f. ans \<noteq> Server_error f)" if "reads_thread q ans th'" for th'
    using that Req_messages by (cases ans) (auto simp: not_found_def)
  then show ?thesis using read_served [OF r assms(2), of q sha] by (auto intro: directory_move.kept)
next
  case (Req_pending th checkpoint)
  then have r: "session_read a th checkpoint (\<lambda>v. Pending_body (paused_approval (tv_snap v))) w = (ans, w')"
    using assms(1) by (simp add: chat_session_pending_approval_def)
  have "th' = th \<and> ans \<noteq> not_found \<and> (\<forall>f. ans \<noteq> Server_error f)" if "reads_thread q ans th'" for th'
    using that Req_pending by (cases ans) (auto simp: not_found_def)
  then show ?thesis using read_served [OF r assms(2), of q sha] by (auto intro: directory_move.kept)
qed

section \<open>Histories\<close>

fun after :: "redis \<Rightarrow> (str \<Rightarrow> str) \<Rightarrow> api_action list \<Rightarrow> api_world \<Rightarrow> api_world" where
  "after R sha [] w = w"
| "after R sha (act # acts) w = after R sha acts (snd (perform R sha act w))"

lemma perform_moves:
  assumes "perform R sha act w = (ans, w')" and "one_row_each (aw_sessions w)" and "hex_digest sha"
  shows "directory_move (aw_sessions w) (aw_sessions w')"
proof (cases act)
  case (Http a q)
  obtain ans1 w1 where s: "serve R sha a q w = (ans1, w1)" by force
  then show ?thesis using serve_step [OF s assms(2,3)] assms(1) Http by (simp add: perform_def)
next
  case (Turn_recorded now fails who th title domain)
  then show ?thesis using assms(1)
    by (auto simp: perform_def upsert_session_def intro: directory_move.kept directory_move.touched split: option.splits)
qed (use assms(1) in \<open>auto simp: perform_def intro: directory_move.kept\<close>)

lemma after_moves:
  assumes "hex_digest sha"
  shows "one_row_each (aw_sessions w) \<Longrightarrow> directory_move\<^sup>*\<^sup>* (aw_sessions w) (aw_sessions (after R sha acts w))"
proof (induction acts arbitrary: w)
  case (Cons act acts)
  obtain ans w' where p: "perform R sha act w = (ans, w')" by force
  have m: "directory_move (aw_sessions w) (aw_sessions w')" using perform_moves [OF p Cons.prems assms] .
  then have "one_row_each (aw_sessions w')" using Cons.prems sd.good_kept by blast
  then show ?case using Cons.IH [of w'] m p by (simp add: converse_rtranclp_into_rtranclp)
qed simp

text \<open>Whatever reached a conversation was asked by the one who owns it in the end.\<close>

lemma reached_by_owner:
  assumes "hex_digest sha"
  shows "one_row_each (aw_sessions w) \<Longrightarrow> (Http a q, Some ans, cs) \<in> set (trace R sha acts w) \<Longrightarrow>
    (\<exists>ss. owner_served sha a q ans cs ss \<and> (\<forall>th who. owner_of th ss = Some who \<longrightarrow> owner_of th (aw_sessions (after R sha acts w)) = Some who))"
proof (induction acts arbitrary: w)
  case (Cons act acts)
  obtain ans1 w' where p: "perform R sha act w = (ans1, w')" by force
  have good: "one_row_each (aw_sessions w')" using perform_moves [OF p Cons.prems(1) assms] Cons.prems(1) sd.good_kept by blast
  show ?case
  proof (cases "(Http a q, Some ans, cs) \<in> set (trace R sha acts w')")
    case True
    then show ?thesis using Cons.IH [OF good] p by simp
  next
    case False
    then have this_one: "act = Http a q" "ans1 = Some ans" "cs = drop (length (aw_history w)) (aw_history w')" using Cons.prems(2) p by auto
    then have s: "serve R sha a q w = (ans, w')" using p by (auto simp: perform_def split: prod.splits)
    obtain cs' where cs': "aw_history w' = aw_history w @ cs'" "owner_served sha a q ans cs' (aw_sessions w')"
      using serve_step [OF s Cons.prems(1) assms] by blast
    then have served: "owner_served sha a q ans cs (aw_sessions w')" using this_one(3) by simp
    have "owner_of th (aw_sessions (after R sha acts w')) = Some who" if "owner_of th (aw_sessions w') = Some who" for th who
      using sd.run_owner [OF after_moves [OF assms good] good that] .
    then show ?thesis using served p by auto
  qed
qed simp

section \<open>Properties\<close>


definition chat_caller :: "str \<Rightarrow> api_call" where
  "chat_caller p = \<lparr>ac_ctx = \<lparr>tenant = ''t'', principal = p, claims = []\<rparr>, ac_domain = ''sales'', ac_now = 0, ac_fault = None, ac_id = ''r1''\<rparr>"

definition sample_sha :: "str \<Rightarrow> str" where
  "sample_sha s = replicate 64 CHR ''a''"

definition open_redis :: redis where
  "open_redis h c = (0, Inr (case c of Call_set_nx _ _ _ \<Rightarrow> Rep_bool True | _ \<Rightarrow> Rep_ok))"

definition empty_world :: api_world where
  "empty_world = \<lparr>aw_sessions = [], aw_history = []\<rparr>"

lemma empty_world_ok: "one_row_each (aw_sessions empty_world)" "hex_digest sample_sha" "owner_of th (aw_sessions empty_world) = None" "aw_history empty_world = []"
  by (simp_all add: one_row_each_def hex_digest_def sample_sha_def empty_world_def owner_of_def session_of_def)


text \<open>C27. A Telegram conversation cannot be squatted. As long as no worker has recorded a turn in it, no history of HTTP
  requests reaches a thread whose id is of the Telegram channel's shape, or makes anybody its owner.\<close>

theorem telegram_thread_not_claimable:
  assumes "one_row_each (aw_sessions w)" and "hex_digest sha" and "prefix TELEGRAM_THREAD_PREFIX th" and "owner_of th (aw_sessions w) = None"
    and "\<forall>now fails who title domain. Turn_recorded now fails who th title domain \<notin> set acts"
    and "(Http a q, Some ans, cs) \<in> set (trace R sha acts w)"
  shows "owner_of th (aw_sessions (after R sha acts w)) = None \<and> \<not> reaches sha q ans cs th"
proof -
  have none: "owner_of th (aw_sessions (after R sha acts w)) = None"
    using assms(1,4,5)
  proof (induction acts arbitrary: w)
    case (Cons act acts)
    obtain ans w' where p: "perform R sha act w = (ans, w')" by force
    have good: "one_row_each (aw_sessions w')" using perform_moves [OF p Cons.prems(1) assms(2)] Cons.prems(1) sd.good_kept by blast
    have "owner_of th (aw_sessions w') = None"
    proof (cases act)
      case (Http a q)
      obtain ans1 w1 where s: "serve R sha a q w = (ans1, w1)" by force
      then show ?thesis using serve_step [OF s Cons.prems(1) assms(2)] p Http assms(3) Cons.prems(2) by (simp add: perform_def)
    next
      case (Turn_recorded now fails who th' title domain)
      then have "th' \<noteq> th" using Cons.prems(3) by (metis list.set_intros(1))
      then show ?thesis using p Turn_recorded Cons.prems(2) by (auto simp: perform_def upsert_session_def touch_owner split: option.splits)
    qed (use p Cons.prems(2) in \<open>auto simp: perform_def\<close>)
    then show ?case using Cons.IH [OF good] Cons.prems(3) p by auto
  qed simp
  obtain ss where "owner_served sha a q ans cs ss" "\<And>th who. owner_of th ss = Some who \<Longrightarrow> owner_of th (aw_sessions (after R sha acts w)) = Some who"
    using reached_by_owner [OF assms(2,1,6)] by blast
  then have "\<not> reaches sha q ans cs th" using none unfolding owner_served_def by (metis option.distinct(1))
  then show ?thesis using none by simp
qed

theorem telegram_thread_not_claimable_witness:
  "owner_of ''telegram:7'' (aw_sessions (after open_redis sample_sha [Http (chat_caller ''ann'') (Req_send ''telegram:7'' ''hello'' [])] empty_world)) = None"
proof -
  let ?act = "Http (chat_caller ''ann'') (Req_send ''telegram:7'' ''hello'' [])"
  have "fst (perform open_redis sample_sha ?act empty_world) = Some not_found" by code_simp
  then obtain w' where "perform open_redis sample_sha ?act empty_world = (Some not_found, w')" by (metis prod.collapse)
  then have mem: "(?act, Some not_found, aw_history w') \<in> set (trace open_redis sample_sha [?act] empty_world)" using empty_world_ok(4) by simp
  have tg: "prefix TELEGRAM_THREAD_PREFIX ''telegram:7''" by (simp add: TELEGRAM_THREAD_PREFIX_def)
  have "\<forall>now fails who title domain. Turn_recorded now fails who ''telegram:7'' title domain \<notin> set [?act]" by simp
  from telegram_thread_not_claimable [OF empty_world_ok(1,2) tg empty_world_ok(3) this mem] show ?thesis by blast
qed

end
