(* ===== verification/Resilience.thy ===== *)
theory Resilience
  imports Prelude
begin

text \<open>
  \<open>src/app/core/resilience.py\<close>: the circuit breaker around a shared dependency, with its retry
  loop. The state a \<open>CircuitBreaker\<close> keeps is the record \<open>circuit_breaker\<close>; \<open>before_call\<close>,
  \<open>breaker_record_success\<close> and \<open>breaker_record_failure\<close> are the three critical sections under \<open>_lock\<close>, each one
  atomic step that reads the clock \<open>now\<close>. The wrapped call is a parameter: what its attempts give,
  attempt by attempt. Calls that overlap are sequences of the atomic steps (\<open>breaker_event\<close>): the
  clock moves, a caller arrives, a call in flight ends. Seconds are exact rationals. Metrics and log
  lines are left out.
\<close>

section \<open>Data\<close>

datatype circuit_state = CLOSED | OPEN | HALF_OPEN

text \<open>What the message of a \<open>CircuitOpenError\<close> is built from.\<close>

datatype reject =
    RecoveryCheckInFlight str
  | LooksDown str int rat

datatype exn =
    Raised py_error
  | AssertionError str
  | CancelledError
  | CircuitOpenError reject

record circuit_breaker =
  cb_name :: str
  failure_threshold :: int
  cooldown_seconds :: rat
  consecutive_failures :: int
  opened_at :: "rat option"
  cb_state :: circuit_state

definition circuit_breaker_init :: "str \<Rightarrow> int \<Rightarrow> rat \<Rightarrow> circuit_breaker" where
  "circuit_breaker_init nm thr cool =
     \<lparr>cb_name = nm, failure_threshold = thr, cooldown_seconds = cool, consecutive_failures = 0,
      opened_at = None, cb_state = CLOSED\<rparr>"

section \<open>The critical sections\<close>

text \<open>\<open>Inr True\<close> when the caller is admitted as the trial, \<open>Inr False\<close> when the breaker is closed.\<close>

definition before_call :: "rat \<Rightarrow> circuit_breaker \<Rightarrow> circuit_breaker \<times> (exn + bool)" where
  "before_call now b =
     (case cb_state b of
        CLOSED \<Rightarrow> (b, Inr False)
      | HALF_OPEN \<Rightarrow> (b, Inl (CircuitOpenError (RecoveryCheckInFlight (cb_name b))))
      | OPEN \<Rightarrow>
          (let elapsed = (case opened_at b of Some t \<Rightarrow> now - t | None \<Rightarrow> cooldown_seconds b);
               remaining = cooldown_seconds b - elapsed
           in if remaining > 0
              then (b, Inl (CircuitOpenError (LooksDown (cb_name b) (failure_threshold b) remaining)))
              else (b\<lparr>cb_state := HALF_OPEN\<rparr>, Inr True)))"

definition breaker_record_success :: "circuit_breaker \<Rightarrow> circuit_breaker" where
  "breaker_record_success b = b\<lparr>consecutive_failures := 0, opened_at := None, cb_state := CLOSED\<rparr>"

definition breaker_record_failure :: "rat \<Rightarrow> circuit_breaker \<Rightarrow> circuit_breaker" where
  "breaker_record_failure now b =
     (let was_half_open = (cb_state b = HALF_OPEN);
          b' = b\<lparr>consecutive_failures := consecutive_failures b + 1\<rparr>;
          newly_open = (was_half_open \<or> consecutive_failures b' \<ge> failure_threshold b)
      in if newly_open then b'\<lparr>opened_at := Some now, cb_state := OPEN\<rparr> else b')"

section \<open>The retry loop\<close>

text \<open>
  \<open>fn k\<close> is what the \<open>k\<close>-th attempt gives and \<open>jitter k\<close> the draw of \<open>random.uniform(0, 0.25)\<close> after
  it. \<open>retry_loop left k\<close> has \<open>left\<close> attempts to go, the next being number \<open>k\<close>; it returns how often
  it slept and for how long, and the outcome.
\<close>

definition retry_delay :: "rat \<Rightarrow> rat \<Rightarrow> (nat \<Rightarrow> rat) \<Rightarrow> nat \<Rightarrow> rat" where
  "retry_delay base_delay max_delay jitter attempt =
     min (base_delay * 2 ^ (attempt - 1)) max_delay * (1 + jitter attempt)"

fun retry_loop ::
  "(exn \<Rightarrow> bool) \<Rightarrow> rat \<Rightarrow> rat \<Rightarrow> (nat \<Rightarrow> rat) \<Rightarrow> (nat \<Rightarrow> exn + 'a) \<Rightarrow> nat \<Rightarrow> nat \<Rightarrow> rat list \<times> (exn + 'a)" where
  "retry_loop retry_on base_delay max_delay jitter fn 0 attempt =
     ([], Inl (AssertionError ''unreachable: loop above always returns or raises''))"
| "retry_loop retry_on base_delay max_delay jitter fn (Suc left) attempt =
     (case fn attempt of
        Inr v \<Rightarrow> ([], Inr v)
      | Inl e \<Rightarrow>
          if \<not> retry_on e \<or> left = 0 then ([], Inl e)
          else
            (case retry_loop retry_on base_delay max_delay jitter fn left (Suc attempt) of
               (sleeps, res) \<Rightarrow> (retry_delay base_delay max_delay jitter attempt # sleeps, res)))"

definition retry ::
  "(exn \<Rightarrow> bool) \<Rightarrow> int \<Rightarrow> rat \<Rightarrow> rat \<Rightarrow> (nat \<Rightarrow> rat) \<Rightarrow> (nat \<Rightarrow> exn + 'a) \<Rightarrow> rat list \<times> (exn + 'a)" where
  "retry retry_on attempts base_delay max_delay jitter fn =
     (if attempts < 1 then ([], Inl (Raised (ValueError ''attempts must be >= 1'')))
      else retry_loop retry_on base_delay max_delay jitter fn (nat attempts) 1)"

section \<open>One call\<close>

text \<open>
  What \<open>call\<close> does once \<open>_retry\<close> is over: \<open>except retry_on\<close> records a failure and raises, a result
  records a success, anything else leaves through \<open>call\<close> untouched.
\<close>

definition settle :: "(exn \<Rightarrow> bool) \<Rightarrow> rat \<Rightarrow> exn + 'a \<Rightarrow> circuit_breaker \<Rightarrow> circuit_breaker" where
  "settle retry_on now outcome b =
     (case outcome of
        Inr _ \<Rightarrow> breaker_record_success b
      | Inl e \<Rightarrow> if retry_on e then breaker_record_failure now b else b)"

text \<open>
  A call with nobody else around: \<open>dur\<close> is how long the attempts themselves took; the sleeps come
  on top.
\<close>

definition breaker_call ::
  "(exn \<Rightarrow> bool) \<Rightarrow> int \<Rightarrow> rat \<Rightarrow> rat \<Rightarrow> (nat \<Rightarrow> rat) \<Rightarrow> (nat \<Rightarrow> exn + 'a) \<Rightarrow> rat \<Rightarrow> rat \<Rightarrow> circuit_breaker \<Rightarrow>
   circuit_breaker \<times> (exn + 'a)" where
  "breaker_call retry_on attempts base_delay max_delay jitter fn dur now b =
     (case before_call now b of
        (b', Inl e) \<Rightarrow> (b', Inl e)
      | (b', Inr _) \<Rightarrow>
          (case retry retry_on attempts base_delay max_delay jitter fn of
             (sleeps, res) \<Rightarrow> (settle retry_on (now + dur + sum_list sleeps) res b', res)))"

section \<open>Overlapping calls\<close>

text \<open>
  The process around one breaker: the clock, the calls in flight (with whether each was admitted as
  the trial), how many callers were let through and how many turned away.
\<close>

record breaker_world =
  bw_breaker :: circuit_breaker
  bw_now :: rat
  bw_running :: "(nat \<times> bool) list"
  bw_admitted :: nat
  bw_rejected :: nat

datatype breaker_event =
    Passes rat
  | Arrives nat
  | Ends nat "exn + unit"

fun breaker_step :: "(exn \<Rightarrow> bool) \<Rightarrow> breaker_event \<Rightarrow> breaker_world \<Rightarrow> breaker_world" where
  "breaker_step retry_on (Passes d) w = w\<lparr>bw_now := bw_now w + max 0 d\<rparr>"
| "breaker_step retry_on (Arrives i) w =
     (case before_call (bw_now w) (bw_breaker w) of
        (b', Inl _) \<Rightarrow> w\<lparr>bw_breaker := b', bw_rejected := Suc (bw_rejected w)\<rparr>
      | (b', Inr trial) \<Rightarrow>
          w\<lparr>bw_breaker := b', bw_running := (i, trial) # bw_running w, bw_admitted := Suc (bw_admitted w)\<rparr>)"
| "breaker_step retry_on (Ends i res) w =
     (case map_of (bw_running w) i of
        None \<Rightarrow> w
      | Some _ \<Rightarrow>
          w\<lparr>bw_breaker := settle retry_on (bw_now w) res (bw_breaker w),
            bw_running := filter (\<lambda>p. fst p \<noteq> i) (bw_running w)\<rparr>)"

definition breaker_run :: "(exn \<Rightarrow> bool) \<Rightarrow> breaker_event list \<Rightarrow> breaker_world \<Rightarrow> breaker_world" where
  "breaker_run retry_on es w = fold (breaker_step retry_on) es w"

definition fresh_world :: "circuit_breaker \<Rightarrow> breaker_world" where
  "fresh_world b = \<lparr>bw_breaker = b, bw_now = 0, bw_running = [], bw_admitted = 0, bw_rejected = 0\<rparr>"

fun arrivals :: "breaker_event list \<Rightarrow> nat" where
  "arrivals [] = 0"
| "arrivals (Arrives i # es) = Suc (arrivals es)"
| "arrivals (e # es) = arrivals es"

fun is_success :: "breaker_event \<Rightarrow> bool" where
  "is_success (Ends i (Inr _)) = True"
| "is_success _ = False"

lemmas breaker_defs = before_call_def breaker_record_success_def breaker_record_failure_def settle_def Let_def

lemma breaker_run_Nil [simp]: "breaker_run retry_on [] w = w"
  by (simp add: breaker_run_def)

lemma breaker_run_Cons: "breaker_run retry_on (e # es) w = breaker_run retry_on es (breaker_step retry_on e w)"
  by (simp add: breaker_run_def)

section \<open>The invariant\<close>

text \<open>
  A closed breaker is under its threshold and has no opening time; one that is not closed has reached
  the threshold and remembers when it opened.
\<close>

definition breaker_ok :: "circuit_breaker \<Rightarrow> bool" where
  "breaker_ok b =
     (0 \<le> consecutive_failures b \<and>
      (if cb_state b = CLOSED then consecutive_failures b < failure_threshold b \<and> opened_at b = None
       else failure_threshold b \<le> consecutive_failures b \<and> opened_at b \<noteq> None))"

lemma breaker_ok_before: "breaker_ok b \<Longrightarrow> breaker_ok (fst (before_call now b))"
  by (auto simp: breaker_ok_def breaker_defs split: circuit_state.splits option.splits if_splits)

lemma breaker_ok_settle:
  "breaker_ok b \<Longrightarrow> 1 \<le> failure_threshold b \<Longrightarrow> breaker_ok (settle retry_on now res b)"
  by (auto simp: breaker_ok_def breaker_defs split: sum.splits if_splits)

lemma before_keeps_limits [simp]:
  "failure_threshold (fst (before_call now b)) = failure_threshold b"
  "cooldown_seconds (fst (before_call now b)) = cooldown_seconds b"
  by (simp_all add: breaker_defs split: circuit_state.splits option.splits)

lemma settle_keeps_limits [simp]:
  "failure_threshold (settle retry_on now res b) = failure_threshold b"
  "cooldown_seconds (settle retry_on now res b) = cooldown_seconds b"
  by (simp_all add: breaker_defs split: sum.splits)

lemma breaker_step_parts:
  "bw_breaker (breaker_step retry_on e w) =
     (case e of
        Passes d \<Rightarrow> bw_breaker w
      | Arrives i \<Rightarrow> fst (before_call (bw_now w) (bw_breaker w))
      | Ends i res \<Rightarrow>
          if map_of (bw_running w) i = None then bw_breaker w
          else settle retry_on (bw_now w) res (bw_breaker w))"
  by (cases e) (auto split: prod.splits sum.splits option.splits)

lemma breaker_step_now: "bw_now w \<le> bw_now (breaker_step retry_on e w)"
  by (cases e) (auto split: prod.splits sum.splits option.splits)

lemma breaker_run_now: "bw_now w \<le> bw_now (breaker_run retry_on es w)"
  by (induction es arbitrary: w) (auto simp: breaker_run_Cons intro: order_trans breaker_step_now)

lemma breaker_step_ok:
  assumes "breaker_ok (bw_breaker w)" and "1 \<le> failure_threshold (bw_breaker w)"
  shows "breaker_ok (bw_breaker (breaker_step retry_on e w))"
    and "1 \<le> failure_threshold (bw_breaker (breaker_step retry_on e w))"
  using assms
  by (auto simp: breaker_step_parts breaker_ok_before breaker_ok_settle split: breaker_event.splits)

lemma breaker_run_ok:
  assumes "breaker_ok (bw_breaker w)" and "1 \<le> failure_threshold (bw_breaker w)"
  shows "breaker_ok (bw_breaker (breaker_run retry_on es w))"
  using assms by (induction es arbitrary: w) (auto intro: breaker_step_ok simp: breaker_run_Cons simp del: breaker_step.simps)

section \<open>The retry loop is bounded\<close>

lemma retry_loop_sleeps:
  "length (fst (retry_loop retry_on base_delay max_delay jitter fn left attempt)) \<le> left - 1"
  by (induction left arbitrary: attempt) (auto split: sum.splits prod.splits, metis Suc_pred fst_conv neq0_conv Suc_le_mono)

lemma retry_delay_bounds:
  assumes "0 \<le> base_delay" and "0 \<le> max_delay" and "0 \<le> jitter k" and "jitter k \<le> 1 / 4"
  shows "0 \<le> retry_delay base_delay max_delay jitter k" and "retry_delay base_delay max_delay jitter k \<le> max_delay * 5 / 4"
proof -
  let ?m = "min (base_delay * 2 ^ (k - 1)) max_delay"
  have m: "0 \<le> ?m" "?m \<le> max_delay" using assms(1,2) by simp_all
  show "0 \<le> retry_delay base_delay max_delay jitter k" using m(1) assms(3) by (simp add: retry_delay_def)
  have "?m * (1 + jitter k) \<le> max_delay * (1 + 1 / 4)"
    using m assms by (intro mult_mono) auto
  then show "retry_delay base_delay max_delay jitter k \<le> max_delay * 5 / 4" by (simp add: retry_delay_def)
qed

lemma retry_loop_delays:
  assumes "0 \<le> base_delay" and "0 \<le> max_delay" and "\<And>k. 0 \<le> jitter k \<and> jitter k \<le> 1 / 4"
    and "d \<in> set (fst (retry_loop retry_on base_delay max_delay jitter fn left attempt))"
  shows "0 \<le> d \<and> d \<le> max_delay * 5 / 4"
  using assms(4)
proof (induction left arbitrary: attempt)
  case (Suc left)
  then have "d = retry_delay base_delay max_delay jitter attempt \<or>
      d \<in> set (fst (retry_loop retry_on base_delay max_delay jitter fn left (Suc attempt)))"
    by (auto simp: case_prod_beta split: sum.splits if_splits)
  then show ?case using Suc.IH retry_delay_bounds [OF assms(1,2), of jitter attempt] assms(3) by blast
qed simp

text \<open>The loop hands back an attempt's own outcome: the first that is not a failure to retry.\<close>

lemma retry_loop_outcome:
  "0 < left \<Longrightarrow>
   \<exists>k. attempt \<le> k \<and> k < attempt + left \<and> snd (retry_loop retry_on base_delay max_delay jitter fn left attempt) = fn k \<and>
     (\<forall>j. attempt \<le> j \<and> j < k \<longrightarrow> (\<exists>e. fn j = Inl e \<and> retry_on e))"
proof (induction left arbitrary: attempt)
  case (Suc left)
  show ?case
  proof (cases "\<exists>e. fn attempt = Inl e \<and> retry_on e \<and> 0 < left")
    case True
    then obtain e where e: "fn attempt = Inl e" "retry_on e" "0 < left" by blast
    obtain k where k: "Suc attempt \<le> k" "k < Suc attempt + left"
      "snd (retry_loop retry_on base_delay max_delay jitter fn left (Suc attempt)) = fn k"
      "\<forall>j. Suc attempt \<le> j \<and> j < k \<longrightarrow> (\<exists>e. fn j = Inl e \<and> retry_on e)"
      using Suc.IH [OF e(3), of "Suc attempt"] by blast
    have "snd (retry_loop retry_on base_delay max_delay jitter fn (Suc left) attempt) = fn k"
      using e k(3) by (simp add: case_prod_beta)
    moreover have "\<exists>e. fn j = Inl e \<and> retry_on e" if "attempt \<le> j" "j < k" for j
      using that k(4) e(1,2) by (cases "j = attempt") auto
    ultimately show ?thesis using k(1,2) by (intro exI [of _ k]) auto
  next
    case False
    then have "snd (retry_loop retry_on base_delay max_delay jitter fn (Suc left) attempt) = fn attempt"
      by (auto split: sum.splits)
    then show ?thesis by (intro exI [of _ attempt]) auto
  qed
qed simp

section \<open>While it is open\<close>

text \<open>
  \<open>open_since t\<close>: open, and opened at \<open>t\<close> or later (a call admitted before the trip and failing
  after it moves the opening time on).
\<close>

definition open_since :: "rat \<Rightarrow> breaker_world \<Rightarrow> bool" where
  "open_since t w =
     (cb_state (bw_breaker w) = OPEN \<and> t \<le> bw_now w \<and>
      (\<exists>t'. opened_at (bw_breaker w) = Some t' \<and> t \<le> t'))"

lemma open_since_rejects:
  assumes "open_since t w" and "bw_now w < t + cooldown_seconds (bw_breaker w)"
  shows "breaker_step retry_on (Arrives i) w = w\<lparr>bw_rejected := Suc (bw_rejected w)\<rparr>"
  using assms by (auto simp: open_since_def breaker_defs split: prod.splits)

lemma open_since_step:
  assumes o: "open_since t w" and "\<not> is_success e" and c: "bw_now w < t + cooldown_seconds (bw_breaker w)"
    and ok: "breaker_ok (bw_breaker w)"
  shows "open_since t (breaker_step retry_on e w) \<and> bw_admitted (breaker_step retry_on e w) = bw_admitted w \<and>
    bw_rejected (breaker_step retry_on e w) = bw_rejected w + arrivals [e] \<and>
    cooldown_seconds (bw_breaker (breaker_step retry_on e w)) = cooldown_seconds (bw_breaker w)"
proof (cases e)
  case (Passes d)
  then show ?thesis using o by (auto simp: open_since_def)
next
  case (Arrives i)
  then show ?thesis using open_since_rejects [OF o c] o
    by (simp add: open_since_def del: breaker_step.simps)
next
  case (Ends i res)
  then show ?thesis using o assms(2) ok
    by (cases res) (auto simp: open_since_def breaker_ok_def breaker_defs split: option.splits)
qed

lemma open_since_run:
  assumes "open_since t w" and "\<forall>e\<in>set es. \<not> is_success e"
    and "bw_now (breaker_run retry_on es w) < t + cooldown_seconds (bw_breaker w)"
    and "breaker_ok (bw_breaker w)" and "1 \<le> failure_threshold (bw_breaker w)"
  shows "bw_admitted (breaker_run retry_on es w) = bw_admitted w \<and>
    bw_rejected (breaker_run retry_on es w) = bw_rejected w + arrivals es"
  using assms
proof (induction es arbitrary: w)
  case (Cons e es)
  let ?w = "breaker_step retry_on e w"
  have "bw_now w < t + cooldown_seconds (bw_breaker w)"
    using breaker_run_now [of w retry_on "e # es"] Cons.prems(3) by (rule le_less_trans)
  then have s: "open_since t ?w \<and> bw_admitted ?w = bw_admitted w \<and> bw_rejected ?w = bw_rejected w + arrivals [e] \<and>
      cooldown_seconds (bw_breaker ?w) = cooldown_seconds (bw_breaker w)"
    using open_since_step [of t w e] Cons.prems by (simp add: breaker_run_Cons del: breaker_step.simps)
  then have "bw_admitted (breaker_run retry_on es ?w) = bw_admitted ?w \<and>
      bw_rejected (breaker_run retry_on es ?w) = bw_rejected ?w + arrivals es"
    using Cons.IH [of ?w] Cons.prems breaker_step_ok [of w retry_on e] by (simp add: breaker_run_Cons del: breaker_step.simps)
  then show ?case using s by (cases e) (simp_all add: breaker_run_Cons del: breaker_step.simps)
qed simp

section \<open>Half open with no call in flight\<close>

lemma stranded_step:
  assumes "cb_state (bw_breaker w) = HALF_OPEN" and "bw_running w = []"
  shows "bw_breaker (breaker_step retry_on e w) = bw_breaker w \<and> bw_running (breaker_step retry_on e w) = [] \<and>
    bw_admitted (breaker_step retry_on e w) = bw_admitted w"
  using assms by (cases e) (auto simp: before_call_def)

lemma stranded_run:
  assumes "cb_state (bw_breaker w) = HALF_OPEN" and "bw_running w = []"
  shows "cb_state (bw_breaker (breaker_run retry_on es w)) = HALF_OPEN \<and>
    bw_admitted (breaker_run retry_on es w) = bw_admitted w"
  using assms
proof (induction es arbitrary: w)
  case (Cons e es)
  then show ?case using stranded_step [OF Cons.prems, of retry_on e] Cons.IH [of "breaker_step retry_on e w"]
    by (simp add: breaker_run_Cons del: breaker_step.simps)
qed simp

section \<open>Properties\<close>

text \<open>
  The invariant of the breaker, over every interleaving of calls: with a threshold of at least one,
  it is closed exactly while fewer than \<open>failure_threshold\<close> calls in a row have failed; and whenever
  it is open or half open the count has reached the threshold and an opening time is set, as the
  comments in \<open>_before_call\<close> and \<open>_record_failure\<close> say.
\<close>

theorem breaker_trips_at_threshold:
  assumes "1 \<le> thr" and "b = bw_breaker (breaker_run retry_on es (fresh_world (circuit_breaker_init nm thr cool)))"
  shows "(cb_state b = CLOSED) = (consecutive_failures b < failure_threshold b) \<and>
    (cb_state b \<noteq> CLOSED \<longrightarrow> opened_at b \<noteq> None)"
proof -
  have "breaker_ok b"
    unfolding assms(2) using assms(1)
    by (intro breaker_run_ok) (simp_all add: fresh_world_def circuit_breaker_init_def breaker_ok_def)
  then show ?thesis by (auto simp: breaker_ok_def split: if_splits)
qed

theorem breaker_trips_at_threshold_witness:
  "\<exists>b. b = bw_breaker (breaker_run (\<lambda>_. True) [Arrives 0, Ends 0 (Inl (Raised TimeoutError))]
          (fresh_world (circuit_breaker_init ''serper'' 1 30))) \<and>
     cb_state b = OPEN \<and> (cb_state b = CLOSED) = (consecutive_failures b < failure_threshold b)"
  using breaker_trips_at_threshold [of 1 _ "\<lambda>_. True" "[Arrives 0, Ends 0 (Inl (Raised TimeoutError))]" "''serper''" 30, OF _ refl]
  by (simp add: fresh_world_def circuit_breaker_init_def breaker_run_Cons breaker_defs)

text \<open>
  C14. No call starts while the breaker is open: from the moment it opened, whatever arrives and however
  the calls still in flight fail, as long as none of them succeeds every caller is turned away until
  \<open>cooldown_seconds\<close> have passed.
\<close>

theorem open_breaker_starts_nothing:
  assumes "breaker_ok (bw_breaker w)" and "1 \<le> failure_threshold (bw_breaker w)"
    and "cb_state (bw_breaker w) = OPEN" and "opened_at (bw_breaker w) = Some t" and "t \<le> bw_now w"
    and "\<forall>e\<in>set es. \<not> is_success e"
    and "bw_now (breaker_run retry_on es w) < t + cooldown_seconds (bw_breaker w)"
  shows "bw_admitted (breaker_run retry_on es w) = bw_admitted w \<and>
    bw_rejected (breaker_run retry_on es w) = bw_rejected w + arrivals es"
  using assms by (intro open_since_run) (auto simp: open_since_def)

theorem open_breaker_starts_nothing_witness:
  "\<exists>w. cb_state (bw_breaker w) = OPEN \<and> bw_admitted w = 2 \<and>
     bw_admitted (breaker_run (\<lambda>_. True) [Passes 20, Ends 1 (Inl (Raised TimeoutError)), Arrives 2, Arrives 3] w) = 2 \<and>
     bw_rejected (breaker_run (\<lambda>_. True) [Passes 20, Ends 1 (Inl (Raised TimeoutError)), Arrives 2, Arrives 3] w) = 2"
proof (intro exI conjI)
  let ?w = "breaker_run (\<lambda>_. True) [Arrives 0, Arrives 1, Ends 0 (Inl (Raised TimeoutError))]
              (fresh_world (circuit_breaker_init ''serper'' 1 30))"
  note ev = fresh_world_def circuit_breaker_init_def breaker_run_Cons breaker_defs breaker_ok_def
  show "cb_state (bw_breaker ?w) = OPEN" by (simp add: ev)
  show a: "bw_admitted ?w = 2" by (simp add: ev)
  have "bw_admitted (breaker_run (\<lambda>_. True) [Passes 20, Ends 1 (Inl (Raised TimeoutError)), Arrives 2, Arrives 3] ?w) =
      bw_admitted ?w \<and>
    bw_rejected (breaker_run (\<lambda>_. True) [Passes 20, Ends 1 (Inl (Raised TimeoutError)), Arrives 2, Arrives 3] ?w) =
      bw_rejected ?w + arrivals [Passes 20, Ends 1 (Inl (Raised TimeoutError)), Arrives 2, Arrives 3]"
    by (rule open_breaker_starts_nothing [where t = 0]) (simp_all add: ev)
  moreover have "bw_rejected ?w = 0" by (simp add: ev)
  ultimately show
    "bw_admitted (breaker_run (\<lambda>_. True) [Passes 20, Ends 1 (Inl (Raised TimeoutError)), Arrives 2, Arrives 3] ?w) = 2"
    "bw_rejected (breaker_run (\<lambda>_. True) [Passes 20, Ends 1 (Inl (Raised TimeoutError)), Arrives 2, Arrives 3] ?w) = 2"
    using a by simp_all
qed

text \<open>
  C15. A trial that ends in an exception the caller did not name strands the breaker. If the trial was
  the only call in flight, then after it ends with an exception outside \<open>retry_on\<close> (an HTTP error, a
  cancellation) no caller is ever admitted again, however long the clock runs and whatever arrives:
  the breaker stays half open for good.
\<close>

theorem trial_with_other_error_strands_breaker:
  assumes "cb_state (bw_breaker w) = HALF_OPEN" and "bw_running w = [(i, True)]" and "\<not> retry_on e"
  shows "cb_state (bw_breaker (breaker_run retry_on (Ends i (Inl e) # es) w)) = HALF_OPEN \<and>
    bw_admitted (breaker_run retry_on (Ends i (Inl e) # es) w) = bw_admitted w"
proof -
  have w: "breaker_step retry_on (Ends i (Inl e)) w = w\<lparr>bw_running := []\<rparr>"
    using assms by (simp add: settle_def)
  then show ?thesis using stranded_run [of "w\<lparr>bw_running := []\<rparr>" retry_on es] assms(1)
    by (simp add: breaker_run_Cons del: breaker_step.simps)
qed

theorem trial_with_other_error_strands_breaker_witness:
  "\<exists>w. w = breaker_run (\<lambda>e. e = Raised TimeoutError) [Arrives 0, Ends 0 (Inl (Raised TimeoutError)), Passes 30, Arrives 1]
          (fresh_world (circuit_breaker_init ''serper'' 1 30)) \<and>
     bw_admitted w = 2 \<and>
     bw_admitted (breaker_run (\<lambda>e. e = Raised TimeoutError) [Ends 1 (Inl CancelledError), Passes 3600, Arrives 2] w) = 2"
proof -
  let ?r = "\<lambda>e. e = Raised TimeoutError"
  let ?w = "breaker_run ?r [Arrives 0, Ends 0 (Inl (Raised TimeoutError)), Passes 30, Arrives 1]
     (fresh_world (circuit_breaker_init ''serper'' 1 30))"
  note ev = fresh_world_def circuit_breaker_init_def breaker_run_Cons breaker_defs
  have "bw_admitted (breaker_run ?r (Ends 1 (Inl CancelledError) # [Passes 3600, Arrives 2]) ?w) = bw_admitted ?w"
    using trial_with_other_error_strands_breaker [of ?w 1 ?r CancelledError "[Passes 3600, Arrives 2]"] by (simp add: ev)
  moreover have "bw_admitted ?w = 2" by (simp add: ev)
  ultimately show ?thesis by auto
qed

text \<open>
  The retry loop is bounded and honest: with the jitter in its range it sleeps fewer than \<open>attempts\<close>
  times, never longer than a quarter over \<open>max_delay\<close>, and what it returns or raises is the outcome of
  one attempt, every earlier one having failed with an exception to retry.
\<close>

theorem retry_bounded:
  assumes "1 \<le> attempts" and "0 \<le> base_delay" and "0 \<le> max_delay" and "\<forall>k. 0 \<le> jitter k \<and> jitter k \<le> 1 / 4"
    and "retry retry_on attempts base_delay max_delay jitter fn = (sleeps, res)"
  shows "int (length sleeps) < attempts \<and> (\<forall>d\<in>set sleeps. 0 \<le> d \<and> d \<le> max_delay * 5 / 4) \<and>
    (\<exists>k. 1 \<le> k \<and> int k \<le> attempts \<and> res = fn k \<and> (\<forall>j. 1 \<le> j \<and> j < k \<longrightarrow> (\<exists>e. fn j = Inl e \<and> retry_on e)))"
proof -
  let ?l = "retry_loop retry_on base_delay max_delay jitter fn (nat attempts) 1"
  have l: "?l = (sleeps, res)" using assms(1,5) by (simp add: retry_def)
  have "length sleeps \<le> nat attempts - 1"
    using retry_loop_sleeps [of retry_on base_delay max_delay jitter fn "nat attempts" 1] l by simp
  moreover have "\<forall>d\<in>set sleeps. 0 \<le> d \<and> d \<le> max_delay * 5 / 4"
    using retry_loop_delays [OF assms(2,3), of jitter _ retry_on fn "nat attempts" 1] assms(4) l by simp
  moreover obtain k where "1 \<le> k" "k < 1 + nat attempts" "res = fn k"
      "\<forall>j. 1 \<le> j \<and> j < k \<longrightarrow> (\<exists>e. fn j = Inl e \<and> retry_on e)"
    using retry_loop_outcome [of "nat attempts" 1 retry_on base_delay max_delay jitter fn] l assms(1) by auto
  ultimately show ?thesis using assms(1) by (intro conjI exI [of _ k]) auto
qed

theorem retry_bounded_witness:
  "retry (\<lambda>_. True) 3 (1/2) 4 (\<lambda>_. 1/4) (\<lambda>k. if k = 3 then Inr () else Inl (Raised TimeoutError)) = ([5/8, 5/4], Inr ()) \<and>
   int (length [5/8, 5/4 :: rat]) < 3"
proof
  show r: "retry (\<lambda>_. True) 3 (1/2) 4 (\<lambda>_. 1/4) (\<lambda>k. if k = 3 then Inr () else Inl (Raised TimeoutError)) =
      ([5/8, 5/4], Inr ())"
    by (simp add: retry_def retry_delay_def eval_nat_numeral)
  show "int (length [5/8, 5/4 :: rat]) < 3" using retry_bounded [OF _ _ _ _ r] by simp
qed

text \<open>
  The single trial is not guaranteed when calls outlive the cooldown: a call admitted while the
  breaker was closed that fails during the trial reopens it, and the next cooldown admits a second
  trial beside the first.
\<close>

theorem two_trials_in_flight:
  "bw_running (breaker_run (\<lambda>_. True)
     [Arrives 0, Arrives 1, Ends 1 (Inl (Raised TimeoutError)), Passes 30, Arrives 2,
      Ends 0 (Inl (Raised TimeoutError)), Passes 30, Arrives 3]
     (fresh_world (circuit_breaker_init ''serper'' 1 30))) = [(3, True), (2, True)]"
  by (simp add: fresh_world_def circuit_breaker_init_def breaker_run_Cons breaker_defs)

end
