(* ===== verification/Tool_Runtime.thy ===== *)
theory Tool_Runtime
  imports Security Py_Regex
begin

text \<open>
  What every tool call goes through: \<open>src/app/core/scrubbing.py\<close> (credential-shaped and configured
  secret values leave the tool's output), \<open>src/app/core/tool_runtime.py\<close> (the bounded wait, the
  context that fails closed) and \<open>src/app/domains/policy.py\<close> (the allow-list policy of a domain).
  The secrets a deployment is configured with are the record \<open>secret_config\<close>. The catch-all of
  \<open>scrub\<close> is not modelled: on text nothing inside it raises.
\<close>

section \<open>Scrubbing\<close>

definition REDACTED :: str where
  "REDACTED = ''[REDACTED]''"

definition alnum_char :: "string \<Rightarrow> rx" where
  "alnum_char extra = Chr (\<lambda>c. c \<in> set ''ABCDEFGHIJKLMNOPQRSTUVWXYZabcdefghijklmnopqrstuvwxyz0123456789'' \<or> c \<in> set extra)"

definition at_least :: "nat \<Rightarrow> rx \<Rightarrow> rx" where
  "at_least n r = seqs (replicate n r @ [Star True r])"

definition not_space_nor :: "string \<Rightarrow> rx" where
  "not_space_nor cs = Chr (\<lambda>c. c \<notin> set cs \<and> \<not> is_space c)"

definition url_credentials_rx :: rx where
  "url_credentials_rx =
     seqs [lit ''://'', Plus1 (not_space_nor '':/@''), lit '':'', Plus1 (not_space_nor ''@/''), lit ''@'']"

definition static_patterns :: "rx list" where
  "static_patterns =
     [seqs [lit ''sk-'', at_least 16 (alnum_char '''')],
      seqs (lit ''AKIA'' # replicate 16 (one_of ''0123456789ABCDEFGHIJKLMNOPQRSTUVWXYZ'')),
      seqs [WordB,
            alts [liti ''password'', liti ''passwd'', liti ''token'', liti ''secret'',
                  seqs [liti ''api'', Opt (one_of ''_-''), liti ''key'']],
            Star True space_char, one_of '':='', Star True space_char, Plus1 nonspace_char],
      url_credentials_rx,
      seqs [lit ''eyJ'', at_least 10 (alnum_char ''_-''), lit ''.'', at_least 10 (alnum_char ''_-''), lit ''.'',
            at_least 10 (alnum_char ''_-'')]]"

record secret_config =
  OPENAI_API_KEY :: str
  LANGFUSE_SECRET_KEY :: str
  LANGFUSE_PUBLIC_KEY :: str
  SERPER_API_KEY :: str
  APPDATA_DATABASE_URL :: str
  REDIS_URL :: str

text \<open>
  \<open>match.group(1)\<close> of the search for credentials in a URL: what follows the first colon after the
  user name, which has none, up to the closing \<open>@\<close>.
\<close>

definition url_password :: "str \<Rightarrow> str option" where
  "url_password url =
     (case search_from url_credentials_rx url 0 of
        None \<Rightarrow> None
      | Some (a, b) \<Rightarrow> Some (butlast (tl (dropWhile (\<lambda>c. c \<noteq> CHR '':'') (drop 3 (slice url a b))))))"

definition bound_secret_values :: "secret_config \<Rightarrow> str list" where
  "bound_secret_values cfg =
     filter (\<lambda>c. c \<noteq> [])
       ([OPENAI_API_KEY cfg, LANGFUSE_SECRET_KEY cfg, LANGFUSE_PUBLIC_KEY cfg, SERPER_API_KEY cfg] @
        List.map_filter url_password [APPDATA_DATABASE_URL cfg, REDIS_URL cfg])"

text \<open>\<open>s.replace(old, new)\<close> for a non-empty \<open>old\<close>: left to right, occurrences that do not overlap.\<close>

fun replace_sub :: "string \<Rightarrow> string \<Rightarrow> string \<Rightarrow> string" where
  "replace_sub old new [] = []"
| "replace_sub old new (c # s) =
     (if old \<noteq> [] \<and> prefix old (c # s) then new @ replace_sub old new (drop (length old - 1) s)
      else c # replace_sub old new s)"

definition scrub_secret :: "str \<Rightarrow> str \<Rightarrow> str" where
  "scrub_secret secret t = (if sublist secret t then replace_sub secret REDACTED t else t)"

definition scrub :: "secret_config \<Rightarrow> str \<Rightarrow> str" where
  "scrub cfg t =
     (if t = [] then t
      else fold scrub_secret (bound_secret_values cfg)
             (fold (\<lambda>r s. rx_sub r (\<lambda>_. REDACTED) s) static_patterns t))"

section \<open>The bounded wait\<close>

datatype 'v tool_value = TextResult str | OtherResult 'v

text \<open>\<open>timed_out\<close>: the call did not finish within its budget.\<close>

definition arun_with_timeout :: "secret_config \<Rightarrow> bool \<Rightarrow> 'v tool_value result \<Rightarrow> 'v tool_value result" where
  "arun_with_timeout cfg timed_out res =
     (if timed_out then Inl TimeoutError
      else
        (case res of
           Inl e \<Rightarrow> Inl e
         | Inr (TextResult t) \<Rightarrow> Inr (TextResult (scrub cfg t))
         | Inr (OtherResult v) \<Rightarrow> Inr (OtherResult v)))"

section \<open>The context a tool runs under\<close>

text \<open>\<open>config["configurable"]\<close>: the stamped context and the thread, either of which may be missing.\<close>

record run_config =
  rc_ctx :: "security_ctx option"
  rc_thread_id :: "str option"

definition NO_CTX_REFUSAL :: str where
  "NO_CTX_REFUSAL =
     ''Refused: no valid tenant/principal context for this request. '' @
     ''This isn't something you can work around '' @ em_dash @ '' it means the request '' @
     ''never got a security context stamped on it upstream.''"

definition ctx_from_config :: "run_config option \<Rightarrow> security_ctx option" where
  "ctx_from_config config = (case config of None \<Rightarrow> None | Some c \<Rightarrow> rc_ctx c)"

definition ctx_or_refuse :: "run_config option \<Rightarrow> str \<Rightarrow> security_ctx option" where
  "ctx_or_refuse config action =
     (let c = ctx_from_config config
      in if \<not> valid_ctx c \<or> \<not> permit action c then None else c)"

text \<open>\<open>ActionAllowlistPolicy\<close>, and the same check against a domain's allow-list.\<close>

definition allowlist_permit :: "str list \<Rightarrow> str \<Rightarrow> security_ctx option \<Rightarrow> bool" where
  "allowlist_permit actions action c = (action \<in> set actions \<and> valid_ctx c)"

definition domain_ctx_or_refuse :: "str list \<Rightarrow> run_config option \<Rightarrow> str \<Rightarrow> security_ctx option" where
  "domain_ctx_or_refuse actions config action =
     (let c = ctx_from_config config
      in if \<not> valid_ctx c \<or> \<not> allowlist_permit actions action c then None else c)"

section \<open>Facts\<close>

lemma domain_ctx_or_refuse_SomeD:
  "domain_ctx_or_refuse actions config action = Some c \<Longrightarrow>
   action \<in> set actions \<and> tenant c \<noteq> [] \<and> principal c \<noteq> [] \<and> ctx_from_config config = Some c"
  by (auto simp: domain_ctx_or_refuse_def allowlist_permit_def valid_ctx_def Let_def split: if_splits option.splits)

text \<open>A needle without the bracket that separates two texts is found in one of them.\<close>

lemma sublist_separated:
  assumes "x \<notin> set q" and "sublist q (a @ x # b)"
  shows "sublist q a \<or> sublist q b"
proof -
  from assms(2) obtain u v where e: "a @ x # b = u @ q @ v" by (auto simp: sublist_def)
  then obtain w where "(a = u @ w \<and> w @ x # b = q @ v) \<or> (a @ w = u \<and> x # b = w @ q @ v)"
    by (auto simp: append_eq_append_conv2)
  then show ?thesis
  proof
    assume "a = u @ w \<and> w @ x # b = q @ v"
    then obtain z where z: "(w = q @ z \<and> z @ x # b = v) \<or> (w @ z = q \<and> x # b = z @ v)" "a = u @ w"
      by (auto simp: append_eq_append_conv2)
    have "w = q @ z \<or> w = q" using z(1) assms(1) by (cases z) auto
    then show ?thesis using z(2) by (metis append_Nil2 sublist_appendI)
  next
    assume w: "a @ w = u \<and> x # b = w @ q @ v"
    show ?thesis
    proof (cases w)
      case Nil
      then show ?thesis using w assms(1) by (cases q) auto
    next
      case (Cons y ys)
      then have "b = ys @ q @ v" using w by simp
      then show ?thesis by (auto simp: sublist_def)
    qed
  qed
qed

definition scrubbable :: "str \<Rightarrow> bool" where
  "scrubbable q = (q \<noteq> [] \<and> CHR ''['' \<notin> set q \<and> CHR '']'' \<notin> set q \<and> \<not> sublist q ''REDACTED'')"

lemma sublist_redacted:
  assumes "scrubbable q" and "sublist q (a @ REDACTED @ b)"
  shows "sublist q a \<or> sublist q b"
proof -
  have e: "a @ REDACTED @ b = a @ CHR ''['' # (''REDACTED'' @ CHR '']'' # b)" by (simp add: REDACTED_def)
  have "sublist q a \<or> sublist q (''REDACTED'' @ CHR '']'' # b)"
  proof (rule sublist_separated)
    show "CHR ''['' \<notin> set q" using assms(1) by (simp add: scrubbable_def)
    show "sublist q (a @ CHR ''['' # (''REDACTED'' @ CHR '']'' # b))" using assms(2) by (simp only: e)
  qed
  then show ?thesis using assms(1) sublist_separated [of "CHR '']''" q "''REDACTED''" b]
    by (auto simp: scrubbable_def)
qed

text \<open>\<open>no_start q p s\<close>: in \<open>p @ s\<close> no occurrence of \<open>q\<close> starts inside \<open>p\<close>.\<close>

definition no_start :: "str \<Rightarrow> str \<Rightarrow> str \<Rightarrow> bool" where
  "no_start q p s = (\<forall>i<length p. \<not> prefix q (drop i (p @ s)))"

lemma no_start_not_inside:
  assumes "no_start q p s" and "q \<noteq> []"
  shows "\<not> sublist q p"
proof
  assume "sublist q p"
  then obtain u v where p: "p = u @ q @ v" by (auto simp: sublist_def)
  then have "length u < length p" "prefix q (drop (length u) (p @ s))" using assms(2) by auto
  then show False using assms(1) by (auto simp: no_start_def)
qed

lemma no_start_snoc:
  assumes "no_start q p (c # s)" and "\<not> prefix q (c # s)"
  shows "no_start q (p @ [c]) s"
  using assms by (auto simp: no_start_def less_Suc_eq)

lemma replace_sub_removes:
  assumes "scrubbable q"
  shows "no_start q p s \<Longrightarrow> q = old \<or> \<not> sublist q s \<Longrightarrow> \<not> sublist q (p @ replace_sub old REDACTED s)"
proof (induction old "REDACTED" s arbitrary: p rule: replace_sub.induct)
  case (1 old)
  then show ?case using no_start_not_inside assms by (auto simp: scrubbable_def)
next
  case (2 old c s)
  show ?case
  proof (cases "old \<noteq> [] \<and> prefix old (c # s)")
    case True
    have "q = old \<or> \<not> sublist q (drop (length old - 1) s)"
      using 2(4) suffix_drop [of "length old - 1" s]
      by (metis sublist_Cons_right suffix_imp_sublist sublist_order.order.trans)
    then have "\<not> sublist q ([] @ replace_sub old REDACTED (drop (length old - 1) s))"
      using 2(1) [OF True, of "[]"] by (simp add: no_start_def)
    then show ?thesis using True sublist_redacted [OF assms] no_start_not_inside [OF 2(3)] assms
      by (auto simp: scrubbable_def)
  next
    case False
    have "\<not> prefix q (c # s)" using False 2(4) assms by (auto simp: scrubbable_def)
    then have "\<not> sublist q ((p @ [c]) @ replace_sub old REDACTED s)"
      using 2(2) [OF False, of "p @ [c]"] 2(3,4) no_start_snoc by (auto simp: sublist_Cons_right)
    then show ?thesis using False by auto
  qed
qed

lemma scrub_secret_removes:
  "scrubbable q \<Longrightarrow> q = old \<or> \<not> sublist q s \<Longrightarrow> \<not> sublist q (scrub_secret old s)"
  using replace_sub_removes [of q "[]" s old] by (auto simp: scrub_secret_def no_start_def)

lemma fold_scrub_secret:
  "scrubbable q \<Longrightarrow> q \<in> set qs \<or> \<not> sublist q s \<Longrightarrow> \<not> sublist q (fold scrub_secret qs s)"
proof (induction qs arbitrary: s)
  case (Cons old qs)
  have "q \<in> set qs \<or> \<not> sublist q (scrub_secret old s)" using scrub_secret_removes [of q old s] Cons.prems by auto
  then show ?case using Cons.IH [of "scrub_secret old s"] Cons.prems(1) by simp
qed simp

section \<open>Properties\<close>

text \<open>
  C12. No configured secret survives scrubbing: whatever text a tool returns, a secret of this
  deployment (an API key, a password inside a database URL) does not occur in the scrubbed text, as
  long as the secret has no square bracket and is not itself a piece of the word \<open>REDACTED\<close>. Neither
  the pieces put in for other secrets nor their neighbours can spell it again.
\<close>

theorem no_bound_secret_in_output:
  assumes "secret \<in> set (bound_secret_values cfg)"
    and "CHR ''['' \<notin> set secret" and "CHR '']'' \<notin> set secret" and "\<not> sublist secret ''REDACTED''"
  shows "\<not> sublist secret (scrub cfg t)"
proof -
  have "scrubbable secret" using assms by (auto simp: scrubbable_def bound_secret_values_def)
  moreover from this have "t = [] \<Longrightarrow> \<not> sublist secret t" by (simp add: scrubbable_def)
  ultimately show ?thesis using fold_scrub_secret [of secret "bound_secret_values cfg"] assms(1)
    by (auto simp: scrub_def)
qed

theorem no_bound_secret_in_output_witness:
  "\<exists>cfg. bound_secret_values cfg = [''k9-live''] \<and> \<not> sublist ''k9-live'' (scrub cfg ''key k9-live ok'')"
proof (intro exI conjI)
  let ?c = "\<lparr>OPENAI_API_KEY = ''k9-live'', LANGFUSE_SECRET_KEY = '''', LANGFUSE_PUBLIC_KEY = '''', SERPER_API_KEY = '''',
     APPDATA_DATABASE_URL = '''', REDIS_URL = ''''\<rparr>"
  show b: "bound_secret_values ?c = [''k9-live'']" by code_simp
  have s: "\<not> sublist ''k9-live'' ''REDACTED''" by code_simp
  show "\<not> sublist ''k9-live'' (scrub ?c ''key k9-live ok'')"
    using no_bound_secret_in_output [of "''k9-live''" ?c] b s by simp
qed

text \<open>
  The exception is real: a secret that is a piece of the marker is put back by the marker itself.
\<close>

theorem marker_spells_short_secret:
  "sublist ''RED'' (scrub_secret ''RED'' ''code RED'')"
  by code_simp

end
