(* ===== verification/Row_Tables.thy ===== *)
theory Row_Tables
  imports Prelude
begin

text \<open>
  What the domain stores use of a Postgres table: a \<open>SERIAL\<close> id, which an insert draws from its
  sequence whether or not the row is kept, and the nullable \<open>tool_call_id TEXT UNIQUE\<close> column of
  \<open>src/postgres-init/14-tool-call-id-columns.sql\<close> with \<open>ON CONFLICT (tool_call_id) DO NOTHING\<close>. Two
  contracts are stated as locales: a table in which one call id has one row, and a store in which a
  call for one tenant leaves what every other tenant sees.
\<close>

section \<open>Tables\<close>

record 'r serial_table =
  tbl_rows :: "'r list"
  tbl_last :: int

definition empty_table :: "'r serial_table" where
  "empty_table = \<lparr>tbl_rows = [], tbl_last = 0\<rparr>"

text \<open>\<open>NULL\<close> conflicts with nothing and equals nothing.\<close>

definition has_key :: "('r \<Rightarrow> str option) \<Rightarrow> str option \<Rightarrow> 'r serial_table \<Rightarrow> bool" where
  "has_key key_of key t = (key \<noteq> None \<and> (\<exists>r\<in>set (tbl_rows t). key_of r = key))"

definition insert_keyed ::
  "('r \<Rightarrow> str option) \<Rightarrow> str option \<Rightarrow> (int \<Rightarrow> 'r) \<Rightarrow> 'r serial_table \<Rightarrow> 'r serial_table \<times> int option" where
  "insert_keyed key_of key mk t =
     (let i = tbl_last t + 1
      in if has_key key_of key t then (t\<lparr>tbl_last := i\<rparr>, None)
         else (t\<lparr>tbl_rows := tbl_rows t @ [mk i], tbl_last := i\<rparr>, Some i))"

definition id_of_key :: "('r \<Rightarrow> int) \<Rightarrow> ('r \<Rightarrow> str option) \<Rightarrow> str option \<Rightarrow> 'r serial_table \<Rightarrow> int option" where
  "id_of_key id_of key_of key t =
     (if key = None then None else map_option id_of (List.find (\<lambda>r. key_of r = key) (tbl_rows t)))"

text \<open>
  The insert with its read-back, as \<open>create_ticket\<close>, \<open>add_followup\<close> and \<open>log_incident\<close> each write
  it: no row returned means the id is taken, and the row that has it is looked up by that id alone.
\<close>

definition insert_or_read_back ::
  "('r \<Rightarrow> int) \<Rightarrow> ('r \<Rightarrow> str option) \<Rightarrow> str option \<Rightarrow> (int \<Rightarrow> 'r) \<Rightarrow> 'r serial_table \<Rightarrow>
   'r serial_table \<times> int result" where
  "insert_or_read_back id_of key_of key mk t =
     (case insert_keyed key_of key mk t of
        (t', Some i) \<Rightarrow> (t', Inr i)
      | (t', None) \<Rightarrow> (t', case id_of_key id_of key_of key t' of Some i \<Rightarrow> Inr i | None \<Rightarrow> Inl TypeError))"

lemma find_ex: "(\<exists>r\<in>set rs. P r) \<Longrightarrow> \<exists>r. List.find P rs = Some r \<and> r \<in> set rs \<and> P r"
  by (induction rs) auto

lemma find_append_Some: "List.find P xs = Some x \<Longrightarrow> List.find P (xs @ ys) = Some x"
  by (induction xs) auto

lemma find_append_None: "List.find P xs = None \<Longrightarrow> List.find P (xs @ ys) = List.find P ys"
  by (induction xs) (auto split: if_splits)

lemma insert_or_read_back_known:
  assumes "has_key key_of key t"
  shows "\<exists>r\<in>set (tbl_rows t). key_of r = key \<and>
    insert_or_read_back id_of key_of key mk t = (t\<lparr>tbl_last := tbl_last t + 1\<rparr>, Inr (id_of r)) \<and>
    List.find (\<lambda>r. key_of r = key) (tbl_rows t) = Some r"
  using assms find_ex [of "tbl_rows t" "\<lambda>r. key_of r = key"]
  by (auto simp: insert_or_read_back_def insert_keyed_def id_of_key_def has_key_def Let_def)

lemma insert_or_read_back_new:
  "\<not> has_key key_of key t \<Longrightarrow> insert_or_read_back id_of key_of key mk t =
     (t\<lparr>tbl_rows := tbl_rows t @ [mk (tbl_last t + 1)], tbl_last := tbl_last t + 1\<rparr>, Inr (tbl_last t + 1))"
  by (simp add: insert_or_read_back_def insert_keyed_def Let_def)

lemma insert_or_read_back_rows:
  "set (tbl_rows (fst (insert_or_read_back id_of key_of key mk t))) \<subseteq> set (tbl_rows t) \<union> {mk (tbl_last t + 1)}"
  by (auto simp: insert_or_read_back_def insert_keyed_def Let_def split: option.splits)

lemma insert_keyed_rows:
  "set (tbl_rows (fst (insert_keyed key_of key mk t))) \<subseteq> set (tbl_rows t) \<union> {mk (tbl_last t + 1)}"
  by (auto simp: insert_keyed_def Let_def)

lemma filter_insert_keyed:
  "\<not> P (mk (tbl_last t + 1)) \<Longrightarrow> filter P (tbl_rows (fst (insert_keyed key_of key mk t))) = filter P (tbl_rows t)"
  by (simp add: insert_keyed_def Let_def)

lemma filter_insert_or_read_back:
  "\<not> P (mk (tbl_last t + 1)) \<Longrightarrow>
   filter P (tbl_rows (fst (insert_or_read_back id_of key_of key mk t))) = filter P (tbl_rows t)"
  by (auto simp: insert_or_read_back_def insert_keyed_def Let_def split: option.splits)

lemma filter_map_unchanged:
  assumes "\<And>r. r \<in> set rs \<Longrightarrow> P (f r) = P r" and "\<And>r. r \<in> set rs \<Longrightarrow> P r \<Longrightarrow> f r = r"
  shows "filter P (map f rs) = filter P rs"
  using assms by (induction rs) auto

section \<open>One row per call id\<close>

text \<open>
  \<open>ins p\<close> writes the payload \<open>p\<close> under the call id \<open>pkey p\<close> and answers with the id of its row.
\<close>

fun run_inserts :: "('p \<Rightarrow> 't \<Rightarrow> 't \<times> int result) \<Rightarrow> 'p list \<Rightarrow> 't \<Rightarrow> 't \<times> ('p \<times> int result) list" where
  "run_inserts ins [] t = (t, [])"
| "run_inserts ins (p # ps) t =
     (case ins p t of (t', res) \<Rightarrow> (case run_inserts ins ps t' of (u, out) \<Rightarrow> (u, (p, res) # out)))"

locale one_row_per_call =
  fixes ins :: "'p \<Rightarrow> 't \<Rightarrow> 't \<times> int result"
    and pkey :: "'p \<Rightarrow> str option"
    and rows_of :: "'t \<Rightarrow> 'r list"
    and key_of :: "'r \<Rightarrow> str option"
    and id_of :: "'r \<Rightarrow> int"
  assumes ins_known: "pkey p = Some k \<Longrightarrow> List.find (\<lambda>r. key_of r = Some k) (rows_of t) = Some r \<Longrightarrow>
      rows_of (fst (ins p t)) = rows_of t \<and> snd (ins p t) = Inr (id_of r)"
    and ins_new: "pkey p = None \<or> List.find (\<lambda>r. key_of r = pkey p) (rows_of t) = None \<Longrightarrow>
      \<exists>r. rows_of (fst (ins p t)) = rows_of t @ [r] \<and> key_of r = pkey p \<and> snd (ins p t) = Inr (id_of r)"
begin

abbreviation holder :: "str \<Rightarrow> 't \<Rightarrow> 'r option" where
  "holder k t \<equiv> List.find (\<lambda>r. key_of r = Some k) (rows_of t)"

lemma ins_holder_kept: "holder k t = Some r \<Longrightarrow> holder k (fst (ins p t)) = Some r"
proof -
  assume h: "holder k t = Some r"
  show ?thesis
  proof (cases "pkey p = None \<or> List.find (\<lambda>r. key_of r = pkey p) (rows_of t) = None")
    case True
    then show ?thesis using ins_new [OF True] h find_append_Some by metis
  next
    case False
    then show ?thesis using ins_known [of p _ t] h by (metis not_None_eq)
  qed
qed

lemma ins_answers_holder: "pkey p = Some k \<Longrightarrow> \<exists>r. holder k (fst (ins p t)) = Some r \<and> snd (ins p t) = Inr (id_of r)"
proof -
  assume p: "pkey p = Some k"
  show ?thesis
  proof (cases "holder k t")
    case None
    then obtain r where "rows_of (fst (ins p t)) = rows_of t @ [r]" "key_of r = Some k" "snd (ins p t) = Inr (id_of r)"
      using ins_new [of p t] p by auto
    then show ?thesis using None find_append_None by force
  next
    case (Some r)
    then show ?thesis using ins_known [OF p Some] by auto
  qed
qed

lemma run_holder: "holder k t = Some r \<Longrightarrow> run_inserts ins ps t = (u, out) \<Longrightarrow>
  holder k u = Some r \<and> (\<forall>(p, res)\<in>set out. pkey p = Some k \<longrightarrow> res = Inr (id_of r))"
proof (induction ps arbitrary: t u out)
  case (Cons p ps)
  obtain t' res where t': "ins p t = (t', res)" by (cases "ins p t")
  obtain v out' where v: "run_inserts ins ps t' = (v, out')" by (cases "run_inserts ins ps t'")
  have h: "holder k t' = Some r" using ins_holder_kept [OF Cons.prems(1), of p] t' by simp
  have "pkey p = Some k \<Longrightarrow> res = Inr (id_of r)" using ins_known [OF _ Cons.prems(1), of p] t' by simp
  then show ?case using Cons.IH [OF h v] Cons.prems(2) t' v by auto
qed simp

text \<open>Every call that writes under one call id, in any history, is answered with one and the same row.\<close>

lemma same_answer:
  "run_inserts ins ps t = (u, out) \<Longrightarrow> (p, res) \<in> set out \<Longrightarrow> (q, res') \<in> set out \<Longrightarrow>
   pkey p = Some k \<Longrightarrow> pkey q = Some k \<Longrightarrow> res = res'"
proof (induction ps arbitrary: t u out)
  case (Cons a ps)
  obtain t' r where t': "ins a t = (t', r)" by (cases "ins a t")
  obtain v out' where v: "run_inserts ins ps t' = (v, out')" by (cases "run_inserts ins ps t'")
  have out: "out = (a, r) # out'" using Cons.prems(1) t' v by simp
  show ?case
  proof (cases "pkey a = Some k")
    case True
    then obtain w where w: "holder k t' = Some w" "r = Inr (id_of w)" using ins_answers_holder [OF True, of t] t' by auto
    have "x = Inr (id_of w)" if "(y, x) \<in> set out" "pkey y = Some k" for x y
      using run_holder [OF w(1) v] that out w(2) by auto
    then show ?thesis using Cons.prems(2-5) by metis
  next
    case False
    then show ?thesis using Cons.IH [OF v] Cons.prems(2-5) out by auto
  qed
qed simp

text \<open>And at most one row carries the call id.\<close>

lemma one_row_kept:
  "length (filter (\<lambda>r. key_of r = Some k) (rows_of t)) \<le> 1 \<Longrightarrow>
   length (filter (\<lambda>r. key_of r = Some k) (rows_of (fst (ins p t)))) \<le> 1"
proof (cases "pkey p = None \<or> List.find (\<lambda>r. key_of r = pkey p) (rows_of t) = None")
  case True
  assume "length (filter (\<lambda>r. key_of r = Some k) (rows_of t)) \<le> 1"
  moreover obtain r where r: "rows_of (fst (ins p t)) = rows_of t @ [r]" "key_of r = pkey p" using ins_new [OF True] by blast
  moreover have "filter (\<lambda>r. key_of r = Some k) (rows_of t) = []" if "pkey p = Some k"
    using True that by (auto simp: find_None_iff filter_empty_conv)
  ultimately show ?thesis by (cases "pkey p = Some k") auto
next
  case False
  assume "length (filter (\<lambda>r. key_of r = Some k) (rows_of t)) \<le> 1"
  then show ?thesis using False ins_known [of p _ t] by (metis not_None_eq)
qed

lemma one_row_run:
  "length (filter (\<lambda>r. key_of r = Some k) (rows_of t)) \<le> 1 \<Longrightarrow>
   length (filter (\<lambda>r. key_of r = Some k) (rows_of (fst (run_inserts ins ps t)))) \<le> 1"
proof (induction ps arbitrary: t)
  case (Cons p ps)
  then show ?case using Cons.IH [OF one_row_kept [OF Cons.prems, of p]]
    by (auto split: prod.splits)
qed simp

end

section \<open>What another tenant's call leaves alone\<close>

locale tenant_scoped =
  fixes act :: "str \<Rightarrow> 'o \<Rightarrow> 'd \<Rightarrow> 'd"
    and inv :: "'d \<Rightarrow> bool"
    and view :: "str \<Rightarrow> 'd \<Rightarrow> 'v"
  assumes act_inv: "inv d \<Longrightarrow> inv (act a x d)"
    and act_view: "inv d \<Longrightarrow> a \<noteq> b \<Longrightarrow> view b (act a x d) = view b d"
begin

lemma run_inv: "inv d \<Longrightarrow> inv (fold (\<lambda>(a, x). act a x) calls d)"
  by (induction calls arbitrary: d) (auto intro: act_inv)

lemma others_invisible:
  "inv d \<Longrightarrow> \<forall>(a, x)\<in>set calls. a \<noteq> b \<Longrightarrow> view b (fold (\<lambda>(a, x). act a x) calls d) = view b d"
proof (induction calls arbitrary: d)
  case (Cons c calls)
  then show ?case by (cases c) (auto simp: act_inv act_view)
qed simp

end

end
