(* ===== verification/Ticket_Store.thy ===== *)
theory Ticket_Store
  imports Row_Tables Py_Text
begin

text \<open>
  \<open>src/app/domains/support/store.py\<close> and \<open>src/app/domains/ops/store.py\<close>: the tables
  \<open>support_tickets\<close>, \<open>support_ticket_comments\<close> and \<open>ops_incidents\<close>
  (\<open>src/postgres-init/07-support-tickets.sql\<close>, \<open>10-ops-incidents.sql\<close>, \<open>14-\<close>, \<open>15-\<close>) and the fixed
  queries against them. Each function is one transaction at time \<open>now\<close>; rows of equal time keep the
  order they were written in, where Postgres leaves it open.
\<close>

section \<open>Tickets\<close>

record ticket_row =
  tk_id :: int
  tk_tenant :: str
  tk_requester :: str
  tk_subject :: str
  tk_description :: str
  tk_priority :: str
  tk_status :: str
  tk_escalation_reason :: "str option"
  tk_created :: int
  tk_updated :: int
  tk_key :: "str option"

record comment_row =
  cm_id :: int
  cm_tenant :: str
  cm_ticket :: int
  cm_comment :: str
  cm_key :: "str option"
  cm_created :: int

record ticket_db =
  tickets :: "ticket_row serial_table"
  comments :: "comment_row serial_table"

definition empty_tickets :: ticket_db where
  "empty_tickets = \<lparr>tickets = empty_table, comments = empty_table\<rparr>"

definition new_ticket :: "int \<Rightarrow> str \<Rightarrow> str \<Rightarrow> str \<Rightarrow> str \<Rightarrow> str \<Rightarrow> str option \<Rightarrow> int \<Rightarrow> ticket_row" where
  "new_ticket now ten requester subject description priority key i =
     \<lparr>tk_id = i, tk_tenant = ten, tk_requester = requester, tk_subject = subject, tk_description = description,
      tk_priority = priority, tk_status = ''open'', tk_escalation_reason = None, tk_created = now,
      tk_updated = now, tk_key = key\<rparr>"

definition create_ticket_row ::
  "int \<Rightarrow> str \<Rightarrow> str \<Rightarrow> str \<Rightarrow> str \<Rightarrow> str \<Rightarrow> str option \<Rightarrow> ticket_db \<Rightarrow> ticket_db \<times> int result" where
  "create_ticket_row now ten requester subject description priority key db =
     (case insert_or_read_back tk_id tk_key key (new_ticket now ten requester subject description priority key)
             (tickets db) of
        (t, res) \<Rightarrow> (db\<lparr>tickets := t\<rparr>, res))"

definition is_ticket :: "str \<Rightarrow> int \<Rightarrow> ticket_row \<Rightarrow> bool" where
  "is_ticket ten i t = (tk_tenant t = ten \<and> tk_id t = i)"

text \<open>\<open>STRING_AGG(c.comment, E'\n' ORDER BY c.created_at)\<close>: \<open>NULL\<close> over no rows.\<close>

definition string_agg :: "str list \<Rightarrow> str option" where
  "string_agg xs = (if xs = [] then None else Some (join newline xs))"

definition ticket_comments :: "ticket_row \<Rightarrow> ticket_db \<Rightarrow> comment_row list" where
  "ticket_comments t db =
     sort_key cm_created
       (filter (\<lambda>c. cm_ticket c = tk_id t \<and> cm_tenant c = tk_tenant t) (tbl_rows (comments db)))"

definition get_ticket :: "str \<Rightarrow> int \<Rightarrow> ticket_db \<Rightarrow> (ticket_row \<times> str option) option" where
  "get_ticket ten i db =
     map_option (\<lambda>t. (t, string_agg (map cm_comment (ticket_comments t db))))
       (List.find (is_ticket ten i) (tbl_rows (tickets db)))"

text \<open>\<open>ORDER BY created_at DESC LIMIT n\<close>.\<close>

definition list_tickets_for_requester :: "str \<Rightarrow> str \<Rightarrow> nat \<Rightarrow> ticket_db \<Rightarrow> ticket_row list" where
  "list_tickets_for_requester ten requester n db =
     take n (sort_key (\<lambda>t. - tk_created t)
       (filter (\<lambda>t. tk_tenant t = ten \<and> tk_requester t = requester) (tbl_rows (tickets db))))"

definition update_tickets :: "(ticket_row \<Rightarrow> bool) \<Rightarrow> (ticket_row \<Rightarrow> ticket_row) \<Rightarrow> ticket_db \<Rightarrow> ticket_db" where
  "update_tickets P f db =
     db\<lparr>tickets := (tickets db)\<lparr>tbl_rows := map (\<lambda>t. if P t then f t else t) (tbl_rows (tickets db))\<rparr>\<rparr>"

definition escalate_ticket :: "int \<Rightarrow> str \<Rightarrow> int \<Rightarrow> str \<Rightarrow> ticket_db \<Rightarrow> ticket_db \<times> bool" where
  "escalate_ticket now ten i reason db =
     (update_tickets (is_ticket ten i)
        (\<lambda>t. t\<lparr>tk_status := ''escalated'', tk_escalation_reason := Some reason, tk_updated := now\<rparr>) db,
      \<exists>t\<in>set (tbl_rows (tickets db)). is_ticket ten i t)"

definition add_comment :: "int \<Rightarrow> str \<Rightarrow> int \<Rightarrow> str \<Rightarrow> str option \<Rightarrow> ticket_db \<Rightarrow> ticket_db \<times> bool" where
  "add_comment now ten i comment key db =
     (if List.find (is_ticket ten i) (tbl_rows (tickets db)) = None then (db, False)
      else
        (let cs = fst (insert_keyed cm_key key
                        (\<lambda>n. \<lparr>cm_id = n, cm_tenant = ten, cm_ticket = i, cm_comment = comment, cm_key = key,
                              cm_created = now\<rparr>) (comments db))
         in (update_tickets (is_ticket ten i) (\<lambda>t. t\<lparr>tk_updated := now\<rparr>) (db\<lparr>comments := cs\<rparr>), True)))"

section \<open>Incidents\<close>

record incident_row =
  ic_id :: int
  ic_opened_by :: str
  ic_summary :: str
  ic_detail :: "str option"
  ic_status :: str
  ic_resolution :: "str option"
  ic_created :: int
  ic_resolved :: "int option"
  ic_key :: "str option"

type_synonym incident_db = "incident_row serial_table"

definition log_incident :: "int \<Rightarrow> str \<Rightarrow> str \<Rightarrow> str option \<Rightarrow> str option \<Rightarrow> incident_db \<Rightarrow> incident_db \<times> int result" where
  "log_incident now opened_by summary detail key db =
     insert_or_read_back ic_id ic_key key
       (\<lambda>i. \<lparr>ic_id = i, ic_opened_by = opened_by, ic_summary = summary, ic_detail = detail, ic_status = ''open'',
             ic_resolution = None, ic_created = now, ic_resolved = None, ic_key = key\<rparr>) db"

definition list_recent_incidents :: "nat \<Rightarrow> str option \<Rightarrow> incident_db \<Rightarrow> incident_row list" where
  "list_recent_incidents n status db =
     take n (sort_key (\<lambda>r. - ic_created r)
       (filter (\<lambda>r. case status of None \<Rightarrow> True | Some s \<Rightarrow> ic_status r = s) (tbl_rows db)))"

definition resolve_incident :: "int \<Rightarrow> int \<Rightarrow> str \<Rightarrow> incident_db \<Rightarrow> incident_db \<times> bool" where
  "resolve_incident now i resolution db =
     (db\<lparr>tbl_rows := map (\<lambda>r. if ic_id r = i
        then r\<lparr>ic_status := ''resolved'', ic_resolution := Some resolution, ic_resolved := Some now\<rparr> else r) (tbl_rows db)\<rparr>,
      \<exists>r\<in>set (tbl_rows db). ic_id r = i)"

section \<open>The contracts\<close>

record ticket_request =
  tr_now :: int
  tr_tenant :: str
  tr_requester :: str
  tr_subject :: str
  tr_description :: str
  tr_priority :: str
  tr_key :: "str option"

definition request_ticket :: "ticket_request \<Rightarrow> ticket_db \<Rightarrow> ticket_db \<times> int result" where
  "request_ticket q db =
     create_ticket_row (tr_now q) (tr_tenant q) (tr_requester q) (tr_subject q) (tr_description q) (tr_priority q)
       (tr_key q) db"

lemma find_has_key:
  "List.find (\<lambda>r. key_of r = Some k) (tbl_rows t) = Some r \<Longrightarrow> has_key key_of (Some k) t"
  "key = None \<or> List.find (\<lambda>r. key_of r = key) (tbl_rows t) = None \<Longrightarrow> \<not> has_key key_of key t"
  by (auto simp: has_key_def find_Some_iff find_None_iff)

interpretation tk: one_row_per_call request_ticket tr_key "\<lambda>db. tbl_rows (tickets db)" tk_key tk_id
proof unfold_locales
  fix q :: ticket_request and k and db :: ticket_db and r :: ticket_row
  assume "tr_key q = Some k" "List.find (\<lambda>r. tk_key r = Some k) (tbl_rows (tickets db)) = Some r"
  then show "tbl_rows (tickets (fst (request_ticket q db))) = tbl_rows (tickets db) \<and>
      snd (request_ticket q db) = Inr (tk_id r)"
    using insert_or_read_back_known [OF find_has_key(1), of tk_key k "tickets db" r]
    by (auto simp: request_ticket_def create_ticket_row_def split: prod.splits)
next
  fix q :: ticket_request and db :: ticket_db
  assume "tr_key q = None \<or> List.find (\<lambda>r. tk_key r = tr_key q) (tbl_rows (tickets db)) = None"
  then have "\<not> has_key tk_key (tr_key q) (tickets db)" by (rule find_has_key(2))
  then show "\<exists>r. tbl_rows (tickets (fst (request_ticket q db))) = tbl_rows (tickets db) @ [r] \<and> tk_key r = tr_key q \<and>
      snd (request_ticket q db) = Inr (tk_id r)"
    by (simp add: request_ticket_def create_ticket_row_def new_ticket_def insert_or_read_back_new)
qed

text \<open>The operations a tenant's tools perform, and what a tenant can see.\<close>

datatype ticket_op =
    CreateTicket int str str str str "str option"
  | EscalateTicket int int str
  | AddComment int int str "str option"

fun ticket_act :: "str \<Rightarrow> ticket_op \<Rightarrow> ticket_db \<Rightarrow> ticket_db" where
  "ticket_act ten (CreateTicket now requester subject description priority key) db =
     fst (create_ticket_row now ten requester subject description priority key db)"
| "ticket_act ten (EscalateTicket now i reason) db = fst (escalate_ticket now ten i reason db)"
| "ticket_act ten (AddComment now i comment key) db = fst (add_comment now ten i comment key db)"

definition ticket_view :: "str \<Rightarrow> ticket_db \<Rightarrow> ticket_row list \<times> comment_row list" where
  "ticket_view ten db =
     (filter (\<lambda>t. tk_tenant t = ten) (tbl_rows (tickets db)), filter (\<lambda>c. cm_tenant c = ten) (tbl_rows (comments db)))"

lemma update_tickets_view:
  assumes "\<And>t. P t \<Longrightarrow> tk_tenant t \<noteq> b" and "\<And>t. tk_tenant (f t) = tk_tenant t"
  shows "ticket_view b (update_tickets P f db) = ticket_view b db"
proof -
  have "filter (\<lambda>t. tk_tenant t = b) (map (\<lambda>t. if P t then f t else t) ts) = filter (\<lambda>t. tk_tenant t = b) ts" for ts
    using assms by (intro filter_map_unchanged) auto
  then show ?thesis by (simp add: ticket_view_def update_tickets_def)
qed

lemma ticket_act_view: "a \<noteq> b \<Longrightarrow> ticket_view b (ticket_act a x db) = ticket_view b db"
proof (cases x)
  case (CreateTicket now requester subject description priority key)
  moreover assume "a \<noteq> b"
  ultimately show ?thesis
    using filter_insert_or_read_back [of "\<lambda>t. tk_tenant t = b"
        "new_ticket now a requester subject description priority key" "tickets db" tk_id tk_key key]
    by (auto simp: ticket_view_def create_ticket_row_def new_ticket_def split: prod.splits)
next
  case (EscalateTicket now i reason)
  moreover assume "a \<noteq> b"
  ultimately show ?thesis using update_tickets_view [of "is_ticket a i" b] by (auto simp: escalate_ticket_def is_ticket_def)
next
  case (AddComment now i comment key)
  moreover assume "a \<noteq> b"
  ultimately show ?thesis using update_tickets_view [of "is_ticket a i" b]
    by (auto simp: add_comment_def Let_def is_ticket_def) (simp add: ticket_view_def filter_insert_keyed)
qed

interpretation ts: tenant_scoped ticket_act "\<lambda>_. True" ticket_view
  by unfold_locales (simp_all add: ticket_act_view)

lemma find_filter: "List.find P (filter Q xs) = List.find (\<lambda>x. Q x \<and> P x) xs"
  by (induction xs) auto

text \<open>What a tenant reads is a function of its own rows.\<close>

lemma find_ticket_view:
  "List.find (is_ticket ten i) (tbl_rows (tickets db)) = List.find (is_ticket ten i) (fst (ticket_view ten db))"
proof -
  have "is_ticket ten i = (\<lambda>t. tk_tenant t = ten \<and> is_ticket ten i t)" by (auto simp: is_ticket_def fun_eq_iff)
  then show ?thesis by (simp add: ticket_view_def find_filter)
qed

lemma get_ticket_view:
  assumes "ticket_view ten db = ticket_view ten db'"
  shows "get_ticket ten i db = get_ticket ten i db'"
proof -
  have c: "filter (\<lambda>c. cm_ticket c = j \<and> cm_tenant c = ten) (tbl_rows (comments d)) =
      filter (\<lambda>c. cm_ticket c = j) (snd (ticket_view ten d))" for j d
    by (simp add: ticket_view_def conj_commute)
  have "ticket_comments t db = ticket_comments t db'" if "tk_tenant t = ten" for t
    using that assms by (simp add: ticket_comments_def c)
  then show ?thesis using assms
    by (auto simp: get_ticket_def find_ticket_view find_Some_iff is_ticket_def
        intro!: option.map_cong split: option.splits)
qed

lemma list_tickets_view:
  assumes "ticket_view ten db = ticket_view ten db'"
  shows "list_tickets_for_requester ten requester n db = list_tickets_for_requester ten requester n db'"
proof -
  have "filter (\<lambda>t. tk_tenant t = ten \<and> tk_requester t = requester) (tbl_rows (tickets d)) =
      filter (\<lambda>t. tk_requester t = requester) (fst (ticket_view ten d))" for d
    by (simp add: ticket_view_def conj_commute)
  then show ?thesis using assms by (simp add: list_tickets_for_requester_def)
qed

end
