(* ===== verification/Crm_Store.thy ===== *)
theory Crm_Store
  imports Ticket_Store
begin

text \<open>
  \<open>src/app/domains/sales/store.py\<close>: the tables \<open>crm_leads\<close>, \<open>crm_lead_notes\<close> and \<open>crm_followups\<close>
  (\<open>src/postgres-init/08-crm.sql\<close>, \<open>14-\<close>, \<open>15-\<close>) and the fixed queries against them. Functions that
  read a lead first and then write are modelled with nothing in between.
\<close>

section \<open>Data\<close>

record lead_row =
  ld_id :: int
  ld_tenant :: str
  ld_name :: str
  ld_contact :: str
  ld_status :: str
  ld_created :: int
  ld_updated :: int

record note_row =
  nt_id :: int
  nt_tenant :: str
  nt_lead :: int
  nt_note :: str
  nt_key :: "str option"
  nt_created :: int

record followup_row =
  fu_id :: int
  fu_tenant :: str
  fu_lead :: int
  fu_due :: int
  fu_note :: str
  fu_status :: str
  fu_created_by :: str
  fu_created :: int
  fu_key :: "str option"

record crm_db =
  crm_leads :: "lead_row serial_table"
  crm_notes :: "note_row serial_table"
  crm_followups :: "followup_row serial_table"

definition empty_crm :: crm_db where
  "empty_crm = \<lparr>crm_leads = empty_table, crm_notes = empty_table, crm_followups = empty_table\<rparr>"

section \<open>Leads\<close>

definition is_lead :: "str \<Rightarrow> str \<Rightarrow> lead_row \<Rightarrow> bool" where
  "is_lead ten contact l = (ld_tenant l = ten \<and> ld_contact l = contact)"

definition find_lead :: "str \<Rightarrow> str \<Rightarrow> crm_db \<Rightarrow> lead_row option" where
  "find_lead ten contact db = List.find (is_lead ten contact) (tbl_rows (crm_leads db))"

definition update_leads :: "(lead_row \<Rightarrow> bool) \<Rightarrow> (lead_row \<Rightarrow> lead_row) \<Rightarrow> crm_db \<Rightarrow> crm_db" where
  "update_leads P f db =
     db\<lparr>crm_leads := (crm_leads db)\<lparr>tbl_rows := map (\<lambda>l. if P l then f l else l) (tbl_rows (crm_leads db))\<rparr>\<rparr>"

text \<open>\<open>INSERT ... ON CONFLICT (tenant, contact) DO UPDATE SET updated_at = now() RETURNING id\<close>.\<close>

definition upsert_lead :: "int \<Rightarrow> str \<Rightarrow> str \<Rightarrow> str \<Rightarrow> crm_db \<Rightarrow> crm_db \<times> int" where
  "upsert_lead now ten name contact db =
     (let i = tbl_last (crm_leads db) + 1
      in case find_lead ten contact db of
           Some l \<Rightarrow>
             (update_leads (is_lead ten contact) (\<lambda>l. l\<lparr>ld_updated := now\<rparr>)
                (db\<lparr>crm_leads := (crm_leads db)\<lparr>tbl_last := i\<rparr>\<rparr>), ld_id l)
         | None \<Rightarrow>
             (db\<lparr>crm_leads := (crm_leads db)\<lparr>tbl_rows := tbl_rows (crm_leads db) @
                [\<lparr>ld_id = i, ld_tenant = ten, ld_name = name, ld_contact = contact, ld_status = ''new'',
                  ld_created = now, ld_updated = now\<rparr>], tbl_last := i\<rparr>\<rparr>, i))"

definition insert_note :: "int \<Rightarrow> str \<Rightarrow> int \<Rightarrow> str \<Rightarrow> str option \<Rightarrow> crm_db \<Rightarrow> crm_db" where
  "insert_note now ten lead note key db =
     db\<lparr>crm_notes := fst (insert_keyed nt_key key
          (\<lambda>i. \<lparr>nt_id = i, nt_tenant = ten, nt_lead = lead, nt_note = note, nt_key = key, nt_created = now\<rparr>)
          (crm_notes db))\<rparr>"

definition find_or_create_lead :: "int \<Rightarrow> str \<Rightarrow> str \<Rightarrow> str \<Rightarrow> str \<Rightarrow> str option \<Rightarrow> crm_db \<Rightarrow> crm_db \<times> int" where
  "find_or_create_lead now ten name contact note key db =
     (case upsert_lead now ten name contact db of
        (db', lead) \<Rightarrow> (insert_note now ten lead note key db', lead))"

definition set_lead_status :: "int \<Rightarrow> str \<Rightarrow> str \<Rightarrow> str \<Rightarrow> crm_db \<Rightarrow> crm_db \<times> bool" where
  "set_lead_status now ten contact status db =
     (update_leads (is_lead ten contact) (\<lambda>l. l\<lparr>ld_status := status, ld_updated := now\<rparr>) db,
      \<exists>l\<in>set (tbl_rows (crm_leads db)). is_lead ten contact l)"

definition lead_note_texts :: "lead_row \<Rightarrow> crm_db \<Rightarrow> str list" where
  "lead_note_texts l db =
     map nt_note (sort_key nt_created
       (filter (\<lambda>n. nt_lead n = ld_id l \<and> nt_tenant n = ld_tenant l) (tbl_rows (crm_notes db))))"

definition get_lead :: "str \<Rightarrow> str \<Rightarrow> crm_db \<Rightarrow> (lead_row \<times> str option) option" where
  "get_lead ten contact db =
     map_option (\<lambda>l. (l, string_agg (lead_note_texts l db))) (find_lead ten contact db)"

definition append_lead_note :: "int \<Rightarrow> str \<Rightarrow> str \<Rightarrow> str \<Rightarrow> str option \<Rightarrow> crm_db \<Rightarrow> crm_db \<times> bool" where
  "append_lead_note now ten contact note key db =
     (case get_lead ten contact db of
        None \<Rightarrow> (db, False)
      | Some (l, _) \<Rightarrow>
          (update_leads (is_lead ten contact) (\<lambda>l. l\<lparr>ld_updated := now\<rparr>) (insert_note now ten (ld_id l) note key db),
           True))"

section \<open>Follow-ups\<close>

definition new_followup :: "int \<Rightarrow> str \<Rightarrow> int \<Rightarrow> int \<Rightarrow> str \<Rightarrow> str \<Rightarrow> str option \<Rightarrow> int \<Rightarrow> followup_row" where
  "new_followup now ten lead due note created_by key i =
     \<lparr>fu_id = i, fu_tenant = ten, fu_lead = lead, fu_due = due, fu_note = note, fu_status = ''pending'',
      fu_created_by = created_by, fu_created = now, fu_key = key\<rparr>"

definition add_followup ::
  "int \<Rightarrow> str \<Rightarrow> str \<Rightarrow> int \<Rightarrow> str \<Rightarrow> str \<Rightarrow> str option \<Rightarrow> crm_db \<Rightarrow> crm_db \<times> int option result" where
  "add_followup now ten contact due note created_by key db =
     (case get_lead ten contact db of
        None \<Rightarrow> (db, Inr None)
      | Some (l, _) \<Rightarrow>
          (case insert_or_read_back fu_id fu_key key (new_followup now ten (ld_id l) due note created_by key)
                  (crm_followups db) of
             (t, res) \<Rightarrow> (db\<lparr>crm_followups := t\<rparr>, map_sum id Some res)))"

text \<open>The columns \<open>list_pending_followups\<close> and \<open>due_followups\<close> select: the join keeps a follow-up once per lead with its id.\<close>

record due_row =
  pe_id :: int
  pe_due :: int
  pe_note :: str
  pe_contact :: str
  pe_lead_name :: str

definition join_leads :: "followup_row list \<Rightarrow> lead_row list \<Rightarrow> due_row list" where
  "join_leads fs ls =
     concat (map (\<lambda>f. map (\<lambda>l. \<lparr>pe_id = fu_id f, pe_due = fu_due f, pe_note = fu_note f, pe_contact = ld_contact l,
                               pe_lead_name = ld_name l\<rparr>)
                       (filter (\<lambda>l. ld_id l = fu_lead f) ls)) fs)"

definition pending_of :: "str \<Rightarrow> crm_db \<Rightarrow> followup_row list" where
  "pending_of ten db = filter (\<lambda>f. fu_tenant f = ten \<and> fu_status f = ''pending'') (tbl_rows (crm_followups db))"

definition list_pending_followups :: "str \<Rightarrow> str option \<Rightarrow> crm_db \<Rightarrow> due_row list" where
  "list_pending_followups ten contact db =
     sort_key pe_due
       (filter (\<lambda>p. case contact of None \<Rightarrow> True | Some c \<Rightarrow> pe_contact p = c)
         (join_leads (pending_of ten db) (tbl_rows (crm_leads db))))"

definition due_followups :: "str \<Rightarrow> int \<Rightarrow> crm_db \<Rightarrow> due_row list" where
  "due_followups ten as_of db =
     sort_key pe_due
       (filter (\<lambda>p. pe_due p \<le> as_of) (join_leads (pending_of ten db) (tbl_rows (crm_leads db))))"

definition update_followups :: "(followup_row \<Rightarrow> bool) \<Rightarrow> str \<Rightarrow> crm_db \<Rightarrow> crm_db" where
  "update_followups P status db =
     db\<lparr>crm_followups := (crm_followups db)\<lparr>tbl_rows :=
          map (\<lambda>f. if P f then f\<lparr>fu_status := status\<rparr> else f) (tbl_rows (crm_followups db))\<rparr>\<rparr>"

definition mark_followup_done :: "str \<Rightarrow> int \<Rightarrow> crm_db \<Rightarrow> crm_db" where
  "mark_followup_done ten i db = update_followups (\<lambda>f. fu_tenant f = ten \<and> fu_id f = i) ''done'' db"

definition mark_lead_lost :: "int \<Rightarrow> str \<Rightarrow> str \<Rightarrow> str \<Rightarrow> str option \<Rightarrow> crm_db \<Rightarrow> crm_db \<times> bool" where
  "mark_lead_lost now ten contact reason key db =
     (case get_lead ten contact db of
        None \<Rightarrow> (db, False)
      | Some (l, _) \<Rightarrow>
          (let db1 = update_leads (is_lead ten contact) (\<lambda>l. l\<lparr>ld_status := ''lost'', ld_updated := now\<rparr>) db;
               db2 = insert_note now ten (ld_id l) reason key db1
           in (update_followups (\<lambda>f. fu_tenant f = ten \<and> fu_lead f = ld_id l \<and> fu_status f = ''pending'')
                 ''cancelled'' db2, True)))"

definition lead_history :: "str \<Rightarrow> str \<Rightarrow> crm_db \<Rightarrow> (lead_row \<times> str option \<times> followup_row list) option" where
  "lead_history ten contact db =
     (case get_lead ten contact db of
        None \<Rightarrow> None
      | Some (l, notes) \<Rightarrow>
          Some (l, notes,
            sort_key fu_due (filter (\<lambda>f. fu_tenant f = ten \<and> fu_lead f = ld_id l) (tbl_rows (crm_followups db)))))"

section \<open>The operations of a tenant\<close>

datatype crm_op =
    FindOrCreateLead int str str str "str option"
  | SetLeadStatus int str str
  | AddFollowup int str int str str "str option"
  | MarkLeadLost int str str "str option"
  | MarkFollowupDone int
  | AppendLeadNote int str str "str option"

fun crm_act :: "str \<Rightarrow> crm_op \<Rightarrow> crm_db \<Rightarrow> crm_db" where
  "crm_act ten (FindOrCreateLead now name contact note key) db = fst (find_or_create_lead now ten name contact note key db)"
| "crm_act ten (SetLeadStatus now contact status) db = fst (set_lead_status now ten contact status db)"
| "crm_act ten (AddFollowup now contact due note created_by key) db =
     fst (add_followup now ten contact due note created_by key db)"
| "crm_act ten (MarkLeadLost now contact reason key) db = fst (mark_lead_lost now ten contact reason key db)"
| "crm_act ten (MarkFollowupDone i) db = mark_followup_done ten i db"
| "crm_act ten (AppendLeadNote now contact note key) db = fst (append_lead_note now ten contact note key db)"

text \<open>
  The invariant: ids of leads are distinct and drawn from the sequence, a tenant has one lead per
  contact, and every follow-up belongs to a lead of its own tenant.
\<close>

definition owned :: "crm_db \<Rightarrow> followup_row \<Rightarrow> bool" where
  "owned db f = (\<exists>l\<in>set (tbl_rows (crm_leads db)). ld_id l = fu_lead f \<and> ld_tenant l = fu_tenant f)"

definition crm_ok :: "crm_db \<Rightarrow> bool" where
  "crm_ok db =
     (distinct (map ld_id (tbl_rows (crm_leads db))) \<and>
      (\<forall>l\<in>set (tbl_rows (crm_leads db)). ld_id l \<le> tbl_last (crm_leads db)) \<and>
      distinct (map (\<lambda>l. (ld_tenant l, ld_contact l)) (tbl_rows (crm_leads db))) \<and>
      (\<forall>f\<in>set (tbl_rows (crm_followups db)). owned db f))"

definition crm_view :: "str \<Rightarrow> crm_db \<Rightarrow> lead_row list \<times> note_row list \<times> followup_row list" where
  "crm_view ten db =
     (filter (\<lambda>l. ld_tenant l = ten) (tbl_rows (crm_leads db)),
      filter (\<lambda>n. nt_tenant n = ten) (tbl_rows (crm_notes db)),
      filter (\<lambda>f. fu_tenant f = ten) (tbl_rows (crm_followups db)))"

end
