(* ===== verification/Domain_Tools.thy ===== *)
theory Domain_Tools
  imports Tool_Runtime Tool_Idempotency Crm_Store Untrusted Loop_Guards
begin

text \<open>
  \<open>src/app/domains/support/tools.py\<close> and \<open>src/app/domains/sales/tools.py\<close>, less the sandbox and
  web-search tools: every tool's argument checks, its fail-closed context check, the implementation
  against its store, and the wrapper that runs it once per call id. The cron sweep of
  \<open>src/scripts/followup_sweep.py\<close> is here too. What lies outside is a parameter: whether the ledger
  answers, whether a call ran out of its budget and, if so, whether its work had landed, the page a
  URL renders to, the draft a model writes. Times in the stores are microseconds since 1970 (UTC).
\<close>

section \<open>Dates\<close>

definition civil_from_days :: "int \<Rightarrow> int \<times> int \<times> int" where
  "civil_from_days days =
     (let z = days + 719468;
          era = z div 146097;
          doe = z mod 146097;
          yoe = (doe - doe div 1460 + doe div 36524 - doe div 146096) div 365;
          doy = doe - (365 * yoe + yoe div 4 - yoe div 100);
          mp = (5 * doy + 2) div 153;
          d = doy - (153 * mp + 2) div 5 + 1;
          m = (if mp < 10 then mp + 3 else mp - 9)
      in (yoe + era * 400 + (if m \<le> 2 then 1 else 0), m, d))"

definition pad_left :: "nat \<Rightarrow> int \<Rightarrow> str" where
  "pad_left w n = (let s = dec_int n in replicate (w - length s) (CHR ''0'') @ s)"

definition day_micros :: int where "day_micros = 86400000000"

definition iso_date :: "int \<Rightarrow> str" where
  "iso_date t =
     (case civil_from_days (t div day_micros) of (y, m, d) \<Rightarrow> pad_left 4 y @ ''-'' @ pad_left 2 m @ ''-'' @ pad_left 2 d)"

text \<open>\<open>str()\<close> of an aware datetime in UTC.\<close>

definition datetime_str :: "int \<Rightarrow> str" where
  "datetime_str t =
     (let r = t mod day_micros; secs = r div 1000000; us = r mod 1000000
      in iso_date t @ '' '' @ pad_left 2 (secs div 3600) @ '':'' @ pad_left 2 (secs div 60 mod 60) @ '':'' @
         pad_left 2 (secs mod 60) @ (if us = 0 then [] else ''.'' @ pad_left 6 us) @ ''+00:00'')"

section \<open>Running a tool\<close>

record call_env =
  ce_cfg :: secret_config
  ce_ledger_up :: bool
  ce_hour :: int
  ce_now :: int
  ce_timed_out :: bool
  ce_landed :: bool

definition not_blank :: "str \<Rightarrow> bool" where
  "not_blank v = (strip v \<noteq> [])"

definition timed_text :: "call_env \<Rightarrow> str result \<Rightarrow> str result" where
  "timed_text env out =
     (case arun_with_timeout (ce_cfg env) (ce_timed_out env) (map_sum id TextResult out :: unit tool_value result) of
        Inl e \<Rightarrow> Inl e
      | Inr (TextResult t) \<Rightarrow> Inr t
      | Inr (OtherResult _) \<Rightarrow> Inl TypeError)"

text \<open>The store after the implementation ran: a call that timed out may or may not have got its work in.\<close>

definition after_run :: "call_env \<Rightarrow> 'd \<Rightarrow> 'd \<Rightarrow> 'd" where
  "after_run env d d' = (if ce_timed_out env \<and> \<not> ce_landed env then d else d')"

definition reading_tool ::
  "call_env \<Rightarrow> str list \<Rightarrow> str \<Rightarrow> run_config option \<Rightarrow> (security_ctx \<Rightarrow> 'd \<Rightarrow> str) \<Rightarrow> 'd \<Rightarrow> str result" where
  "reading_tool env actions action config impl d =
     (case domain_ctx_or_refuse actions config action of
        None \<Rightarrow> Inr NO_CTX_REFUSAL
      | Some c \<Rightarrow> timed_text env (Inr (impl c d)))"

definition acting_tool ::
  "call_env \<Rightarrow> str list \<Rightarrow> str \<Rightarrow> str \<Rightarrow> str \<Rightarrow> run_config option \<Rightarrow>
   (security_ctx \<Rightarrow> 'd \<Rightarrow> 'd \<times> str result) \<Rightarrow> dedup_table \<times> 'd \<Rightarrow> (dedup_table \<times> 'd) \<times> str result" where
  "acting_tool env actions action tool_name call_id config impl s =
     (case s of (led, d) \<Rightarrow>
       (case domain_ctx_or_refuse actions config action of
          None \<Rightarrow> ((led, d), Inr NO_CTX_REFUSAL)
        | Some c \<Rightarrow>
            (case impl c d of (d', out) \<Rightarrow>
              (case idempotent
                      (pg_claim_or_cached (ce_ledger_up env) (ce_hour env) (tenant c) (Option.bind config rc_thread_id) tool_name)
                      (pg_store_result (ce_ledger_up env)) call_id tool_name (timed_text env out) led of
                 (led', res, fired) \<Rightarrow> ((led', if fired then after_run env d d' else d), res)))))"

section \<open>Support\<close>

definition SUPPORT_ACTIONS :: "str list" where
  "SUPPORT_ACTIONS =
     [''create_ticket'', ''check_ticket_status'', ''escalate_to_human'', ''list_my_tickets'', ''add_ticket_comment'',
      ''fetch_external_reference'', ''web_search'', ''run_command_in_sandbox'', ''run_python_in_sandbox'',
      ''read_sandbox_file'', ''write_sandbox_file'']"

datatype ticket_priority = Low | Normal | High | Urgent

fun priority_value :: "ticket_priority \<Rightarrow> str" where
  "priority_value Low = ''low''"
| "priority_value Normal = ''normal''"
| "priority_value High = ''high''"
| "priority_value Urgent = ''urgent''"

text \<open>The support domain: its tables and what was posted to the team channel, newest last.\<close>

record support_world =
  sw_db :: ticket_db
  sw_posts :: "(str \<times> str) list"

definition create_ticket_args_ok :: "str \<Rightarrow> str \<Rightarrow> bool" where
  "create_ticket_args_ok subject description = (not_blank subject \<and> not_blank description)"

definition create_ticket_impl ::
  "int \<Rightarrow> str \<Rightarrow> str \<Rightarrow> ticket_priority \<Rightarrow> str \<Rightarrow> security_ctx \<Rightarrow> support_world \<Rightarrow> support_world \<times> str result" where
  "create_ticket_impl now subject description priority call_id c w =
     (case create_ticket_row now (tenant c) (principal c) subject description (priority_value priority) (Some call_id)
             (sw_db w) of
        (db, res) \<Rightarrow>
          (w\<lparr>sw_db := db\<rparr>,
           map_sum id (\<lambda>i. ''Ticket #'' @ dec_int i @ '' opened ('' @ priority_value priority @ '' priority): '' @ subject) res))"

definition create_ticket ::
  "call_env \<Rightarrow> str \<Rightarrow> str \<Rightarrow> ticket_priority option \<Rightarrow> run_config option \<Rightarrow> str \<Rightarrow> dedup_table \<times> support_world \<Rightarrow>
   (dedup_table \<times> support_world) \<times> str result" where
  "create_ticket env subject description priority config call_id s =
     (if \<not> create_ticket_args_ok subject description then (s, Inl (ValueError ''must not be empty''))
      else acting_tool env SUPPORT_ACTIONS ''create_ticket'' ''create_ticket'' call_id config
             (create_ticket_impl (ce_now env) subject description
                (case priority of None \<Rightarrow> Normal | Some p \<Rightarrow> p) call_id) s)"

definition check_ticket_status_impl :: "int \<Rightarrow> security_ctx \<Rightarrow> support_world \<Rightarrow> str" where
  "check_ticket_status_impl i c w =
     (case get_ticket (tenant c) i (sw_db w) of
        None \<Rightarrow> ''No ticket #'' @ dec_int i @ '' found.''
      | Some (t, agg) \<Rightarrow>
          ''Ticket #'' @ dec_int (tk_id t) @ '' '' @ em_dash @ '' '' @ tk_status t @ '' ('' @ tk_priority t @ '' priority): '' @
          tk_subject t @
          (case tk_escalation_reason t of Some (r # rs) \<Rightarrow> newline @ ''Escalated: '' @ r # rs | _ \<Rightarrow> []) @
          (case agg of Some (n # ns) \<Rightarrow> newline @ ''Follow-up notes:'' @ newline @ n # ns | _ \<Rightarrow> []))"

definition check_ticket_status :: "call_env \<Rightarrow> int \<Rightarrow> run_config option \<Rightarrow> support_world \<Rightarrow> str result" where
  "check_ticket_status env i config w =
     reading_tool env SUPPORT_ACTIONS ''check_ticket_status'' config (check_ticket_status_impl i) w"

definition escalate_args_ok :: "str \<Rightarrow> bool" where
  "escalate_args_ok reason = not_blank reason"

definition escalate_to_human_impl :: "int \<Rightarrow> int \<Rightarrow> str \<Rightarrow> security_ctx \<Rightarrow> support_world \<Rightarrow> support_world \<times> str result" where
  "escalate_to_human_impl now i reason c w =
     (case escalate_ticket now (tenant c) i reason (sw_db w) of
        (db, False) \<Rightarrow> (w\<lparr>sw_db := db\<rparr>, Inr (''No ticket #'' @ dec_int i @ '' found to escalate.''))
      | (db, True) \<Rightarrow>
          (\<lparr>sw_db = db,
            sw_posts = sw_posts w @
              [(''support-escalations'',
                ''['' @ tenant c @ ''] Ticket #'' @ dec_int i @ '' escalated by '' @ principal c @ '': '' @ reason)]\<rparr>,
           Inr (''Ticket #'' @ dec_int i @ '' escalated to a human agent: '' @ reason)))"

definition escalate_to_human ::
  "call_env \<Rightarrow> int \<Rightarrow> str \<Rightarrow> run_config option \<Rightarrow> str \<Rightarrow> dedup_table \<times> support_world \<Rightarrow>
   (dedup_table \<times> support_world) \<times> str result" where
  "escalate_to_human env i reason config call_id s =
     (if \<not> escalate_args_ok reason then (s, Inl (ValueError ''reason must not be empty''))
      else acting_tool env SUPPORT_ACTIONS ''escalate_to_human'' ''escalate_to_human'' call_id config
             (escalate_to_human_impl (ce_now env) i reason) s)"

definition list_my_tickets_impl :: "security_ctx \<Rightarrow> support_world \<Rightarrow> str" where
  "list_my_tickets_impl c w =
     (let ts = list_tickets_for_requester (tenant c) (principal c) 10 (sw_db w)
      in if ts = [] then ''You have no support tickets on file.''
         else join newline
           (map (\<lambda>t. ''- #'' @ dec_int (tk_id t) @ '' '' @ em_dash @ '' '' @ tk_status t @ '' ('' @ tk_priority t @
                     '' priority): '' @ tk_subject t) ts))"

definition list_my_tickets :: "call_env \<Rightarrow> run_config option \<Rightarrow> support_world \<Rightarrow> str result" where
  "list_my_tickets env config w = reading_tool env SUPPORT_ACTIONS ''list_my_tickets'' config list_my_tickets_impl w"

definition comment_args_ok :: "str \<Rightarrow> bool" where
  "comment_args_ok comment = not_blank comment"

definition add_ticket_comment_impl :: "int \<Rightarrow> int \<Rightarrow> str \<Rightarrow> str \<Rightarrow> security_ctx \<Rightarrow> support_world \<Rightarrow> support_world \<times> str result" where
  "add_ticket_comment_impl now i comment call_id c w =
     (case add_comment now (tenant c) i comment (Some call_id) (sw_db w) of
        (db, updated) \<Rightarrow>
          (w\<lparr>sw_db := db\<rparr>,
           Inr (if \<not> updated then ''No ticket #'' @ dec_int i @ '' found to add a comment to.''
                else ''Added your follow-up to ticket #'' @ dec_int i @ ''.'')))"

definition add_ticket_comment ::
  "call_env \<Rightarrow> int \<Rightarrow> str \<Rightarrow> run_config option \<Rightarrow> str \<Rightarrow> dedup_table \<times> support_world \<Rightarrow>
   (dedup_table \<times> support_world) \<times> str result" where
  "add_ticket_comment env i comment config call_id s =
     (if \<not> comment_args_ok comment then (s, Inl (ValueError ''comment must not be empty''))
      else acting_tool env SUPPORT_ACTIONS ''add_ticket_comment'' ''add_ticket_comment'' call_id config
             (add_ticket_comment_impl (ce_now env) i comment call_id) s)"

text \<open>\<open>page\<close> is what the page renderer gives for the URL.\<close>

definition fetch_external_reference ::
  "call_env \<Rightarrow> str result \<Rightarrow> run_config option \<Rightarrow> str \<Rightarrow> dedup_table \<times> support_world \<Rightarrow>
   (dedup_table \<times> support_world) \<times> str result" where
  "fetch_external_reference env page config call_id s =
     acting_tool env SUPPORT_ACTIONS ''fetch_external_reference'' ''fetch_external_reference'' call_id config
       (\<lambda>c w. (w, map_sum id frame_untrusted page)) s"

section \<open>Sales\<close>

definition SALES_ACTIONS :: "str list" where
  "SALES_ACTIONS =
     [''log_lead_interaction'', ''schedule_followup'', ''package_lead_brief'', ''handoff_to_human'',
      ''list_pending_followups'', ''mark_lead_lost'', ''enrich_lead'', ''web_search'', ''run_command_in_sandbox'',
      ''run_python_in_sandbox'', ''read_sandbox_file'', ''write_sandbox_file'']"

record sales_world =
  sa_db :: crm_db
  sa_posts :: "(str \<times> str) list"

definition log_lead_args_ok :: "str \<Rightarrow> str \<Rightarrow> str \<Rightarrow> bool" where
  "log_lead_args_ok name contact memo = (not_blank name \<and> not_blank contact \<and> not_blank memo)"

definition log_lead_interaction_impl ::
  "int \<Rightarrow> str \<Rightarrow> str \<Rightarrow> str \<Rightarrow> str \<Rightarrow> security_ctx \<Rightarrow> sales_world \<Rightarrow> sales_world \<times> str result" where
  "log_lead_interaction_impl now name contact memo call_id c w =
     (case find_or_create_lead now (tenant c) name contact memo (Some call_id) (sa_db w) of
        (db, i) \<Rightarrow>
          (w\<lparr>sa_db := db\<rparr>, Inr (''Logged interaction for lead #'' @ dec_int i @ '' ('' @ name @ '', '' @ contact @ '').'')))"

definition log_lead_interaction ::
  "call_env \<Rightarrow> str \<Rightarrow> str \<Rightarrow> str \<Rightarrow> run_config option \<Rightarrow> str \<Rightarrow> dedup_table \<times> sales_world \<Rightarrow>
   (dedup_table \<times> sales_world) \<times> str result" where
  "log_lead_interaction env name contact memo config call_id s =
     (if \<not> log_lead_args_ok name contact memo then (s, Inl (ValueError ''must not be empty''))
      else acting_tool env SALES_ACTIONS ''log_lead_interaction'' ''log_lead_interaction'' call_id config
             (log_lead_interaction_impl (ce_now env) name contact memo call_id) s)"

definition schedule_args_ok :: "int \<Rightarrow> str \<Rightarrow> bool" where
  "schedule_args_ok due_in_days memo = (0 \<le> due_in_days \<and> due_in_days \<le> 365 \<and> not_blank memo)"

definition schedule_followup_impl ::
  "int \<Rightarrow> str \<Rightarrow> int \<Rightarrow> str \<Rightarrow> str \<Rightarrow> security_ctx \<Rightarrow> sales_world \<Rightarrow> sales_world \<times> str result" where
  "schedule_followup_impl now contact due_in_days memo call_id c w =
     (let due = now + due_in_days * day_micros
      in case add_followup now (tenant c) contact due memo (principal c) (Some call_id) (sa_db w) of
           (db, res) \<Rightarrow>
             (w\<lparr>sa_db := db\<rparr>,
              map_sum id (\<lambda>r. case r of
                  None \<Rightarrow> ''No lead found for contact '' @ repr_str contact @ '' '' @ em_dash @ '' log an interaction with them first.''
                | Some i \<Rightarrow> ''Follow-up #'' @ dec_int i @ '' scheduled for '' @ iso_date due @ '': '' @ memo) res))"

definition schedule_followup ::
  "call_env \<Rightarrow> str \<Rightarrow> int \<Rightarrow> str \<Rightarrow> run_config option \<Rightarrow> str \<Rightarrow> dedup_table \<times> sales_world \<Rightarrow>
   (dedup_table \<times> sales_world) \<times> str result" where
  "schedule_followup env contact due_in_days memo config call_id s =
     (if \<not> schedule_args_ok due_in_days memo
      then (s, Inl (ValueError (if not_blank memo then ''due_in_days'' else ''note must not be empty'')))
      else acting_tool env SALES_ACTIONS ''schedule_followup'' ''schedule_followup'' call_id config
             (schedule_followup_impl (ce_now env) contact due_in_days memo call_id) s)"

definition BRIEF_NOTES_MAX_CHARS :: nat where "BRIEF_NOTES_MAX_CHARS = 8000"

definition bounded_notes :: "str \<Rightarrow> str" where
  "bounded_notes t =
     (if length t \<le> BRIEF_NOTES_MAX_CHARS then t
      else ''[earlier notes omitted '' @ em_dash @ '' the newest '' @ dec_nat BRIEF_NOTES_MAX_CHARS @
           '' characters follow]'' @ newline @ drop (length t - BRIEF_NOTES_MAX_CHARS) t)"

definition package_lead_brief_impl :: "str \<Rightarrow> security_ctx \<Rightarrow> sales_world \<Rightarrow> str" where
  "package_lead_brief_impl contact c w =
     (case lead_history (tenant c) contact (sa_db w) of
        None \<Rightarrow> ''No lead found for contact '' @ repr_str contact @ ''.''
      | Some (l, agg, fs) \<Rightarrow>
          (let memo = (case agg of Some (n # ns) \<Rightarrow> bounded_notes (n # ns) | _ \<Rightarrow> [])
           in join newline
                ([''Lead: '' @ ld_name l @ '' ('' @ ld_contact l @ '')'',
                  ''Status: '' @ ld_status l,
                  ''Notes:'' @ newline @ (if memo \<noteq> [] then frame_untrusted memo else ''(none)'')] @
                 (if fs = [] then []
                  else ''Follow-ups:'' #
                       map (\<lambda>f. ''  - ['' @ fu_status f @ ''] due '' @ datetime_str (fu_due f) @ '': '' @ fu_note f) fs))))"

definition package_lead_brief :: "call_env \<Rightarrow> str \<Rightarrow> run_config option \<Rightarrow> sales_world \<Rightarrow> str result" where
  "package_lead_brief env contact config w =
     reading_tool env SALES_ACTIONS ''package_lead_brief'' config (package_lead_brief_impl contact) w"

definition handoff_args_ok :: "str \<Rightarrow> str \<Rightarrow> bool" where
  "handoff_args_ok brief_summary reason = (not_blank brief_summary \<and> not_blank reason)"

definition handoff_to_human_impl :: "int \<Rightarrow> str \<Rightarrow> str \<Rightarrow> str \<Rightarrow> security_ctx \<Rightarrow> sales_world \<Rightarrow> sales_world \<times> str result" where
  "handoff_to_human_impl now contact brief_summary reason c w =
     (case set_lead_status now (tenant c) contact ''handed_off'' (sa_db w) of
        (db, False) \<Rightarrow>
          (w\<lparr>sa_db := db\<rparr>,
           Inr (''No lead found for contact '' @ repr_str contact @ '' '' @ em_dash @ '' nothing to hand off.''))
      | (db, True) \<Rightarrow>
          (\<lparr>sa_db = db,
            sa_posts = sa_posts w @
              [(''sales-handoffs'',
                ''['' @ tenant c @ ''] Hot lead '' @ contact @ '' handed off by '' @ principal c @ '' ('' @ reason @ ''):'' @
                newline @ brief_summary)]\<rparr>,
           Inr (''Lead '' @ contact @ '' handed off to a human rep.'')))"

definition handoff_to_human ::
  "call_env \<Rightarrow> str \<Rightarrow> str \<Rightarrow> str \<Rightarrow> run_config option \<Rightarrow> str \<Rightarrow> dedup_table \<times> sales_world \<Rightarrow>
   (dedup_table \<times> sales_world) \<times> str result" where
  "handoff_to_human env contact brief_summary reason config call_id s =
     (if \<not> handoff_args_ok brief_summary reason then (s, Inl (ValueError ''must not be empty''))
      else acting_tool env SALES_ACTIONS ''handoff_to_human'' ''handoff_to_human'' call_id config
             (handoff_to_human_impl (ce_now env) contact brief_summary reason) s)"

definition list_pending_followups_impl :: "str option \<Rightarrow> security_ctx \<Rightarrow> sales_world \<Rightarrow> str" where
  "list_pending_followups_impl contact c w =
     (let fs = list_pending_followups (tenant c) contact (sa_db w)
      in if fs = []
         then (case contact of
                 None \<Rightarrow> ''No pending follow-ups.''
               | Some k \<Rightarrow> ''No pending follow-ups for '' @ repr_str k @ ''.'')
         else join newline
           (map (\<lambda>f. ''- due '' @ datetime_str (pe_due f) @ '': '' @ pe_lead_name f @ '' ('' @ pe_contact f @ '') '' @ em_dash @
                     '' '' @ pe_note f) fs))"

definition list_pending_tool :: "call_env \<Rightarrow> str option \<Rightarrow> run_config option \<Rightarrow> sales_world \<Rightarrow> str result" where
  "list_pending_tool env contact config w =
     reading_tool env SALES_ACTIONS ''list_pending_followups'' config (list_pending_followups_impl contact) w"

definition lost_args_ok :: "str \<Rightarrow> bool" where
  "lost_args_ok reason = not_blank reason"

definition mark_lead_lost_impl :: "int \<Rightarrow> str \<Rightarrow> str \<Rightarrow> str \<Rightarrow> security_ctx \<Rightarrow> sales_world \<Rightarrow> sales_world \<times> str result" where
  "mark_lead_lost_impl now contact reason call_id c w =
     (case mark_lead_lost now (tenant c) contact reason (Some call_id) (sa_db w) of
        (db, updated) \<Rightarrow>
          (w\<lparr>sa_db := db\<rparr>,
           Inr (if \<not> updated then ''No lead found for contact '' @ repr_str contact @ '' '' @ em_dash @ '' nothing to mark lost.''
                else ''Lead '' @ contact @ '' marked lost ('' @ reason @ ''); its pending follow-ups were cancelled.'')))"

definition mark_lead_lost_tool ::
  "call_env \<Rightarrow> str \<Rightarrow> str \<Rightarrow> run_config option \<Rightarrow> str \<Rightarrow> dedup_table \<times> sales_world \<Rightarrow>
   (dedup_table \<times> sales_world) \<times> str result" where
  "mark_lead_lost_tool env contact reason config call_id s =
     (if \<not> lost_args_ok reason then (s, Inl (ValueError ''reason must not be empty''))
      else acting_tool env SALES_ACTIONS ''mark_lead_lost'' ''mark_lead_lost'' call_id config
             (mark_lead_lost_impl (ce_now env) contact reason call_id) s)"

definition enrich_lead_impl ::
  "int \<Rightarrow> str result \<Rightarrow> str \<Rightarrow> str \<Rightarrow> str \<Rightarrow> security_ctx \<Rightarrow> sales_world \<Rightarrow> sales_world \<times> str result" where
  "enrich_lead_impl now page contact url call_id c w =
     (case get_lead (tenant c) contact (sa_db w) of
        None \<Rightarrow>
          (w, Inr (''No lead found for contact '' @ repr_str contact @ '' '' @ em_dash @ '' log an interaction with them first.''))
      | Some (l, _) \<Rightarrow>
          (case page of
             Inl e \<Rightarrow> (w, Inl e)
           | Inr page_text \<Rightarrow>
               (w\<lparr>sa_db := fst (append_lead_note now (tenant c) contact
                     (''Website research ('' @ url @ ''):'' @ newline @ page_text) (Some call_id) (sa_db w))\<rparr>,
                Inr (''Added research from '' @ url @ '' to '' @ ld_name l @ [squote] @ ''s notes. Summary of what was found:'' @ newline @
                     frame_untrusted (take 500 page_text)))))"

definition enrich_lead_from_website ::
  "call_env \<Rightarrow> str result \<Rightarrow> str \<Rightarrow> str \<Rightarrow> run_config option \<Rightarrow> str \<Rightarrow> dedup_table \<times> sales_world \<Rightarrow>
   (dedup_table \<times> sales_world) \<times> str result" where
  "enrich_lead_from_website env page contact url config call_id s =
     acting_tool env SALES_ACTIONS ''enrich_lead'' ''enrich_lead_from_website'' call_id config
       (enrich_lead_impl (ce_now env) page contact url call_id) s"

section \<open>The follow-up sweep\<close>

definition build_followup_prompt :: "str \<Rightarrow> str \<Rightarrow> str \<Rightarrow> str" where
  "build_followup_prompt lead_name contact memo =
     ''Lead: '' @ lead_name @ '' ('' @ contact @ '')'' @ newline @ ''Follow-up note: '' @ memo @ newline @ newline @
     ''Draft the nudge message now.''"

text \<open>
  \<open>draft\<close> is the metered model call on one prompt, which may raise; then the rest is not swept.
\<close>

fun sweep_items :: "(str \<Rightarrow> str result) \<Rightarrow> str \<Rightarrow> due_row list \<Rightarrow> sales_world \<Rightarrow> sales_world \<times> str list result" where
  "sweep_items draft ten [] w = (w, Inr [])"
| "sweep_items draft ten (x # xs) w =
     (case draft (build_followup_prompt (pe_lead_name x) (pe_contact x) (pe_note x)) of
        Inl e \<Rightarrow> (w, Inl e)
      | Inr t \<Rightarrow>
          (case sweep_items draft ten xs
                  \<lparr>sa_db = mark_followup_done ten (pe_id x) (sa_db w),
                   sa_posts = sa_posts w @
                     [(''sales-followups'',
                       ''Draft nudge for '' @ pe_lead_name x @ '' ('' @ pe_contact x @ ''):'' @ newline @ t)]\<rparr> of
             (w', res) \<Rightarrow> (w', map_sum id ((#) t) res)))"

definition run_followup_sweep :: "(str \<Rightarrow> str result) \<Rightarrow> int \<Rightarrow> str \<Rightarrow> sales_world \<Rightarrow> sales_world \<times> str list result" where
  "run_followup_sweep draft now ten w = sweep_items draft ten (due_followups ten now (sa_db w)) w"

end
