(* ===== verification/Crm_Laws.thy ===== *)
theory Crm_Laws
  imports Crm_Store
begin

text \<open>
  What the sales store keeps: its invariant under every operation, the view of a tenant under the
  operations of the others, and that every read is a function of the reader's own rows.
\<close>

section \<open>The invariant\<close>

definition same_lead :: "lead_row \<Rightarrow> lead_row \<Rightarrow> bool" where
  "same_lead l l' = (ld_id l = ld_id l' \<and> ld_tenant l = ld_tenant l' \<and> ld_contact l = ld_contact l')"

lemma update_leads_simps [simp]:
  "crm_followups (update_leads P f db) = crm_followups db"
  "crm_notes (update_leads P f db) = crm_notes db"
  "tbl_last (crm_leads (update_leads P f db)) = tbl_last (crm_leads db)"
  "tbl_rows (crm_leads (update_leads P f db)) = map (\<lambda>l. if P l then f l else l) (tbl_rows (crm_leads db))"
  by (simp_all add: update_leads_def)

lemma insert_note_simps [simp]:
  "crm_leads (insert_note now ten i note key db) = crm_leads db"
  "crm_followups (insert_note now ten i note key db) = crm_followups db"
  by (simp_all add: insert_note_def)

lemma update_followups_simps [simp]:
  "crm_leads (update_followups P status db) = crm_leads db"
  "crm_notes (update_followups P status db) = crm_notes db"
  "tbl_rows (crm_followups (update_followups P status db)) =
     map (\<lambda>f. if P f then f\<lparr>fu_status := status\<rparr> else f) (tbl_rows (crm_followups db))"
  by (simp_all add: update_followups_def)

lemma crm_ok_cong:
  assumes "map (\<lambda>l. (ld_id l, ld_tenant l, ld_contact l)) (tbl_rows (crm_leads db')) =
      map (\<lambda>l. (ld_id l, ld_tenant l, ld_contact l)) (tbl_rows (crm_leads db))"
    and "tbl_last (crm_leads db) \<le> tbl_last (crm_leads db')"
    and "\<And>f. f \<in> set (tbl_rows (crm_followups db')) \<Longrightarrow>
      \<exists>g. fu_lead g = fu_lead f \<and> fu_tenant g = fu_tenant f \<and> (g \<in> set (tbl_rows (crm_followups db)) \<or> owned db g)"
    and ok: "crm_ok db"
  shows "crm_ok db'"
proof -
  let ?k = "\<lambda>l. (ld_id l, ld_tenant l, ld_contact l)"
  let ?new = "tbl_rows (crm_leads db')" and ?old = "tbl_rows (crm_leads db)"
  have ids: "map ld_id ?new = map ld_id ?old" using arg_cong [OF assms(1), of "map fst"] by (simp add: comp_def)
  have names: "map (\<lambda>l. (ld_tenant l, ld_contact l)) ?new = map (\<lambda>l. (ld_tenant l, ld_contact l)) ?old"
    using arg_cong [OF assms(1), of "map snd"] by (simp add: comp_def)
  have ks: "?k ` set ?new = ?k ` set ?old" using arg_cong [OF assms(1), of set] by simp
  have below: "ld_id l \<le> tbl_last (crm_leads db')" if "l \<in> set ?new" for l
  proof -
    have "ld_id l \<in> set (map ld_id ?new)" using that by simp
    then obtain m where "m \<in> set ?old" "ld_id m = ld_id l" unfolding ids by auto
    then show ?thesis using ok assms(2) by (force simp: crm_ok_def)
  qed
  have own: "owned db' f" if g: "owned db g" "fu_lead g = fu_lead f" "fu_tenant g = fu_tenant f" for f g
  proof -
    obtain l where l: "l \<in> set ?old" "ld_id l = fu_lead f" "ld_tenant l = fu_tenant f" using g by (auto simp: owned_def)
    have "?k l \<in> ?k ` set ?new" unfolding ks using l(1) by (rule imageI)
    then obtain m where "m \<in> set ?new" "?k m = ?k l" by (elim imageE) simp
    then show ?thesis using l by (auto simp: owned_def)
  qed
  have "owned db' f" if "f \<in> set (tbl_rows (crm_followups db'))" for f
    using assms(3) [OF that] own ok by (auto simp: crm_ok_def)
  then show ?thesis using ids names below ok by (simp add: crm_ok_def)
qed

lemma update_leads_ok:
  assumes "\<And>l. same_lead (f l) l" and "crm_ok db"
  shows "crm_ok (update_leads P f db)"
  using assms by (intro crm_ok_cong [OF _ _ _ assms(2)]) (auto simp: same_lead_def)

lemma insert_note_ok: "crm_ok db \<Longrightarrow> crm_ok (insert_note now ten i note key db)"
  by (rule crm_ok_cong) auto

lemma update_followups_ok: "crm_ok db \<Longrightarrow> crm_ok (update_followups P status db)"
  by (rule crm_ok_cong) (auto split: if_splits)

lemma find_leadD: "find_lead ten contact db = Some l \<Longrightarrow>
  l \<in> set (tbl_rows (crm_leads db)) \<and> ld_tenant l = ten \<and> ld_contact l = contact"
  by (auto simp: find_lead_def is_lead_def find_Some_iff)

lemma get_leadD: "get_lead ten contact db = Some (l, agg) \<Longrightarrow> find_lead ten contact db = Some l"
  by (auto simp: get_lead_def)

lemma upsert_lead_ok:
  assumes "crm_ok db"
  shows "crm_ok (fst (upsert_lead now ten name contact db))"
proof (cases "find_lead ten contact db")
  case None
  have new: "(ten, contact) \<notin> (\<lambda>l. (ld_tenant l, ld_contact l)) ` set (tbl_rows (crm_leads db))"
    using None by (auto simp: find_lead_def find_None_iff is_lead_def)
  have fresh: "tbl_last (crm_leads db) + 1 \<notin> ld_id ` set (tbl_rows (crm_leads db))"
    using assms by (force simp: crm_ok_def)
  have below: "\<forall>l\<in>set (tbl_rows (crm_leads db)). ld_id l \<le> tbl_last (crm_leads db) + 1"
    using assms by (force simp: crm_ok_def)
  show ?thesis using None new fresh below assms by (auto simp: upsert_lead_def Let_def crm_ok_def owned_def)
next
  case (Some l)
  have "crm_ok (db\<lparr>crm_leads := (crm_leads db)\<lparr>tbl_last := tbl_last (crm_leads db) + 1\<rparr>\<rparr>)"
    by (rule crm_ok_cong [OF _ _ _ assms]) auto
  then show ?thesis using Some by (simp add: upsert_lead_def Let_def update_leads_ok same_lead_def)
qed

lemma add_followup_ok:
  assumes "crm_ok db"
  shows "crm_ok (fst (add_followup now ten contact due note created_by key db))"
proof (cases "get_lead ten contact db")
  case None
  then show ?thesis using assms by (simp add: add_followup_def)
next
  case (Some p)
  obtain l agg where p: "p = (l, agg)" by (cases p)
  have l: "l \<in> set (tbl_rows (crm_leads db))" "ld_tenant l = ten" using Some p get_leadD find_leadD by metis+
  let ?mk = "new_followup now ten (ld_id l) due note created_by key"
  let ?t = "fst (insert_or_read_back fu_id fu_key key ?mk (crm_followups db))"
  have "crm_ok (db\<lparr>crm_followups := ?t\<rparr>)"
  proof (rule crm_ok_cong [OF _ _ _ assms])
    fix f
    assume "f \<in> set (tbl_rows (crm_followups (db\<lparr>crm_followups := ?t\<rparr>)))"
    then have "f \<in> set (tbl_rows (crm_followups db)) \<or> f = ?mk (tbl_last (crm_followups db) + 1)"
      using insert_or_read_back_rows [of fu_id fu_key key ?mk "crm_followups db"] by auto
    then show "\<exists>g. fu_lead g = fu_lead f \<and> fu_tenant g = fu_tenant f \<and>
        (g \<in> set (tbl_rows (crm_followups db)) \<or> owned db g)"
      using l by (intro exI [of _ f]) (auto simp: owned_def new_followup_def)
  qed simp_all
  then show ?thesis using Some p by (simp add: add_followup_def case_prod_beta)
qed

lemmas crm_keeps = update_leads_ok insert_note_ok update_followups_ok upsert_lead_ok add_followup_ok

lemma crm_act_ok: "crm_ok db \<Longrightarrow> crm_ok (crm_act ten x db)"
proof (cases x)
  case (FindOrCreateLead now name contact memo key)
  moreover assume "crm_ok db"
  ultimately show ?thesis using upsert_lead_ok [of db now ten name contact]
    by (simp add: find_or_create_lead_def crm_keeps case_prod_beta)
qed (auto simp: set_lead_status_def mark_lead_lost_def mark_followup_done_def append_lead_note_def crm_keeps same_lead_def
    Let_def split: option.splits)

lemma empty_crm_ok: "crm_ok empty_crm"
  by (simp add: crm_ok_def empty_crm_def empty_table_def)

section \<open>The view of the other tenants\<close>

lemma update_leads_view:
  assumes "\<And>l. P l \<Longrightarrow> ld_tenant l \<noteq> b" and "\<And>l. ld_tenant (f l) = ld_tenant l"
  shows "crm_view b (update_leads P f db) = crm_view b db"
proof -
  have "filter (\<lambda>l. ld_tenant l = b) (map (\<lambda>l. if P l then f l else l) ls) = filter (\<lambda>l. ld_tenant l = b) ls" for ls
    using assms by (intro filter_map_unchanged) auto
  then show ?thesis by (simp add: crm_view_def)
qed

lemma update_followups_view:
  assumes "\<And>f. P f \<Longrightarrow> fu_tenant f \<noteq> b"
  shows "crm_view b (update_followups P status db) = crm_view b db"
proof -
  have "filter (\<lambda>f. fu_tenant f = b) (map (\<lambda>f. if P f then f\<lparr>fu_status := status\<rparr> else f) fs) =
      filter (\<lambda>f. fu_tenant f = b) fs" for fs
    using assms by (intro filter_map_unchanged) auto
  then show ?thesis by (simp add: crm_view_def)
qed

lemma insert_note_view: "a \<noteq> b \<Longrightarrow> crm_view b (insert_note now a i note key db) = crm_view b db"
  by (simp add: crm_view_def insert_note_def filter_insert_keyed)

lemma upsert_lead_view:
  assumes "a \<noteq> b"
  shows "crm_view b (fst (upsert_lead now a name contact db)) = crm_view b db"
proof -
  have "crm_view b (update_leads (is_lead a contact) (\<lambda>l. l\<lparr>ld_updated := now\<rparr>) d) = crm_view b d" for d
    using assms by (intro update_leads_view) (auto simp: is_lead_def)
  then show ?thesis using assms
    by (auto simp: upsert_lead_def Let_def split: option.splits) (auto simp: crm_view_def)
qed

lemma crm_act_view: "a \<noteq> b \<Longrightarrow> crm_view b (crm_act a x db) = crm_view b db"
proof -
  assume ab: "a \<noteq> b"
  have lead: "crm_view b (update_leads (is_lead a contact) f d) = crm_view b d"
    if "\<And>l. ld_tenant (f l) = ld_tenant l" for contact f d
    using ab that by (intro update_leads_view) (auto simp: is_lead_def)
  have fup: "crm_view b (update_followups (\<lambda>f. fu_tenant f = a \<and> Q f) status d) = crm_view b d" for Q status d
    using ab by (intro update_followups_view) auto
  show ?thesis
  proof (cases x)
    case (FindOrCreateLead now name contact memo key)
    then show ?thesis using upsert_lead_view [OF ab, of now name contact db]
      by (simp add: find_or_create_lead_def insert_note_view [OF ab] case_prod_beta)
  next
    case (AddFollowup now contact due memo created_by key)
    then show ?thesis
      using ab filter_insert_or_read_back [of "\<lambda>f. fu_tenant f = b" "new_followup now a i due memo created_by key"
          "crm_followups db" fu_id fu_key key for i]
      by (auto simp: add_followup_def crm_view_def new_followup_def case_prod_beta split: option.splits)
  qed (auto simp: set_lead_status_def mark_lead_lost_def mark_followup_done_def append_lead_note_def lead fup
      insert_note_view [OF ab] Let_def split: option.splits)
qed

interpretation cs: tenant_scoped crm_act crm_ok crm_view
  by unfold_locales (simp_all add: crm_act_ok crm_act_view)

section \<open>Reads\<close>

lemma find_lead_view: "find_lead ten contact db = List.find (is_lead ten contact) (fst (crm_view ten db))"
proof -
  have "is_lead ten contact = (\<lambda>l. ld_tenant l = ten \<and> is_lead ten contact l)" by (auto simp: is_lead_def fun_eq_iff)
  then show ?thesis by (simp add: crm_view_def find_filter find_lead_def)
qed

lemma lead_note_texts_view:
  assumes "ld_tenant l = ten" and "crm_view ten db = crm_view ten db'"
  shows "lead_note_texts l db = lead_note_texts l db'"
proof -
  have "filter (\<lambda>n. nt_lead n = ld_id l \<and> nt_tenant n = ten) (tbl_rows (crm_notes d)) =
      filter (\<lambda>n. nt_lead n = ld_id l) (fst (snd (crm_view ten d)))" for d
    by (simp add: crm_view_def conj_commute)
  then show ?thesis using assms by (simp add: lead_note_texts_def)
qed

lemma get_lead_view:
  assumes "crm_view ten db = crm_view ten db'"
  shows "get_lead ten contact db = get_lead ten contact db'"
proof -
  have f: "find_lead ten contact db = find_lead ten contact db'" using assms by (simp add: find_lead_view)
  show ?thesis
  proof (cases "find_lead ten contact db")
    case None
    then show ?thesis using f by (simp add: get_lead_def)
  next
    case (Some l)
    then show ?thesis using f lead_note_texts_view [OF _ assms, of l] find_leadD [OF Some] by (simp add: get_lead_def)
  qed
qed

lemma lead_history_view:
  assumes "crm_view ten db = crm_view ten db'"
  shows "lead_history ten contact db = lead_history ten contact db'"
proof -
  have f: "filter (\<lambda>f. fu_tenant f = ten \<and> fu_lead f = i) (tbl_rows (crm_followups d)) =
      filter (\<lambda>f. fu_lead f = i) (snd (snd (crm_view ten d)))" for i d
    by (simp add: crm_view_def conj_commute)
  show ?thesis unfolding lead_history_def f assms get_lead_view [OF assms, of contact] ..
qed

text \<open>The join has no tenant predicate on the lead; the invariant supplies it.\<close>

lemma owner_unique:
  assumes "crm_ok db" and "f \<in> set (tbl_rows (crm_followups db))" and "l \<in> set (tbl_rows (crm_leads db))"
    and "ld_id l = fu_lead f"
  shows "ld_tenant l = fu_tenant f"
proof -
  obtain m where "m \<in> set (tbl_rows (crm_leads db))" "ld_id m = fu_lead f" "ld_tenant m = fu_tenant f"
    using assms(1,2) by (auto simp: crm_ok_def owned_def)
  moreover have "inj_on ld_id (set (tbl_rows (crm_leads db)))" using assms(1) by (simp add: crm_ok_def distinct_map)
  ultimately show ?thesis using assms(3,4) by (metis inj_onD)
qed

lemma join_leads_view:
  assumes "crm_ok db"
  shows "join_leads (pending_of ten db) (tbl_rows (crm_leads db)) =
    join_leads (filter (\<lambda>f. fu_status f = ''pending'') (snd (snd (crm_view ten db)))) (fst (crm_view ten db))"
proof -
  have p: "pending_of ten db = filter (\<lambda>f. fu_status f = ''pending'') (snd (snd (crm_view ten db)))"
    by (simp add: pending_of_def crm_view_def conj_commute)
  have "filter (\<lambda>l. ld_id l = fu_lead f) (tbl_rows (crm_leads db)) =
      filter (\<lambda>l. ld_id l = fu_lead f) (fst (crm_view ten db))" if "f \<in> set (pending_of ten db)" for f
  proof -
    have "f \<in> set (tbl_rows (crm_followups db))" "fu_tenant f = ten" using that by (auto simp: pending_of_def)
    then show ?thesis using owner_unique [OF assms] by (auto simp: crm_view_def intro: filter_cong)
  qed
  then show ?thesis unfolding p [symmetric] join_leads_def by (intro arg_cong [where f = concat] map_cong) auto
qed

lemma list_pending_view:
  assumes "crm_ok db" and "crm_ok db'" and "crm_view ten db = crm_view ten db'"
  shows "list_pending_followups ten contact db = list_pending_followups ten contact db'"
    and "due_followups ten as_of db = due_followups ten as_of db'"
  using assms by (simp_all add: list_pending_followups_def due_followups_def join_leads_view)

end
