(* ===== verification/Domain_Claims.thy ===== *)
theory Domain_Claims
  imports Domain_Tools Crm_Laws
begin

text \<open>
  What the support and sales tools promise: they fail closed, stay inside their tenant, write one
  row per call id even when the call ledger is down, and a lead that is lost is not nudged again.
\<close>

section \<open>The wrappers\<close>

definition config_tenant :: "run_config option \<Rightarrow> str option" where
  "config_tenant config = map_option tenant (ctx_from_config config)"

lemma refuse_tenant: "domain_ctx_or_refuse actions config action = Some c \<Longrightarrow> config_tenant config = Some (tenant c)"
  using domain_ctx_or_refuse_SomeD by (simp add: config_tenant_def)

text \<open>A call of an acting tool leaves the store as it was or as the implementation makes it, under the stamped context.\<close>

lemma acting_tool_store:
  "snd (fst (acting_tool env actions action tool_name call_id config impl (led, d))) = d \<or>
   (\<exists>c. domain_ctx_or_refuse actions config action = Some c \<and>
     snd (fst (acting_tool env actions action tool_name call_id config impl (led, d))) = fst (impl c d))"
  by (cases "domain_ctx_or_refuse actions config action")
    (auto simp: acting_tool_def after_run_def split: prod.splits)

section \<open>The sales tools as operations on the store\<close>

datatype sales_call =
    LogLead str str str
  | Schedule str int str
  | Handoff str str str
  | MarkLost str str
  | Enrich "str result" str str

fun sales_tool ::
  "call_env \<Rightarrow> run_config option \<Rightarrow> str \<Rightarrow> sales_call \<Rightarrow> dedup_table \<times> sales_world \<Rightarrow> (dedup_table \<times> sales_world) \<times> str result" where
  "sales_tool env config call_id (LogLead name contact memo) s = log_lead_interaction env name contact memo config call_id s"
| "sales_tool env config call_id (Schedule contact days memo) s = schedule_followup env contact days memo config call_id s"
| "sales_tool env config call_id (Handoff contact brief reason) s = handoff_to_human env contact brief reason config call_id s"
| "sales_tool env config call_id (MarkLost contact reason) s = mark_lead_lost_tool env contact reason config call_id s"
| "sales_tool env config call_id (Enrich page contact url) s = enrich_lead_from_website env page contact url config call_id s"

text \<open>\<open>own_act ten d d'\<close>: \<open>d'\<close> is \<open>d\<close> or one store operation of the tenant \<open>ten\<close> after it.\<close>

definition own_act :: "str \<Rightarrow> crm_db \<Rightarrow> crm_db \<Rightarrow> bool" where
  "own_act ten d d' = (d' = d \<or> (\<exists>x. d' = crm_act ten x d))"

lemma own_actI: "d' = crm_act ten x d \<Longrightarrow> own_act ten d d'"
  by (auto simp: own_act_def)

lemma impl_acts:
  "own_act (tenant c) (sa_db w) (sa_db (fst (log_lead_interaction_impl now name contact memo call_id c w)))"
  "own_act (tenant c) (sa_db w) (sa_db (fst (schedule_followup_impl now contact days memo call_id c w)))"
  "own_act (tenant c) (sa_db w) (sa_db (fst (handoff_to_human_impl now contact brief reason c w)))"
  "own_act (tenant c) (sa_db w) (sa_db (fst (mark_lead_lost_impl now contact reason call_id c w)))"
proof -
  show "own_act (tenant c) (sa_db w) (sa_db (fst (log_lead_interaction_impl now name contact memo call_id c w)))"
    by (rule own_actI [of _ _ "FindOrCreateLead now name contact memo (Some call_id)"])
      (simp add: log_lead_interaction_impl_def case_prod_beta)
  show "own_act (tenant c) (sa_db w) (sa_db (fst (schedule_followup_impl now contact days memo call_id c w)))"
    by (rule own_actI [of _ _ "AddFollowup now contact (now + days * day_micros) memo (principal c) (Some call_id)"])
      (simp add: schedule_followup_impl_def case_prod_beta Let_def)
  show "own_act (tenant c) (sa_db w) (sa_db (fst (handoff_to_human_impl now contact brief reason c w)))"
    by (rule own_actI [of _ _ "SetLeadStatus now contact ''handed_off''"])
      (auto simp: handoff_to_human_impl_def split: prod.splits bool.splits)
  show "own_act (tenant c) (sa_db w) (sa_db (fst (mark_lead_lost_impl now contact reason call_id c w)))"
    by (rule own_actI [of _ _ "MarkLeadLost now contact reason (Some call_id)"])
      (simp add: mark_lead_lost_impl_def case_prod_beta)
qed

lemma enrich_acts: "own_act (tenant c) (sa_db w) (sa_db (fst (enrich_lead_impl now page contact url call_id c w)))"
proof (cases page)
  case (Inl e)
  then show ?thesis by (simp add: enrich_lead_impl_def own_act_def split: option.splits prod.splits)
next
  case (Inr p)
  let ?x = "AppendLeadNote now contact (''Website research ('' @ url @ ''):'' @ newline @ p) (Some call_id)"
  have "sa_db (fst (enrich_lead_impl now page contact url call_id c w)) = sa_db w \<or>
      sa_db (fst (enrich_lead_impl now page contact url call_id c w)) = crm_act (tenant c) ?x (sa_db w)"
    using Inr by (simp add: enrich_lead_impl_def split: option.splits prod.splits)
  then show ?thesis unfolding own_act_def by blast
qed

text \<open>What a tool call may do to the store: nothing, or an operation of the tenant in its configuration.\<close>

definition within_tenant :: "run_config option \<Rightarrow> crm_db \<Rightarrow> crm_db \<Rightarrow> bool" where
  "within_tenant config d d' = (d' = d \<or> (\<exists>ten. config_tenant config = Some ten \<and> own_act ten d d'))"

lemma acting_within_tenant:
  assumes "\<And>c. own_act (tenant c) (sa_db w) (sa_db (fst (impl c w)))"
  shows "within_tenant config (sa_db w)
    (sa_db (snd (fst (acting_tool env actions action tool_name call_id config impl (led, w)))))"
  using acting_tool_store [of env actions action tool_name call_id config impl led w]
proof
  assume "snd (fst (acting_tool env actions action tool_name call_id config impl (led, w))) = w"
  then show ?thesis by (simp add: within_tenant_def)
next
  assume "\<exists>c. domain_ctx_or_refuse actions config action = Some c \<and>
    snd (fst (acting_tool env actions action tool_name call_id config impl (led, w))) = fst (impl c w)"
  then obtain c where "domain_ctx_or_refuse actions config action = Some c"
    "snd (fst (acting_tool env actions action tool_name call_id config impl (led, w))) = fst (impl c w)" by blast
  then show ?thesis using assms [of c] refuse_tenant by (auto simp: within_tenant_def)
qed

lemma within_tenant_refl [simp]: "within_tenant config d d"
  by (simp add: within_tenant_def)

lemma sales_tool_acts: "within_tenant config (sa_db w) (sa_db (snd (fst (sales_tool env config call_id x (led, w)))))"
  by (cases x)
    (simp_all add: log_lead_interaction_def schedule_followup_def handoff_to_human_def mark_lead_lost_tool_def
      enrich_lead_from_website_def acting_within_tenant impl_acts enrich_acts)

lemma within_tenant_view:
  assumes "within_tenant config d d'" and "config_tenant config \<noteq> Some b" and "crm_ok d"
  shows "crm_ok d' \<and> crm_view b d' = crm_view b d"
  using assms by (auto simp: within_tenant_def own_act_def crm_act_ok crm_act_view)

text \<open>A history of sales tool calls, each with its environment, its configuration and its call id.\<close>

definition sales_history ::
  "(call_env \<times> run_config option \<times> str \<times> sales_call) list \<Rightarrow> dedup_table \<times> sales_world \<Rightarrow> dedup_table \<times> sales_world" where
  "sales_history calls s = fold (\<lambda>(env, config, call_id, x) s. fst (sales_tool env config call_id x s)) calls s"

lemma sales_history_view:
  assumes "crm_ok (sa_db (snd s))" and "\<forall>(env, config, call_id, x)\<in>set calls. config_tenant config \<noteq> Some b"
  shows "crm_ok (sa_db (snd (sales_history calls s))) \<and>
    crm_view b (sa_db (snd (sales_history calls s))) = crm_view b (sa_db (snd s))"
  using assms
proof (induction calls arbitrary: s)
  case Nil
  then show ?case by (simp add: sales_history_def)
next
  case (Cons call calls)
  obtain env config call_id x where call: "call = (env, config, call_id, x)" by (cases call)
  obtain led w where s: "s = (led, w)" by (cases s)
  let ?s = "fst (sales_tool env config call_id x s)"
  have b: "config_tenant config \<noteq> Some b" using Cons.prems(2) call by simp
  have "crm_ok (sa_db (snd ?s)) \<and> crm_view b (sa_db (snd ?s)) = crm_view b (sa_db (snd s))"
    using within_tenant_view [OF sales_tool_acts b] Cons.prems(1) s by simp
  then show ?case using Cons.IH [of ?s] Cons.prems(2) call by (simp add: sales_history_def)
qed

section \<open>Tickets under one call id\<close>

definition ticket_history ::
  "(call_env \<times> str \<times> str \<times> ticket_priority option \<times> run_config option \<times> str) list \<Rightarrow> dedup_table \<times> support_world \<Rightarrow>
   dedup_table \<times> support_world" where
  "ticket_history calls s =
     fold (\<lambda>(env, subject, description, priority, config, call_id) s.
             fst (create_ticket env subject description priority config call_id s)) calls s"

lemma create_ticket_rows:
  "sw_db (snd (fst (create_ticket env subject description priority config call_id (led, w)))) = sw_db w \<or>
   (\<exists>q. tr_key q = Some call_id \<and>
     sw_db (snd (fst (create_ticket env subject description priority config call_id (led, w)))) =
     fst (request_ticket q (sw_db w)))"
proof -
  let ?p = "case priority of None \<Rightarrow> Normal | Some p \<Rightarrow> p"
  have impl: "\<exists>q. tr_key q = Some call_id \<and>
      sw_db (fst (create_ticket_impl (ce_now env) subject description ?p call_id c w)) = fst (request_ticket q (sw_db w))" for c
    by (intro exI [of _ "\<lparr>tr_now = ce_now env, tr_tenant = tenant c, tr_requester = principal c, tr_subject = subject,
          tr_description = description, tr_priority = priority_value ?p, tr_key = Some call_id\<rparr>"])
      (simp add: create_ticket_impl_def request_ticket_def case_prod_beta)
  show ?thesis
    using acting_tool_store [of env SUPPORT_ACTIONS "''create_ticket''" "''create_ticket''" call_id config
        "create_ticket_impl (ce_now env) subject description ?p call_id" led w] impl
    by (auto simp: create_ticket_def)
qed

lemma ticket_history_one_row:
  assumes "length (filter (\<lambda>t. tk_key t = Some k) (tbl_rows (tickets (sw_db (snd s))))) \<le> 1"
  shows "length (filter (\<lambda>t. tk_key t = Some k) (tbl_rows (tickets (sw_db (snd (ticket_history calls s)))))) \<le> 1"
  using assms
proof (induction calls arbitrary: s)
  case Nil
  then show ?case by (simp add: ticket_history_def)
next
  case (Cons call calls)
  obtain env subject description priority config call_id where
    call: "call = (env, subject, description, priority, config, call_id)" by (cases call)
  obtain led w where s: "s = (led, w)" by (cases s)
  let ?s = "fst (create_ticket env subject description priority config call_id s)"
  have "length (filter (\<lambda>t. tk_key t = Some k) (tbl_rows (tickets (sw_db (snd ?s))))) \<le> 1"
    using create_ticket_rows [of env subject description priority config call_id led w] Cons.prems s
      tk.one_row_kept [of k "sw_db w"] by (metis snd_conv)
  then show ?case using Cons.IH [of ?s] call by (simp add: ticket_history_def)
qed

section \<open>Lost leads\<close>

lemma find_lead_unique:
  assumes "crm_ok db" and "find_lead ten contact db = Some l" and "m \<in> set (tbl_rows (crm_leads db))"
    and "ld_tenant m = ten" and "ld_contact m = contact"
  shows "m = l"
proof -
  have "inj_on (\<lambda>l. (ld_tenant l, ld_contact l)) (set (tbl_rows (crm_leads db)))"
    using assms(1) by (simp add: crm_ok_def distinct_map)
  then show ?thesis using find_leadD [OF assms(2)] assms(3-5) by (auto dest: inj_onD)
qed

lemma join_leads_mem:
  "p \<in> set (join_leads fs ls) \<Longrightarrow>
   \<exists>f\<in>set fs. \<exists>l\<in>set ls. ld_id l = fu_lead f \<and> pe_contact p = ld_contact l \<and> pe_id p = fu_id f \<and> pe_due p = fu_due f"
  unfolding join_leads_def by (fastforce simp del: bex_simps)

lemma lost_not_pending:
  assumes ok: "crm_ok db" and lost: "mark_lead_lost now ten contact reason key db = (db', True)"
    and p: "p \<in> set (join_leads (pending_of ten db') (tbl_rows (crm_leads db')))"
  shows "pe_contact p \<noteq> contact"
proof
  assume c: "pe_contact p = contact"
  obtain l agg where l: "get_lead ten contact db = Some (l, agg)"
    using lost by (auto simp: mark_lead_lost_def split: option.splits)
  let ?db1 = "update_leads (is_lead ten contact) (\<lambda>l. l\<lparr>ld_status := ''lost'', ld_updated := now\<rparr>) db"
  have db': "db' = update_followups (\<lambda>f. fu_tenant f = ten \<and> fu_lead f = ld_id l \<and> fu_status f = ''pending'') ''cancelled''
      (insert_note now ten (ld_id l) reason key ?db1)"
    using lost l by (simp add: mark_lead_lost_def Let_def)
  have ok': "crm_ok db'" using crm_act_ok [OF ok, of ten "MarkLeadLost now contact reason key"] lost by simp
  obtain f m where fm: "f \<in> set (pending_of ten db')" "m \<in> set (tbl_rows (crm_leads db'))" "ld_id m = fu_lead f"
      "ld_contact m = contact"
    using join_leads_mem [OF p] c by auto
  have f: "f \<in> set (tbl_rows (crm_followups db'))" "fu_tenant f = ten" "fu_status f = ''pending''"
    using fm(1) by (auto simp: pending_of_def)
  have mt: "ld_tenant m = ten" using owner_unique [OF ok' f(1) fm(2,3)] f(2) by simp
  obtain m0 where m0: "m0 \<in> set (tbl_rows (crm_leads db))" "ld_id m0 = ld_id m" "ld_tenant m0 = ten" "ld_contact m0 = contact"
  proof -
    let ?f = "\<lambda>l. if is_lead ten contact l then l\<lparr>ld_status := ''lost'', ld_updated := now\<rparr> else l"
    have "m \<in> ?f ` set (tbl_rows (crm_leads db))" using fm(2) by (simp only: db' update_followups_simps insert_note_simps
        update_leads_simps set_map)
    then obtain n where n: "n \<in> set (tbl_rows (crm_leads db))" "m = ?f n" by (elim imageE)
    have "ld_id n = ld_id m" "ld_tenant n = ten" "ld_contact n = contact" using n(2) mt fm(4) by (simp_all split: if_splits)
    then show ?thesis using that n(1) by blast
  qed
  have "ld_id m = ld_id l" using find_lead_unique [OF ok get_leadD [OF l] m0(1,3,4)] m0(2) by simp
  then have fl: "fu_lead f = ld_id l" using fm(3) by simp
  let ?P = "\<lambda>f. fu_tenant f = ten \<and> fu_lead f = ld_id l \<and> fu_status f = ''pending''"
  have "f \<in> (\<lambda>f. if ?P f then f\<lparr>fu_status := ''cancelled''\<rparr> else f) ` set (tbl_rows (crm_followups db))"
    using f(1) by (simp only: db' update_followups_simps insert_note_simps update_leads_simps set_map)
  then obtain g where "f = (if ?P g then g\<lparr>fu_status := ''cancelled''\<rparr> else g)" by (elim imageE)
  then show False using f(2,3) fl by (cases "?P g") simp_all
qed

section \<open>The sweep\<close>

lemma mark_done_pending:
  "pending_of ten (mark_followup_done ten i db) = filter (\<lambda>f. fu_id f \<noteq> i) (pending_of ten db)"
proof -
  have "filter (\<lambda>f. fu_tenant f = ten \<and> fu_status f = ''pending'')
      (map (\<lambda>f. if fu_tenant f = ten \<and> fu_id f = i then f\<lparr>fu_status := ''done''\<rparr> else f) fs) =
      filter (\<lambda>f. fu_id f \<noteq> i) (filter (\<lambda>f. fu_tenant f = ten \<and> fu_status f = ''pending'') fs)" for fs
    by (induction fs) auto
  then show ?thesis by (simp add: pending_of_def mark_followup_done_def)
qed

lemma mark_done_leads [simp]: "crm_leads (mark_followup_done ten i db) = crm_leads db"
  by (simp add: mark_followup_done_def)

lemma sweep_items_result:
  assumes "sweep_items draft ten xs w = (w', Inr drafts)"
  shows "length drafts = length xs \<and> length (sa_posts w') = length (sa_posts w) + length xs \<and>
    crm_leads (sa_db w') = crm_leads (sa_db w) \<and>
    pending_of ten (sa_db w') = filter (\<lambda>f. fu_id f \<notin> pe_id ` set xs) (pending_of ten (sa_db w))"
  using assms
proof (induction xs arbitrary: w drafts)
  case (Cons x xs)
  obtain t where t: "draft (build_followup_prompt (pe_lead_name x) (pe_contact x) (pe_note x)) = Inr t"
    using Cons.prems by (auto split: sum.splits)
  let ?w = "\<lparr>sa_db = mark_followup_done ten (pe_id x) (sa_db w),
     sa_posts = sa_posts w @ [(''sales-followups'',
       ''Draft nudge for '' @ pe_lead_name x @ '' ('' @ pe_contact x @ ''):'' @ newline @ t)]\<rparr>"
  obtain v res where sw: "sweep_items draft ten xs ?w = (v, res)" by (cases "sweep_items draft ten xs ?w")
  have "(v, map_sum id ((#) t) res) = (w', Inr drafts)" using Cons.prems t sw by (simp del: append_assoc)
  then obtain ds where ds: "sweep_items draft ten xs ?w = (w', Inr ds)" "drafts = t # ds"
    using sw by (cases res) auto
  show ?case using Cons.IH [OF ds(1)] ds(2)
    by (auto simp: mark_done_pending intro!: filter_cong)
qed simp

lemma no_due_left:
  assumes "crm_leads db' = crm_leads db"
    and "pending_of ten db' = filter (\<lambda>f. fu_id f \<notin> pe_id ` set (due_followups ten now db)) (pending_of ten db)"
  shows "due_followups ten now db' = []"
proof -
  have "\<not> pe_due p \<le> now" if "p \<in> set (join_leads (pending_of ten db') (tbl_rows (crm_leads db')))" for p
  proof
    assume due: "pe_due p \<le> now"
    have "p \<in> set (join_leads (pending_of ten db) (tbl_rows (crm_leads db)))"
      using that assms by (auto simp: join_leads_def)
    then have "p \<in> set (due_followups ten now db)" using due by (simp add: due_followups_def)
    then have "pe_id p \<in> pe_id ` set (due_followups ten now db)" by (rule imageI)
    then show False using join_leads_mem [OF that] assms(2) by auto
  qed
  then show ?thesis by (simp add: due_followups_def filter_empty_conv)
qed

section \<open>Properties\<close>

text \<open>
  C10. Sales tools stay inside their tenant. Whatever sales tools other tenants call, in any order, with
  any arguments, whether the call ledger answers and whether calls time out, a tenant reads the same
  afterwards: the same lead with its notes and follow-ups, the same pending queue, the same
  follow-ups due.
\<close>

theorem sales_tools_stay_in_tenant:
  assumes "crm_ok (sa_db (snd s))" and "\<forall>(env, config, call_id, x)\<in>set calls. config_tenant config \<noteq> Some b"
    and "db' = sa_db (snd (sales_history calls s))"
  shows "lead_history b contact db' = lead_history b contact (sa_db (snd s)) \<and>
    list_pending_followups b who db' = list_pending_followups b who (sa_db (snd s)) \<and>
    due_followups b as_of db' = due_followups b as_of (sa_db (snd s))"
proof -
  have v: "crm_ok db'" "crm_view b db' = crm_view b (sa_db (snd s))"
    using sales_history_view [OF assms(1,2)] assms(3) by auto
  show ?thesis
    using lead_history_view [OF v(2)] list_pending_view [OF v(1) assms(1) v(2)] by simp
qed

theorem sales_tools_stay_in_tenant_witness:
  "\<exists>env config. config_tenant (Some config) = Some ''globex'' \<and>
     (let db = fst (find_or_create_lead 0 ''acme'' ''Ann'' ''ann@x'' ''hello'' None empty_crm)
      in lead_history ''acme'' ''ann@x''
           (sa_db (snd (sales_history [(env, Some config, ''c1'', MarkLost ''ann@x'' ''gone'')]
              ([], \<lparr>sa_db = db, sa_posts = []\<rparr>)))) =
         lead_history ''acme'' ''ann@x'' db)"
proof (intro exI conjI)
  let ?env = "\<lparr>ce_cfg = \<lparr>OPENAI_API_KEY = ''k'', LANGFUSE_SECRET_KEY = [], LANGFUSE_PUBLIC_KEY = [], SERPER_API_KEY = [],
       APPDATA_DATABASE_URL = [], REDIS_URL = []\<rparr>, ce_ledger_up = False, ce_hour = 0, ce_now = 7, ce_timed_out = False,
     ce_landed = False\<rparr>"
  let ?config = "\<lparr>rc_ctx = Some \<lparr>tenant = ''globex'', principal = ''bob'', claims = []\<rparr>, rc_thread_id = None\<rparr>"
  let ?db = "fst (find_or_create_lead 0 ''acme'' ''Ann'' ''ann@x'' ''hello'' None empty_crm)"
  show t: "config_tenant (Some ?config) = Some ''globex''" by (simp add: config_tenant_def ctx_from_config_def)
  have ok: "crm_ok ?db"
    using crm_act_ok [OF empty_crm_ok, of "''acme''" "FindOrCreateLead 0 ''Ann'' ''ann@x'' ''hello'' None"] by simp
  show "let db = ?db in lead_history ''acme'' ''ann@x''
           (sa_db (snd (sales_history [(?env, Some ?config, ''c1'', MarkLost ''ann@x'' ''gone'')]
              ([], \<lparr>sa_db = db, sa_posts = []\<rparr>)))) = lead_history ''acme'' ''ann@x'' db"
    unfolding Let_def
    using sales_tools_stay_in_tenant [of "([], \<lparr>sa_db = ?db, sa_posts = []\<rparr>)"
        "[(?env, Some ?config, ''c1'', MarkLost ''ann@x'' ''gone'')]" "''acme''" _ "''ann@x''" None 0, OF _ _ refl] ok t
    by simp
qed


text \<open>
  Replays are answered alike: in any history of ticket requests at the store, all requests that
  carry one call id get one and the same ticket number.
\<close>

theorem ticket_replays_same_number:
  assumes "run_inserts request_ticket qs db = (db', out)" and "(q, res) \<in> set out" and "(q', res') \<in> set out"
    and "tr_key q = Some k" and "tr_key q' = Some k"
  shows "res = res'"
  using assms by (rule tk.same_answer)

text \<open>
  A lost lead is not nudged: after \<open>mark_lead_lost\<close> found the lead, its status is \<open>lost\<close>, nothing is
  pending for its contact, and no follow-up the sweep would pick up at any time names the contact.
\<close>

theorem lost_lead_not_nudged:
  assumes "crm_ok db" and "mark_lead_lost now ten contact reason key db = (db', True)"
  shows "list_pending_followups ten (Some contact) db' = [] \<and>
    (\<forall>p\<in>set (due_followups ten as_of db'). pe_contact p \<noteq> contact) \<and>
    (\<exists>l. find_lead ten contact db' = Some l \<and> ld_status l = ''lost'')"
proof (intro conjI)
  show "list_pending_followups ten (Some contact) db' = []"
    using lost_not_pending [OF assms] by (simp add: list_pending_followups_def filter_empty_conv)
  show "\<forall>p\<in>set (due_followups ten as_of db'). pe_contact p \<noteq> contact"
    using lost_not_pending [OF assms] by (simp add: due_followups_def)
  let ?f = "\<lambda>l. l\<lparr>ld_status := ''lost'', ld_updated := now\<rparr>"
  obtain l agg where l: "get_lead ten contact db = Some (l, agg)"
    using assms(2) by (auto simp: mark_lead_lost_def split: option.splits)
  have leads': "tbl_rows (crm_leads db') = map (\<lambda>l. if is_lead ten contact l then ?f l else l) (tbl_rows (crm_leads db))"
    using assms(2) l by (auto simp: mark_lead_lost_def Let_def)
  have "List.find (is_lead ten contact) (map (\<lambda>l. if is_lead ten contact l then ?f l else l) ls) =
      map_option ?f (List.find (is_lead ten contact) ls)" for ls
    by (induction ls) (auto simp: is_lead_def)
  then show "\<exists>l. find_lead ten contact db' = Some l \<and> ld_status l = ''lost''"
    using leads' get_leadD [OF l] by (simp add: find_lead_def)
qed

theorem lost_lead_not_nudged_witness:
  "\<exists>db db'. list_pending_followups ''acme'' (Some ''ann@x'') db \<noteq> [] \<and>
     mark_lead_lost 9 ''acme'' ''ann@x'' ''gone'' None db = (db', True) \<and>
     list_pending_followups ''acme'' (Some ''ann@x'') db' = []"
proof -
  let ?db = "crm_act ''acme'' (AddFollowup 1 ''ann@x'' 5 ''call'' ''bob'' None)
     (crm_act ''acme'' (FindOrCreateLead 0 ''Ann'' ''ann@x'' ''hello'' None) empty_crm)"
  note ev = find_or_create_lead_def upsert_lead_def insert_note_def insert_keyed_def has_key_def empty_crm_def empty_table_def
    find_lead_def is_lead_def get_lead_def add_followup_def insert_or_read_back_def new_followup_def
  have ok: "crm_ok ?db" by (intro crm_act_ok empty_crm_ok)
  have p: "list_pending_followups ''acme'' (Some ''ann@x'') ?db \<noteq> []"
    by (simp add: ev list_pending_followups_def pending_of_def join_leads_def)
  obtain db' where m: "mark_lead_lost 9 ''acme'' ''ann@x'' ''gone'' None ?db = (db', True)"
    by (simp add: ev mark_lead_lost_def)
  show ?thesis using p m lost_lead_not_nudged [OF ok m] by blast
qed

text \<open>
  A sweep that returns leaves nothing due: every follow-up due for the tenant at its time was drafted
  and posted, one draft and one post each, and none is due any more, so the next run does not draft
  it again.
\<close>

theorem sweep_leaves_nothing_due:
  assumes "run_followup_sweep draft now ten w = (w', Inr drafts)"
  shows "due_followups ten now (sa_db w') = [] \<and>
    length drafts = length (due_followups ten now (sa_db w)) \<and>
    length (sa_posts w') = length (sa_posts w) + length (due_followups ten now (sa_db w))"
proof -
  note r = sweep_items_result [OF assms [unfolded run_followup_sweep_def]]
  show ?thesis using r no_due_left [of "sa_db w'" "sa_db w" ten now] by simp
qed

theorem sweep_leaves_nothing_due_witness:
  "\<exists>w w'. length (due_followups ''acme'' 6 (sa_db w)) = 1 \<and>
     run_followup_sweep (\<lambda>_. Inr ''Hi Ann'') 6 ''acme'' w = (w', Inr [''Hi Ann'']) \<and>
     due_followups ''acme'' 6 (sa_db w') = []"
proof -
  let ?w = "\<lparr>sa_db = crm_act ''acme'' (AddFollowup 1 ''ann@x'' 5 ''call'' ''bob'' None)
     (crm_act ''acme'' (FindOrCreateLead 0 ''Ann'' ''ann@x'' ''hello'' None) empty_crm), sa_posts = []\<rparr>"
  note ev = find_or_create_lead_def upsert_lead_def insert_note_def insert_keyed_def has_key_def empty_crm_def empty_table_def
    find_lead_def is_lead_def get_lead_def add_followup_def insert_or_read_back_def new_followup_def
  have d: "length (due_followups ''acme'' 6 (sa_db ?w)) = 1"
    by (simp add: ev due_followups_def pending_of_def join_leads_def)
  obtain w' where s: "run_followup_sweep (\<lambda>_. Inr ''Hi Ann'') 6 ''acme'' ?w = (w', Inr [''Hi Ann''])"
    by (simp add: ev run_followup_sweep_def due_followups_def pending_of_def join_leads_def)
  show ?thesis using d s sweep_leaves_nothing_due [OF s] by blast
qed

text \<open>
  The read-back of a taken call id has no tenant in it: a ticket asked for under a call id another
  tenant already used is not filed, and the answer is the other tenant's ticket number.
\<close>

theorem read_back_crosses_tenants:
  "let db = fst (create_ticket_row 0 ''acme'' ''ann'' ''Login'' ''broken'' ''high'' (Some ''call_0'') empty_tickets);
       r = create_ticket_row 1 ''globex'' ''bob'' ''Refund'' ''please'' ''low'' (Some ''call_0'') db
   in snd r = Inr 1 \<and> get_ticket ''globex'' 1 (fst r) = None \<and> get_ticket ''acme'' 1 (fst r) \<noteq> None"
  by (simp add: create_ticket_row_def insert_or_read_back_def insert_keyed_def id_of_key_def has_key_def new_ticket_def
      empty_tickets_def empty_table_def get_ticket_def is_ticket_def)

text \<open>Without a tenant and a principal in the configuration no sales tool touches the store or the ledger.\<close>

theorem sales_tools_fail_closed:
  assumes "\<not> valid_ctx (ctx_from_config config)"
  shows "fst (sales_tool env config call_id x s) = s"
proof -
  have "domain_ctx_or_refuse actions config action = None" for actions action
    using assms by (simp add: domain_ctx_or_refuse_def Let_def)
  then have "fst (acting_tool env actions action tool_name call_id config impl s) = s" for actions action tool_name impl
    by (simp add: acting_tool_def split: prod.splits)
  then show ?thesis
    by (cases x) (simp_all add: log_lead_interaction_def schedule_followup_def handoff_to_human_def
        mark_lead_lost_tool_def enrich_lead_from_website_def)
qed

end
