(* ===== verification/Ops_Tools.thy ===== *)
theory Ops_Tools
  imports Domain_Tools
begin

text \<open>
  The operations domain, \<open>src/app/domains/ops/tools.py\<close> and \<open>metric_checks.py\<close>, and the web-search
  tool the domains share, \<open>src/app/domains/web_search.py\<close>. The readings, the channel, the page renderer
  and the search service are parameters; \<open>g3\<close> and \<open>g\<close> are the number formats \<open>:.3g\<close> and \<open>:g\<close>.
\<close>

section \<open>Metric checks\<close>

record metric_check =
  mc_name :: str
  mc_description :: str
  mc_expr :: str
  mc_threshold :: rat

definition METRIC_CHECKS :: "metric_check list" where
  "METRIC_CHECKS =
     [\<lparr>mc_name = ''turn_error_rate'',
       mc_description = ''Fraction of agent turns ending in outcome='' @ [dquote] @ ''error'' @ [dquote] @ '' (5m)'',
       mc_expr = ''sum(rate(agent_requests_total{outcome='' @ [dquote] @ ''error'' @ [dquote] @ ''}[5m])) / sum(rate(agent_requests_total[5m]))'',
       mc_threshold = 1 / 20\<rparr>,
      \<lparr>mc_name = ''p95_latency_seconds'', mc_description = ''p95 end-to-end turn latency (5m)'',
       mc_expr = ''histogram_quantile(0.95, sum(rate(agent_latency_seconds_bucket[5m])) by (le))'',
       mc_threshold = 30\<rparr>,
      \<lparr>mc_name = ''tool_error_rate'', mc_description = ''Fraction of tool calls that errored (10m)'',
       mc_expr = ''sum(rate(agent_tool_errors_total[5m])) / sum(rate(agent_tool_calls_total[5m]))'',
       mc_threshold = 1 / 10\<rparr>,
      \<lparr>mc_name = ''moderation_block_rate'', mc_description = ''Blocked (moderation) inputs per second (5m)'',
       mc_expr = ''sum(rate(agent_moderation_total{outcome=~'' @ [dquote] @ ''blocked_.*'' @ [dquote] @ ''}[5m]))'',
       mc_threshold = 1 / 2\<rparr>,
      \<lparr>mc_name = ''rate_limit_rejections_per_sec'', mc_description = ''Payment-webhook rate-limit rejections per second (5m)'',
       mc_expr = ''sum(rate(agent_rate_limit_exceeded_total[5m]))'',
       mc_threshold = 1\<rparr>,
      \<lparr>mc_name = ''retrieval_degraded_rate'', mc_description = ''Hybrid retrieval degradation events per second (15m)'',
       mc_expr = ''sum(rate(agent_retrieval_degraded_total[15m]))'',
       mc_threshold = 0\<rparr>,
      \<lparr>mc_name = ''checkpoint_issues_15m'', mc_description = ''Refused/lost checkpoint resumes in the last 15m'',
       mc_expr = ''increase(agent_checkpoint_issue_total[15m])'',
       mc_threshold = 0\<rparr>]"

definition check_named :: "str \<Rightarrow> metric_check option" where
  "check_named name = List.find (\<lambda>c. mc_name c = name) METRIC_CHECKS"

definition anomaly_of :: "(rat \<Rightarrow> str) \<Rightarrow> (rat \<Rightarrow> str) \<Rightarrow> str \<times> rat option \<Rightarrow> str option" where
  "anomaly_of g3 g reading =
     (case reading of (name, value) \<Rightarrow>
       (case (check_named name, value) of
          (Some c, Some v) \<Rightarrow>
            if mc_threshold c < v then Some (mc_description c @ '': '' @ g3 v @ '' (threshold '' @ g (mc_threshold c) @ '')'')
            else None
        | _ \<Rightarrow> None))"

definition detect_anomalies :: "(rat \<Rightarrow> str) \<Rightarrow> (rat \<Rightarrow> str) \<Rightarrow> (str \<times> rat option) list \<Rightarrow> str list" where
  "detect_anomalies g3 g readings = List.map_filter (anomaly_of g3 g) readings"

definition format_readings :: "(rat \<Rightarrow> str) \<Rightarrow> (str \<times> rat option) list \<Rightarrow> str" where
  "format_readings g3 readings =
     join newline (map (\<lambda>(name, value).
       ''- '' @ (case check_named name of Some c \<Rightarrow> mc_description c | None \<Rightarrow> name) @ '': '' @
       (case value of Some v \<Rightarrow> g3 v | None \<Rightarrow> ''unknown (query failed or no data)'')) readings)"

definition fetch_metrics_summary_impl :: "(rat \<Rightarrow> str) \<Rightarrow> (rat \<Rightarrow> str) \<Rightarrow> (str \<times> rat option) list \<Rightarrow> str" where
  "fetch_metrics_summary_impl g3 g readings =
     (let anomalies = detect_anomalies g3 g readings
      in join newline
           (format_readings g3 readings #
            (if anomalies \<noteq> []
             then (newline @ ''Anomalies (past an alert-matching threshold):'') # map (\<lambda>a. ''- '' @ a) anomalies
             else [newline @ ''No anomalies '' @ em_dash @ '' every metric is within its normal range.''])))"

section \<open>The tools\<close>

definition OPS_ACTIONS :: "str list" where
  "OPS_ACTIONS =
     [''fetch_metrics'', ''post_to_channel'', ''log_incident'', ''list_recent_incidents'', ''resolve_incident'',
      ''check_vendor_status'', ''web_search'', ''run_command_in_sandbox'', ''run_python_in_sandbox'',
      ''read_sandbox_file'', ''write_sandbox_file'']"

record ops_world =
  ow_db :: incident_db
  ow_posts :: "(str \<times> str) list"

definition fetch_metrics_summary ::
  "call_env \<Rightarrow> (rat \<Rightarrow> str) \<Rightarrow> (rat \<Rightarrow> str) \<Rightarrow> (str \<times> rat option) list \<Rightarrow> run_config option \<Rightarrow> str result" where
  "fetch_metrics_summary env g3 g readings config =
     reading_tool env OPS_ACTIONS ''fetch_metrics'' config (\<lambda>_ _. fetch_metrics_summary_impl g3 g readings) ()"

text \<open>\<open>ack\<close> is what the channel answers to a post.\<close>

definition post_args_ok :: "str \<Rightarrow> str \<Rightarrow> bool" where
  "post_args_ok channel message = (not_blank channel \<and> not_blank message)"

definition post_to_team_channel ::
  "call_env \<Rightarrow> str result \<Rightarrow> str \<Rightarrow> str \<Rightarrow> run_config option \<Rightarrow> str \<Rightarrow> dedup_table \<times> ops_world \<Rightarrow>
   (dedup_table \<times> ops_world) \<times> str result" where
  "post_to_team_channel env ack channel message config call_id s =
     (if \<not> post_args_ok channel message then (s, Inl (ValueError ''must not be empty''))
      else acting_tool env OPS_ACTIONS ''post_to_channel'' ''post_to_team_channel'' call_id config
             (\<lambda>c w. ((case ack of Inl _ \<Rightarrow> w | Inr _ \<Rightarrow> w\<lparr>ow_posts := ow_posts w @ [(channel, message)]\<rparr>), ack)) s)"

definition log_incident_impl :: "int \<Rightarrow> str \<Rightarrow> str option \<Rightarrow> str \<Rightarrow> security_ctx \<Rightarrow> ops_world \<Rightarrow> ops_world \<times> str result" where
  "log_incident_impl now summary evidence call_id c w =
     (case log_incident now (principal c) summary evidence (Some call_id) (ow_db w) of
        (db, res) \<Rightarrow> (w\<lparr>ow_db := db\<rparr>, map_sum id (\<lambda>i. ''Incident #'' @ dec_int i @ '' logged: '' @ summary) res))"

definition log_incident_tool ::
  "call_env \<Rightarrow> str \<Rightarrow> str option \<Rightarrow> run_config option \<Rightarrow> str \<Rightarrow> dedup_table \<times> ops_world \<Rightarrow>
   (dedup_table \<times> ops_world) \<times> str result" where
  "log_incident_tool env summary evidence config call_id s =
     (if \<not> not_blank summary then (s, Inl (ValueError ''summary must not be empty''))
      else acting_tool env OPS_ACTIONS ''log_incident'' ''log_incident'' call_id config
             (log_incident_impl (ce_now env) summary evidence call_id) s)"

definition list_recent_incidents_impl :: "str option \<Rightarrow> ops_world \<Rightarrow> str" where
  "list_recent_incidents_impl wanted w =
     (let rs = list_recent_incidents 10 wanted (ow_db w)
      in if rs = [] then ''No incidents on record.''
         else join newline
           (map (\<lambda>r. ''- #'' @ dec_int (ic_id r) @ '' ['' @ ic_status r @ ''] '' @ ic_summary r @ '' (opened by '' @ ic_opened_by r @
                     '', '' @ datetime_str (ic_created r) @ '')'') rs))"

definition list_recent_incidents_tool :: "call_env \<Rightarrow> str option \<Rightarrow> run_config option \<Rightarrow> ops_world \<Rightarrow> str result" where
  "list_recent_incidents_tool env wanted config w =
     reading_tool env OPS_ACTIONS ''list_recent_incidents'' config (\<lambda>_. list_recent_incidents_impl wanted) w"

definition resolve_incident_impl :: "int \<Rightarrow> int \<Rightarrow> str \<Rightarrow> ops_world \<Rightarrow> ops_world \<times> str result" where
  "resolve_incident_impl now i resolution w =
     (case resolve_incident now i resolution (ow_db w) of
        (db, updated) \<Rightarrow>
          (w\<lparr>ow_db := db\<rparr>,
           Inr (if \<not> updated then ''No incident #'' @ dec_int i @ '' found to resolve.''
                else ''Incident #'' @ dec_int i @ '' resolved: '' @ resolution)))"

definition resolve_incident_tool ::
  "call_env \<Rightarrow> int \<Rightarrow> str \<Rightarrow> run_config option \<Rightarrow> str \<Rightarrow> dedup_table \<times> ops_world \<Rightarrow>
   (dedup_table \<times> ops_world) \<times> str result" where
  "resolve_incident_tool env i resolution config call_id s =
     (if \<not> not_blank resolution then (s, Inl (ValueError ''resolution must not be empty''))
      else acting_tool env OPS_ACTIONS ''resolve_incident'' ''resolve_incident'' call_id config
             (\<lambda>_. resolve_incident_impl (ce_now env) i resolution) s)"

definition check_vendor_status_page ::
  "call_env \<Rightarrow> str result \<Rightarrow> run_config option \<Rightarrow> str \<Rightarrow> dedup_table \<times> ops_world \<Rightarrow>
   (dedup_table \<times> ops_world) \<times> str result" where
  "check_vendor_status_page env page config call_id s =
     acting_tool env OPS_ACTIONS ''check_vendor_status'' ''check_vendor_status_page'' call_id config
       (\<lambda>c w. (w, map_sum id frame_untrusted page)) s"

section \<open>Web search\<close>

record search_hit =
  sh_title :: str
  sh_url :: str
  sh_snippet :: str
  sh_date :: "str option"

datatype search_failure = SearchNotConfigured str | SearchRaised py_error

definition MAX_QUERY_CHARS :: nat where "MAX_QUERY_CHARS = 300"

definition web_search_args_ok :: "str \<Rightarrow> bool" where
  "web_search_args_ok query = (length query \<le> MAX_QUERY_CHARS \<and> not_blank query)"

definition NO_RESULTS :: str where
  "NO_RESULTS =
     ''The search ran and found no web results. Try different keywords, or tell the person you found nothing.''"

definition bracket_number_rx :: rx where
  "bracket_number_rx = seqs [lit ''['', Plus1 digit_char, lit '']'']"

definition defuse :: "str \<Rightarrow> str" where
  "defuse m = map (\<lambda>c. if c = CHR ''['' then CHR ''('' else if c = CHR '']'' then CHR '')'' else c) m"

definition format_hit :: "search_hit \<Rightarrow> str" where
  "format_hit h =
     join newline
       ([''- '' @ sh_title h,
         ''  '' @ sh_url h @ (case sh_date h of Some (d # ds) \<Rightarrow> '' ('' @ d # ds @ '')'' | _ \<Rightarrow> [])] @
        (if sh_snippet h \<noteq> [] then [''  '' @ sh_snippet h] else []))"

definition format_hits :: "search_hit list \<Rightarrow> str" where
  "format_hits hits = rx_sub bracket_number_rx defuse (join newline (map format_hit hits))"

definition web_search_impl :: "search_failure + search_hit list \<Rightarrow> str result" where
  "web_search_impl found =
     (case found of
        Inl (SearchNotConfigured t) \<Rightarrow> Inr t
      | Inl (SearchRaised e) \<Rightarrow> Inl e
      | Inr hits \<Rightarrow> Inr (if hits = [] then NO_RESULTS else frame_untrusted (format_hits hits)))"

text \<open>\<open>actions\<close> is the allow-list of the domain the tool is made for.\<close>

definition web_search_tool ::
  "str list \<Rightarrow> call_env \<Rightarrow> search_failure + search_hit list \<Rightarrow> str \<Rightarrow> run_config option \<Rightarrow> str \<Rightarrow> dedup_table \<times> 'd \<Rightarrow>
   (dedup_table \<times> 'd) \<times> str result" where
  "web_search_tool actions env found query config call_id s =
     (if \<not> web_search_args_ok query then (s, Inl (ValueError ''query''))
      else acting_tool env actions ''web_search'' ''web_search'' call_id config (\<lambda>_ w. (w, web_search_impl found)) s)"

section \<open>Facts\<close>

text \<open>A reading is reported as an anomaly exactly when it is known, has a check and is past its threshold.\<close>

lemma detect_anomalies_exact:
  "length (detect_anomalies g3 g readings) =
   length (filter (\<lambda>(name, value). \<exists>c v. check_named name = Some c \<and> value = Some v \<and> mc_threshold c < v) readings)"
  by (induction readings)
    (auto simp: detect_anomalies_def map_filter_simps anomaly_of_def split: option.splits if_splits)

record incident_request =
  ir_now :: int
  ir_opened_by :: str
  ir_summary :: str
  ir_detail :: "str option"
  ir_key :: "str option"

definition request_incident :: "incident_request \<Rightarrow> incident_db \<Rightarrow> incident_db \<times> int result" where
  "request_incident q db = log_incident (ir_now q) (ir_opened_by q) (ir_summary q) (ir_detail q) (ir_key q) db"

interpretation ic: one_row_per_call request_incident ir_key tbl_rows ic_key ic_id
proof unfold_locales
  fix q :: incident_request and k and db :: incident_db and r :: incident_row
  assume "ir_key q = Some k" "List.find (\<lambda>r. ic_key r = Some k) (tbl_rows db) = Some r"
  then show "tbl_rows (fst (request_incident q db)) = tbl_rows db \<and> snd (request_incident q db) = Inr (ic_id r)"
    using insert_or_read_back_known [OF find_has_key(1), of ic_key k db r]
    by (auto simp: request_incident_def log_incident_def)
next
  fix q :: incident_request and db :: incident_db
  assume "ir_key q = None \<or> List.find (\<lambda>r. ic_key r = ir_key q) (tbl_rows db) = None"
  then have "\<not> has_key ic_key (ir_key q) db" by (rule find_has_key(2))
  then show "\<exists>r. tbl_rows (fst (request_incident q db)) = tbl_rows db @ [r] \<and> ic_key r = ir_key q \<and>
      snd (request_incident q db) = Inr (ic_id r)"
    by (simp add: request_incident_def log_incident_def insert_or_read_back_new)
qed

text \<open>One incident per call id, however often the call is replayed.\<close>

theorem one_incident_per_call:
  "length (filter (\<lambda>r. ic_key r = Some k) (tbl_rows (fst (run_inserts request_incident qs empty_table)))) \<le> 1"
  by (rule ic.one_row_run) (simp add: empty_table_def)

end
