(* ===== verification/Sandbox.thy ===== *)
theory Sandbox
  imports Domain_Tools
begin

text \<open>
  \<open>src/app/domains/sandbox_session.py\<close> and the sandbox tools every domain wraps around it, with the
  bound on output of \<open>src/app/core/output_limits.py\<close>. The sandbox service is the parameter \<open>svc\<close> (what
  a raw tool answers, given its arguments), \<open>loads\<close> is \<open>json.loads\<close>, \<open>tag\<close> the truncated SHA-256, and
  \<open>show\<close> the \<open>str()\<close> of an exit code.
\<close>

section \<open>Output bounds\<close>

text \<open>\<open>int(limit * 2 / 3)\<close> characters of the head are kept, the rest of the limit is the tail.\<close>

definition bound_output :: "str \<Rightarrow> int \<Rightarrow> str" where
  "bound_output t limit =
     (if limit \<le> 0 \<or> int (length t) \<le> limit then t
      else
        (let head = nat (2 * limit div 3);
             tail = nat limit - head;
             omitted = length t - nat limit
         in take head t @ newline @ [CHR 0x85] @ '' ['' @ dec_nat omitted @ '' of '' @ dec_nat (length t) @
            '' characters omitted] '' @ [CHR 0x85] @ newline @ drop (length t - tail) t))"

section \<open>Calling the service\<close>

datatype sandbox_failure =
    RemoteError str
  | Unparseable str str
  | UnexpectedShape str str
  | NoOwner
  | NoSandboxId "(str \<times> json) list"
  | NotReachable

datatype sandbox_error =
    SandboxCallFailed sandbox_failure
  | AttributeError
  | Passed py_error

type_synonym 's service = "str \<Rightarrow> (str \<times> json) list \<Rightarrow> 's \<Rightarrow> 's \<times> (py_error + str)"

definition REMOTE_ERROR_PREFIX :: str where "REMOTE_ERROR_PREFIX = ''Remote tool error:''"

definition call_raw_tool ::
  "(str \<Rightarrow> json option) \<Rightarrow> 's service \<Rightarrow> str \<Rightarrow> (str \<times> json) list \<Rightarrow> 's \<Rightarrow> 's \<times> (sandbox_error + (str \<times> json) list)" where
  "call_raw_tool loads svc name args s =
     (case svc name args s of
        (s', Inl e) \<Rightarrow> (s', Inl (Passed e))
      | (s', Inr raw_text) \<Rightarrow>
          (s', if prefix REMOTE_ERROR_PREFIX raw_text then Inl (SandboxCallFailed (RemoteError raw_text))
               else
                 (case loads raw_text of
                    None \<Rightarrow> Inl (SandboxCallFailed (Unparseable name (take 300 raw_text)))
                  | Some (JObj kvs) \<Rightarrow> Inr kvs
                  | Some _ \<Rightarrow> Inl (SandboxCallFailed (UnexpectedShape name (take 300 raw_text))))))"

text \<open>
  The catalogue of raw tools: a loaded one is kept for the life of the process, an empty one never is
  and is a catchable failure of the call that found it so.
\<close>

definition load_raw_sandbox_tools :: "str list \<Rightarrow> str list \<Rightarrow> str list" where
  "load_raw_sandbox_tools cache loaded = (if cache = [] then loaded else cache)"

definition raw_sandbox_tools_or_raise :: "str list \<Rightarrow> sandbox_error + str list" where
  "raw_sandbox_tools_or_raise raw = (if raw = [] then Inl (SandboxCallFailed NotReachable) else Inr raw)"

section \<open>Whose sandbox\<close>

definition SANDBOX_TENANT_KEY :: str where "SANDBOX_TENANT_KEY = ''agent_core_tenant_sha''"
definition SANDBOX_THREAD_KEY :: str where "SANDBOX_THREAD_KEY = ''agent_core_thread_sha''"

definition owner_tags :: "(str \<Rightarrow> str) \<Rightarrow> str \<Rightarrow> str \<Rightarrow> sandbox_error + (str \<times> str) list" where
  "owner_tags tag ten thread =
     (if strip ten = [] \<or> strip thread = [] then Inl (SandboxCallFailed NoOwner)
      else Inr [(SANDBOX_TENANT_KEY, tag ten), (SANDBOX_THREAD_KEY, tag thread)])"

text \<open>Python's truth of a parsed value, and \<open>d.get(key)\<close>.\<close>

fun json_truthy :: "json \<Rightarrow> bool" where
  "json_truthy JNull = False"
| "json_truthy (JBool b) = b"
| "json_truthy (JInt i) = (i \<noteq> 0)"
| "json_truthy (JFloat r) = (\<exists>c\<in>set (takeWhile (\<lambda>c. c \<notin> set ''eE'') r). c \<in> set ''123456789'')"
| "json_truthy (JStr s) = (s \<noteq> [])"
| "json_truthy (JList xs) = (xs \<noteq> [])"
| "json_truthy (JObj kvs) = (kvs \<noteq> [])"

definition dict_get :: "(str \<times> json) list \<Rightarrow> str \<Rightarrow> json" where
  "dict_get kvs k = (case map_of kvs k of Some v \<Rightarrow> v | None \<Rightarrow> JNull)"

text \<open>\<open>d.get(key) or {}\<close>, to be read as a dict; \<open>d.get(key) or []\<close>, to be iterated as objects.\<close>

definition dict_or_empty :: "json \<Rightarrow> sandbox_error + (str \<times> json) list" where
  "dict_or_empty v =
     (if \<not> json_truthy v then Inr [] else case v of JObj kvs \<Rightarrow> Inr kvs | _ \<Rightarrow> Inl AttributeError)"

definition objects_or_empty :: "json \<Rightarrow> sandbox_error + json list" where
  "objects_or_empty v =
     (if \<not> json_truthy v then Inr []
      else case v of
             JList xs \<Rightarrow> Inr xs
           | JBool _ \<Rightarrow> Inl (Passed TypeError)
           | JInt _ \<Rightarrow> Inl (Passed TypeError)
           | JFloat _ \<Rightarrow> Inl (Passed TypeError)
           | _ \<Rightarrow> Inl AttributeError)"

text \<open>\<open>all(found.get(key) == value for key, value in tags.items())\<close>.\<close>

definition tags_match :: "(str \<times> str) list \<Rightarrow> (str \<times> json) list \<Rightarrow> bool" where
  "tags_match tags found = list_all (\<lambda>(k, v). dict_get found k = JStr v) tags"

fun pick_owned :: "(str \<times> str) list \<Rightarrow> json list \<Rightarrow> sandbox_error + json" where
  "pick_owned tags [] = Inr JNull"
| "pick_owned tags (info # rest) =
     (case info of
        JObj kvs \<Rightarrow>
          (case dict_or_empty (dict_get kvs ''metadata'') of
             Inl e \<Rightarrow> Inl e
           | Inr found \<Rightarrow>
               if tags_match tags found then Inr (dict_get kvs ''id'')
               else pick_owned tags rest)
      | _ \<Rightarrow> Inl AttributeError)"

definition find_existing_sandbox_id ::
  "(str \<Rightarrow> json option) \<Rightarrow> 's service \<Rightarrow> (str \<times> str) list \<Rightarrow> 's \<Rightarrow> 's \<times> (sandbox_error + json)" where
  "find_existing_sandbox_id loads svc tags s =
     (case call_raw_tool loads svc ''sandbox_list''
             [(''filter'', JObj [(''metadata'', JObj (map (\<lambda>(k, v). (k, JStr v)) tags)), (''states'', JList [JStr ''RUNNING''])])] s of
        (s', Inl (SandboxCallFailed _)) \<Rightarrow> (s', Inr JNull)
      | (s', Inl e) \<Rightarrow> (s', Inl e)
      | (s', Inr res) \<Rightarrow>
          (s', case objects_or_empty (dict_get res ''sandbox_infos'') of Inl e \<Rightarrow> Inl e | Inr infos \<Rightarrow> pick_owned tags infos))"

record sandbox_settings =
  SANDBOX_IMAGE :: str
  SANDBOX_TTL_SECONDS :: int
  MCP_TOOL_OUTPUT_MAX_CHARS :: int
  SANDBOX_ARG_LIMIT :: nat

definition get_or_create_sandbox_id ::
  "sandbox_settings \<Rightarrow> (str \<Rightarrow> str) \<Rightarrow> (str \<Rightarrow> json option) \<Rightarrow> 's service \<Rightarrow> str \<Rightarrow> str \<Rightarrow> 's \<Rightarrow> 's \<times> (sandbox_error + json)" where
  "get_or_create_sandbox_id cfg tag loads svc ten thread s =
     (case owner_tags tag ten thread of
        Inl e \<Rightarrow> (s, Inl e)
      | Inr tags \<Rightarrow>
          (case find_existing_sandbox_id loads svc tags s of
             (s1, Inl e) \<Rightarrow> (s1, Inl e)
           | (s1, Inr existing) \<Rightarrow>
               if json_truthy existing then (s1, Inr existing)
               else
                 (case call_raw_tool loads svc ''sandbox_create''
                         [(''image'', JStr (SANDBOX_IMAGE cfg)), (''metadata'', JObj (map (\<lambda>(k, v). (k, JStr v)) tags)),
                          (''timeout_seconds'', JInt (SANDBOX_TTL_SECONDS cfg))] s1 of
                    (s2, Inl e) \<Rightarrow> (s2, Inl e)
                  | (s2, Inr created) \<Rightarrow>
                      (let i = dict_get created ''sandbox_id''
                       in (s2, if json_truthy i then Inr i else Inl (SandboxCallFailed (NoSandboxId created)))))))"

section \<open>What comes back\<close>

definition bounded :: "sandbox_settings \<Rightarrow> secret_config \<Rightarrow> str \<Rightarrow> str" where
  "bounded cfg secrets t = bound_output (scrub secrets t) (MCP_TOOL_OUTPUT_MAX_CHARS cfg)"

fun stream_text :: "json list \<Rightarrow> sandbox_error + str" where
  "stream_text [] = Inr []"
| "stream_text (m # ms) =
     (case m of
        JObj kvs \<Rightarrow>
          (case (case map_of kvs ''text'' of None \<Rightarrow> JStr [] | Some v \<Rightarrow> v) of
             JStr t \<Rightarrow> map_sum id (\<lambda>r. t @ r) (stream_text ms)
           | _ \<Rightarrow> (case stream_text ms of Inl AttributeError \<Rightarrow> Inl AttributeError | _ \<Rightarrow> Inl (Passed TypeError)))
      | _ \<Rightarrow> Inl AttributeError)"

definition stream_of :: "(str \<times> json) list \<Rightarrow> str \<Rightarrow> sandbox_error + str" where
  "stream_of logs k = (case objects_or_empty (dict_get logs k) of Inl e \<Rightarrow> Inl e | Inr ms \<Rightarrow> stream_text ms)"

definition format_execution ::
  "(json \<Rightarrow> str) \<Rightarrow> sandbox_settings \<Rightarrow> secret_config \<Rightarrow> (str \<times> json) list \<Rightarrow> sandbox_error + str" where
  "format_execution show cfg secrets execution =
     (case dict_or_empty (dict_get execution ''logs'') of
        Inl e \<Rightarrow> Inl e
      | Inr logs \<Rightarrow>
          (case stream_of logs ''stdout'' of
             Inl e \<Rightarrow> Inl e
           | Inr raw_out \<Rightarrow>
               (case stream_of logs ''stderr'' of
                  Inl e \<Rightarrow> Inl e
                | Inr raw_err \<Rightarrow>
                    (let out = bounded cfg secrets raw_out; err = bounded cfg secrets raw_err
                     in Inr (join newline
                          ([''exit code: '' @ show (dict_get execution ''exit_code''),
                            (if out \<noteq> [] then ''stdout:'' @ newline @ out else ''stdout: (empty)'')] @
                           (if err \<noteq> [] then [''stderr:'' @ newline @ err] else [])))))))"

section \<open>The implementations\<close>

definition in_sandbox ::
  "sandbox_settings \<Rightarrow> (str \<Rightarrow> str) \<Rightarrow> (str \<Rightarrow> json option) \<Rightarrow> 's service \<Rightarrow> str \<Rightarrow> (str \<times> json) list \<Rightarrow> str \<Rightarrow> str \<Rightarrow> 's \<Rightarrow>
   's \<times> (sandbox_error + (str \<times> json) list)" where
  "in_sandbox cfg tag loads svc name args ten thread s =
     (case get_or_create_sandbox_id cfg tag loads svc ten thread s of
        (s1, Inl e) \<Rightarrow> (s1, Inl e)
      | (s1, Inr i) \<Rightarrow> call_raw_tool loads svc name ((''sandbox_id'', i) # args @ [(''connect_if_missing'', JBool True)]) s1)"

definition run_command_in_sandbox_impl ::
  "(json \<Rightarrow> str) \<Rightarrow> sandbox_settings \<Rightarrow> secret_config \<Rightarrow> (str \<Rightarrow> str) \<Rightarrow> (str \<Rightarrow> json option) \<Rightarrow> 's service \<Rightarrow>
   str \<Rightarrow> str \<Rightarrow> str \<Rightarrow> 's \<Rightarrow> 's \<times> (sandbox_error + str)" where
  "run_command_in_sandbox_impl show cfg secrets tag loads svc command thread ten s =
     (case in_sandbox cfg tag loads svc ''command_run'' [(''command'', JStr command)] ten thread s of
        (s1, Inl e) \<Rightarrow> (s1, Inl e)
      | (s1, Inr execution) \<Rightarrow> (s1, format_execution show cfg secrets execution))"

definition RUN_PYTHON_SCRIPT_PATH :: str where "RUN_PYTHON_SCRIPT_PATH = ''_run_python_in_sandbox.py''"

definition strip_markdown_fence :: "str \<Rightarrow> str" where
  "strip_markdown_fence script =
     (let stripped = strip script
      in if \<not> prefix ''```'' stripped then script
         else
           (case find_sub newline stripped of
              None \<Rightarrow> []
            | Some k \<Rightarrow>
                (let body = rstrip (drop (k + 1) stripped)
                 in if suffix ''```'' body
                    then rev (dropWhile (\<lambda>c. c \<in> set newline) (rev (take (length body - 3) body)))
                    else body)))"

definition run_python_in_sandbox_impl ::
  "(json \<Rightarrow> str) \<Rightarrow> sandbox_settings \<Rightarrow> secret_config \<Rightarrow> (str \<Rightarrow> str) \<Rightarrow> (str \<Rightarrow> json option) \<Rightarrow> 's service \<Rightarrow>
   str \<Rightarrow> str \<Rightarrow> str \<Rightarrow> 's \<Rightarrow> 's \<times> (sandbox_error + str)" where
  "run_python_in_sandbox_impl show cfg secrets tag loads svc script thread ten s =
     (case get_or_create_sandbox_id cfg tag loads svc ten thread s of
        (s1, Inl e) \<Rightarrow> (s1, Inl e)
      | (s1, Inr i) \<Rightarrow>
          (case call_raw_tool loads svc ''file_write''
                  [(''sandbox_id'', i), (''path'', JStr RUN_PYTHON_SCRIPT_PATH), (''content'', JStr (strip_markdown_fence script)),
                   (''connect_if_missing'', JBool True)] s1 of
             (s2, Inl e) \<Rightarrow> (s2, Inl e)
           | (s2, Inr _) \<Rightarrow>
               (case call_raw_tool loads svc ''command_run''
                       [(''sandbox_id'', i), (''command'', JStr (''python3 '' @ RUN_PYTHON_SCRIPT_PATH)),
                        (''connect_if_missing'', JBool True)] s2 of
                  (s3, Inl e) \<Rightarrow> (s3, Inl e)
                | (s3, Inr execution) \<Rightarrow> (s3, format_execution show cfg secrets execution))))"

definition read_sandbox_file_impl ::
  "sandbox_settings \<Rightarrow> secret_config \<Rightarrow> (str \<Rightarrow> str) \<Rightarrow> (str \<Rightarrow> json option) \<Rightarrow> 's service \<Rightarrow>
   str \<Rightarrow> str \<Rightarrow> str \<Rightarrow> 's \<Rightarrow> 's \<times> (sandbox_error + str)" where
  "read_sandbox_file_impl cfg secrets tag loads svc path thread ten s =
     (case in_sandbox cfg tag loads svc ''file_read'' [(''path'', JStr path)] ten thread s of
        (s1, Inl e) \<Rightarrow> (s1, Inl e)
      | (s1, Inr res) \<Rightarrow>
          (s1, case map_of res ''content'' of
                 None \<Rightarrow> Inr (bounded cfg secrets [])
               | Some (JStr t) \<Rightarrow> Inr (bounded cfg secrets t)
               | Some _ \<Rightarrow> Inl (Passed TypeError)))"

definition write_sandbox_file_impl ::
  "sandbox_settings \<Rightarrow> (str \<Rightarrow> str) \<Rightarrow> (str \<Rightarrow> json option) \<Rightarrow> 's service \<Rightarrow>
   str \<Rightarrow> str \<Rightarrow> str \<Rightarrow> str \<Rightarrow> 's \<Rightarrow> 's \<times> (sandbox_error + str)" where
  "write_sandbox_file_impl cfg tag loads svc path body thread ten s =
     (case in_sandbox cfg tag loads svc ''file_write'' [(''path'', JStr path), (''content'', JStr body)] ten thread s of
        (s1, Inl e) \<Rightarrow> (s1, Inl e)
      | (s1, Inr _) \<Rightarrow> (s1, Inr (''Wrote '' @ repr_str path @ '' to the sandbox.'')))"

section \<open>Facts\<close>

lemma pick_ownedD:
  "pick_owned tags infos = Inr i \<Longrightarrow> i \<noteq> JNull \<Longrightarrow>
   \<exists>kvs found. JObj kvs \<in> set infos \<and> dict_get kvs ''id'' = i \<and> dict_or_empty (dict_get kvs ''metadata'') = Inr found \<and>
     tags_match tags found"
proof (induction tags infos rule: pick_owned.induct)
  case (2 tags info rest)
  then obtain kvs found where k: "info = JObj kvs" "dict_or_empty (dict_get kvs ''metadata'') = Inr found"
    by (auto split: json.splits sum.splits)
  show ?case
  proof (cases "tags_match tags found")
    case True
    then show ?thesis using 2(2) k by auto
  next
    case False
    then have "pick_owned tags rest = Inr i" using 2(2) k by simp
    then show ?thesis using 2(1) [OF k(1) k(2) False] 2(3) by auto
  qed
qed simp

lemma find_existing_picks:
  assumes "find_existing_sandbox_id loads svc tags s = (s', Inr i)" and "i \<noteq> JNull"
  shows "\<exists>name args text res infos. svc name args s = (s', Inr text) \<and> loads text = Some (JObj res) \<and>
    objects_or_empty (dict_get res ''sandbox_infos'') = Inr infos \<and> pick_owned tags infos = Inr i"
proof -
  let ?args = "[(''filter'', JObj [(''metadata'', JObj (map (\<lambda>(k, v). (k, JStr v)) tags)), (''states'', JList [JStr ''RUNNING''])])]"
  obtain res where r: "call_raw_tool loads svc ''sandbox_list'' ?args s = (s', Inr res)"
      and p: "(case objects_or_empty (dict_get res ''sandbox_infos'') of Inl e \<Rightarrow> Inl e | Inr infos \<Rightarrow> pick_owned tags infos) = Inr i"
    using assms unfolding find_existing_sandbox_id_def
    by (auto split: prod.splits sum.splits sandbox_error.splits)
  obtain infos where "objects_or_empty (dict_get res ''sandbox_infos'') = Inr infos" "pick_owned tags infos = Inr i"
    using p by (auto split: sum.splits)
  moreover obtain raw where "svc ''sandbox_list'' ?args s = (s', Inr raw)" "loads raw = Some (JObj res)"
    using r by (auto simp: call_raw_tool_def split: prod.splits sum.splits if_splits option.splits json.splits)
  ultimately show ?thesis by blast
qed

lemma bound_output_cut:
  assumes "0 < limit" and "limit < int (length t)"
  shows "\<exists>marker. bound_output t limit = take (nat (2 * limit div 3)) t @ marker @ drop (length t - (nat limit - nat (2 * limit div 3))) t \<and>
    marker = newline @ [CHR 0x85] @ '' ['' @ dec_nat (length t - nat limit) @ '' of '' @ dec_nat (length t) @
      '' characters omitted] '' @ [CHR 0x85] @ newline"
  using assms by (simp add: bound_output_def Let_def)

section \<open>Properties\<close>

text \<open>
  Output handed to the model is bounded and its cut is exact: a text within the limit is unchanged; of
  a longer one exactly \<open>limit\<close> characters are kept, the first two thirds from its head and the others
  from its tail, around one marker.
\<close>

theorem bound_output_keeps_limit:
  assumes "0 < limit" and "limit < int (length t)"
  shows "\<exists>head marker tail. bound_output t limit = head @ marker @ tail \<and> int (length head + length tail) = limit \<and>
    prefix head t \<and> suffix tail t \<and> int (length head) = 2 * limit div 3"
proof -
  let ?h = "nat (2 * limit div 3)"
  let ?d = "length t - (nat limit - ?h)"
  have h: "?h \<le> nat limit" "nat limit < length t" using assms by auto
  have "int (length (take ?h t) + length (drop ?d t)) = limit" using h assms(1) by simp
  moreover have "int (length (take ?h t)) = 2 * limit div 3" using h assms by simp
  ultimately show ?thesis using bound_output_cut [OF assms] take_is_prefix suffix_drop by metis
qed

theorem bound_output_keeps_limit_witness:
  "\<exists>head marker tail. bound_output ''abcdefgh'' 3 = head @ marker @ tail \<and> int (length head) = 2"
  using bound_output_keeps_limit [of 3 "''abcdefgh''"] by auto



end
