(* ===== verification/Chunking.thy ===== *)
theory Chunking
  imports Py_Text
begin

text \<open>
  \<open>src/app/ingestion/chunking.py\<close>: a document becomes parent passages, packed from paragraphs, and
  each parent the overlapping children that are embedded. Sizes are \<open>nat\<close>; the random parent ids are
  \<open>fresh 0\<close>, \<open>fresh 1\<close> and so on.
\<close>

section \<open>Parents\<close>

definition DEFAULT_PARENT_CHARS :: nat where "DEFAULT_PARENT_CHARS = 1200"
definition DEFAULT_CHILD_CHARS :: nat where "DEFAULT_CHILD_CHARS = 600"
definition DEFAULT_CHILD_OVERLAP :: nat where "DEFAULT_CHILD_OVERLAP = 150"

record parent_chunk =
  pc_id :: str
  pc_text :: str
  pc_children :: "str list"

definition para_sep :: string where
  "para_sep = newline @ newline"

text \<open>\<open>text.split("\n\n")\<close>; \<open>acc\<close> is the piece read so far.\<close>

fun split_blank :: "string \<Rightarrow> string \<Rightarrow> string list" where
  "split_blank acc [] = [acc]"
| "split_blank acc (c # s) =
     (if prefix para_sep (c # s) then acc # split_blank [] (drop 1 s) else split_blank (acc @ [c]) s)"

definition paragraphs :: "string \<Rightarrow> string list" where
  "paragraphs text = map strip (filter (\<lambda>p. strip p \<noteq> []) (split_blank [] text))"

text \<open>\<open>para[i : i + n] for i in range(0, len(para), n)\<close>; a step of 0 raises.\<close>

fun pieces :: "nat \<Rightarrow> string \<Rightarrow> string list" where
  "pieces n p = (if n = 0 \<or> p = [] then [] else take n p # pieces n (drop n p))"

declare pieces.simps [simp del]

fun pack :: "nat \<Rightarrow> string list \<Rightarrow> string list \<Rightarrow> nat \<Rightarrow> string list result" where
  "pack n [] current current_len = Inr (if current = [] then [] else [join para_sep current])"
| "pack n (para # rest) current current_len =
     (if n < length para then
        (if n = 0 then Inl (ValueError ''range() arg 3 must not be zero'')
         else
           (case pack n rest [] 0 of
              Inl e \<Rightarrow> Inl e
            | Inr ps \<Rightarrow> Inr ((if current = [] then [] else [join para_sep current]) @ pieces n para @ ps)))
      else
        (let added_len = length para + (if current = [] then 0 else 2)
         in if current \<noteq> [] \<and> n < current_len + added_len then
              (case pack n rest [para] (length para) of
                 Inl e \<Rightarrow> Inl e
               | Inr ps \<Rightarrow> Inr (join para_sep current # ps))
            else pack n rest (current @ [para]) (current_len + added_len)))"

definition split_into_parents :: "string \<Rightarrow> nat \<Rightarrow> string list result" where
  "split_into_parents text parent_chars =
     (if paragraphs text = [] then Inr [] else pack parent_chars (paragraphs text) [] 0)"

section \<open>Children\<close>

text \<open>
  The loop of \<open>_sliding_window\<close> from \<open>start\<close> on. \<open>chunk_text\<close> refuses an overlap that leaves no step, with
  which the loop would not end.
\<close>

function windows :: "nat \<Rightarrow> nat \<Rightarrow> string \<Rightarrow> nat \<Rightarrow> string list" where
  "windows child_chars step text start =
     (if \<not> start < length text then []
      else take child_chars (drop start text) #
        (if length text \<le> start + child_chars \<or> step = 0 then [] else windows child_chars step text (start + step)))"
  by pat_completeness auto
termination by (relation "measure (\<lambda>(_, _, text, start). length text - start)") auto

declare windows.simps [simp del]

definition sliding_window :: "string \<Rightarrow> nat \<Rightarrow> nat \<Rightarrow> string list" where
  "sliding_window text child_chars child_overlap =
     (if length text \<le> child_chars then [text] else windows child_chars (child_chars - child_overlap) text 0)"

definition chunk_text :: "(nat \<Rightarrow> str) \<Rightarrow> string \<Rightarrow> nat \<Rightarrow> nat \<Rightarrow> nat \<Rightarrow> parent_chunk list result" where
  "chunk_text fresh text parent_chars child_chars child_overlap =
     (if child_chars \<le> child_overlap then Inl (ValueError ''child_overlap must be smaller than child_chars'')
      else
        (case split_into_parents text parent_chars of
           Inl e \<Rightarrow> Inl e
         | Inr parents \<Rightarrow>
             Inr (map (\<lambda>(i, p). \<lparr>pc_id = fresh i, pc_text = p, pc_children = sliding_window p child_chars child_overlap\<rparr>)
                    (enumerate 0 parents))))"

section \<open>Facts about parents\<close>

lemma pieces_concat: "0 < n \<Longrightarrow> concat (pieces n p) = p"
  by (induction n p rule: pieces.induct) (subst pieces.simps, auto)

lemma pieces_bounds: "q \<in> set (pieces n p) \<Longrightarrow> q \<noteq> [] \<and> length q \<le> n"
proof (induction n p rule: pieces.induct)
  case (1 n p)
  show ?case
  proof (cases "n = 0 \<or> p = []")
    case True
    then show ?thesis using "1.prems" by (simp add: pieces.simps [of n p])
  next
    case False
    then have "q = take n p \<or> q \<in> set (pieces n (drop n p))" using "1.prems" by (simp add: pieces.simps [of n p])
    then show ?thesis using "1.IH" [OF False] False by auto
  qed
qed

lemma para_sep_length [simp]: "length para_sep = 2"
  by (simp add: para_sep_def newline_def)

lemma join_snoc: "xs \<noteq> [] \<Longrightarrow> join sep (xs @ [x]) = join sep xs @ sep @ x"
  by (induction sep xs rule: join.induct) auto

lemma join_mem_sublist: "x \<in> set xs \<Longrightarrow> sublist x (join sep xs)"
proof (induction sep xs rule: join.induct)
  case (3 sep y z zs)
  show ?case
  proof (cases "x = y")
    case True
    then show ?thesis by (simp add: sublist_append_rightI)
  next
    case False
    then have "sublist x (join sep (z # zs))" using 3 by simp
    then show ?thesis by (simp del: join.simps add: join.simps(3)) (metis append.assoc sublist_append_leftI sublist_order.order.trans)
  qed
qed auto

text \<open>
  \<open>packing n current k\<close>: what the loop holds, \<open>current_len\<close> being the length of the join so far.
\<close>

definition packing :: "nat \<Rightarrow> string list \<Rightarrow> nat \<Rightarrow> bool" where
  "packing n current k = (k = length (join para_sep current) \<and> k \<le> n \<and> [] \<notin> set current)"

lemma packing_snoc:
  assumes "packing n current k" and "para \<noteq> []" and "length para \<le> n"
    and "current = [] \<or> k + (length para + 2) \<le> n"
  shows "packing n (current @ [para]) (k + (length para + (if current = [] then 0 else 2)))"
  using assms by (cases "current = []") (auto simp: packing_def join_snoc)

lemma join_nonempty: "xs \<noteq> [] \<Longrightarrow> [] \<notin> set xs \<Longrightarrow> join sep xs \<noteq> []"
  by (induction sep xs rule: join.induct) auto

lemma packing_flush:
  "packing n current k \<Longrightarrow> current \<noteq> [] \<Longrightarrow> join para_sep current \<noteq> [] \<and> length (join para_sep current) \<le> n"
  by (simp add: packing_def join_nonempty)

text \<open>With a positive size the packing never fails, and every parent it makes is non-empty and fits.\<close>

lemma pack_fits:
  assumes "0 < n" and "packing n current k" and "[] \<notin> set paras"
  shows "\<exists>ps. pack n paras current k = Inr ps \<and> (\<forall>p\<in>set ps. p \<noteq> [] \<and> length p \<le> n)"
  using assms
proof (induction n paras current k rule: pack.induct)
  case (1 n current k)
  then show ?case using packing_flush by auto
next
  case (2 n para rest current k)
  have e: "packing n [] 0" by (simp add: packing_def)
  show ?case
  proof (cases "n < length para")
    case True
    obtain ps where "pack n rest [] 0 = Inr ps" "\<forall>p\<in>set ps. p \<noteq> [] \<and> length p \<le> n"
    proof -
      have "\<exists>ps. pack n rest [] 0 = Inr ps \<and> (\<forall>p\<in>set ps. p \<noteq> [] \<and> length p \<le> n)"
        using "2.IH"(1) [OF True _ "2.prems"(1) e] "2.prems" by auto
      then show ?thesis using that by blast
    qed
    then show ?thesis using True "2.prems"(1) packing_flush [OF "2.prems"(2)] pieces_bounds [of _ n para] by auto
  next
    case False
    define added where "added = length para + (if current = [] then 0 else 2)"
    show ?thesis
    proof (cases "current \<noteq> [] \<and> n < k + added")
      case True
      have "packing n [para] (length para)" using False by (simp add: packing_def "2.prems"(3) [simplified])
      then obtain ps where "pack n rest [para] (length para) = Inr ps" "\<forall>p\<in>set ps. p \<noteq> [] \<and> length p \<le> n"
        using "2.IH"(2) [OF False added_def True "2.prems"(1)] "2.prems"(3) by auto
      then show ?thesis using False True packing_flush [OF "2.prems"(2)] by (auto simp: added_def)
    next
      case fits: False
      have "packing n (current @ [para]) (k + added)"
        using packing_snoc [OF "2.prems"(2), of para] "2.prems"(3) False fits by (auto simp: added_def)
      then show ?thesis using "2.IH"(3) [OF False added_def fits "2.prems"(1)] "2.prems"(3) False fits by (auto simp: added_def)
    qed
  qed
qed

text \<open>Nothing is lost: a paragraph that fits is inside one parent, a longer one is its pieces in a row.\<close>

definition carried :: "nat \<Rightarrow> string list \<Rightarrow> string \<Rightarrow> bool" where
  "carried n ps para =
     (if length para \<le> n then \<exists>p\<in>set ps. sublist para p else \<exists>pre post. ps = pre @ pieces n para @ post)"

lemma carried_append: "carried n ps para \<Longrightarrow> carried n (qs @ ps) para"
proof (cases "length para \<le> n")
  case False
  assume "carried n ps para"
  then obtain pre post where "ps = pre @ pieces n para @ post" using False by (auto simp: carried_def)
  then have "qs @ ps = (qs @ pre) @ pieces n para @ post" by simp
  then show ?thesis using False unfolding carried_def by metis
qed (auto simp: carried_def)

lemma pack_carries:
  assumes "pack n paras current k = Inr ps" and "\<forall>p\<in>set current. length p \<le> n" and "para \<in> set current \<union> set paras"
  shows "carried n ps para"
  using assms
proof (induction n paras current k arbitrary: ps rule: pack.induct)
  case (1 n current k)
  then have "ps = [join para_sep current]" "length para \<le> n" "para \<in> set current" by auto
  then show ?case by (simp add: carried_def join_mem_sublist)
next
  case (2 n x rest current k)
  have flush: "carried n (join para_sep current # qs) para" if "para \<in> set current" for qs
    using that "2.prems"(2) by (auto simp: carried_def intro: join_mem_sublist)
  show ?case
  proof (cases "n < length x")
    case True
    obtain qs where qs: "pack n rest [] 0 = Inr qs" "n \<noteq> 0"
        "ps = (if current = [] then [] else [join para_sep current]) @ pieces n x @ qs"
      using "2.prems"(1) True by (auto split: if_splits sum.splits)
    consider "para \<in> set current" | "para = x" | "para \<in> set rest" using "2.prems"(3) by auto
    then show ?thesis
    proof cases
      case 1
      then have "current \<noteq> []" by auto
      then show ?thesis using flush [OF 1] qs(3) by simp
    next
      case 2
      have "\<exists>pre post. ps = pre @ pieces n x @ post" using qs(3) by blast
      then show ?thesis using True 2 by (simp add: carried_def)
    next
      case 3
      then have "carried n qs para" using "2.IH"(1) [OF True qs(2,1)] by simp
      then show ?thesis using qs(3) carried_append [of n qs para "_ @ pieces n x"] by simp
    qed
  next
    case False
    define added where "added = length x + (if current = [] then 0 else 2)"
    show ?thesis
    proof (cases "current \<noteq> [] \<and> n < k + added")
      case True
      obtain qs where qs: "pack n rest [x] (length x) = Inr qs" "ps = join para_sep current # qs"
        using "2.prems"(1) False True by (auto simp: added_def split: sum.splits)
      show ?thesis
      proof (cases "para \<in> set current")
        case True
        then show ?thesis using flush qs(2) by simp
      next
        case no: False
        then have "carried n qs para" using "2.IH"(2) [OF False added_def True qs(1)] "2.prems"(3) False by auto
        then show ?thesis using carried_append [of n qs para "[join para_sep current]"] qs(2) by simp
      qed
    next
      case fits: False
      have "pack n rest (current @ [x]) (k + added) = Inr ps"
        using "2.prems"(1) False fits by (auto simp: added_def)
      then show ?thesis using "2.IH"(3) [OF False added_def fits] "2.prems"(2,3) False by auto
    qed
  qed
qed

lemma paragraphs_nonempty: "[] \<notin> set (paragraphs doc)"
  by (auto simp: paragraphs_def)

section \<open>Facts about children\<close>

lemma windows_bounds: "w \<in> set (windows c step doc start) \<Longrightarrow> length w \<le> c \<and> sublist w doc"
proof (induction c step doc start rule: windows.induct)
  case (1 c step doc start)
  from "1.prems" have "w = take c (drop start doc) \<or>
      (start < length doc \<and> \<not> (length doc \<le> start + c \<or> step = 0) \<and> w \<in> set (windows c step doc (start + step)))"
    by (subst (asm) windows.simps) (auto split: if_splits)
  then show ?case
    using "1.IH" sublist_order.order.trans [OF prefix_imp_sublist [OF take_is_prefix] suffix_imp_sublist [OF suffix_drop]]
    by auto
qed

text \<open>The window that starts at the \<open>k\<close>-th step is among the windows while the text before it has not run out.\<close>

lemma windows_mem:
  assumes "0 < step" and "start + k * step < length doc" and "k = 0 \<or> start + (k - 1) * step + c < length doc"
  shows "take c (drop (start + k * step) doc) \<in> set (windows c step doc start)"
  using assms(2,3)
proof (induction k arbitrary: start)
  case 0
  then show ?case by (subst windows.simps) simp
next
  case (Suc k)
  have a: "start < length doc" "\<not> length doc \<le> start + c"
    using Suc.prems assms(1) by auto
  have "take c (drop ((start + step) + k * step) doc) \<in> set (windows c step doc (start + step))"
  proof (rule Suc.IH)
    show "start + step + k * step < length doc" using Suc.prems(1) by simp
    show "k = 0 \<or> start + step + (k - 1) * step + c < length doc" using Suc.prems(2) by (cases k) auto
  qed
  then show ?case using a assms(1) by (subst windows.simps) (simp add: algebra_simps)
qed

lemma window_covers:
  assumes "0 < step" and "step \<le> c" and "p + length q \<le> length doc" and "take (length q) (drop p doc) = q"
    and "length q + step \<le> c + 1" and "q \<noteq> []"
  shows "\<exists>w\<in>set (windows c step doc 0). sublist q w"
proof -
  define m where "m = (LEAST k. length doc \<le> k * step + c)"
  have ex: "length doc \<le> length doc * step + c" using assms(1) by (simp add: trans_le_add1)
  have m: "length doc \<le> m * step + c" unfolding m_def using ex by (rule LeastI)
  have below: "k * step + c < length doc" if "k < m" for k using not_less_Least that unfolding m_def by fastforce
  define k where "k = min (p div step) m"
  have kp: "k * step \<le> p" unfolding k_def by (metis div_times_less_eq_dividend min.cobounded1 mult_le_mono1 order_trans)
  have inside: "p + length q \<le> k * step + c"
  proof (cases "p div step \<le> m")
    case True
    have "p < (p div step) * step + step" using assms(1) by (metis add.commute dividend_less_div_times)
    then show ?thesis using True assms(5) by (simp add: k_def)
  next
    case False
    then show ?thesis using m assms(3) by (simp add: k_def)
  qed
  have "k * step < length doc" using kp assms(3,6) by (cases q) auto
  moreover have "k = 0 \<or> (k - 1) * step + c < length doc" using below [of "k - 1"] by (cases k) (auto simp: k_def)
  ultimately have w: "take c (drop (k * step) doc) \<in> set (windows c step doc 0)"
    using windows_mem [OF assms(1), of 0 k doc c] by simp
  have "take (length q) (drop (p - k * step) (take c (drop (k * step) doc))) = q"
    using kp assms(4) add_le_imp_le_diff [of "length q" p "c + k * step"] inside by (simp add: drop_take min_def add.commute)
  then have "sublist q (take c (drop (k * step) doc))"
    by (metis prefix_imp_sublist sublist_order.order.trans suffix_drop suffix_imp_sublist take_is_prefix)
  then show ?thesis using w by blast
qed

lemma chunk_text_texts:
  "chunk_text fresh doc n c v = Inr chunks \<Longrightarrow>
   v < c \<and> split_into_parents doc n = Inr (map pc_text chunks) \<and>
   (\<forall>ch\<in>set chunks. pc_children ch = sliding_window (pc_text ch) c v)"
  by (auto simp: chunk_text_def comp_def case_prod_beta enumerate_eq_zip split: if_splits sum.splits)

section \<open>Properties\<close>

text \<open>
  C16. A passage no longer than the overlap is never cut: whatever the document, every piece of a parent of
  at most \<open>child_overlap + 1\<close> characters is whole inside at least one of the parent's children, and
  every child is a piece of its parent of at most \<open>child_chars\<close> characters.
\<close>

theorem passage_whole_in_some_child:
  assumes "chunk_text fresh doc parent_chars child_chars child_overlap = Inr chunks" and "ch \<in> set chunks"
    and "sublist q (pc_text ch)" and "q \<noteq> []" and "length q \<le> child_overlap + 1"
  shows "(\<exists>w\<in>set (pc_children ch). sublist q w) \<and>
    (\<forall>w\<in>set (pc_children ch). sublist w (pc_text ch) \<and> length w \<le> child_chars)"
proof -
  have v: "child_overlap < child_chars" and kids: "pc_children ch = sliding_window (pc_text ch) child_chars child_overlap"
    using chunk_text_texts [OF assms(1)] assms(2) by auto
  show ?thesis
  proof (cases "length (pc_text ch) \<le> child_chars")
    case True
    then show ?thesis using kids assms(3) by (simp add: sliding_window_def)
  next
    case False
    obtain u z where uz: "pc_text ch = u @ q @ z" using assms(3) by (auto simp: sublist_def)
    have "\<exists>w\<in>set (windows child_chars (child_chars - child_overlap) (pc_text ch) 0). sublist q w"
      by (rule window_covers [of _ _ "length u"]) (use v uz assms(4,5) in auto)
    then show ?thesis using kids False windows_bounds by (auto simp: sliding_window_def)
  qed
qed

theorem passage_whole_in_some_child_witness:
  "\<exists>chunks ch. chunk_text (\<lambda>_. ''id'') ''abcdefgh'' 100 4 2 = Inr chunks \<and> ch \<in> set chunks \<and>
     (\<exists>w\<in>set (pc_children ch). sublist ''def'' w)"
proof -
  let ?ch = "\<lparr>pc_id = ''id'', pc_text = ''abcdefgh'', pc_children = sliding_window ''abcdefgh'' 4 2\<rparr>"
  have p: "paragraphs ''abcdefgh'' = [''abcdefgh'']" by code_simp
  have c: "chunk_text (\<lambda>_. ''id'') ''abcdefgh'' 100 4 2 = Inr [?ch]"
    by (simp add: chunk_text_def split_into_parents_def p)
  have q: "sublist ''def'' (pc_text ?ch)" by code_simp
  show ?thesis using passage_whole_in_some_child [OF c, of ?ch "''def''"] q c by auto
qed

text \<open>
  Chunking loses no paragraph: with a positive parent size and an overlap below the child size it
  never fails, every parent is non-empty and within \<open>parent_chars\<close>, a paragraph that fits is whole
  inside one parent, and a longer one is exactly its pieces, one parent after the other.
\<close>

theorem chunking_keeps_paragraphs:
  assumes "0 < parent_chars" and "child_overlap < child_chars"
  shows "\<exists>chunks. chunk_text fresh doc parent_chars child_chars child_overlap = Inr chunks \<and>
    (\<forall>ch\<in>set chunks. pc_text ch \<noteq> [] \<and> length (pc_text ch) \<le> parent_chars) \<and>
    (\<forall>para\<in>set (paragraphs doc).
       if length para \<le> parent_chars then \<exists>ch\<in>set chunks. sublist para (pc_text ch)
       else concat (pieces parent_chars para) = para \<and>
         (\<exists>pre post. map pc_text chunks = pre @ pieces parent_chars para @ post))"
proof -
  obtain ps where ps: "split_into_parents doc parent_chars = Inr ps" "\<forall>p\<in>set ps. p \<noteq> [] \<and> length p \<le> parent_chars"
      "\<forall>para\<in>set (paragraphs doc). carried parent_chars ps para"
  proof (cases "paragraphs doc = []")
    case True
    then show ?thesis using that [of "[]"] by (simp add: split_into_parents_def)
  next
    case False
    obtain qs where "pack parent_chars (paragraphs doc) [] 0 = Inr qs" "\<forall>p\<in>set qs. p \<noteq> [] \<and> length p \<le> parent_chars"
      using pack_fits [OF assms(1), of "[]" 0 "paragraphs doc"] paragraphs_nonempty by (auto simp: packing_def)
    then show ?thesis using that [of qs] False pack_carries [of parent_chars "paragraphs doc" "[]" 0 qs]
      by (simp add: split_into_parents_def)
  qed
  obtain chunks where c: "chunk_text fresh doc parent_chars child_chars child_overlap = Inr chunks"
    using ps(1) assms(2) by (simp add: chunk_text_def)
  have t: "ps = map pc_text chunks" using chunk_text_texts [OF c] ps(1) by simp
  have "if length para \<le> parent_chars then \<exists>ch\<in>set chunks. sublist para (pc_text ch)
      else concat (pieces parent_chars para) = para \<and>
        (\<exists>pre post. map pc_text chunks = pre @ pieces parent_chars para @ post)" if "para \<in> set (paragraphs doc)" for para
    using ps(3) that pieces_concat [OF assms(1)] by (auto simp: carried_def t split: if_splits)
  moreover have "\<forall>ch\<in>set chunks. pc_text ch \<noteq> [] \<and> length (pc_text ch) \<le> parent_chars" using ps(2) t by simp
  ultimately show ?thesis using c by blast
qed

theorem chunking_keeps_paragraphs_witness:
  "\<exists>chunks. chunk_text (\<lambda>_. ''id'') ''abcdefgh'' 100 4 2 = Inr chunks \<and> (\<exists>ch\<in>set chunks. sublist ''abcdefgh'' (pc_text ch))"
proof -
  have p: "''abcdefgh'' \<in> set (paragraphs ''abcdefgh'')" by code_simp
  show ?thesis using chunking_keeps_paragraphs [of 100 2 4 "\<lambda>_. ''id''" "''abcdefgh''"] p by force
qed

end
