(* ===== verification/Spec2Isabelle.thy ===== *)
theory Spec2Isabelle
  imports Export_Claims Graph_Runs Graph_Utils Budget_Claims Identity_Claims Queue_Claims Chat_Claims
    Resilience Domain_Claims Ops_Tools Sandbox Chunking
begin

text \<open>
  A verification library for the agent service under \<open>src/\<close>: the agent's graph, the runtime that streams its
  turns, the queue and worker that run them, the front door, the tools of the domains, the cost controls, and the
  credit billing package.

  \<^bold>\<open>The program.\<close> A person's message enters through an HTTP endpoint, the CLI or Telegram. The endpoint
  (\<open>app/api/routers/chat.py\<close>) checks whose conversation it is and publishes a job to Redis
  (\<open>app/job_queue/queue.py\<close>). A worker (\<open>app/job_queue/agent_worker.py\<close>) takes the job under its thread's lock and
  drives a run of a LangGraph graph (\<open>app/agent/runtime/stream.py\<close>), whose nodes and routers are
  \<open>app/agent/graph/\<close>: screening, retrieval, the model, a human approval before a tool acts, tools, output checks with
  retries. Every model call is priced, metered and counted against budgets (\<open>app/agent/cost/\<close>); usage is rated into
  credits and charged to a wallet, which payment webhooks fill (\<open>packages/billing/\<close>). A caller's identity is a
  signed token (\<open>app/core/internal_identity.py\<close>). The support, sales and operations domains (\<open>app/domains/\<close>) bring tools
  over their own tables and over a sandbox and the web; each runs through a bounded wait that scrubs its output
  (\<open>app/core/tool_runtime.py\<close>) and once per call id.

  \<^bold>\<open>Theories, in the order of the imports.\<close>

  \<^item> Shared: \<open>Prelude\<close> (collections, lists, maps, the types of texts), \<open>Transition_Systems\<close> (runs of a step relation, their
    invariants and ranks, as locales), \<open>Py_Text\<close> and \<open>Py_Regex\<close> (Python's string methods and the regular expressions the
    source uses, with \<open>re\<close>'s leftmost, ordered matching and a fuel for \<open>finditer\<close> that is proved enough).
  \<^item> The graph: \<open>Security\<close> (\<open>core/security.py\<close>), \<open>Untrusted\<close>, \<open>Moderation\<close>, \<open>Routing_Policy\<close>, \<open>Tool_Idempotency\<close>
    (\<open>core/\<close> and its Postgres ledger), \<open>Messages\<close>, \<open>Graph_State\<close>, \<open>Loop_Guards\<close>, \<open>Citations\<close>, \<open>Output_Guardrails\<close>,
    \<open>Output_Checks\<close>, \<open>Routing\<close>, \<open>Hitl\<close>, \<open>Retry\<close>, \<open>Entry_Nodes\<close>, \<open>Semantic_Cache\<close>, \<open>Enrichment\<close>, \<open>Compaction\<close>, \<open>Model_Route\<close>,
    \<open>Agent_Node\<close> (one per file of \<open>agent/graph/\<close>, nodes as functions from the state to a list of updates), \<open>Graph_Build\<close>
    (\<open>build.py\<close>: the nodes and edges of a profile, supersteps, a run as an inductive step relation), \<open>Graph_Runs\<close> (the
    invariant and the rank of runs), \<open>Graph_Utils\<close>.
  \<^item> Billing: \<open>Wallet\<close> (\<open>credits.py\<close> on its four tables, with transactions and savepoints), \<open>Wallet_Laws\<close>, \<open>Wallet_Effects\<close>,
    \<open>Wallet_Runs\<close>, \<open>Wallet_Claims\<close>; \<open>Billing_Store\<close>, \<open>Webhooks\<close>, \<open>Webhook_Claims\<close>; \<open>Usage_Billing\<close>, \<open>Usage_Claims\<close>;
    \<open>Usage_Export\<close>, \<open>Export_Claims\<close>.
  \<^item> Cost: \<open>Pricing\<close>, \<open>Gateway_Identity\<close>, \<open>Metering\<close>, \<open>Budgets\<close> with \<open>Budget_Laws\<close>, and their claims.
  \<^item> Identity: \<open>Identity\<close> and \<open>Identity_Claims\<close>.
  \<^item> Runtime, queue, front door: \<open>Turn_Stream\<close> (\<open>runtime/stream.py\<close>, \<open>runtime/cancelled_turn.py\<close>), \<open>Job_Queue\<close> (\<open>queue.py\<close>,
    \<open>producer.py\<close>), \<open>Agent_Worker\<close>, \<open>Queue_Laws\<close>; \<open>Sessions\<close> and \<open>Chat_Api\<close> (\<open>runtime/sessions.py\<close>, \<open>api/routers/chat.py\<close>), and
    their claims.
  \<^item> Tools of the domains: \<open>Tool_Runtime\<close> (\<open>core/scrubbing.py\<close>, \<open>core/tool_runtime.py\<close>, \<open>domains/policy.py\<close>), \<open>Row_Tables\<close>
    (tables with a serial id and a unique call id, and two contracts), \<open>Ticket_Store\<close> (\<open>support/store.py\<close>, \<open>ops/store.py\<close>),
    \<open>Crm_Store\<close> and \<open>Crm_Laws\<close> (\<open>sales/store.py\<close>), \<open>Domain_Tools\<close> (\<open>support/tools.py\<close>, \<open>sales/tools.py\<close>,
    \<open>scripts/followup_sweep.py\<close>), \<open>Domain_Claims\<close>, \<open>Ops_Tools\<close> (\<open>ops/tools.py\<close>, \<open>ops/metric_checks.py\<close>, \<open>web_search.py\<close>),
    \<open>Sandbox\<close> (\<open>sandbox_session.py\<close>, \<open>core/output_limits.py\<close>).
  \<^item> \<open>Resilience\<close> (\<open>core/resilience.py\<close>) and \<open>Chunking\<close> (\<open>ingestion/chunking.py\<close>).

  \<^bold>\<open>How the code is read.\<close> Data are records and datatypes with the source's fields and constructors; a handler is one
  function with every branch and early return; an exception is a value of a sum type; a table is a list of rows
  in the order of insertion, with its constraints as conditions on an insert. Code outside \<open>src/\<close> is an argument:
  LangGraph's reducer, checkpoints and event stream, the chat model, the classifier, PyJWT, the gateway, Postgres' faults,
  the clock, and Redis, which answers each call given the calls before it. Where a theorem needs something of
  them it is a named hypothesis (\<open>reducer_laws\<close>, \<open>redis_log_honest\<close>, \<open>documented_redis\<close>, \<open>answers\<close>, \<open>hex_digest\<close>, the laws of the
  locales), each with a witness that has it.

  \<^bold>\<open>What is shown.\<close> Of a run of the graph (this theory): tools that act run only after an approval of exactly those
  calls; the caller's context is fixed for the turn; a screened text never reaches the model, a tool or the cache; every
  run ends within \<open>4 * max 1 max_iterations + 7\<close> steps; only the model and the tools can raise. Of the stream of a turn: one
  terminal event, shown text equals recorded text, unattended turns never stop at a pause, no hold stays behind, a
  stopped turn leaves no open question. Of the queue: mutual exclusion of a thread's lock over the server's log, the
  order of a job's calls whatever fails, that a caller is told exactly once, that a replayed submission runs once, and
  that a lost job is retried within bounds or archived. Of the front door: every request that reaches a conversation is
  its owner's. Of the cost controls: prices bound every deployment, calls are metered once, a tenant's overshoot is
  one turn, a suspension refuses. Of the tools: a sales tool never shows or changes another tenant's leads, one call id
  files one ticket or incident even with the ledger down, a lost lead is not nudged, a sweep leaves nothing due, no
  configured secret is in scrubbed output, a reused sandbox has one owner. Of the circuit breaker: its count and state
  agree under every interleaving, no call starts while it is open, and a trial that ends with an exception the caller
  did not name leaves it half open for good. Of chunking: no paragraph is lost and a passage within the overlap is
  whole in some child. Of the wallet: it refines an account book in which each key is posted once, its
  tables stay consistent under every sequence of operations, a debit is never refused, webhooks move only linked
  money and only once, usage is recorded and charged once or reported. Of identity: a context comes only from a token
  signed by a key published recently enough.

  \<^bold>\<open>Locales.\<close> \<open>Transition_Systems\<close> states invariants and ranks for any step relation and is interpreted on runs of the
  graph, of the wallet and of turns under a budget; \<open>access_policy\<close> (\<open>Security\<close>), \<open>tool_call_ledger\<close> (\<open>Tool_Idempotency\<close>) and
  \<open>owner_directory\<close> (\<open>Chat_Claims\<close>), \<open>one_row_per_call\<close> (\<open>Row_Tables\<close>, interpreted on tickets and on incidents) and
  \<open>tenant_scoped\<close> (\<open>Row_Tables\<close>, interpreted on tickets and on leads) state what a client relies on and are interpreted on the model's own operations.

  \<^bold>\<open>Bounds and fuel.\<close> \<open>finditer\<close> runs on a fuel of one more than the length of the text, proved enough; the retention
  and expiry loops recurse on a measure of the rows left; the decline loop on the rounds left; everything else is
  structural. \<open>MAX_AUTO_RECLAIM_RETRIES\<close>, \<open>UNATTENDED_MAX_DECLINE_ROUNDS\<close> and the other settings have the defaults of
  \<open>app/core/config.py\<close>; limits that a deployment sets are arguments.

  \<^bold>\<open>Idealisations.\<close> Floats of prices and budgets are rationals. Characters are the 256 of \<open>char\<close>, read as the code page
  the texts of the source fit in; \<open>Gateway_Identity\<close> maps them to code points for UTF-8. Decimals of the wallet are
  rationals with the context's precision and rounding written out. Rows sorted by equal keys come in table order. An
  endpoint's use of the session table is one step.

  \<^bold>\<open>Not modelled.\<close> Metrics, traces and log lines; the process loops of workers (signals, semaphores, reading a consumer
  group); PDF parsing, embedding, vector search and reranking, which call libraries; prompts, skills and tool texts of
  the domains; the MCP bridge, the sandbox service itself, the Telegram and CLI loops; thin adapters of services; evaluation, review and
  smoke scripts. The manifest names each with its reason.
\<close>

section \<open>A concrete graph and run\<close>

text \<open>
  A delegated run in a domain with one read-only and one mutating tool, and what the outside
  answers in it: the model asks for the mutating tool, the person approves. The properties'
  witnesses are evaluated on it.
\<close>

definition sample_lib :: library where
  "sample_lib = \<lparr>add_messages = (\<lambda>ms us. ms @ us),
     tools_condition = (\<lambda>ms. ms \<noteq> [] \<and> tool_calls (last ms) \<noteq> [])\<rparr>"

definition sample_router :: router_config where
  "sample_router = \<lparr>ROUTER_MODE = Off, ROUTER_LABELS = False, ROUTER_MAX_TIER = Local,
     ROUTER_LONG_PROMPT_CHARS = 4000, MEDIUM_CHAT_MODEL = [], STRONG_CHAT_MODEL = []\<rparr>"

definition sample_graph :: graph where
  "sample_graph = build_subagent_graph sample_lib sample_router ''m'' 1
     \<lparr>system_prompt = ''p'', allowed_tools = []\<rparr>
     \<lparr>dom_tools = [''find'', ''save''], dom_tool_capabilities = [(''find'', ''read_only''), (''save'', ''mutating'')]\<rparr>
     (Some 3) None None True"

definition sample_call :: tool_call where
  "sample_call = \<lparr>tc_name = ''save'', tc_args = JNull, tc_id = ''c''\<rparr>"

definition sample_ctx :: security_ctx where
  "sample_ctx = \<lparr>tenant = ''acme'', principal = ''ann'', claims = []\<rparr>"

definition sample_io :: io where
  "sample_io = \<lparr>io_uuid = ''0123456789'', io_version = ''v'', io_ctx = Some sample_ctx,
     io_score = Inl TimeoutError, io_cache_get = (\<lambda>_ _. None), io_tokens = length,
     io_plain_llm = (\<lambda>_. Inl TimeoutError), io_classify = (\<lambda>_. Inl TimeoutError),
     io_refuse_unpriced = (\<lambda>_. Inr False), io_search = (\<lambda>_ _. Inl TimeoutError),
     io_llm = \<lparr>invoke = (\<lambda>_ _. Inr \<lparr>lc_response = (AIMessage [])\<lparr>tool_calls := [sample_call]\<rparr>,
         lc_total_tokens = 5, lc_cost_usd = 0\<rparr>), is_unreachable = (\<lambda>_. False), content_block = (\<lambda>_. None)\<rparr>,
     io_tool_node = (\<lambda>_. Inr []), io_decision = DBool True\<rparr>"

definition sample_state :: state where
  "sample_state = fresh_state\<lparr>messages := [HumanMessage ''hi'']\<rparr>"

lemma sample_io_ok [simp]: "tool_node_ok sample_io"
  by (simp add: tool_node_ok_def sample_io_def)

lemma sample_defs_registered [simp]: "io_ctx sample_io = Some sample_ctx"
  by (simp add: sample_io_def)

lemma run_reach: "tool_node_ok i \<Longrightarrow> (step g)\<^sup>*\<^sup>* c ((graph_step g i ^^ n) c)"
proof (induction n)
  case (Suc n)
  let ?c = "(graph_step g i ^^ n) c"
  show ?case
  proof (cases "terminal ?c")
    case True
    then have "graph_step g i ?c = ?c" by (cases ?c) simp_all
    then show ?thesis using Suc by simp
  next
    case False
    then have "step g ?c (graph_step g i ?c)" using Suc.prems by (auto simp: step_iff)
    then show ?thesis using Suc by auto
  qed
qed simp

definition sample_valid :: state where
  "sample_valid = sample_state\<lparr>run_id := ''01234567'', graph_version := ''v'',
     state_schema_version := Some 1, ctx := Some sample_ctx\<rparr>"

definition sample_asked :: state where
  "sample_asked = sample_valid\<lparr>messages := [HumanMessage ''hi'', (AIMessage [])\<lparr>tool_calls := [sample_call]\<rparr>],
     iterations := 1, total_tokens := 5, context_anchor_index := Some 0\<rparr>"

lemma sample_graph_simps [simp]:
  "g_profile sample_graph = SUBAGENT_PROFILE" "g_lib sample_graph = sample_lib"
  "max_iterations (g_limits sample_graph) = 3" "max_tokens (g_limits sample_graph) = 16000"
  "max_cost_usd (g_limits sample_graph) = 1" "g_valid_tool_names sample_graph = [''find'', ''save'']"
  "g_capabilities sample_graph = [(''find'', ''read_only''), (''save'', ''mutating'')]"
  "g_router sample_graph = sample_router"
  by (simp_all add: sample_graph_def build_subagent_graph_def build_graph_def or_default_def Let_def budget_defs)

lemmas sample_defs = sample_lib_def sample_router_def sample_call_def sample_io_def
  sample_state_def sample_valid_def sample_asked_def SUBAGENT_PROFILE_def

lemma sample_is_user [simp]: "is_user_message (HumanMessage t)"
  by (simp add: is_user_message_def)

lemma sample_step_validate:
  "graph_step sample_graph sample_io (start sample_state) = Running [ModerateInput] sample_valid"
  by (simp add: first_step validate_input_def Let_def heal_legacy_retry_artifacts_def sample_defs
      route_after_validation_def last_human_message_def last_such_def human_has_content_def fresh_state_def
      concat_or_reset_def STATE_SCHEMA_VERSION_def valid_ctx_def sample_ctx_def strip_def lstrip_def rstrip_def
      is_space_def ccode_def)

lemma sample_allowed: "allowed (screen (Inl TimeoutError) ''hi'')"
  by (simp add: screen_def injection_patterns_def denylist_patterns_def short_text_no_match del: seqs.simps liti.simps)

lemma sample_step_moderate:
  "graph_step sample_graph sample_io (Running [ModerateInput] sample_valid) = Running [RetrieveContext] sample_valid"
  using sample_allowed
  by (simp add: superstep_one run_node_def moderate_input_def next_nodes_def route_after_moderation_def
      after_moderation_def after_cache_miss_def before_retrieval_def last_human_message_def last_such_def
      human_text_def sample_defs fresh_state_def)

lemma sample_step_retrieve:
  "graph_step sample_graph sample_io (Running [RetrieveContext] sample_valid) =
   Running [Agent] (sample_valid\<lparr>context_anchor_index := Some 0\<rparr>)"
  by (simp add: superstep_one run_node_def retrieve_context_def question_anchor_def next_nodes_def
      last_human_message_def last_such_def sample_defs fresh_state_def Let_def)

lemma sample_step_agent:
  "graph_step sample_graph sample_io (Running [Agent] (sample_valid\<lparr>context_anchor_index := Some 0\<rparr>)) =
   Running [HumanApproval] sample_asked"
  by (simp add: superstep_one run_node_def agent_def invoke_routed_def tier_alias_def next_nodes_def
      should_continue_def gateway_refused_def effective_tokens_def effective_cost_usd_def pending_calls_def
      batch_problem_def invalid_tool_call_names_def use_skill_called_without_search_def budget_defs
      consecutive_repeat_count_def current_turn_tool_call_batches_def current_turn_messages_def
      mandatory_gate_reason_def tool_capability_def sample_defs fresh_state_def Let_def is_user_message_def)

lemma sample_paused:
  "(graph_step sample_graph sample_io ^^ 5) (start sample_state) = Paused sample_asked"
  by (simp add: eval_nat_numeral sample_step_validate sample_step_moderate sample_step_retrieve
      sample_step_agent del: graph_step.simps(1)) simp

lemma sample_reach: "(step sample_graph)\<^sup>*\<^sup>* (start sample_state) (Paused sample_asked)"
  using run_reach [OF sample_io_ok, of sample_graph "start sample_state" 5] by (simp only: sample_paused)

lemma sample_resume:
  "graph_step sample_graph sample_io (Paused sample_asked) = Running [Tools] (sample_asked\<lparr>approved := True\<rparr>)"
  by (simp add: superstep_one run_node_def human_approval_def next_nodes_def route_after_approval_def
      sample_defs fresh_state_def CANCEL_SENTINEL_def Let_def)

lemma sample_resume_step:
  "step sample_graph (Paused sample_asked) (Running [Tools] (sample_asked\<lparr>approved := True\<rparr>))"
  using sample_io_ok sample_resume by (metis step_iff terminal.simps(4))

section \<open>Properties of whole runs\<close>

text \<open>
  C1. Nothing that changes the world runs without a person's yes to exactly that. In every run of
  a turn, if the tools are scheduled with a pending call whose capability is not \<open>read_only\<close> (an
  undeclared tool counts as \<open>outward\<close>), or with approval requested, then the run was paused just
  before, the person was shown exactly the names and arguments of the pending calls, and the
  decision that resumed it was an approval, not a rejection and not a cancellation.
\<close>

theorem acting_needs_approval:
  assumes "(step g)\<^sup>*\<^sup>* (start s) c" and "step g c (Running ns t)" and "Tools \<in> set ns"
    and "set (map snd (g_capabilities g)) \<subseteq> {''read_only'', ''mutating'', ''outward''}"
    and "require_approval t \<or>
      (\<exists>tc\<in>set (pending_calls (messages t)). tool_capability (tc_name tc) (g_capabilities g) \<noteq> ''read_only'')"
  shows "\<exists>p i. c = Paused p \<and> Running ns t = graph_step g i c \<and> truthy (io_decision i) \<and>
    io_decision i \<noteq> DStr CANCEL_SENTINEL \<and> pending_calls (messages t) = pending_calls (messages p) \<and>
    approval_request p = map (\<lambda>tc. (tc_name tc, tc_args tc)) (pending_calls (messages t))"
  using into_tools [OF reach_inv [OF assms(1)] assms(2,3)]
proof (elim disjE conjE)
  assume "should_continue (tools_condition (g_lib g)) (g_limits g) (g_capabilities g) (g_valid_tool_names g) t = Tools"
  then have no: "\<not> require_approval t" "mandatory_gate_reason (pending_calls (messages t)) (g_capabilities g) = None"
    by (auto simp: should_continue_Tools)
  then obtain tc where tc: "tc \<in> set (pending_calls (messages t))"
    "tool_capability (tc_name tc) (g_capabilities g) \<noteq> ''read_only''" using assms(5) by blast
  moreover have "tool_capability (tc_name tc) (g_capabilities g) \<in> {''read_only'', ''mutating'', ''outward''}"
    using assms(4) by (auto simp: tool_capability_def split: option.splits dest!: map_of_SomeD)
  ultimately show ?thesis using no(2) by (auto simp: mandatory_gate_reason_None_iff)
qed (auto simp: approval_request_def)

theorem acting_needs_approval_witness:
  "\<exists>p i. Paused sample_asked = Paused p \<and>
    Running [Tools] (sample_asked\<lparr>approved := True\<rparr>) = graph_step sample_graph i (Paused sample_asked) \<and>
    truthy (io_decision i) \<and> io_decision i \<noteq> DStr CANCEL_SENTINEL \<and>
    pending_calls (messages (sample_asked\<lparr>approved := True\<rparr>)) = pending_calls (messages p) \<and>
    approval_request p = map (\<lambda>tc. (tc_name tc, tc_args tc))
      (pending_calls (messages (sample_asked\<lparr>approved := True\<rparr>)))"
  by (rule acting_needs_approval [OF sample_reach sample_resume_step])
    (simp_all add: sample_asked_def sample_call_def pending_calls_def tool_capability_def)

text \<open>
  C2. The security context is the request's, for the whole turn: after validation every
  configuration a run reaches carries exactly the context of the configuration the graph was
  invoked with, whatever the model, the tools or a resume did; and every node scheduled from then
  on, except the refusal itself, runs with a valid context.
\<close>

theorem ctx_fixed_for_turn:
  assumes "(step g)\<^sup>*\<^sup>* (graph_step g i (start s)) c"
  shows "ctx (config_state c) = io_ctx i \<and> (set (scheduled c) \<subseteq> {RejectContext} \<or> valid_ctx (io_ctx i))"
proof -
  have inv: "turn_inv g c" using turn.inv_reach [OF assms turn_inv_first] .
  have fixed: "ctx (config_state c) = io_ctx i" "ValidateInput \<notin> set (scheduled c)"
    using reach_ctx [OF assms] by simp_all
  have "valid_ctx (ctx (config_state c))" if "n \<in> set (scheduled c)" "n \<noteq> RejectContext" for n
    using inv that fixed(2)
    by (cases c; cases n) (auto simp: nodes_ok_def node_inv_def past_gate_def in_loop_def answered_def)
  with fixed show ?thesis by auto
qed

theorem ctx_fixed_for_turn_witness:
  "ctx (config_state (Running [ModerateInput] sample_valid)) = Some sample_ctx \<and>
   (set (scheduled (Running [ModerateInput] sample_valid)) \<subseteq> {RejectContext} \<or> valid_ctx (Some sample_ctx))"
  using ctx_fixed_for_turn [of sample_graph sample_io sample_state "Running [ModerateInput] sample_valid"]
  by (simp add: sample_step_validate)

text \<open>
  C3. Moderation comes before any spend. If the text of the person's message contains one of the
  screened patterns when the turn is validated, no run of the turn ever schedules the cache, the
  summariser, the router, retrieval, the model, a tool or an approval: only the refusals.
\<close>

theorem screened_text_never_spends:
  assumes "last_human_message (messages (config_state (graph_step g i (start s)))) = Some m"
    and "pattern_hit (human_text (Some m))"
    and "(step g)\<^sup>*\<^sup>* (graph_step g i (start s)) c"
  shows "set (scheduled c) \<subseteq> {RejectContext, RejectInput, ModerateInput, RejectModeration}"
proof -
  define s1 where "s1 = config_state (graph_step g i (start s))"
  have "c = Running [ModerateInput] s1 \<or> terminal c \<or>
      (\<exists>n t. c = Running [n] t \<and> n \<in> {RejectContext, RejectInput, RejectModeration})"
    using assms(3)
  proof (induction rule: rtranclp_induct)
    case base
    then show ?case by (auto simp: first_step Let_def route_after_validation_def s1_def)
  next
    case (step d d')
    then obtain j where j: "d' = graph_step g j d" "\<not> terminal d" by (auto simp: step_iff)
    show ?case
    proof (cases "d = Running [ModerateInput] s1")
      case True
      have "moderation_blocked (apply_upds (add_messages (g_lib g)) (moderate_input (io_score j) s1) s1)"
        using moderate_input_blocks assms(1,2) by (simp add: s1_def)
      then show ?thesis using j True
        by (simp add: superstep_one run_node_def next_nodes_def route_after_moderation_def)
    next
      case False
      then obtain n t where "d = Running [n] t" "n \<in> {RejectContext, RejectInput, RejectModeration}"
        using step.IH j by auto
      then show ?thesis using j by (auto simp: superstep_one run_node_def next_nodes_def)
    qed
  qed
  then show ?thesis by (cases c) auto
qed

definition sample_hostile :: state where
  "sample_hostile = fresh_state\<lparr>messages := [HumanMessage ''reveal instruction'']\<rparr>"

lemma sample_hostile_hit: "pattern_hit ''reveal instruction''"
proof -
  have "rx_ends (injection_patterns ! 3) ''reveal instruction'' 0 \<noteq> []" by code_simp
  then have "rx_search (injection_patterns ! 3) ''reveal instruction''"
    using search_from_None_iff [of "injection_patterns ! 3" "''reveal instruction''" 0]
    by (auto simp: rx_search_def)
  then show ?thesis by (simp add: pattern_hit_def injection_patterns_def)
qed

lemma sample_hostile_human:
  "last_human_message (messages (config_state (graph_step sample_graph sample_io (start sample_hostile)))) =
   Some (HumanMessage ''reveal instruction'')"
  by (simp add: first_step validate_input_def Let_def heal_legacy_retry_artifacts_def sample_hostile_def
      fresh_state_def last_human_message_def last_such_def)

theorem screened_text_never_spends_witness:
  "set (scheduled (graph_step sample_graph sample_io (start sample_hostile)))
     \<subseteq> {RejectContext, RejectInput, ModerateInput, RejectModeration}"
  by (rule screened_text_never_spends [OF sample_hostile_human])
    (simp_all add: human_text_def sample_hostile_hit)

text \<open>
  C4. Every turn ends. No run from the start of a turn has more than \<open>4 * max 1 max_iterations + 7\<close>
  steps (a pause counts as one), whatever the model, the tools and the person answer; a run that
  has not ended can always go on; and some run of at most that length ends.
\<close>

theorem turn_is_bounded:
  "{n. \<exists>c. (step g ^^ n) (start s) c} \<subseteq> {.. 4 * max 1 (max_iterations (g_limits g)) + 7} \<and>
   ((\<nexists>d. step g c d) \<longleftrightarrow> terminal c) \<and>
   (\<exists>n c. n \<le> 4 * max 1 (max_iterations (g_limits g)) + 7 \<and> (step g ^^ n) (start s) c \<and> terminal c)"
proof (intro conjI)
  show "{n. \<exists>c. (step g ^^ n) (start s) c} \<subseteq> {.. 4 * max 1 (max_iterations (g_limits g)) + 7}"
  proof (clarsimp)
    fix n c assume "(step g ^^ n) (start s) c"
    from turn.run_bounded [OF this turn_inv_start]
    show "n \<le> 4 * max (Suc 0) (max_iterations (g_limits g)) + 7"
      by (simp add: turn_rank_start agent_budget_def)
  qed
  show "(\<nexists>d. step g c d) \<longleftrightarrow> terminal c" by (rule no_step_iff_terminal)
  show "\<exists>n c. n \<le> 4 * max 1 (max_iterations (g_limits g)) + 7 \<and> (step g ^^ n) (start s) c \<and> terminal c"
    using turn.reaches_end [OF turn_inv_start, of g s]
    unfolding no_step_iff_terminal turn_rank_start agent_budget_def .
qed

text \<open>
  C34. The conditions under which tools run. Whenever a run has its tools scheduled, the person's
  message passed moderation, the context is valid, the model has been called fewer times than
  the budget allows, and the pending batch is well formed: at most \<open>MAX_TOOL_CALLS_PER_TURN\<close> calls,
  each to a tool the domain has.
\<close>

theorem tools_run_in_bounds:
  assumes "(step g)\<^sup>*\<^sup>* (start s) c" and "Tools \<in> set (scheduled c)"
  shows "valid_ctx (ctx (config_state c)) \<and> \<not> moderation_blocked (config_state c) \<and>
    iterations (config_state c) < max 1 (max_iterations (g_limits g)) \<and>
    length (pending_calls (messages (config_state c))) \<le> MAX_TOOL_CALLS_PER_TURN \<and>
    set (map tc_name (pending_calls (messages (config_state c)))) \<subseteq> set (g_valid_tool_names g)"
  using reach_scheduled(1) [OF assms]
  by (auto simp: node_inv_def in_loop_def past_gate_def agent_budget_def batch_problem_None_iff)

theorem tools_run_in_bounds_witness:
  "iterations (config_state (Running [Tools] (sample_asked\<lparr>approved := True\<rparr>))) <
     max 1 (max_iterations (g_limits sample_graph)) \<and>
   length (pending_calls (messages (config_state (Running [Tools] (sample_asked\<lparr>approved := True\<rparr>))))) \<le> 5"
  using tools_run_in_bounds [of sample_graph sample_state "Running [Tools] (sample_asked\<lparr>approved := True\<rparr>)"]
    rtranclp.rtrancl_into_rtrancl [OF sample_reach sample_resume_step]
  by (simp add: budget_defs)


definition failing_io :: io where
  "failing_io = sample_io\<lparr>io_llm := \<lparr>invoke = (\<lambda>_ _. Inl TimeoutError), is_unreachable = (\<lambda>_. False),
     content_block = (\<lambda>_. None)\<rparr>\<rparr>"

lemma sample_agent_reach:
  "(step sample_graph)\<^sup>*\<^sup>* (start sample_state) (Running [Agent] (sample_valid\<lparr>context_anchor_index := Some 0\<rparr>))"
  using run_reach [OF sample_io_ok, of sample_graph "start sample_state" 3]
  by (simp add: eval_nat_numeral sample_step_validate sample_step_moderate sample_step_retrieve
      del: graph_step.simps(1))

lemma sample_agent_fails:
  "step sample_graph (Running [Agent] (sample_valid\<lparr>context_anchor_index := Some 0\<rparr>))
     (Failed TimeoutError (sample_valid\<lparr>context_anchor_index := Some 0\<rparr>))"
  unfolding step_iff
  by (intro conjI exI [of _ failing_io])
    (simp_all add: superstep_one run_node_def agent_def invoke_routed_def tier_alias_def failing_io_def
      tool_node_ok_def sample_defs fresh_state_def)


text \<open>
  The retry loop converges. If a run reaches the output check with a rejection reason left by
  the check before it, and the same reason is found again, the run gives up on retrying: the next
  node is \<open>retry_exhausted\<close>, so no reason is retried twice in a row.
\<close>

theorem same_reason_gives_up:
  assumes "(step g)\<^sup>*\<^sup>* (start s) (Running [CheckOutput] t)"
    and "check_output t (g_system_prompt g) (enforce_citations (g_profile g)) (g_skill_required_tools g) = Inr k"
    and "ck_reason k = Some r" and "last_retry_reason t = Some r"
  shows "\<exists>t'. graph_step g i (Running [CheckOutput] t) = Running [RetryExhausted] t' \<and>
    retry_reason_repeat_count t' = MAX_CONSECUTIVE_SAME_RETRY_REASON"
proof -
  have "node_inv g CheckOutput t" using reach_scheduled(1) [OF assms(1), of CheckOutput] by simp
  then have one: "retry_reason_repeat_count t = 1"
    using assms(4) by (simp add: node_inv_def in_loop_def repeat_ok_def)
  then have "ck_repeat k = 2" using check_output_repeat [OF assms(2)] assms(3,4) by simp
  then show ?thesis using assms(2,3)
    by (simp add: superstep_one run_node_def next_nodes_def route_after_check_bound_def
        route_after_check_def checked_upds_apply budget_defs)
qed

text \<open>A model that always answers nothing: two rounds of the loop.\<close>

definition quiet_io :: io where
  "quiet_io = sample_io\<lparr>io_llm := \<lparr>invoke = (\<lambda>_ _. Inr \<lparr>lc_response = AIMessage [], lc_total_tokens = 0,
     lc_cost_usd = 0\<rparr>), is_unreachable = (\<lambda>_. False), content_block = (\<lambda>_. None)\<rparr>\<rparr>"

definition unspent :: "state \<Rightarrow> bool" where
  "unspent t = (total_tokens t = 0 \<and> total_cost_usd t = 0 \<and> subagent_spend t = [] \<and> model_route t = None)"

lemma quiet_io_ok: "tool_node_ok quiet_io"
  by (simp add: quiet_io_def tool_node_ok_def sample_io_def)

lemma quiet_agent:
  assumes "unspent t" and "iterations t < 2"
  shows "\<exists>t'. step sample_graph (Running [Agent] t) (Running [CheckOutput] t') \<and> unspent t' \<and>
    messages t' = messages t @ [AIMessage []] \<and> iterations t' = Suc (iterations t) \<and>
    last_retry_reason t' = last_retry_reason t"
  unfolding step_iff using assms quiet_io_ok
  by (intro exI [of _ "t\<lparr>messages := messages t @ [AIMessage []], iterations := Suc (iterations t)\<rparr>"] conjI
      exI [of _ quiet_io])
    (simp_all add: superstep_one run_node_def agent_def invoke_routed_def tier_alias_def next_nodes_def
      should_continue_def gateway_refused_def effective_tokens_def effective_cost_usd_def unspent_def
      quiet_io_def sample_lib_def)

lemma checked_upds_unspent:
  "unspent (apply_upds am (checked_upds k) t) = unspent t"
  "iterations (apply_upds am (checked_upds k) t) = iterations t"
  by (simp_all add: checked_upds_def unspent_def split: option.splits)

lemma empty_check:
  assumes "messages t \<noteq> []" and "last (messages t) = AIMessage []"
  shows "\<exists>k. check_output t (g_system_prompt sample_graph) (enforce_citations (g_profile sample_graph))
    (g_skill_required_tools sample_graph) = Inr k \<and> ck_reason k = Some ''too_short''"
  using empty_answer_too_short [OF assms(1)] assms(2)
  by (simp add: SUBAGENT_PROFILE_def content_or_empty_def)

lemma quiet_check:
  assumes "unspent t" and "messages t \<noteq> []" and "last (messages t) = AIMessage []" and "last_retry_reason t = None"
  shows "\<exists>t'. step sample_graph (Running [CheckOutput] t) (Running [RetryOutput] t') \<and> unspent t' \<and>
    iterations t' = iterations t \<and> last_retry_reason t' = Some ''too_short''"
proof -
  obtain k where k: "check_output t (g_system_prompt sample_graph) (enforce_citations (g_profile sample_graph))
    (g_skill_required_tools sample_graph) = Inr k" "ck_reason k = Some ''too_short''"
    using empty_check [OF assms(2,3)] by blast
  then have "ck_repeat k = 1" using check_output_repeat [OF k(1)] assms(4) by simp
  with k have "graph_step sample_graph quiet_io (Running [CheckOutput] t) =
      Running [RetryOutput] (apply_upds (add_messages (g_lib sample_graph)) (checked_upds k) t)"
    by (simp add: superstep_one run_node_def next_nodes_def route_after_check_bound_def
        route_after_check_def checked_upds_apply budget_defs)
  then have "step sample_graph (Running [CheckOutput] t)
      (Running [RetryOutput] (apply_upds (add_messages (g_lib sample_graph)) (checked_upds k) t))"
    using quiet_io_ok by (metis step_iff terminal.simps(3))
  then show ?thesis using assms(1) k(2) by (metis checked_upds_unspent checked_upds_apply(1))
qed

lemma quiet_retry:
  assumes "unspent t" and "retry_output t = Inr us"
  shows "\<exists>t'. step sample_graph (Running [RetryOutput] t) (Running [Agent] t') \<and> unspent t' \<and>
    iterations t' = iterations t \<and> last_retry_reason t' = last_retry_reason t"
proof -
  obtain x where us: "us = [UMessages x]" using retry_output_shape [OF assms(2)] by blast
  have "graph_step sample_graph quiet_io (Running [RetryOutput] t) = Running [Agent] (t\<lparr>messages := messages t @ x\<rparr>)"
    using assms(2) us by (simp add: superstep_one run_node_def next_nodes_def sample_lib_def)
  then have "step sample_graph (Running [RetryOutput] t) (Running [Agent] (t\<lparr>messages := messages t @ x\<rparr>))"
    using quiet_io_ok by (metis step_iff terminal.simps(3))
  then show ?thesis using assms(1) by (intro exI [of _ "t\<lparr>messages := messages t @ x\<rparr>"]) (simp add: unspent_def)
qed

lemma sample_stuck:
  "\<exists>t. (step sample_graph)\<^sup>*\<^sup>* (start sample_state) (Running [CheckOutput] t) \<and>
     messages t \<noteq> [] \<and> last (messages t) = AIMessage [] \<and> last_retry_reason t = Some ''too_short''"
proof -
  let ?a = "sample_valid\<lparr>context_anchor_index := Some 0\<rparr>"
  have "unspent ?a" "iterations ?a = 0" "last_retry_reason ?a = None"
    by (simp_all add: unspent_def sample_defs fresh_state_def)
  then obtain b where b: "step sample_graph (Running [Agent] ?a) (Running [CheckOutput] b)" "unspent b"
    "messages b \<noteq> []" "last (messages b) = AIMessage []" "iterations b = 1" "last_retry_reason b = None"
    using quiet_agent [of ?a] by auto
  then obtain c where c: "step sample_graph (Running [CheckOutput] b) (Running [RetryOutput] c)" "unspent c"
    "iterations c = 1" "last_retry_reason c = Some ''too_short''" using quiet_check [of b] by auto
  have rb: "(step sample_graph)\<^sup>*\<^sup>* (start sample_state) (Running [RetryOutput] c)"
    using sample_agent_reach b(1) c(1) by (meson rtranclp.rtrancl_into_rtrancl)
  from reach_scheduled(1) [OF this, of RetryOutput] obtain us where "retry_output c = Inr us"
    by (auto simp: node_inv_def)
  then obtain d where d: "step sample_graph (Running [RetryOutput] c) (Running [Agent] d)" "unspent d"
    "iterations d = 1" "last_retry_reason d = Some ''too_short''" using quiet_retry [of c us] c by auto
  then obtain e where e: "step sample_graph (Running [Agent] d) (Running [CheckOutput] e)"
    "messages e \<noteq> []" "last (messages e) = AIMessage []" "last_retry_reason e = Some ''too_short''"
    using quiet_agent [of d] by auto
  have "(step sample_graph)\<^sup>*\<^sup>* (start sample_state) (Running [CheckOutput] e)"
    using rb d(1) e(1) by (meson rtranclp.rtrancl_into_rtrancl)
  with e show ?thesis by blast
qed

theorem same_reason_gives_up_witness:
  "\<exists>t t'. last_retry_reason t = Some ''too_short'' \<and>
     graph_step sample_graph quiet_io (Running [CheckOutput] t) = Running [RetryExhausted] t' \<and>
     retry_reason_repeat_count t' = MAX_CONSECUTIVE_SAME_RETRY_REASON"
proof -
  obtain t where t: "(step sample_graph)\<^sup>*\<^sup>* (start sample_state) (Running [CheckOutput] t)" "messages t \<noteq> []"
    "last (messages t) = AIMessage []" "last_retry_reason t = Some ''too_short''" using sample_stuck by blast
  obtain k where "check_output t (g_system_prompt sample_graph) (enforce_citations (g_profile sample_graph))
    (g_skill_required_tools sample_graph) = Inr k" "ck_reason k = Some ''too_short''"
    using empty_check [OF t(2,3)] by blast
  from same_reason_gives_up [OF t(1) this t(4), of quiet_io] t(4) show ?thesis by blast
qed

text \<open>
  The count restarts whenever the reason changes: a check that finds another reason than the
  one recorded always sends the run back to the model, so two reasons that alternate are retried
  until another budget stops the turn.
\<close>

theorem other_reason_restarts:
  assumes "check_output t (g_system_prompt g) (enforce_citations (g_profile g)) (g_skill_required_tools g) = Inr k"
    and "ck_reason k = Some r" and "last_retry_reason t \<noteq> Some r"
  shows "\<exists>t'. graph_step g i (Running [CheckOutput] t) = Running [RetryOutput] t' \<and>
    retry_reason_repeat_count t' = 1"
proof -
  have "ck_repeat k = 1" using check_output_repeat [OF assms(1)] assms(2,3) by auto
  then show ?thesis using assms(1,2)
    by (simp add: superstep_one run_node_def next_nodes_def route_after_check_bound_def
        route_after_check_def checked_upds_apply budget_defs)
qed

theorem other_reason_restarts_witness:
  "\<exists>t'. graph_step sample_graph quiet_io
       (Running [CheckOutput] (fresh_state\<lparr>messages := [AIMessage []], last_retry_reason := Some ''uncited''\<rparr>)) =
     Running [RetryOutput] t' \<and> retry_reason_repeat_count t' = 1"
proof -
  let ?t = "fresh_state\<lparr>messages := [AIMessage []], last_retry_reason := Some ''uncited''\<rparr>"
  obtain k where "check_output ?t (g_system_prompt sample_graph) (enforce_citations (g_profile sample_graph))
    (g_skill_required_tools sample_graph) = Inr k" "ck_reason k = Some ''too_short''"
    using empty_check [of ?t] by auto
  then show ?thesis by (rule other_reason_restarts) simp
qed

text \<open>
  A delegated run stays inside its profile: no run of a graph built by \<open>build_subagent_graph\<close>
  reads or writes the parent conversation's cache, compacts a history, suggests follow-ups or asks
  the router, and every node any run schedules is one the graph registered.
\<close>

theorem subagent_stays_in_profile:
  assumes "g = build_subagent_graph lib router alias cost m d it tok c emit"
    and "(step g)\<^sup>*\<^sup>* (start s) x"
  shows "set (scheduled x) \<inter> {CheckSemanticCache, WriteSemanticCache, CompactHistory,
      ContextWindowExceeded, SuggestFollowups, RouteModel} = {} \<and>
    set (scheduled x) \<subseteq> set (registered (g_profile g))"
proof -
  have "g_profile g = SUBAGENT_PROFILE"
    by (simp add: assms(1) build_subagent_graph_def build_graph_def Let_def)
  then show ?thesis using reach_scheduled(2) [OF assms(2)]
    by (auto simp: registered_def SUBAGENT_PROFILE_def)
qed

theorem subagent_stays_in_profile_witness:
  "set (scheduled (Paused sample_asked)) \<inter> {CheckSemanticCache, WriteSemanticCache, CompactHistory,
      ContextWindowExceeded, SuggestFollowups, RouteModel} = {} \<and>
    set (scheduled (Paused sample_asked)) \<subseteq> set (registered (g_profile sample_graph))"
  by (rule subagent_stays_in_profile [OF sample_graph_def sample_reach])

text \<open>
  What a decision does to a paused run. A cancellation ends the turn with every pending call
  answered; an approval runs exactly the pending calls, with the messages untouched; any other
  decision answers every pending call and goes back to the model. In each case no call is left
  both unanswered and unscheduled.
\<close>

theorem decision_outcomes:
  assumes "\<not> cancelled s"
  shows "graph_step g (i\<lparr>io_decision := d\<rparr>) (Paused s) =
    (if d = DStr CANCEL_SENTINEL then
       Finished (s\<lparr>messages := add_messages (g_lib g) (messages s)
           (reject_tool_calls (pending_calls (messages s))
             (''Cancelled by request '' @ em_dash @ '' this action will not run.'')),
         approved := False, cancelled := True\<rparr>)
     else if truthy d then Running [Tools] (s\<lparr>approved := True\<rparr>)
     else Running [Agent] (s\<lparr>messages := add_messages (g_lib g) (messages s)
         (reject_tool_calls (pending_calls (messages s)) ''Rejected by human reviewer.''),
         approved := False\<rparr>))"
  using assms by (simp add: superstep_one run_node_def human_approval_def next_nodes_def
      route_after_approval_def Let_def)

theorem decision_outcomes_witness:
  "graph_step sample_graph (sample_io\<lparr>io_decision := DBool True\<rparr>) (Paused sample_asked) =
   Running [Tools] (sample_asked\<lparr>approved := True\<rparr>)"
  using decision_outcomes [where s = sample_asked and g = sample_graph and i = sample_io and d = "DBool True"]
  by (simp add: sample_defs fresh_state_def del: graph_step.simps)

end
